(* ===== verification/Py_Prelude.thy ===== *)
theory Py_Prelude
  imports Main "HOL-Library.AList" "HOL-Library.Char_ord" "HOL-Library.List_Lexorder"
    "HOL-Library.Product_Lexorder"
begin

text \<open>
  Shared ground of the development: the parts of the Python language and of its
  standard library that the modelled modules use.

  \<^item> Text. A Python \<open>str\<close> is a \<^typ>\<open>string\<close>, one \<^typ>\<open>char\<close> per code point, so the
    model covers text over the code points U+0000 to U+00FF; \<open>lower\<close>, \<open>strip\<close> and
    \<open>repr\<close> follow Python on that whole range.
  \<^item> JSON documents (what \<open>json.load\<close> returns) without floating-point numbers, with
    Python's truth value, \<open>str\<close> and \<open>int\<close> conversions on them.
  \<^item> Exceptions as the left side of a sum; \<open>ebind\<close> sequences fallible calls.
  \<^item> UTC calendar time (\<open>time.gmtime\<close> with the two formats the daemons print).

  The collection \<open>py_simps\<close> gathers the unfolding facts that component proofs pass to
  the simplifier.
\<close>

named_theorems py_simps

section \<open>Errors as values\<close>

datatype py_error =
    ValueError string
  | LookupError string
  | TypeError string
  | RuntimeError string

type_synonym 'a result = "py_error + 'a"

definition ebind :: "'e + 'a \<Rightarrow> ('a \<Rightarrow> 'e + 'b) \<Rightarrow> 'e + 'b" where
  "ebind r k = (case r of Inl e \<Rightarrow> Inl e | Inr x \<Rightarrow> k x)"

lemma ebind_simps [simp]:
  "ebind (Inl e) k = Inl e"
  "ebind (Inr x) k = k x"
  by (simp_all add: ebind_def)

lemma ebind_Inr_iff: "ebind r k = Inr y \<longleftrightarrow> (\<exists>x. r = Inr x \<and> k x = Inr y)"
  by (cases r) simp_all

lemma ebind_InrE [elim!]:
  assumes "ebind r k = Inr y"
  obtains x where "r = Inr x" "k x = Inr y"
  using assms by (auto simp: ebind_Inr_iff)

primrec emap :: "('a \<Rightarrow> 'e + 'b) \<Rightarrow> 'a list \<Rightarrow> 'e + 'b list" where
  "emap f [] = Inr []"
| "emap f (x # xs) = ebind (f x) (\<lambda>y. ebind (emap f xs) (\<lambda>ys. Inr (y # ys)))"

lemma emap_Inr_iff:
  "emap f xs = Inr ys \<longleftrightarrow> list_all2 (\<lambda>x y. f x = Inr y) xs ys"
proof (induction xs arbitrary: ys)
  case Nil
  then show ?case by auto
next
  case (Cons x xs)
  then show ?case by (cases ys) (auto simp: ebind_Inr_iff)
qed

section \<open>Fallible checks\<close>

text \<open>\<open>if not c: raise ValueError(msg)\<close>, and a \<open>for\<close> loop over \<open>enumerate\<close> that only raises.\<close>

definition require :: "bool \<Rightarrow> string \<Rightarrow> unit result" where
  "require c msg = (if c then Inr () else Inl (ValueError msg))"

definition andthen :: "unit result \<Rightarrow> 'a result \<Rightarrow> 'a result" where
  "andthen a b = ebind a (\<lambda>_. b)"

primrec each_from :: "(nat \<Rightarrow> 'a \<Rightarrow> unit result) \<Rightarrow> nat \<Rightarrow> 'a list \<Rightarrow> unit result" where
  "each_from f i [] = Inr ()"
| "each_from f i (x # xs) = andthen (f i x) (each_from f (i + 1) xs)"

definition each :: "(nat \<Rightarrow> 'a \<Rightarrow> unit result) \<Rightarrow> 'a list \<Rightarrow> unit result" where
  "each f xs = each_from f 0 xs"

primrec checks :: "unit result list \<Rightarrow> unit result" where
  "checks [] = Inr ()"
| "checks (c # cs) = andthen c (checks cs)"

definition ignore :: "'a result \<Rightarrow> unit result" where
  "ignore r = ebind r (\<lambda>_. Inr ())"

lemma require_Inr [simp]: "require c msg = Inr u \<longleftrightarrow> c"
  by (simp add: require_def)

lemma andthen_Inr [simp]: "andthen a b = Inr x \<longleftrightarrow> a = Inr () \<and> b = Inr x"
  by (auto simp: andthen_def ebind_Inr_iff)

lemma ignore_Inr [simp]: "ignore r = Inr u \<longleftrightarrow> (\<exists>x. r = Inr x)"
  by (auto simp: ignore_def ebind_Inr_iff)

lemma checks_Inr [simp]: "checks cs = Inr u \<longleftrightarrow> (\<forall>c \<in> set cs. c = Inr ())"
  by (induction cs) auto

lemma each_from_Inr:
  "each_from f i xs = Inr u \<longleftrightarrow> (\<forall>k < length xs. f (i + k) (xs ! k) = Inr ())"
proof (induction xs arbitrary: i)
  case (Cons x xs)
  have "(\<forall>k < length (x # xs). f (i + k) ((x # xs) ! k) = Inr ()) \<longleftrightarrow>
        f i x = Inr () \<and> (\<forall>k < length xs. f (i + 1 + k) (xs ! k) = Inr ())"
    by (simp add: less_Suc_eq_0_disj) (metis Suc_less_eq add_0_right add_Suc_right
        add_Suc nth_Cons_0 nth_Cons_Suc not0_implies_Suc zero_less_Suc)
  with Cons show ?case by simp
qed simp

lemma each_Inr: "each f xs = Inr u \<longleftrightarrow> (\<forall>k < length xs. f k (xs ! k) = Inr ())"
  by (simp add: each_def each_from_Inr)

section \<open>Text\<close>

abbreviation ord :: "char \<Rightarrow> nat" where
  "ord c \<equiv> of_char c"

definition chr :: "nat \<Rightarrow> char" where
  "chr n = char_of n"

definition py_isspace :: "char \<Rightarrow> bool" where
  "py_isspace c = (let n = ord c in
     (9 \<le> n \<and> n \<le> 13) \<or> (28 \<le> n \<and> n \<le> 32) \<or> n = 133 \<or> n = 160)"

definition py_lower_char :: "char \<Rightarrow> char" where
  "py_lower_char c = (let n = ord c in
     if (65 \<le> n \<and> n \<le> 90) \<or> (192 \<le> n \<and> n \<le> 222 \<and> n \<noteq> 215) then char_of (n + 32) else c)"

definition py_lower :: "string \<Rightarrow> string" where
  "py_lower s = map py_lower_char s"

definition py_lstrip :: "string \<Rightarrow> string" where
  "py_lstrip s = dropWhile py_isspace s"

definition py_rstrip :: "string \<Rightarrow> string" where
  "py_rstrip s = rev (dropWhile py_isspace (rev s))"

definition py_strip :: "string \<Rightarrow> string" where
  "py_strip s = py_rstrip (py_lstrip s)"

definition is_digit :: "char \<Rightarrow> bool" where
  "is_digit c = (48 \<le> ord c \<and> ord c \<le> 57)"

definition is_alpha_ascii :: "char \<Rightarrow> bool" where
  "is_alpha_ascii c = ((65 \<le> ord c \<and> ord c \<le> 90) \<or> (97 \<le> ord c \<and> ord c \<le> 122))"

definition is_alnum_ascii :: "char \<Rightarrow> bool" where
  "is_alnum_ascii c = (is_digit c \<or> is_alpha_ascii c)"

definition py_startswith :: "string \<Rightarrow> string \<Rightarrow> bool" where
  "py_startswith s p = (take (length p) s = p)"

definition py_endswith :: "string \<Rightarrow> string \<Rightarrow> bool" where
  "py_endswith s p = (length p \<le> length s \<and> drop (length s - length p) s = p)"

text \<open>\<open>s.split(sep)\<close> for a one-character separator: always at least one part.\<close>

fun py_split :: "char \<Rightarrow> string \<Rightarrow> string list" where
  "py_split sep [] = [[]]"
| "py_split sep (c # s) =
     (if c = sep then [] # py_split sep s
      else (case py_split sep s of [] \<Rightarrow> [[c]] | p # ps \<Rightarrow> (c # p) # ps))"

text \<open>\<open>text.split()\<close>: the words between runs of white space.\<close>

fun py_words_from :: "string \<Rightarrow> string \<Rightarrow> string list" where
  "py_words_from w [] = (if w = [] then [] else [rev w])"
| "py_words_from w (c # s) =
     (if py_isspace c then (if w = [] then py_words_from [] s else rev w # py_words_from [] s)
      else py_words_from (c # w) s)"

definition py_words :: "string \<Rightarrow> string list" where
  "py_words s = py_words_from [] s"

text \<open>\<open>str.splitlines\<close>\<close>

definition line_break :: "char \<Rightarrow> bool" where
  "line_break c = (ord c \<in> {10, 11, 12, 13, 28, 29, 30, 133})"

fun py_splitlines :: "string \<Rightarrow> string list" where
  "py_splitlines [] = []"
| "py_splitlines [c] = (if line_break c then [[]] else [[c]])"
| "py_splitlines (c # d # s) =
     (if c = CHR 0x0D \<and> d = CHR 0x0A then [] # py_splitlines s
      else if line_break c then [] # py_splitlines (d # s)
      else (case py_splitlines (d # s) of [] \<Rightarrow> [[c]] | l # ls \<Rightarrow> (c # l) # ls))"

fun py_join :: "string \<Rightarrow> string list \<Rightarrow> string" where
  "py_join sep [] = []"
| "py_join sep [s] = s"
| "py_join sep (s # t # ts) = s @ sep @ py_join sep (t # ts)"

text \<open>\<open>sub in s\<close>\<close>

fun py_contains :: "string \<Rightarrow> string \<Rightarrow> bool" where
  "py_contains sub [] = (sub = [])"
| "py_contains sub (c # s) = (py_startswith (c # s) sub \<or> py_contains sub s)"

lemma py_split_nonempty [simp]: "py_split sep s \<noteq> []"
  by (induction sep s rule: py_split.induct) (auto split: list.splits)

lemma py_join_split: "py_join [sep] (py_split sep s) = s"
proof (induction sep s rule: py_split.induct)
  case (1 sep)
  then show ?case by simp
next
  case (2 sep c s)
  show ?case
  proof (cases "py_split sep s")
    case Nil
    then show ?thesis by simp
  next
    case (Cons p ps)
    then show ?thesis using 2 by (cases ps) (auto)
  qed
qed

lemma py_split_no_sep: "sep \<notin> set s \<Longrightarrow> py_split sep s = [s]"
  by (induction s) auto

lemma py_split_append:
  "sep \<notin> set s \<Longrightarrow> py_split sep (s @ sep # t) = s # py_split sep t"
  by (induction s) (auto split: list.splits)

lemma set_py_split: "a \<in> set (py_split sep s) \<Longrightarrow> set a \<subseteq> set s"
  by (induction sep s arbitrary: a rule: py_split.induct) (fastforce split: if_splits list.splits)+

lemma dropWhile_idem_hd: "s = [] \<or> \<not> P (hd s) \<Longrightarrow> dropWhile P s = s"
  by (cases s) auto

lemma hd_dropWhile_not: "dropWhile P s = [] \<or> \<not> P (hd (dropWhile P s))"
  by (meson hd_dropWhile)

text \<open>A string \<open>strip\<close> leaves alone: no white space at either end.\<close>

definition stripped :: "string \<Rightarrow> bool" where
  "stripped s = (s = [] \<or> (\<not> py_isspace (hd s) \<and> \<not> py_isspace (last s)))"

lemma py_strip_stripped [simp]: "stripped s \<Longrightarrow> py_strip s = s"
  unfolding stripped_def py_strip_def py_rstrip_def py_lstrip_def
  by (metis dropWhile_idem_hd hd_rev rev_is_Nil_conv rev_rev_ident)

lemma hd_rev_dropWhile_rev:
  assumes "rev (dropWhile P (rev s)) \<noteq> []"
  shows "hd (rev (dropWhile P (rev s))) = hd s"
proof -
  obtain t where t: "s = rev (dropWhile P (rev s)) @ t"
    by (metis rev_append rev_rev_ident takeWhile_dropWhile_id)
  then show ?thesis using assms by (metis hd_append2)
qed

lemma stripped_py_strip [simp]: "stripped (py_strip s)"
proof (cases "py_strip s = []")
  case True
  then show ?thesis by (simp add: stripped_def)
next
  case False
  let ?l = "py_lstrip s"
  have l: "?l \<noteq> []" using False by (auto simp: py_strip_def py_rstrip_def)
  have h: "hd (py_strip s) = hd ?l"
    using False hd_rev_dropWhile_rev [of py_isspace ?l] by (simp add: py_strip_def py_rstrip_def)
  have "\<not> py_isspace (hd ?l)"
    using l hd_dropWhile [of py_isspace s] unfolding py_lstrip_def by blast
  moreover have "\<not> py_isspace (last (py_strip s))"
    using False hd_dropWhile_not [of py_isspace "rev ?l"]
    by (auto simp: py_strip_def py_rstrip_def last_rev)
  ultimately show ?thesis using h by (simp add: stripped_def)
qed

lemma py_strip_Nil [simp]: "py_strip [] = []"
  by (simp add: py_strip_def py_lstrip_def py_rstrip_def)

lemma py_strip_idem [simp]: "py_strip (py_strip s) = py_strip s"
  by simp

lemma set_py_strip: "set (py_strip s) \<subseteq> set s"
  unfolding py_strip_def py_rstrip_def py_lstrip_def
  by (metis set_dropWhileD set_rev subsetI)

lemma py_lower_char_idem [simp]: "py_lower_char (py_lower_char c) = py_lower_char c"
proof -
  have "of_char c < (256::nat)" by simp
  then show ?thesis by (auto simp: py_lower_char_def Let_def)
qed

lemma py_lower_idem [simp]: "py_lower (py_lower s) = py_lower s"
  by (simp add: py_lower_def)

lemma length_py_lower [simp]: "length (py_lower s) = length s"
  by (simp add: py_lower_def)

section \<open>Decimal numbers\<close>

fun nat_to_str :: "nat \<Rightarrow> string" where
  "nat_to_str n = (if n < 10 then [char_of (48 + n)]
     else nat_to_str (n div 10) @ [char_of (48 + n mod 10)])"

declare nat_to_str.simps [simp del]

definition int_to_str :: "int \<Rightarrow> string" where
  "int_to_str i = (if i < 0 then ''-'' @ nat_to_str (nat (- i)) else nat_to_str (nat i))"

definition digit_val :: "char \<Rightarrow> nat" where
  "digit_val c = ord c - 48"

definition digits_val :: "string \<Rightarrow> nat" where
  "digits_val s = foldl (\<lambda>n c. 10 * n + digit_val c) 0 s"

text \<open>
  \<open>int(text)\<close>: surrounding white space, one sign, digits with single underscores between
  them, and Python's limit of 4300 digits.
\<close>

fun underscores_ok :: "string \<Rightarrow> bool" where
  "underscores_ok [] = False"
| "underscores_ok [c] = is_digit c"
| "underscores_ok (c # d # s) =
     (if c = CHR ''_'' then False
      else is_digit c \<and> (if d = CHR ''_'' then underscores_ok s else underscores_ok (d # s)))"

definition py_int_of_str :: "string \<Rightarrow> int option" where
  "py_int_of_str t =
     (let s = py_strip t;
          (neg, body) = (case s of [] \<Rightarrow> (False, [])
             | c # r \<Rightarrow> if c = CHR ''-'' then (True, r) else if c = CHR ''+'' then (False, r) else (False, s));
          ds = filter is_digit body
      in if underscores_ok body \<and> length ds \<le> 4300
         then Some (if neg then - int (digits_val ds) else int (digits_val ds)) else None)"

lemma ord_digit [simp]: "n < 10 \<Longrightarrow> of_char (char_of (48 + n :: nat) :: char) = 48 + n"
  by (simp add: of_char_mod_256)

lemma nat_to_str_nonempty [simp]: "nat_to_str n \<noteq> []"
  by (subst nat_to_str.simps) simp

lemma is_digit_nat_to_str: "c \<in> set (nat_to_str n) \<Longrightarrow> is_digit c"
proof (induction n rule: nat_to_str.induct)
  case (1 n)
  have "n mod 10 < 10" by simp
  with 1 show ?case
    by (subst (asm) (2) nat_to_str.simps)
       (auto simp: is_digit_def split: if_splits)
qed

lemma digits_val_snoc [simp]: "digits_val (s @ [c]) = 10 * digits_val s + digit_val c"
  by (simp add: digits_val_def)

lemma digits_val_nat_to_str: "digits_val (nat_to_str n) = n"
proof (induction n rule: nat_to_str.induct)
  case (1 n)
  show ?case
  proof (cases "n < 10")
    case True
    then show ?thesis
      by (subst nat_to_str.simps) (simp add: digits_val_def digit_val_def)
  next
    case False
    have "n mod 10 < 10" by simp
    with False 1 show ?thesis
      by (subst nat_to_str.simps) (simp add: digit_val_def)
  qed
qed

lemma nat_to_str_inj: "nat_to_str m = nat_to_str n \<Longrightarrow> m = n"
  by (metis digits_val_nat_to_str)

lemma digit_not_space: "is_digit c \<Longrightarrow> \<not> py_isspace c"
  by (auto simp: is_digit_def py_isspace_def Let_def)

lemma digit_not_special: "is_digit c \<Longrightarrow> c \<noteq> CHR ''_'' \<and> c \<noteq> CHR ''-'' \<and> c \<noteq> CHR ''+'' \<and> c \<noteq> CHR '':''"
  by (auto simp: is_digit_def)

lemma stripped_digits: "(\<And>c. c \<in> set s \<Longrightarrow> is_digit c) \<Longrightarrow> stripped s"
  by (cases "s = []") (auto simp: stripped_def digit_not_space)

lemma underscores_ok_digits: "s \<noteq> [] \<Longrightarrow> (\<And>c. c \<in> set s \<Longrightarrow> is_digit c) \<Longrightarrow> underscores_ok s"
  by (induction s rule: underscores_ok.induct) (auto dest: digit_not_special)

lemma length_nat_to_str_bound: "n < 10 ^ k \<Longrightarrow> 0 < k \<Longrightarrow> length (nat_to_str n) \<le> k"
proof (induction n arbitrary: k rule: nat_to_str.induct)
  case (1 n)
  show ?case
  proof (cases "n < 10")
    case True
    then show ?thesis using 1 by (subst nat_to_str.simps) simp
  next
    case False
    obtain j where j: "k = Suc j" using \<open>0 < k\<close> by (cases k) auto
    have "n div 10 < 10 ^ j" using \<open>n < 10 ^ k\<close> j by (simp add: less_mult_imp_div_less mult.commute)
    moreover have "0 < j" using False \<open>n < 10 ^ k\<close> j by (cases j) auto
    ultimately have "length (nat_to_str (n div 10)) \<le> j" using 1 False by blast
    then show ?thesis using False j by (subst nat_to_str.simps) simp
  qed
qed

lemma py_int_of_nat_to_str:
  assumes "length (nat_to_str n) \<le> 4300"
  shows "py_int_of_str (nat_to_str n) = Some (int n)"
proof -
  let ?s = "nat_to_str n"
  have d: "\<And>c. c \<in> set ?s \<Longrightarrow> is_digit c" by (rule is_digit_nat_to_str)
  obtain c r where cr: "?s = c # r" by (cases ?s) auto
  have c: "c \<noteq> CHR ''-'' \<and> c \<noteq> CHR ''+''" using d [of c] cr digit_not_special [of c] by auto
  note assms
  moreover have "filter is_digit ?s = ?s" using d by (simp add: filter_id_conv)
  moreover have "underscores_ok ?s" using d by (intro underscores_ok_digits) auto
  moreover have "py_strip ?s = ?s" using d by (intro py_strip_stripped stripped_digits)
  ultimately show ?thesis
    using c digits_val_nat_to_str [of n] by (simp add: py_int_of_str_def cr)
qed

end
