(* ===== verification/Py_Json.thy ===== *)
theory Py_Json
  imports Py_Prelude
begin

text \<open>
  JSON documents as Python sees them after \<open>json.load\<close>, with the conversions the daemons
  apply to request bodies and settings files: truth value, \<open>str\<close>, \<open>repr\<close>, \<open>int\<close> and
  \<open>dict.get\<close>; the helper \<open>_clamp_int\<close> that alertd and guardd both define; and the UTC
  time stamps they print.
\<close>

section \<open>Documents\<close>

datatype json =
    JNull
  | JBool bool
  | JInt int
  | JStr string
  | JList "json list"
  | JObj "(string \<times> json) list"

type_synonym jobj = "(string \<times> json) list"

text \<open>\<open>d.get(key)\<close> and \<open>d.get(key, default)\<close>; a missing key without default is \<open>None\<close>.\<close>

definition jget_or :: "string \<Rightarrow> json \<Rightarrow> jobj \<Rightarrow> json" where
  "jget_or k d m = (case map_of m k of None \<Rightarrow> d | Some v \<Rightarrow> v)"

definition jget :: "string \<Rightarrow> jobj \<Rightarrow> json" where
  "jget k m = jget_or k JNull m"

text \<open>\<open>d[key] = v\<close>: an existing key keeps its place, a new one goes to the end.\<close>

abbreviation jput :: "'k \<Rightarrow> 'v \<Rightarrow> ('k \<times> 'v) list \<Rightarrow> ('k \<times> 'v) list" where
  "jput \<equiv> AList.update"

lemma map_of_jput [simp]: "map_of (jput k v m) = (map_of m)(k \<mapsto> v)"
  by (simp add: update_conv')

lemma jget_or_simps [simp]:
  "jget_or k d [] = d"
  "jget_or k d ((k', v) # m) = (if k = k' then v else jget_or k d m)"
  by (simp_all add: jget_or_def)

lemma jget_simps [simp]:
  "jget k [] = JNull"
  "jget k ((k', v) # m) = (if k = k' then v else jget k m)"
  by (simp_all add: jget_def)

lemma jget_or_jput [simp]: "jget_or k d (jput k' v m) = (if k = k' then v else jget_or k d m)"
  by (simp add: jget_or_def)

lemma jget_jput [simp]: "jget k (jput k' v m) = (if k = k' then v else jget k m)"
  by (simp add: jget_def)

text \<open>Python's truth value.\<close>

fun truthy :: "json \<Rightarrow> bool" where
  "truthy JNull = False"
| "truthy (JBool b) = b"
| "truthy (JInt i) = (i \<noteq> 0)"
| "truthy (JStr s) = (s \<noteq> [])"
| "truthy (JList xs) = (xs \<noteq> [])"
| "truthy (JObj m) = (m \<noteq> [])"

text \<open>\<open>isinstance(x, bool)\<close>\<close>

fun is_bool :: "json \<Rightarrow> bool" where
  "is_bool (JBool b) = True"
| "is_bool _ = False"

text \<open>\<open>a or b\<close>\<close>

definition jor :: "json \<Rightarrow> json \<Rightarrow> json" where
  "jor a b = (if truthy a then a else b)"

section \<open>repr and str\<close>

definition hex_digit :: "nat \<Rightarrow> char" where
  "hex_digit n = char_of (if n < 10 then 48 + n else 87 + n)"

definition repr_char :: "char \<Rightarrow> char \<Rightarrow> string" where
  "repr_char q c = (let n = ord c in
     if c = q \<or> c = CHR 0x5C then [CHR 0x5C, c]
     else if n = 9 then [CHR 0x5C, CHR ''t'']
     else if n = 10 then [CHR 0x5C, CHR ''n'']
     else if n = 13 then [CHR 0x5C, CHR ''r'']
     else if n < 32 \<or> (127 \<le> n \<and> n \<le> 160) \<or> n = 173
       then [CHR 0x5C, CHR ''x'', hex_digit (n div 16), hex_digit (n mod 16)]
     else [c])"

definition repr_str :: "string \<Rightarrow> string" where
  "repr_str s = (let q = (if CHR 0x27 \<in> set s \<and> CHR 0x22 \<notin> set s then CHR 0x22 else CHR 0x27)
     in [q] @ concat (map (repr_char q) s) @ [q])"

fun py_repr :: "json \<Rightarrow> string" where
  "py_repr JNull = ''None''"
| "py_repr (JBool b) = (if b then ''True'' else ''False'')"
| "py_repr (JInt i) = int_to_str i"
| "py_repr (JStr s) = repr_str s"
| "py_repr (JList xs) = ''['' @ py_join '', '' (map py_repr xs) @ '']''"
| "py_repr (JObj m) = ''{'' @ py_join '', '' (map (\<lambda>(k, v). repr_str k @ '': '' @ py_repr v) m) @ ''}''"

definition py_str :: "json \<Rightarrow> string" where
  "py_str j = (case j of JStr s \<Rightarrow> s | _ \<Rightarrow> py_repr j)"

lemma py_str_JStr [simp]: "py_str (JStr s) = s"
  by (simp add: py_str_def)

text \<open>The idioms \<open>str(x or "")\<close> and \<open>str(x or default)\<close>.\<close>

definition str_or :: "json \<Rightarrow> string \<Rightarrow> string" where
  "str_or j d = py_str (jor j (JStr d))"

lemma str_or_simps [simp]:
  "str_or JNull d = d"
  "str_or (JStr s) d = (if s = [] then d else s)"
  by (simp_all add: str_or_def jor_def)

section \<open>int and clamping\<close>

text \<open>\<open>int(value)\<close>; \<open>None\<close> where Python raises \<open>TypeError\<close> or \<open>ValueError\<close>.\<close>

fun py_int :: "json \<Rightarrow> int option" where
  "py_int JNull = None"
| "py_int (JBool b) = Some (if b then 1 else 0)"
| "py_int (JInt i) = Some i"
| "py_int (JStr s) = py_int_of_str s"
| "py_int (JList _) = None"
| "py_int (JObj _) = None"

definition clamp_int :: "json \<Rightarrow> int \<Rightarrow> int \<Rightarrow> int \<Rightarrow> int" where
  "clamp_int v dflt min_v max_v =
     (case py_int v of None \<Rightarrow> dflt | Some n \<Rightarrow> max min_v (min max_v n))"

lemma clamp_int_JInt [simp]: "clamp_int (JInt i) d lo hi = max lo (min hi i)"
  by (simp add: clamp_int_def)

lemma clamp_int_bounds:
  assumes "lo \<le> hi" "lo \<le> d" "d \<le> hi"
  shows "lo \<le> clamp_int v d lo hi" "clamp_int v d lo hi \<le> hi"
  using assms by (auto simp: clamp_int_def split: option.splits)

section \<open>UTC time stamps\<close>

text \<open>The civil date of a day number counted from 1970-01-01, as \<open>time.gmtime\<close> computes it.\<close>

definition civil_from_days :: "int \<Rightarrow> int \<times> int \<times> int" where
  "civil_from_days days =
     (let z = days + 719468; era = z div 146097; doe = z mod 146097;
          yoe = (doe - doe div 1460 + doe div 36524 - doe div 146096) div 365;
          doy = doe - (365 * yoe + yoe div 4 - yoe div 100);
          mp = (5 * doy + 2) div 153;
          d = doy - (153 * mp + 2) div 5 + 1;
          m = (if mp < 10 then mp + 3 else mp - 9)
      in (yoe + era * 400 + (if m \<le> 2 then 1 else 0), m, d))"

definition pad2 :: "int \<Rightarrow> string" where
  "pad2 i = (if i < 10 then ''0'' else []) @ int_to_str i"

definition utc_date :: "int \<Rightarrow> string" where
  "utc_date t = (case civil_from_days (t div 86400) of (y, m, d) \<Rightarrow>
     int_to_str y @ ''-'' @ pad2 m @ ''-'' @ pad2 d)"

definition utc_minute :: "int \<Rightarrow> string" where
  "utc_minute t = pad2 (t mod 86400 div 3600) @ '':'' @ pad2 (t mod 3600 div 60)"

text \<open>\<open>time.strftime("%Y-%m-%d %H:%M:%S UTC", time.gmtime(t))\<close>\<close>

definition utc_stamp :: "int \<Rightarrow> string" where
  "utc_stamp t = utc_date t @ '' '' @ utc_minute t @ '':'' @ pad2 (t mod 60) @ '' UTC''"

end
