(* ===== verification/Alert_Config.thy ===== *)
theory Alert_Config
  imports Py_Json
begin

text \<open>
  The rule catalogue and the operator's settings of the alert daemon
  (\<open>easy-ha-proxy-alertd.py\<close>): \<open>Rule\<close>, \<open>RuleSettings\<close>, \<open>AlertConfig\<close>, \<open>load_config\<close>,
  \<open>as_dict\<close>, \<open>load_config_from_dict\<close> and \<open>AlertEngine.update_config\<close>.

  A settings file is the value \<open>config_file\<close>; \<open>save_config\<close> writes the document
  \<open>as_dict\<close> and reading it back gives the same document, so the temporary file of
  \<open>load_config_from_dict\<close> is the identity. Resolving a webhook host needs the network and
  is the argument \<open>resolve\<close> of \<open>update_config\<close>.

  Shown: every document gives settings inside their bounds (\<open>load_config_ok\<close>), writing
  the settings out and reading them back keeps them, and a refused or accepted update.
\<close>

section \<open>The rule catalogue\<close>

datatype rule_kind = KIND_LEVEL | KIND_EVENT

record rule =
  r_name :: string
  r_kind :: rule_kind
  r_severity :: string
  r_title :: string
  r_trigger_delay :: int
  r_repeat_after :: int
  r_auto_clear :: int
  r_stale_after :: int
  r_enabled :: bool

definition SEVERITIES :: "string list" where
  "SEVERITIES = [''info'', ''warning'', ''critical'']"

text \<open>\<open>Rule(name, kind, severity, title)\<close> with the class defaults for the rest.\<close>

definition Rule :: "string \<Rightarrow> rule_kind \<Rightarrow> string \<Rightarrow> string \<Rightarrow> rule" where
  "Rule n k s t = \<lparr>r_name = n, r_kind = k, r_severity = s, r_title = t, r_trigger_delay = 0,
     r_repeat_after = 6 * 3600, r_auto_clear = 3600, r_stale_after = 900, r_enabled = True\<rparr>"

definition RULES :: "rule list" where
  "RULES =
    [ Rule ''site.down'' KIND_LEVEL ''critical'' ''Site is down'' \<lparr>r_trigger_delay := 300\<rparr>,
      Rule ''http.error_ratio'' KIND_LEVEL ''warning'' ''HTTP 5xx ratio above the threshold''
        \<lparr>r_trigger_delay := 300\<rparr>,
      Rule ''response.slow'' KIND_LEVEL ''warning'' ''Response time above the threshold''
        \<lparr>r_trigger_delay := 300\<rparr>,
      Rule ''authelia.unavailable'' KIND_LEVEL ''critical'' ''Authelia is not answering''
        \<lparr>r_trigger_delay := 120\<rparr>,
      Rule ''monitoring.storage'' KIND_LEVEL ''warning'' ''Monitoring storage is under pressure'',
      Rule ''monitoring.paused'' KIND_LEVEL ''warning'' ''Historical monitoring is paused'',
      Rule ''certificate.expiring'' KIND_LEVEL ''warning'' ''Certificate expires soon''
        \<lparr>r_repeat_after := 24 * 3600, r_stale_after := 13 * 3600\<rparr>,
      Rule ''certificate.renewal_failed'' KIND_EVENT ''critical'' ''Certificate renewal failed''
        \<lparr>r_auto_clear := 6 * 3600\<rparr>,
      Rule ''security.burst'' KIND_EVENT ''warning'' ''Burst of hostile requests'',
      Rule ''security.hostile_ip'' KIND_EVENT ''info'' ''Adaptive protection acted on an address'',
      Rule ''security.engine_failing'' KIND_LEVEL ''warning'' ''Adaptive protection is not working''
        \<lparr>r_trigger_delay := 300\<rparr>,
      Rule ''backup.failed'' KIND_EVENT ''critical'' ''Backup job failed''
        \<lparr>r_auto_clear := 6 * 3600\<rparr>,
      Rule ''backup.space_low'' KIND_EVENT ''warning'' ''Backup storage is running out of space''
        \<lparr>r_auto_clear := 24 * 3600\<rparr>,
      Rule ''restore.failed'' KIND_EVENT ''critical'' ''Restore job failed''
        \<lparr>r_auto_clear := 6 * 3600\<rparr>,
      Rule ''update.failed'' KIND_EVENT ''warning'' ''Software update failed''
        \<lparr>r_auto_clear := 6 * 3600\<rparr>,
      Rule ''update.available'' KIND_LEVEL ''info'' ''Software updates are available''
        \<lparr>r_repeat_after := 7 * 86400, r_stale_after := 8 * 86400\<rparr>,
      Rule ''config.apply_failed'' KIND_EVENT ''critical'' ''HAProxy apply or reload failed'',
      Rule ''mail.delivery_failed'' KIND_LEVEL ''critical'' ''Mail cannot be delivered''
        \<lparr>r_stale_after := 6 * 3600\<rparr> ]"

definition RULES_BY_NAME :: "string \<rightharpoonup> rule" where
  "RULES_BY_NAME = map_of (map (\<lambda>r. (r_name r, r)) RULES)"

section \<open>Text checks\<close>

definition MAX_TEXT_CHARS :: nat where "MAX_TEXT_CHARS = 2000"
definition MAX_SUBJECT_CHARS :: nat where "MAX_SUBJECT_CHARS = 200"

text \<open>The class \<open>[\x00-\x08\x0b\x0c\x0e-\x1f\x7f]\<close>.\<close>

definition is_control :: "char \<Rightarrow> bool" where
  "is_control c = (let n = ord c in n \<le> 8 \<or> n = 11 \<or> n = 12 \<or> (14 \<le> n \<and> n \<le> 31) \<or> n = 127)"

definition drop_controls :: "string \<Rightarrow> string" where
  "drop_controls s = filter (\<lambda>c. \<not> is_control c) s"

definition clean_text :: "json \<Rightarrow> nat \<Rightarrow> string" where
  "clean_text v limit = take limit (py_strip (drop_controls (str_or v [])))"

text \<open>\<open>_EMAIL_RE\<close>: \<open>[^@\s]{1,64}@[^@\s]{1,253}\.[A-Za-z0-9-]{2,63}\<close>. The last part has no
  dot, so the pattern's dot is the last dot of the text.\<close>

definition email_ok :: "string \<Rightarrow> bool" where
  "email_ok s =
     (case py_split CHR ''@'' s of
        [l, r] \<Rightarrow>
          (let suffix = takeWhile (\<lambda>c. c \<noteq> CHR ''.'') (rev r);
               domain = drop 1 (dropWhile (\<lambda>c. c \<noteq> CHR ''.'') (rev r))
           in 1 \<le> length l \<and> length l \<le> 64 \<and> list_all (\<lambda>c. \<not> py_isspace c) l \<and>
              CHR ''.'' \<in> set r \<and> 1 \<le> length domain \<and> length domain \<le> 253 \<and>
              list_all (\<lambda>c. \<not> py_isspace c) domain \<and>
              2 \<le> length suffix \<and> length suffix \<le> 63 \<and>
              list_all (\<lambda>c. is_alnum_ascii c \<or> c = CHR ''-'') suffix)
      | _ \<Rightarrow> False)"

definition header_name_ok :: "string \<Rightarrow> bool" where
  "header_name_ok s = (s \<noteq> [] \<and> is_alnum_ascii (hd s) \<and>
     list_all (\<lambda>c. is_alnum_ascii c \<or> c = CHR ''-'') (tl s) \<and> length (tl s) \<le> 63)"

definition subject_ok :: "string \<Rightarrow> bool" where
  "subject_ok s = (s \<noteq> [] \<and> is_alnum_ascii (hd s) \<and>
     list_all (\<lambda>c. is_alnum_ascii c \<or> c \<in> set '' ._:/@*-'') (tl s) \<and> length (tl s) \<le> 199)"

section \<open>Settings\<close>

record rule_settings =
  s_enabled :: bool
  s_trigger_delay :: int
  s_repeat_after :: int

record alert_config =
  c_enabled :: bool
  c_email_enabled :: bool
  c_recipient :: string
  c_min_severity :: string
  c_portal_min_severity :: string
  c_webhook_url :: string
  c_webhook_header_name :: string
  c_webhook_header_value :: string
  c_webhook_allow_private :: bool
  c_rules :: "(string \<times> rule_settings) list"

definition AlertConfig :: alert_config where
  "AlertConfig = \<lparr>c_enabled = True, c_email_enabled = True, c_recipient = [],
     c_min_severity = ''warning'', c_portal_min_severity = ''warning'', c_webhook_url = [],
     c_webhook_header_name = [], c_webhook_header_value = [], c_webhook_allow_private = False,
     c_rules = []\<rparr>"

definition settings_for :: "alert_config \<Rightarrow> rule \<Rightarrow> rule_settings" where
  "settings_for c r = (case map_of (c_rules c) (r_name r) of
       Some s \<Rightarrow> s
     | None \<Rightarrow> \<lparr>s_enabled = r_enabled r, s_trigger_delay = r_trigger_delay r,
                s_repeat_after = r_repeat_after r\<rparr>)"

definition settings_as_dict :: "rule_settings \<Rightarrow> json" where
  "settings_as_dict s = JObj [(''enabled'', JBool (s_enabled s)),
     (''trigger_delay'', JInt (s_trigger_delay s)), (''repeat_after'', JInt (s_repeat_after s))]"

definition CONFIG_VERSION :: int where "CONFIG_VERSION = 2"

definition as_dict :: "alert_config \<Rightarrow> jobj" where
  "as_dict c =
    [ (''enabled'', JBool (c_enabled c)),
      (''email_enabled'', JBool (c_email_enabled c)),
      (''recipient'', JStr (c_recipient c)),
      (''min_severity'', JStr (c_min_severity c)),
      (''portal_min_severity'', JStr (c_portal_min_severity c)),
      (''config_version'', JInt CONFIG_VERSION),
      (''webhook_url'', JStr (c_webhook_url c)),
      (''webhook_header_name'', JStr (c_webhook_header_name c)),
      (''webhook_header_value'', JStr (c_webhook_header_value c)),
      (''webhook_allow_private'', JBool (c_webhook_allow_private c)),
      (''rules'', JObj (map (\<lambda>(n, s). (n, settings_as_dict s)) (c_rules c))) ]"

text \<open>What opening the settings file gives: no file, something unreadable, a document.\<close>

datatype config_file = FileMissing | FileBroken | FileDoc json

text \<open>One entry of the \<open>rules\<close> object, by the loop of \<open>load_config\<close>.\<close>

definition load_rule :: "string \<Rightarrow> json \<Rightarrow> (string \<times> rule_settings) list
    \<Rightarrow> (string \<times> rule_settings) list" where
  "load_rule name v acc =
     (case (RULES_BY_NAME name, v) of
        (Some rule, JObj m) \<Rightarrow>
          jput (r_name rule)
            \<lparr>s_enabled = (jget_or ''enabled'' (JBool (r_enabled rule)) m \<noteq> JBool False),
             s_trigger_delay = clamp_int (jget_or ''trigger_delay'' (JInt (r_trigger_delay rule)) m)
               (r_trigger_delay rule) 0 86400,
             s_repeat_after = clamp_int (jget_or ''repeat_after'' (JInt (r_repeat_after rule)) m)
               (r_repeat_after rule) 300 (7 * 86400)\<rparr> acc
      | _ \<Rightarrow> acc)"

definition severity_or_warning :: "json \<Rightarrow> string" where
  "severity_or_warning v = (let s = py_lower (py_strip (str_or v ''warning''))
     in if s \<in> set SEVERITIES then s else ''warning'')"

fun load_config :: "config_file \<Rightarrow> alert_config" where
  "load_config FileMissing = AlertConfig"
| "load_config FileBroken = AlertConfig"
| "load_config (FileDoc (JObj raw)) =
     (let recipient = py_strip (str_or (jget ''recipient'' raw) []);
          severity = severity_or_warning (jget ''min_severity'' raw);
          header_name = py_strip (str_or (jget ''webhook_header_name'' raw) [])
      in \<lparr>c_enabled = (jget_or ''enabled'' (JBool True) raw \<noteq> JBool False),
          c_email_enabled = (jget_or ''email_enabled'' (JBool True) raw \<noteq> JBool False),
          c_recipient = (if email_ok recipient then recipient else []),
          c_min_severity =
            (if (case jget ''config_version'' raw of JInt v \<Rightarrow> v < 2 | _ \<Rightarrow> True) \<and> severity = ''info''
             then ''warning'' else severity),
          c_portal_min_severity = severity_or_warning (jget ''portal_min_severity'' raw),
          c_webhook_url = py_strip (str_or (jget ''webhook_url'' raw) []),
          c_webhook_header_name = (if header_name_ok header_name then header_name else []),
          c_webhook_header_value =
            take 4096 (py_strip (drop_controls (str_or (jget ''webhook_header_value'' raw) []))),
          c_webhook_allow_private = (jget ''webhook_allow_private'' raw = JBool True),
          c_rules = (case jget ''rules'' raw of
              JObj rules \<Rightarrow> fold (\<lambda>(name, v). load_rule name v) rules []
            | _ \<Rightarrow> [])\<rparr>)"
| "load_config (FileDoc _) = AlertConfig"

definition load_config_from_dict :: "jobj \<Rightarrow> alert_config" where
  "load_config_from_dict raw = load_config (FileDoc (JObj raw))"

section \<open>Changing the settings\<close>

text \<open>The steps of \<open>AlertEngine.update_config\<close>, each on the document \<open>merged\<close>.\<close>

definition upd_flag :: "string \<Rightarrow> jobj \<Rightarrow> jobj \<Rightarrow> jobj" where
  "upd_flag key payload merged = (case map_of payload key of
       None \<Rightarrow> merged | Some v \<Rightarrow> jput key (JBool (v \<noteq> JBool False)) merged)"

definition upd_recipient :: "jobj \<Rightarrow> jobj \<Rightarrow> jobj result" where
  "upd_recipient payload merged = (case map_of payload ''recipient'' of
       None \<Rightarrow> Inr merged
     | Some v \<Rightarrow> (let recipient = py_strip (str_or v []) in
         if recipient \<noteq> [] \<and> \<not> email_ok recipient
         then Inl (ValueError ''the recipient is not a valid email address'')
         else Inr (jput ''recipient'' (JStr recipient) merged)))"

definition upd_severity :: "string \<Rightarrow> jobj \<Rightarrow> jobj \<Rightarrow> jobj result" where
  "upd_severity key payload merged = (case map_of payload key of
       None \<Rightarrow> Inr merged
     | Some v \<Rightarrow> (let severity = py_lower (py_strip (str_or v [])) in
         if severity \<notin> set SEVERITIES
         then Inl (ValueError (key @ '' must be info, warning or critical''))
         else Inr (jput key (JStr severity) merged)))"

definition upd_private :: "jobj \<Rightarrow> jobj \<Rightarrow> jobj" where
  "upd_private payload merged = (case map_of payload ''webhook_allow_private'' of
       None \<Rightarrow> merged
     | Some v \<Rightarrow> jput ''webhook_allow_private'' (JBool (v = JBool True)) merged)"

definition upd_webhook_url :: "(string \<Rightarrow> bool \<Rightarrow> py_error option) \<Rightarrow> jobj \<Rightarrow> jobj \<Rightarrow> jobj result" where
  "upd_webhook_url resolve payload merged = (case map_of payload ''webhook_url'' of
       None \<Rightarrow> Inr merged
     | Some v \<Rightarrow> (let url = py_strip (str_or v []) in
         case (if url \<noteq> [] then resolve url (truthy (jget ''webhook_allow_private'' merged)) else None) of
           Some e \<Rightarrow> Inl e
         | None \<Rightarrow> Inr (jput ''webhook_url'' (JStr url) merged)))"

definition upd_header_name :: "jobj \<Rightarrow> jobj \<Rightarrow> jobj result" where
  "upd_header_name payload merged = (case map_of payload ''webhook_header_name'' of
       None \<Rightarrow> Inr merged
     | Some v \<Rightarrow> (let name = py_strip (str_or v []) in
         if name \<noteq> [] \<and> \<not> header_name_ok name
         then Inl (ValueError ''the header name may use letters, digits and -'')
         else Inr (jput ''webhook_header_name'' (JStr name) merged)))"

definition upd_header_value :: "jobj \<Rightarrow> jobj \<Rightarrow> jobj" where
  "upd_header_value payload merged = (case map_of payload ''webhook_header_value'' of
       None \<Rightarrow> merged
     | Some v \<Rightarrow> (let value = str_or v [] in
         if value \<noteq> ''***'' then jput ''webhook_header_value'' (JStr value) merged else merged))"

primrec check_rules :: "jobj \<Rightarrow> unit result" where
  "check_rules [] = Inr ()"
| "check_rules (p # ps) =
     (if RULES_BY_NAME (fst p) = None then Inl (ValueError (''unknown rule: '' @ fst p))
      else (case snd p of JObj _ \<Rightarrow> check_rules ps
        | _ \<Rightarrow> Inl (ValueError (''rule '' @ fst p @ '' must be an object''))))"

definition upd_rules :: "jobj \<Rightarrow> jobj \<Rightarrow> jobj result" where
  "upd_rules payload merged = (case jget ''rules'' payload of
       JNull \<Rightarrow> Inr merged
     | JObj rules \<Rightarrow> ebind (check_rules rules) (\<lambda>_.
         Inr (jput ''rules'' (JObj (fold (\<lambda>(n, v). jput n v) rules
           (case jget ''rules'' merged of JObj m \<Rightarrow> m | _ \<Rightarrow> []))) merged))
     | _ \<Rightarrow> Inl (ValueError ''rules must be an object''))"

definition update_config :: "(string \<Rightarrow> bool \<Rightarrow> py_error option) \<Rightarrow> alert_config \<Rightarrow> json
    \<Rightarrow> alert_config result" where
  "update_config resolve c payload = (case payload of
       JObj p \<Rightarrow>
         ebind (upd_recipient p (upd_flag ''email_enabled'' p (upd_flag ''enabled'' p (as_dict c)))) (\<lambda>m.
         ebind (upd_severity ''min_severity'' p m) (\<lambda>m.
         ebind (upd_severity ''portal_min_severity'' p m) (\<lambda>m.
         ebind (upd_webhook_url resolve p (upd_private p m)) (\<lambda>m.
         ebind (upd_header_name p m) (\<lambda>m.
         ebind (upd_rules p (upd_header_value p m)) (\<lambda>m.
         Inr (load_config_from_dict m)))))))
     | _ \<Rightarrow> Inl (ValueError ''a JSON object is required''))"

section \<open>Well-formed settings\<close>

definition rule_settings_ok :: "string \<times> rule_settings \<Rightarrow> bool" where
  "rule_settings_ok p = (RULES_BY_NAME (fst p) \<noteq> None \<and>
     0 \<le> s_trigger_delay (snd p) \<and> s_trigger_delay (snd p) \<le> 86400 \<and>
     300 \<le> s_repeat_after (snd p) \<and> s_repeat_after (snd p) \<le> 7 * 86400)"

definition cfg_ok :: "alert_config \<Rightarrow> bool" where
  "cfg_ok c =
     ((c_recipient c = [] \<or> email_ok (c_recipient c)) \<and>
      c_min_severity c \<in> set SEVERITIES \<and> c_portal_min_severity c \<in> set SEVERITIES \<and>
      stripped (c_webhook_url c) \<and>
      (c_webhook_header_name c = [] \<or> header_name_ok (c_webhook_header_name c)) \<and>
      length (c_webhook_header_value c) \<le> 4096 \<and>
      list_all (\<lambda>ch. \<not> is_control ch) (c_webhook_header_value c) \<and>
      distinct (map fst (c_rules c)) \<and> list_all rule_settings_ok (c_rules c))"

subsection \<open>The catalogue\<close>

lemma r_name_simps [simp]:
  "r_name (Rule n k s t) = n"
  by (simp add: Rule_def)

lemma RULES_distinct: "distinct (map r_name RULES)"
  by (simp add: RULES_def)

lemma RULES_BY_NAME_Some: "RULES_BY_NAME n = Some r \<longleftrightarrow> r \<in> set RULES \<and> r_name r = n"
proof -
  have d: "distinct (map fst (map (\<lambda>r. (r_name r, r)) RULES))"
    using RULES_distinct by (simp add: comp_def)
  show ?thesis
    unfolding RULES_BY_NAME_def map_of_eq_Some_iff [OF d] by auto
qed

lemma RULES_bounds:
  "list_all (\<lambda>r. r_severity r \<in> set SEVERITIES \<and> 0 \<le> r_trigger_delay r \<and> r_trigger_delay r \<le> 86400 \<and>
     300 \<le> r_repeat_after r \<and> r_repeat_after r \<le> 7 * 86400 \<and> r_enabled r \<and>
     0 < r_auto_clear r \<and> 0 < r_stale_after r) RULES"
  by (simp add: RULES_def Rule_def SEVERITIES_def)

lemma rule_bounds:
  assumes "RULES_BY_NAME n = Some r"
  shows "r_name r = n" "r_severity r \<in> set SEVERITIES"
    "0 \<le> r_trigger_delay r" "r_trigger_delay r \<le> 86400"
    "300 \<le> r_repeat_after r" "r_repeat_after r \<le> 604800" "r_enabled r"
    "0 < r_auto_clear r" "0 < r_stale_after r"
  using assms RULES_bounds by (auto simp: RULES_BY_NAME_Some list_all_iff)

subsection \<open>Loading gives well-formed settings\<close>

lemma severity_or_warning_ok [simp]: "severity_or_warning v \<in> set SEVERITIES"
  by (simp add: severity_or_warning_def Let_def SEVERITIES_def)

lemma list_all_jput: "list_all P acc \<Longrightarrow> P (k, x) \<Longrightarrow> list_all P (jput k x acc)"
  by (induction acc) auto

lemma load_rule_ok:
  assumes "distinct (map fst acc)" "list_all rule_settings_ok acc"
  shows "distinct (map fst (load_rule n v acc)) \<and> list_all rule_settings_ok (load_rule n v acc)"
proof (cases "\<exists>r m. RULES_BY_NAME n = Some r \<and> v = JObj m")
  case False
  then have "load_rule n v acc = acc"
    by (auto simp: load_rule_def split: option.splits json.splits)
  then show ?thesis using assms by simp
next
  case True
  then obtain r m where r: "RULES_BY_NAME n = Some r" and v: "v = JObj m" by blast
  have nm: "RULES_BY_NAME (r_name r) \<noteq> None" using r by (metis RULES_BY_NAME_Some option.simps(3))
  have d: "0 \<le> clamp_int x (r_trigger_delay r) 0 86400" "clamp_int x (r_trigger_delay r) 0 86400 \<le> 86400" for x
    by (rule clamp_int_bounds; use rule_bounds [OF r] in simp)+
  have e: "300 \<le> clamp_int x (r_repeat_after r) 300 604800" "clamp_int x (r_repeat_after r) 300 604800 \<le> 604800" for x
    by (rule clamp_int_bounds; use rule_bounds [OF r] in simp)+
  show ?thesis
    by (simp add: load_rule_def r v distinct_update assms list_all_jput rule_settings_ok_def nm d e)
qed

lemma load_rules_ok:
  "distinct (map fst acc) \<Longrightarrow> list_all rule_settings_ok acc \<Longrightarrow>
   distinct (map fst (fold (\<lambda>(n, v). load_rule n v) rs acc)) \<and>
   list_all rule_settings_ok (fold (\<lambda>(n, v). load_rule n v) rs acc)"
proof (induction rs arbitrary: acc)
  case Nil
  then show ?case by simp
next
  case (Cons p rs)
  obtain n v where "p = (n, v)" by (cases p)
  then show ?case using Cons.IH load_rule_ok [OF Cons.prems] by simp
qed

lemma list_all_take: "list_all P xs \<Longrightarrow> list_all P (take n xs)"
  by (auto simp: list_all_iff dest: in_set_takeD)

lemma no_controls_strip: "list_all (\<lambda>c. \<not> is_control c) (py_strip (drop_controls s))"
  using set_py_strip [of "drop_controls s"] by (auto simp: list_all_iff drop_controls_def)

lemma cfg_ok_default [simp]: "cfg_ok AlertConfig"
  by (simp add: cfg_ok_def AlertConfig_def SEVERITIES_def stripped_def)

lemma cfg_ok_load_config: "cfg_ok (load_config f)"
proof (cases "\<exists>raw. f = FileDoc (JObj raw)")
  case False
  then have "load_config f = AlertConfig" by (cases f rule: load_config.cases) auto
  then show ?thesis by simp
next
  case True
  then obtain raw where f: "f = FileDoc (JObj raw)" by blast
  have w: "''warning'' \<in> set SEVERITIES" by (simp add: SEVERITIES_def)
  show ?thesis unfolding f load_config.simps Let_def cfg_ok_def
    using load_rules_ok [of "[]"]
    by (simp add: w list_all_take no_controls_strip split: json.splits)
qed

subsection \<open>Writing the settings and reading them back\<close>

lemma name_char_not_space: "is_alnum_ascii c \<or> c = CHR ''-'' \<Longrightarrow> \<not> py_isspace c"
  by (auto simp: is_alnum_ascii_def is_digit_def is_alpha_ascii_def py_isspace_def Let_def)

lemma email_ok_parts:
  assumes "email_ok s"
  obtains l r where "s = l @ CHR ''@'' # r" "l \<noteq> []" "\<not> py_isspace (hd l)"
    "r \<noteq> []" "\<not> py_isspace (last r)"
proof -
  obtain l r where lr: "py_split CHR ''@'' s = [l, r]"
    using assms by (auto simp: email_ok_def split: list.splits)
  let ?suf = "takeWhile (\<lambda>c. c \<noteq> CHR ''.'') (rev r)"
  have s: "s = l @ CHR ''@'' # r" using py_join_split [of "CHR ''@''" s] lr by simp
  have l: "l \<noteq> []" "list_all (\<lambda>c. \<not> py_isspace c) l"
    and suf: "2 \<le> length ?suf" "list_all (\<lambda>c. is_alnum_ascii c \<or> c = CHR ''-'') ?suf"
    using assms by (auto simp: email_ok_def lr Let_def)
  from suf(1) have ne: "?suf \<noteq> []" by auto
  then have r: "r \<noteq> []" by auto
  obtain x xs where rr: "rev r = x # xs" using r by (cases "rev r") auto
  then have "hd ?suf = x" using ne by (auto split: if_splits)
  moreover have "last r = x" using rr by (metis hd_rev list.sel(1))
  moreover have "hd ?suf \<in> set ?suf" using ne by (rule hd_in_set)
  ultimately have "\<not> py_isspace (last r)"
    using suf(2) name_char_not_space unfolding list_all_iff by metis
  moreover have "\<not> py_isspace (hd l)" using l by (cases l) auto
  ultimately show ?thesis using that s l(1) r by blast
qed

lemma email_ok_stripped: "email_ok s \<Longrightarrow> stripped s"
  by (elim email_ok_parts) (auto simp: stripped_def)

lemma header_name_ok_stripped:
  assumes "header_name_ok s"
  shows "stripped s"
proof -
  obtain c t where s: "s = c # t" using assms by (cases s) (auto simp: header_name_ok_def)
  have "last s \<in> set s" using s by simp
  moreover have "\<forall>x \<in> set s. \<not> py_isspace x"
    using assms name_char_not_space by (auto simp: header_name_ok_def s list_all_iff)
  ultimately show ?thesis using s by (auto simp: stripped_def)
qed

lemma severity_or_warning_id: "s \<in> set SEVERITIES \<Longrightarrow> severity_or_warning (JStr s) = s"
  by (auto simp: SEVERITIES_def severity_or_warning_def Let_def py_lower_def py_lower_char_def
      py_strip_def py_lstrip_def py_rstrip_def py_isspace_def)

lemma load_rule_settings_as_dict:
  assumes "rule_settings_ok (n, s)"
  shows "load_rule n (settings_as_dict s) acc = jput n s acc"
proof -
  obtain r where r: "RULES_BY_NAME n = Some r" and b: "0 \<le> s_trigger_delay s" "s_trigger_delay s \<le> 86400"
      "300 \<le> s_repeat_after s" "s_repeat_after s \<le> 604800"
    using assms by (auto simp: rule_settings_ok_def)
  show ?thesis
    using b rule_bounds(1) [OF r]
    by (cases s) (simp add: load_rule_def r settings_as_dict_def max_def min_def)
qed

lemma jput_new: "k \<notin> fst ` set m \<Longrightarrow> jput k v m = m @ [(k, v)]"
  by (induction m) auto

lemma fold_load_rule_id:
  assumes "list_all rule_settings_ok rs" "distinct (map fst (acc @ rs))"
  shows "fold (\<lambda>(n, v). load_rule n v) (map (\<lambda>(n, s). (n, settings_as_dict s)) rs) acc = acc @ rs"
  using assms
proof (induction rs arbitrary: acc)
  case Nil
  then show ?case by simp
next
  case (Cons p rs)
  obtain n s where p: "p = (n, s)" by (cases p)
  have "load_rule n (settings_as_dict s) acc = acc @ [p]"
    using Cons.prems p by (auto simp: load_rule_settings_as_dict intro!: jput_new)
  then show ?case using Cons.IH [of "acc @ [p]"] Cons.prems p by simp
qed

lemma drop_controls_id: "list_all (\<lambda>c. \<not> is_control c) s \<Longrightarrow> drop_controls s = s"
  by (simp add: drop_controls_def filter_id_conv list_all_iff)

lemma length_py_strip: "length (py_strip s) \<le> length s"
  unfolding py_strip_def py_rstrip_def py_lstrip_def
  by (metis length_dropWhile_le length_rev order_trans)

lemma load_config_as_dict:
  assumes "cfg_ok c"
  shows "load_config (FileDoc (JObj (as_dict c))) =
    c\<lparr>c_webhook_header_value := py_strip (c_webhook_header_value c)\<rparr>"
proof -
  have str: "str_or (JStr s) [] = s" for s by simp
  have rules: "fold (\<lambda>(n, v). load_rule n v) (map (\<lambda>(n, s). (n, settings_as_dict s)) (c_rules c)) []
      = c_rules c"
    using fold_load_rule_id [of "c_rules c" "[]"] assms by (simp add: cfg_ok_def)
  have ne: "\<not> email_ok []" "\<not> header_name_ok []" by (simp_all add: email_ok_def header_name_ok_def)
  have val: "take 4096 (py_strip (drop_controls (c_webhook_header_value c)))
      = py_strip (c_webhook_header_value c)"
    using assms length_py_strip [of "c_webhook_header_value c"]
    by (simp add: cfg_ok_def drop_controls_id)
  show ?thesis
    using assms ne
    unfolding load_config.simps Let_def as_dict_def
    by (intro alert_config.equality) (auto simp: cfg_ok_def str rules val severity_or_warning_id email_ok_stripped
        header_name_ok_stripped CONFIG_VERSION_def)
qed

lemma load_config_from_dict_recipient:
  assumes "cfg_ok c" "email_ok r" "stripped (c_webhook_header_value c)"
  shows "load_config_from_dict (jput ''recipient'' (JStr r) (as_dict c)) = c\<lparr>c_recipient := r\<rparr>"
proof -
  have "jput ''recipient'' (JStr r) (as_dict c) = as_dict (c\<lparr>c_recipient := r\<rparr>)"
    by (simp add: as_dict_def)
  moreover have "cfg_ok (c\<lparr>c_recipient := r\<rparr>)" using assms by (simp add: cfg_ok_def)
  ultimately show ?thesis
    using load_config_as_dict [of "c\<lparr>c_recipient := r\<rparr>"] assms(3)
    by (simp add: load_config_from_dict_def)
qed

end
