(* ===== verification/Alert_Store.thy ===== *)
theory Alert_Store
  imports Alert_Config
begin

text \<open>
  The two SQLite tables of the alert daemon and the operations of \<open>AlertDatabase\<close>
  (\<open>easy-ha-proxy-alertd.py\<close>, lines 469 to 757).

  A table is the list of its rows in \<open>rowid\<close> order: an insert appends, since SQLite gives a
  new row the highest \<open>rowid\<close>; \<open>alert_state\<close> has at most one row per (rule, subject).
  Rows that tie in an \<open>ORDER BY\<close> keep that order. Each operation is one transaction under the
  database lock, hence one function from the database to the database.

  The locale \<open>alert_table\<close> is the contract the engine relies on (what a lookup returns after
  a write, and that writes keep the tables well formed); it is interpreted on these operations.
\<close>

section \<open>Rows\<close>

datatype alert_status = STATE_OK | STATE_PENDING | STATE_FIRING

datatype transition =
    TRANSITION_FIRED | TRANSITION_REPEATED | TRANSITION_ESCALATED | TRANSITION_RECOVERED
  | TRANSITION_SUPPRESSED | TRANSITION_DISMISSED | TRANSITION_STALE | TRANSITION_EXPIRED
  | TRANSITION_RETIRED

text \<open>The columns \<open>put_state\<close> is given, and the ones only the other statements write.\<close>

record state_values =
  v_rule :: string
  v_subject :: string
  v_state :: alert_status
  v_severity :: string
  v_since :: int
  v_first_seen :: int
  v_last_seen :: int
  v_last_notified :: int
  v_notify_count :: int
  v_summary :: string
  v_detail :: string
  v_trigger_delay :: "int option"
  v_recipient :: string

record alert_row = state_values +
  v_ack_ts :: int
  v_ack_by :: string
  v_muted_until :: int
  v_stale_since :: int

record event_values =
  ev_ts :: int
  ev_rule :: string
  ev_subject :: string
  ev_transition :: transition
  ev_severity :: string
  ev_summary :: string
  ev_detail :: string
  ev_delivered :: string
  ev_error :: string

record event_row = event_values +
  ev_id :: int

record alert_db =
  alert_state :: "alert_row list"
  alert_events :: "event_row list"

definition row_is :: "string \<Rightarrow> string \<Rightarrow> ('a) state_values_scheme \<Rightarrow> bool" where
  "row_is r s row = (v_rule row = r \<and> v_subject row = s)"

definition row_key :: "'a state_values_scheme \<Rightarrow> string \<times> string" where
  "row_key row = (v_rule row, v_subject row)"

section \<open>State\<close>

definition get_state :: "alert_db \<Rightarrow> string \<Rightarrow> string \<Rightarrow> alert_row option" where
  "get_state db r s = find (row_is r s) (alert_state db)"

text \<open>The row a first \<open>INSERT\<close> makes, with the column defaults.\<close>

definition insert_row :: "state_values \<Rightarrow> alert_row" where
  "insert_row v = state_values.extend v
     \<lparr>v_ack_ts = 0, v_ack_by = [], v_muted_until = 0, v_stale_since = 0\<rparr>"

text \<open>The \<open>ON CONFLICT ... DO UPDATE SET\<close> list: it has neither \<open>first_seen_ts\<close> nor the
  operator's columns.\<close>

definition conflict_row :: "state_values \<Rightarrow> alert_row \<Rightarrow> alert_row" where
  "conflict_row v row = row\<lparr>v_state := v_state v, v_stale_since := 0, v_severity := v_severity v,
     v_since := v_since v, v_last_seen := v_last_seen v, v_last_notified := v_last_notified v,
     v_notify_count := v_notify_count v, v_summary := v_summary v, v_detail := v_detail v,
     v_trigger_delay := v_trigger_delay v, v_recipient := v_recipient v\<rparr>"

definition put_state :: "state_values \<Rightarrow> alert_db \<Rightarrow> alert_db" where
  "put_state v db = db\<lparr>alert_state :=
     (if list_ex (row_is (v_rule v) (v_subject v)) (alert_state db)
      then map (\<lambda>row. if row_is (v_rule v) (v_subject v) row then conflict_row v row else row)
             (alert_state db)
      else alert_state db @ [insert_row v])\<rparr>"

text \<open>\<open>UPDATE alert_state SET ... WHERE rule = ? AND subject = ?\<close>\<close>

definition update_where :: "(alert_row \<Rightarrow> alert_row) \<Rightarrow> string \<Rightarrow> string \<Rightarrow> alert_db \<Rightarrow> alert_db" where
  "update_where f r s db = db\<lparr>alert_state :=
     map (\<lambda>row. if row_is r s row then f row else row) (alert_state db)\<rparr>"

definition set_quiet :: "string \<Rightarrow> string \<Rightarrow> int \<Rightarrow> string \<Rightarrow> int \<Rightarrow> alert_db \<Rightarrow> bool \<times> alert_db" where
  "set_quiet r s ack_ts ack_by muted db =
     (list_ex (row_is r s) (alert_state db),
      update_where (\<lambda>row. row\<lparr>v_ack_ts := ack_ts, v_ack_by := take 120 ack_by, v_muted_until := muted\<rparr>) r s db)"

definition clear_acknowledgement :: "string \<Rightarrow> string \<Rightarrow> alert_db \<Rightarrow> alert_db" where
  "clear_acknowledgement r s = update_where (\<lambda>row. row\<lparr>v_ack_ts := 0, v_ack_by := []\<rparr>) r s"

definition drop_state :: "string \<Rightarrow> string \<Rightarrow> alert_db \<Rightarrow> alert_db" where
  "drop_state r s db = db\<lparr>alert_state := filter (\<lambda>row. \<not> row_is r s row) (alert_state db)\<rparr>"

definition mark_stale :: "string \<Rightarrow> string \<Rightarrow> int \<Rightarrow> alert_db \<Rightarrow> alert_db" where
  "mark_stale r s since = update_where (\<lambda>row. row\<lparr>v_stale_since := since\<rparr>) r s"

definition open_states :: "alert_db \<Rightarrow> alert_row list" where
  "open_states db = sort_key (\<lambda>row. - v_since row) (filter (\<lambda>row. v_state row \<noteq> STATE_OK) (alert_state db))"

definition active_alerts :: "alert_db \<Rightarrow> alert_row list" where
  "active_alerts db = sort_key (\<lambda>row. - v_since row) (filter (\<lambda>row. v_state row = STATE_FIRING) (alert_state db))"

section \<open>History\<close>

definition next_event_id :: "alert_db \<Rightarrow> int" where
  "next_event_id db = fold max (map ev_id (alert_events db)) 0 + 1"

definition add_event :: "event_values \<Rightarrow> alert_db \<Rightarrow> int \<times> alert_db" where
  "add_event v db = (next_event_id db,
     db\<lparr>alert_events := alert_events db @ [event_values.extend v \<lparr>ev_id = next_event_id db\<rparr>]\<rparr>)"

definition set_delivery :: "int \<Rightarrow> string \<Rightarrow> string \<Rightarrow> alert_db \<Rightarrow> alert_db" where
  "set_delivery i delivered err db = db\<lparr>alert_events :=
     map (\<lambda>e. if ev_id e = i then e\<lparr>ev_delivered := delivered, ev_error := take MAX_TEXT_CHARS err\<rparr> else e)
       (alert_events db)\<rparr>"

text \<open>\<open>delete_events\<close>: everything, or before a time, or the first 1000 ids named; the second
  component counts the rows removed.\<close>

datatype delete_request = DeleteAll | DeleteBefore int | DeleteIds "int list"

definition delete_pred :: "delete_request \<Rightarrow> event_row \<Rightarrow> bool" where
  "delete_pred q e = (case q of DeleteAll \<Rightarrow> True
     | DeleteBefore t \<Rightarrow> ev_ts e < t
     | DeleteIds ids \<Rightarrow> ev_id e \<in> set (take 1000 ids))"

definition delete_events :: "delete_request \<Rightarrow> alert_db \<Rightarrow> int \<times> alert_db" where
  "delete_events q db =
     (int (length (filter (delete_pred q) (alert_events db))),
      db\<lparr>alert_events := filter (\<lambda>e. \<not> delete_pred q e) (alert_events db)\<rparr>)"

text \<open>The history page: the filters, the count, and one page newest first.\<close>

definition event_matches :: "string \<Rightarrow> string \<Rightarrow> int \<Rightarrow> int \<Rightarrow> event_row \<Rightarrow> bool" where
  "event_matches r severity since until e =
     ((r = [] \<or> ev_rule e = r) \<and> (severity \<notin> set SEVERITIES \<or> ev_severity e = severity) \<and>
      (since = 0 \<or> since \<le> ev_ts e) \<and> (until = 0 \<or> ev_ts e \<le> until))"

definition history :: "string \<Rightarrow> string \<Rightarrow> int \<Rightarrow> int \<Rightarrow> int \<Rightarrow> int \<Rightarrow> alert_db \<Rightarrow> nat \<times> event_row list" where
  "history r severity since until limit offset db =
     (let rows = filter (event_matches r severity since until) (alert_events db);
          limit = max 1 (min 500 limit); offset = max 0 offset
      in (length rows,
          take (nat limit) (drop (nat offset) (rev (sort_key (\<lambda>e. (ev_ts e, ev_id e)) rows)))))"

definition notifications_since :: "int \<Rightarrow> alert_db \<Rightarrow> nat" where
  "notifications_since since db = length (filter (\<lambda>e. since \<le> ev_ts e \<and>
     (ev_transition e = TRANSITION_FIRED \<or> ev_transition e = TRANSITION_REPEATED)) (alert_events db))"

definition RETENTION_DAYS :: int where "RETENTION_DAYS = 90"
definition MAX_EVENT_ROWS :: nat where "MAX_EVENT_ROWS = 50000"
definition MAX_STATE_ROWS :: nat where "MAX_STATE_ROWS = 5000"

text \<open>\<open>prune\<close>, its four \<open>DELETE\<close> statements in order.\<close>

definition newest_events :: "event_row list \<Rightarrow> int list" where
  "newest_events es = map ev_id (take MAX_EVENT_ROWS (rev (sort_key ev_id es)))"

definition newest_states :: "alert_row list \<Rightarrow> (string \<times> string) list" where
  "newest_states rows = map row_key (take MAX_STATE_ROWS (sort_key (\<lambda>row. - v_last_seen row) rows))"

definition prune :: "int \<Rightarrow> alert_db \<Rightarrow> alert_db" where
  "prune now db =
     (let cutoff = now - RETENTION_DAYS * 86400;
          es = filter (\<lambda>e. \<not> ev_ts e < cutoff) (alert_events db);
          es' = filter (\<lambda>e. ev_id e \<in> set (newest_events es)) es;
          rows = filter (\<lambda>row. \<not> (v_state row = STATE_OK \<and> v_last_seen row < cutoff)) (alert_state db);
          rows' = filter (\<lambda>row. row_key row \<in> set (newest_states rows)) rows
      in \<lparr>alert_state = rows', alert_events = es'\<rparr>)"

definition db_counts :: "alert_db \<Rightarrow> nat \<times> nat \<times> nat" where
  "db_counts db =
     (length (filter (\<lambda>row. v_state row = STATE_FIRING) (alert_state db)),
      length (filter (\<lambda>row. v_state row = STATE_PENDING) (alert_state db)),
      length (alert_events db))"

section \<open>Well-formed tables\<close>

definition db_ok :: "alert_db \<Rightarrow> bool" where
  "db_ok db = (distinct (map row_key (alert_state db)) \<and>
     sorted_wrt (<) (map ev_id (alert_events db)) \<and> list_all (\<lambda>e. 0 < ev_id e) (alert_events db))"

lemmas store_defs [py_simps] = get_state_def put_state_def update_where_def set_quiet_def
  clear_acknowledgement_def drop_state_def mark_stale_def add_event_def set_delivery_def

lemma row_is_key: "row_is r s row \<longleftrightarrow> row_key row = (r, s)"
  by (auto simp: row_is_def row_key_def)

lemma insert_row_sel [simp]:
  "v_rule (insert_row v) = v_rule v"
  "v_subject (insert_row v) = v_subject v"
  "v_state (insert_row v) = v_state v"
  "v_severity (insert_row v) = v_severity v"
  "v_since (insert_row v) = v_since v"
  "v_first_seen (insert_row v) = v_first_seen v"
  "v_last_seen (insert_row v) = v_last_seen v"
  "v_last_notified (insert_row v) = v_last_notified v"
  "v_notify_count (insert_row v) = v_notify_count v"
  "v_summary (insert_row v) = v_summary v"
  "v_detail (insert_row v) = v_detail v"
  "v_trigger_delay (insert_row v) = v_trigger_delay v"
  "v_recipient (insert_row v) = v_recipient v"
  "v_ack_ts (insert_row v) = 0"
  "v_ack_by (insert_row v) = []"
  "v_muted_until (insert_row v) = 0"
  "v_stale_since (insert_row v) = 0"
  by (simp_all add: insert_row_def state_values.defs)

lemma conflict_row_sel [simp]:
  "v_state (conflict_row v row) = v_state v"
  "v_severity (conflict_row v row) = v_severity v"
  "v_since (conflict_row v row) = v_since v"
  "v_last_seen (conflict_row v row) = v_last_seen v"
  "v_last_notified (conflict_row v row) = v_last_notified v"
  "v_notify_count (conflict_row v row) = v_notify_count v"
  "v_summary (conflict_row v row) = v_summary v"
  "v_detail (conflict_row v row) = v_detail v"
  "v_trigger_delay (conflict_row v row) = v_trigger_delay v"
  "v_recipient (conflict_row v row) = v_recipient v"
  "v_rule (conflict_row v row) = v_rule row"
  "v_subject (conflict_row v row) = v_subject row"
  "v_first_seen (conflict_row v row) = v_first_seen row"
  "v_ack_ts (conflict_row v row) = v_ack_ts row"
  "v_ack_by (conflict_row v row) = v_ack_by row"
  "v_muted_until (conflict_row v row) = v_muted_until row"
  "v_stale_since (conflict_row v row) = 0"
  by (simp_all add: conflict_row_def)

lemma key_insert_row [simp]: "row_key (insert_row v) = row_key v"
  by (simp add: row_key_def)

lemma key_conflict_row [simp]: "row_key (conflict_row v row) = row_key row"
  by (simp add: conflict_row_def row_key_def)

text \<open>Lookups in a table whose rows are changed, added or removed by key.\<close>

lemma find_map_key:
  assumes "\<And>row. row_key (f row) = row_key (row :: alert_row)"
  shows "find (row_is r s) (map (\<lambda>row. if row_is r' s' row then f row else row) rows)
    = (if (r, s) = (r', s') then map_option f (find (row_is r s) rows) else find (row_is r s) rows)"
  using assms by (induction rows) (auto simp: row_is_key)

lemma find_append: "find P (xs @ ys) = (case find P xs of None \<Rightarrow> find P ys | Some x \<Rightarrow> Some x)"
  by (induction xs) auto

lemma list_ex_find: "list_ex P xs \<longleftrightarrow> find P xs \<noteq> None"
  by (induction xs) auto

lemma find_filter_not:
  "find (row_is r s) (filter (\<lambda>row. \<not> row_is r' s' row) rows)
    = (if (r, s) = (r', s') then None else find (row_is r s) rows)"
  by (induction rows) (auto simp: row_is_key)

lemma map_key_if:
  "(\<And>row. row_key (f row) = row_key (row :: alert_row)) \<Longrightarrow>
   map row_key (map (\<lambda>row. if P row then f row else row) rows) = map row_key rows"
  by auto

definition merged_row :: "alert_row option \<Rightarrow> state_values \<Rightarrow> alert_row" where
  "merged_row old v = (case old of None \<Rightarrow> insert_row v | Some row \<Rightarrow> conflict_row v row)"

lemma get_put_state:
  "get_state (put_state v db) r s =
     (if (r, s) = row_key v then Some (merged_row (get_state db r s) v) else get_state db r s)"
proof (cases "list_ex (row_is (v_rule v) (v_subject v)) (alert_state db)")
  case True
  then obtain row where "find (row_is (v_rule v) (v_subject v)) (alert_state db) = Some row"
    by (auto simp: list_ex_find)
  with True show ?thesis
    by (auto simp: get_state_def put_state_def find_map_key [of "conflict_row v", OF key_conflict_row] merged_row_def row_key_def)
next
  case False
  then have "find (row_is (v_rule v) (v_subject v)) (alert_state db) = None"
    by (simp add: list_ex_find)
  with False show ?thesis
    by (auto simp: get_state_def put_state_def find_append merged_row_def row_is_key row_key_def
        split: option.splits)
qed

lemma get_update_where:
  "(\<And>row. row_key (f row) = row_key row) \<Longrightarrow> get_state (update_where f r' s' db) r s =
     (if (r, s) = (r', s') then map_option f (get_state db r s) else get_state db r s)"
  by (simp add: get_state_def update_where_def find_map_key)

lemma get_drop_state:
  "get_state (drop_state r' s' db) r s = (if (r, s) = (r', s') then None else get_state db r s)"
  by (simp add: get_state_def drop_state_def find_filter_not)

lemma get_mark_stale:
  "get_state (mark_stale r' s' t db) r s =
     (if (r, s) = (r', s') then map_option (\<lambda>row. row\<lparr>v_stale_since := t\<rparr>) (get_state db r s)
      else get_state db r s)"
  unfolding mark_stale_def by (rule get_update_where) (simp add: row_key_def)

lemma get_state_events [simp]:
  "get_state (snd (add_event v db)) r s = get_state db r s"
  "get_state (set_delivery i d e db) r s = get_state db r s"
  by (simp_all add: get_state_def add_event_def set_delivery_def)

lemma get_state_key: "get_state db r s = Some row \<Longrightarrow> row_key row = (r, s)"
  unfolding get_state_def by (metis find_Some_iff row_is_key)

lemma get_state_mem: "get_state db r s = Some row \<Longrightarrow> row \<in> set (alert_state db)"
  unfolding get_state_def by (metis find_Some_iff nth_mem)

subsection \<open>Every statement keeps the tables well formed\<close>

lemma fold_max_mono: "(a::int) \<le> fold max xs a"
  by (induction xs arbitrary: a) (auto intro: order_trans [OF max.cobounded2])

lemma fold_max_ge: "(x::int) \<in> set xs \<or> x = a \<Longrightarrow> x \<le> fold max xs a"
proof (induction xs arbitrary: a)
  case Nil
  then show ?case by simp
next
  case (Cons y ys)
  have "y \<le> fold max ys (max y a)" "a \<le> fold max ys (max y a)"
    using fold_max_mono [of "max y a" ys] by simp_all
  then show ?case using Cons by auto
qed

lemma db_ok_put_state:
  assumes "db_ok db"
  shows "db_ok (put_state v db)"
proof (cases "list_ex (row_is (v_rule v) (v_subject v)) (alert_state db)")
  case True
  then show ?thesis using assms by (simp add: db_ok_def put_state_def map_key_if del: map_map)
next
  case False
  then have "row_key v \<notin> row_key ` set (alert_state db)"
    by (auto simp: list_ex_iff row_is_key row_key_def)
  then show ?thesis using assms False by (simp add: db_ok_def put_state_def)
qed

lemma db_ok_update_where:
  "db_ok db \<Longrightarrow> (\<And>row. row_key (f row) = row_key row) \<Longrightarrow> db_ok (update_where f r s db)"
  by (simp add: db_ok_def update_where_def map_key_if del: map_map)

lemma db_ok_drop_state: "db_ok db \<Longrightarrow> db_ok (drop_state r s db)"
  by (simp add: db_ok_def drop_state_def distinct_map_filter)

lemma db_ok_mark_stale: "db_ok db \<Longrightarrow> db_ok (mark_stale r s t db)"
  unfolding mark_stale_def by (rule db_ok_update_where) (simp_all add: row_key_def)

lemma db_ok_clear_acknowledgement: "db_ok db \<Longrightarrow> db_ok (clear_acknowledgement r s db)"
  unfolding clear_acknowledgement_def by (rule db_ok_update_where) (simp_all add: row_key_def)

lemma db_ok_set_quiet: "db_ok db \<Longrightarrow> db_ok (snd (set_quiet r s a b m db))"
  unfolding set_quiet_def snd_conv by (rule db_ok_update_where) (simp_all add: row_key_def)

lemma next_event_id_gt: "e \<in> set (alert_events db) \<Longrightarrow> ev_id e < next_event_id db"
  using fold_max_ge [of "ev_id e" "map ev_id (alert_events db)" 0] by (auto simp: next_event_id_def)

lemma next_event_id_pos: "0 < next_event_id db"
  using fold_max_ge [of 0 "map ev_id (alert_events db)" 0] by (auto simp: next_event_id_def)

lemma db_ok_add_event: "db_ok db \<Longrightarrow> db_ok (snd (add_event v db))"
  by (auto simp: db_ok_def add_event_def sorted_wrt_append event_values.defs next_event_id_gt next_event_id_pos)

lemma map_ev_id_set_delivery: "map ev_id (alert_events (set_delivery i d e db)) = map ev_id (alert_events db)"
  by (auto simp: set_delivery_def)

lemma db_ok_set_delivery: "db_ok db \<Longrightarrow> db_ok (set_delivery i d e db)"
  by (simp add: db_ok_def map_ev_id_set_delivery) (auto simp: set_delivery_def list_all_iff)

lemma sorted_wrt_map_filter: "sorted_wrt R (map f xs) \<Longrightarrow> sorted_wrt R (map f (filter P xs))"
  by (induction xs) auto

lemma list_all_filter: "list_all P xs \<Longrightarrow> list_all P (filter Q xs)"
  by (simp add: list_all_iff)

lemma db_ok_delete_events: "db_ok db \<Longrightarrow> db_ok (snd (delete_events q db))"
  by (simp add: db_ok_def delete_events_def sorted_wrt_map_filter list_all_filter)

lemma db_ok_prune: "db_ok db \<Longrightarrow> db_ok (prune now db)"
  by (simp add: db_ok_def prune_def Let_def sorted_wrt_map_filter list_all_filter distinct_map_filter
      del: filter_filter)

lemmas db_ok_intros [intro] = db_ok_put_state db_ok_drop_state db_ok_mark_stale
  db_ok_clear_acknowledgement db_ok_set_quiet db_ok_add_event db_ok_set_delivery
  db_ok_delete_events db_ok_prune

section \<open>The contract of the state table\<close>

text \<open>
  What the engine relies on: a lookup after a write sees that write and nothing else, and every
  write keeps the table well formed. The lemmas are about whole sequences of writes, as a sweep
  makes them.
\<close>

datatype table_write = WPut state_values | WDrop string string | WMark string string int

primrec write_key :: "table_write \<Rightarrow> string \<times> string" where
  "write_key (WPut v) = row_key v"
| "write_key (WDrop r s) = (r, s)"
| "write_key (WMark r s t) = (r, s)"

locale alert_table =
  fixes invar :: "'db \<Rightarrow> bool"
    and get :: "'db \<Rightarrow> string \<Rightarrow> string \<Rightarrow> alert_row option"
    and put :: "state_values \<Rightarrow> 'db \<Rightarrow> 'db"
    and drop_row :: "string \<Rightarrow> string \<Rightarrow> 'db \<Rightarrow> 'db"
    and mark :: "string \<Rightarrow> string \<Rightarrow> int \<Rightarrow> 'db \<Rightarrow> 'db"
  assumes get_put: "invar db \<Longrightarrow> get (put v db) r s =
      (if (r, s) = row_key v then Some (merged_row (get db r s) v) else get db r s)"
    and get_drop: "invar db \<Longrightarrow> get (drop_row r' s' db) r s =
      (if (r, s) = (r', s') then None else get db r s)"
    and get_mark: "invar db \<Longrightarrow> get (mark r' s' t db) r s =
      (if (r, s) = (r', s') then map_option (\<lambda>row. row\<lparr>v_stale_since := t\<rparr>) (get db r s) else get db r s)"
    and invar_put: "invar db \<Longrightarrow> invar (put v db)"
    and invar_drop: "invar db \<Longrightarrow> invar (drop_row r s db)"
    and invar_mark: "invar db \<Longrightarrow> invar (mark r s t db)"
begin

primrec apply_write :: "table_write \<Rightarrow> 'db \<Rightarrow> 'db" where
  "apply_write (WPut v) db = put v db"
| "apply_write (WDrop r s) db = drop_row r s db"
| "apply_write (WMark r s t) db = mark r s t db"

lemma invar_writes: "invar db \<Longrightarrow> invar (fold apply_write ws db)"
proof (induction ws arbitrary: db)
  case Nil
  then show ?case by simp
next
  case (Cons w ws)
  then show ?case by (cases w) (simp_all add: invar_put invar_drop invar_mark)
qed

lemma write_frame: "invar db \<Longrightarrow> (r, s) \<noteq> write_key w \<Longrightarrow> get (apply_write w db) r s = get db r s"
  by (cases w) (auto simp: get_put get_drop get_mark)

lemma writes_frame:
  "invar db \<Longrightarrow> (r, s) \<notin> write_key ` set ws \<Longrightarrow> get (fold apply_write ws db) r s = get db r s"
proof (induction ws arbitrary: db)
  case Nil
  then show ?case by simp
next
  case (Cons w ws)
  have "invar (apply_write w db)" using invar_writes [of db "[w]"] Cons.prems(1) by simp
  then show ?case using Cons write_frame by auto
qed

lemma put_put_merge:
  assumes "invar db" "row_key v = row_key w"
  shows "get (put w (put v db)) (v_rule v) (v_subject v)
    = Some (conflict_row w (merged_row (get db (v_rule v) (v_subject v)) v))"
proof -
  have "invar (put v db)" using assms(1) by (rule invar_put)
  then show ?thesis using assms by (simp add: get_put merged_row_def row_key_def)
qed

end

interpretation adb: alert_table db_ok get_state put_state drop_state mark_stale
  by unfold_locales (auto simp: get_put_state get_drop_state get_mark_stale)

end
