(* ===== verification/Alert_Engine.thy ===== *)
theory Alert_Engine
  imports Alert_Store
begin

text \<open>
  The decisions of the alert daemon: \<open>AlertEngine\<close> of \<open>easy-ha-proxy-alertd.py\<close>
  (\<open>observe\<close>, \<open>_retire\<close>, \<open>_apply\<close>, \<open>_notify\<close>, \<open>deliver\<close>, \<open>render\<close>, \<open>sweep\<close>, \<open>quieten\<close>,
  \<open>dismiss\<close>, \<open>delete_history\<close>, \<open>portal\<close>, \<open>check_mail_queue\<close>) and \<open>mail_queue_stuck\<close>.

  The engine lock makes each operation one step, so an operation is a function of the engine
  state. The clock is the argument \<open>now\<close>. The delivery channels reach the outside world; they
  are the argument \<open>chs\<close>, each with what its \<open>available\<close> and \<open>send\<close> return or raise, and a
  different list may be passed to every operation.
\<close>

section \<open>State and channels\<close>

record alert_engine =
  eng_config :: alert_config
  eng_db :: alert_db
  eng_hostname :: string
  eng_last_prune :: int

text \<open>\<open>Inl\<close> is the text of an exception the channel raised.\<close>

record channel =
  ch_name :: string
  ch_available :: "alert_config \<Rightarrow> string + bool"
  ch_send :: "alert_config \<Rightarrow> string \<Rightarrow> string \<Rightarrow> string + bool \<times> string"

definition STORM_WINDOW_SECONDS :: int where "STORM_WINDOW_SECONDS = 300"
definition STORM_MAX_NOTIFICATIONS :: nat where "STORM_MAX_NOTIFICATIONS = 8"
definition STALE_CLOSE_AFTER :: int where "STALE_CLOSE_AFTER = 7 * 86400"
definition MAX_MUTE_SECONDS :: int where "MAX_MUTE_SECONDS = 30 * 86400"
definition MAIL_STUCK_SECONDS :: int where "MAIL_STUCK_SECONDS = 15 * 60"

definition severity_rank :: "string \<Rightarrow> nat" where
  "severity_rank s = (if s \<in> set SEVERITIES then length (takeWhile (\<lambda>x. x \<noteq> s) SEVERITIES) else 0)"

definition iso :: "int \<Rightarrow> string" where
  "iso t = utc_date t @ '' '' @ utc_minute t @ '' UTC''"

section \<open>Notification\<close>

definition should_notify :: "alert_config \<Rightarrow> rule \<Rightarrow> string \<Rightarrow> bool \<times> string" where
  "should_notify c r severity =
     (if \<not> c_enabled c then (False, ''alerting is switched off'')
      else if \<not> s_enabled (settings_for c r) then (False, ''the rule is switched off'')
      else if severity_rank severity < severity_rank (c_min_severity c)
        then (False, ''below the configured minimum severity'')
      else (True, []))"

definition quiet_reason :: "alert_db \<Rightarrow> rule \<Rightarrow> string \<Rightarrow> transition \<Rightarrow> int \<Rightarrow> string" where
  "quiet_reason db r subject tr now = (case get_state db (r_name r) subject of
       None \<Rightarrow> []
     | Some row \<Rightarrow>
         if v_muted_until row > now \<and> tr \<noteq> TRANSITION_RECOVERED
           then ''muted until '' @ iso (v_muted_until row)
         else if v_ack_ts row \<noteq> 0 \<and> tr = TRANSITION_REPEATED then ''acknowledged''
         else [])"

definition verb :: "transition \<Rightarrow> string \<Rightarrow> string" where
  "verb tr severity =
     (if severity = ''info'' \<and> (tr = TRANSITION_FIRED \<or> tr = TRANSITION_REPEATED) then ''INFO''
      else (case tr of TRANSITION_FIRED \<Rightarrow> ''ALERT'' | TRANSITION_REPEATED \<Rightarrow> ''STILL''
        | TRANSITION_ESCALATED \<Rightarrow> ''WORSE'' | TRANSITION_RECOVERED \<Rightarrow> ''RESOLVED'' | _ \<Rightarrow> ''ALERT''))"

definition NL :: string where "NL = [CHR 0x0A]"

definition render :: "string \<Rightarrow> rule \<Rightarrow> string \<Rightarrow> transition \<Rightarrow> string \<Rightarrow> string \<Rightarrow> string \<Rightarrow> int
    \<Rightarrow> string \<times> string" where
  "render host r subject tr severity summary detail now =
     (let vb = verb tr severity;
          head = ''['' @ host @ ''] '' @ vb @ '' '' @ severity @ '': '' @ r_title r @
            (if subject \<noteq> [] \<and> subject \<noteq> ''-'' then '' ('' @ subject @ '')'' else []);
          lines = [ (if summary \<noteq> [] then summary else r_title r), [],
            ''Condition : '' @ r_name r, ''Subject   : '' @ subject, ''Severity  : '' @ severity,
            ''State     : '' @ py_lower vb, ''Time      : '' @ utc_stamp now, ''Gateway   : '' @ host ]
            @ (if detail \<noteq> [] then [[], detail] else [])
            @ [[], ''Sent by easy-ha-proxy. Alert settings live on the Alerts page.'']
      in (head, py_join NL lines))"

text \<open>One channel of the loop of \<open>deliver\<close>.\<close>

definition deliver_step :: "alert_config \<Rightarrow> string \<Rightarrow> string \<Rightarrow> channel
    \<Rightarrow> string list \<times> string list \<Rightarrow> string list \<times> string list" where
  "deliver_step c subject body ch acc = (case acc of (delivered, errors) \<Rightarrow>
     (case ch_available ch c of
        Inl exc \<Rightarrow> (delivered, errors @ [ch_name ch @ '': '' @ exc])
      | Inr False \<Rightarrow> (delivered, errors)
      | Inr True \<Rightarrow> (case ch_send ch c subject body of
            Inl exc \<Rightarrow> (delivered, errors @ [ch_name ch @ '': '' @ exc])
          | Inr (True, _) \<Rightarrow> (delivered @ [ch_name ch], errors)
          | Inr (False, err) \<Rightarrow> (delivered, errors @ [ch_name ch @ '': '' @ err]))))"

definition deliver_config :: "alert_config \<Rightarrow> string \<Rightarrow> alert_config" where
  "deliver_config c recipient =
     (if recipient \<noteq> [] then load_config_from_dict (jput ''recipient'' (JStr recipient) (as_dict c)) else c)"

definition deliver :: "channel list \<Rightarrow> alert_config \<Rightarrow> string \<Rightarrow> string \<Rightarrow> string
    \<Rightarrow> string list \<times> string list" where
  "deliver chs c subject body recipient =
     (case fold (deliver_step (deliver_config c recipient) subject body) chs ([], []) of
        (delivered, errors) \<Rightarrow>
          (delivered, if delivered = [] \<and> errors = [] then [''no channel is configured''] else errors))"

definition event :: "int \<Rightarrow> string \<Rightarrow> string \<Rightarrow> transition \<Rightarrow> string \<Rightarrow> string \<Rightarrow> string \<Rightarrow> string
    \<Rightarrow> event_values" where
  "event ts r subject tr severity summary detail err =
     \<lparr>ev_ts = ts, ev_rule = r, ev_subject = subject, ev_transition = tr, ev_severity = severity,
      ev_summary = summary, ev_detail = detail, ev_delivered = [], ev_error = err\<rparr>"

text \<open>The decision of \<open>_notify\<close> before storm control: \<open>None\<close> to go on, or why not.\<close>

definition refusal :: "alert_config \<Rightarrow> alert_db \<Rightarrow> rule \<Rightarrow> string \<Rightarrow> transition \<Rightarrow> string \<Rightarrow> int
    \<Rightarrow> string option" where
  "refusal c db r subject tr severity now =
     (let (allowed, reason) = should_notify c r severity;
          quiet = quiet_reason db r subject tr now
      in if \<not> allowed then Some reason
         else if quiet \<noteq> [] then Some quiet
         else if tr = TRANSITION_RECOVERED \<and> severity = ''info''
           then Some ''information: no message when it ends''
         else None)"

definition storming :: "alert_db \<Rightarrow> transition \<Rightarrow> int \<Rightarrow> bool" where
  "storming db tr now = (tr \<noteq> TRANSITION_RECOVERED \<and>
     STORM_MAX_NOTIFICATIONS \<le> notifications_since (now - STORM_WINDOW_SECONDS) db)"

definition notify :: "channel list \<Rightarrow> alert_engine \<Rightarrow> rule \<Rightarrow> string \<Rightarrow> transition \<Rightarrow> string
    \<Rightarrow> string \<Rightarrow> string \<Rightarrow> int \<Rightarrow> string \<Rightarrow> bool \<times> alert_db" where
  "notify chs eng r subject tr severity summary detail now recipient =
     (let db = eng_db eng; c = eng_config eng in
      case refusal c db r subject tr severity now of
        Some reason \<Rightarrow>
          (False, snd (add_event (event now (r_name r) subject tr severity summary detail reason) db))
      | None \<Rightarrow>
          if storming db tr now then
            (False, snd (add_event (event now (r_name r) subject TRANSITION_SUPPRESSED severity summary
               detail ''more than 8 notifications in 5 minutes'') db))
          else
            (let (i, db') = add_event (event now (r_name r) subject tr severity summary detail []) db;
                 (mail_subject, body) = render (eng_hostname eng) r subject tr severity summary detail now;
                 (delivered, errors) = deliver chs c mail_subject body recipient
             in (delivered \<noteq> [], set_delivery i (py_join '','' delivered) (py_join ''; '' errors) db')))"

section \<open>The state machine\<close>

record observed =
  o_rule :: string
  o_subject :: string
  o_state :: alert_status
  o_transition :: "transition option"
  o_notified :: bool

text \<open>
  The middle of \<open>_apply\<close>: from the stored row to the new state, \<open>since\<close>, \<open>first_seen\<close>,
  \<open>notify_count\<close> and the transition, if any.
\<close>

definition decide :: "int \<Rightarrow> bool \<Rightarrow> string \<Rightarrow> int \<Rightarrow> int \<Rightarrow> alert_row option
    \<Rightarrow> alert_status \<times> int \<times> int \<times> int \<times> transition option" where
  "decide now active severity delay repeat_after row =
     (let state = (case row of Some x \<Rightarrow> v_state x | None \<Rightarrow> STATE_OK);
          since = (case row of Some x \<Rightarrow> v_since x | None \<Rightarrow> now);
          first_seen = (case row of Some x \<Rightarrow> v_first_seen x | None \<Rightarrow> now);
          last_notified = (case row of Some x \<Rightarrow> v_last_notified x | None \<Rightarrow> 0);
          notify_count = (case row of Some x \<Rightarrow> v_notify_count x | None \<Rightarrow> 0);
          old_severity = (case row of Some x \<Rightarrow> v_severity x | None \<Rightarrow> severity)
      in if \<not> active then
           (case state of
              STATE_FIRING \<Rightarrow> (STATE_OK, now, first_seen, notify_count, Some TRANSITION_RECOVERED)
            | STATE_PENDING \<Rightarrow> (STATE_OK, now, first_seen, notify_count, None)
            | STATE_OK \<Rightarrow> (STATE_OK, since, first_seen, notify_count, None))
         else
           (let (state, since, first_seen, notify_count) =
                  (if state = STATE_OK then (STATE_PENDING, now, now, 0)
                   else (state, since, first_seen, notify_count))
            in if state = STATE_PENDING \<and> delay \<le> now - since then
                 (STATE_FIRING, now, first_seen, notify_count, Some TRANSITION_FIRED)
               else if state = STATE_FIRING \<and> severity_rank old_severity < severity_rank severity then
                 (state, since, first_seen, notify_count, Some TRANSITION_ESCALATED)
               else if state = STATE_FIRING \<and> repeat_after \<le> now - last_notified then
                 (state, since, first_seen, notify_count, Some TRANSITION_REPEATED)
               else (state, since, first_seen, notify_count, None)))"

text \<open>The delay of an observation, and two columns of a row that may be missing.\<close>

definition settings_delay :: "alert_config \<Rightarrow> rule \<Rightarrow> int option \<Rightarrow> int" where
  "settings_delay c r od = (case od of None \<Rightarrow> s_trigger_delay (settings_for c r) | Some d \<Rightarrow> d)"

definition old_notified :: "alert_row option \<Rightarrow> int" where
  "old_notified row = (case row of Some x \<Rightarrow> v_last_notified x | None \<Rightarrow> 0)"

definition old_ack :: "alert_row option \<Rightarrow> int" where
  "old_ack row = (case row of Some x \<Rightarrow> v_ack_ts x | None \<Rightarrow> 0)"

definition apply_observation :: "channel list \<Rightarrow> int \<Rightarrow> alert_engine \<Rightarrow> rule \<Rightarrow> string \<Rightarrow> bool \<Rightarrow> string
    \<Rightarrow> string \<Rightarrow> string \<Rightarrow> int option \<Rightarrow> string \<Rightarrow> observed \<times> alert_engine" where
  "apply_observation chs now eng r subject active severity summary detail override_delay recipient =
     (let settings = settings_for (eng_config eng) r;
          delay = settings_delay (eng_config eng) r override_delay;
          row = get_state (eng_db eng) (r_name r) subject;
          (state, since, first_seen, notify_count, tr) =
            decide now active severity delay (s_repeat_after settings) row;
          values = \<lparr>v_rule = r_name r, v_subject = subject, v_state = state, v_severity = severity,
            v_since = since, v_first_seen = first_seen, v_last_seen = now,
            v_last_notified = old_notified row, v_notify_count = notify_count, v_summary = summary,
            v_detail = detail, v_trigger_delay = override_delay, v_recipient = recipient\<rparr>;
          db = put_state values (eng_db eng);
          db = (if state = STATE_OK \<and> old_ack row \<noteq> 0
                then clear_acknowledgement (r_name r) subject db else db);
          res = \<lparr>o_rule = r_name r, o_subject = subject, o_state = state, o_transition = None,
            o_notified = False\<rparr>
      in case tr of
           None \<Rightarrow> (res, eng\<lparr>eng_db := db\<rparr>)
         | Some t \<Rightarrow>
             (let (notified, db) = notify chs (eng\<lparr>eng_db := db\<rparr>) r subject t severity summary detail
                    now recipient;
                  db = (if notified
                    then put_state (values\<lparr>v_last_notified := now, v_notify_count := notify_count + 1\<rparr>) db
                    else db)
              in (res\<lparr>o_transition := Some t, o_notified := notified\<rparr>, eng\<lparr>eng_db := db\<rparr>)))"

definition retire :: "int \<Rightarrow> alert_engine \<Rightarrow> rule \<Rightarrow> string \<Rightarrow> string \<Rightarrow> observed \<times> alert_engine" where
  "retire now eng r subject summary =
     (let res = \<lparr>o_rule = r_name r, o_subject = subject, o_state = STATE_OK, o_transition = None,
        o_notified = False\<rparr> in
      case get_state (eng_db eng) (r_name r) subject of
        None \<Rightarrow> (res, eng)
      | Some row \<Rightarrow>
          if v_state row = STATE_OK then (res, eng)
          else (res\<lparr>o_transition := Some TRANSITION_RETIRED\<rparr>,
            eng\<lparr>eng_db := snd (add_event (event now (r_name r) subject TRANSITION_RETIRED (v_severity row)
               (v_summary row) summary []) (drop_state (r_name r) subject (eng_db eng)))\<rparr>))"

definition observe :: "channel list \<Rightarrow> int \<Rightarrow> alert_engine \<Rightarrow> jobj \<Rightarrow> (observed \<times> alert_engine) result" where
  "observe chs now eng payload =
     (let rule_name = py_strip (str_or (jget ''rule'' payload) []) in
      case RULES_BY_NAME rule_name of
        None \<Rightarrow> Inl (ValueError (''unknown rule: '' @ repr_str rule_name))
      | Some r \<Rightarrow>
          (let subject = clean_text (jor (jget ''subject'' payload) (JStr ''-'')) MAX_SUBJECT_CHARS in
           if \<not> subject_ok subject
             then Inl (ValueError ''subject may use letters, digits and . _ : / @ * -'')
           else if r_kind r = KIND_LEVEL \<and> \<not> is_bool (jget ''active'' payload)
             then Inl (ValueError ''active must be true or false for a level condition'')
           else
             (let active = (r_kind r = KIND_EVENT \<or> jget ''active'' payload = JBool True);
                  sev = py_lower (py_strip (str_or (jget ''severity'' payload) (r_severity r)));
                  severity = (if sev \<in> set SEVERITIES then sev else r_severity r);
                  summary = clean_text (jor (jget ''summary'' payload) (JStr (r_title r))) MAX_TEXT_CHARS;
                  detail = clean_text (jget ''detail'' payload) MAX_TEXT_CHARS;
                  override_delay = (if jget ''trigger_delay'' payload \<noteq> JNull \<and> r_kind r = KIND_LEVEL
                    then Some (clamp_int (jget ''trigger_delay'' payload) (r_trigger_delay r) 0 86400)
                    else None);
                  recipient = py_strip (str_or (jget ''recipient'' payload) [])
              in if recipient \<noteq> [] \<and> \<not> email_ok recipient
                   then Inl (ValueError ''the recipient is not a valid email address'')
                 else if jget ''retired'' payload = JBool True \<and> r_kind r = KIND_LEVEL
                   then Inr (retire now eng r subject summary)
                 else Inr (apply_observation chs now eng r subject active severity summary detail
                        override_delay recipient))))"

section \<open>Periodic work\<close>

record sweep_counts =
  n_stale :: int
  n_expired :: int
  n_cleared :: int

text \<open>One row of the loop of \<open>sweep\<close>.\<close>

definition sweep_row :: "int \<Rightarrow> alert_row \<Rightarrow> sweep_counts \<times> alert_db \<Rightarrow> sweep_counts \<times> alert_db" where
  "sweep_row now row acc = (case acc of (n, db) \<Rightarrow>
     (case RULES_BY_NAME (v_rule row) of
        None \<Rightarrow> (n, drop_state (v_rule row) (v_subject row) db)
      | Some r \<Rightarrow>
          (let age = now - v_last_seen row; subject = v_subject row in
           if r_kind r = KIND_EVENT then
             (if r_auto_clear r \<le> age
              then (n\<lparr>n_cleared := n_cleared n + 1\<rparr>, drop_state (r_name r) subject db) else (n, db))
           else if age < r_stale_after r then (n, db)
           else if v_state row \<noteq> STATE_FIRING then
             (n\<lparr>n_cleared := n_cleared n + 1\<rparr>, drop_state (r_name r) subject db)
           else if v_stale_since row = 0 then
             (n\<lparr>n_stale := n_stale n + 1\<rparr>,
              snd (add_event (event now (r_name r) subject TRANSITION_STALE (v_severity row) (v_summary row)
                (''No report since '' @ iso (v_last_seen row) @
                 ''; the last reported state is kept until the source reports again.'') [])
                (mark_stale (r_name r) subject now db)))
           else if STALE_CLOSE_AFTER \<le> now - v_stale_since row then
             (n\<lparr>n_expired := n_expired n + 1\<rparr>,
              snd (add_event (event now (r_name r) subject TRANSITION_EXPIRED (v_severity row) (v_summary row)
                (''No report since '' @ iso (v_last_seen row) @ ''; closed without a recovery.'') [])
                (drop_state (r_name r) subject db)))
           else (n, db))))"

text \<open>\<open>prune_now\<close> is the clock when \<open>prune\<close> reads it; \<open>prune_fails\<close> says that its transaction
  raised, which \<open>sweep\<close> suppresses.\<close>

definition sweep :: "int \<Rightarrow> int \<Rightarrow> bool \<Rightarrow> alert_engine \<Rightarrow> sweep_counts \<times> alert_engine" where
  "sweep now prune_now prune_fails eng =
     (let (n, db) = fold (sweep_row now) (open_states (eng_db eng))
            (\<lparr>n_stale = 0, n_expired = 0, n_cleared = 0\<rparr>, eng_db eng);
          eng = eng\<lparr>eng_db := db\<rparr>
      in if 3600 \<le> now - eng_last_prune eng
         then (n, eng\<lparr>eng_last_prune := now,
                 eng_db := (if prune_fails then db else prune prune_now db)\<rparr>)
         else (n, eng))"

section \<open>The operator's hand\<close>

text \<open>The acknowledgement time, its author and the end of the mute that a mode asks for.\<close>

definition quiet_values :: "int \<Rightarrow> jobj \<Rightarrow> (int \<times> string \<times> int) result" where
  "quiet_values now payload =
     (let mode = str_or (jget ''mode'' payload) []; actor = clean_text (jor (jget ''by'' payload) (JStr [])) 120 in
      if mode = ''acknowledge'' then Inr (now, actor, 0)
      else if mode = ''mute'' then
        Inr (now, actor, now + clamp_int (jget ''seconds'' payload) 3600 300 MAX_MUTE_SECONDS)
      else if mode = ''clear'' then Inr (0, [], 0)
      else Inl (ValueError ''mode must be acknowledge, mute or clear''))"

definition quieten :: "int \<Rightarrow> alert_engine \<Rightarrow> jobj \<Rightarrow> ((int \<times> string \<times> int) \<times> alert_engine) result" where
  "quieten now eng payload =
     (case RULES_BY_NAME (str_or (jget ''rule'' payload) []) of
        None \<Rightarrow> Inl (ValueError ''unknown rule'')
      | Some r \<Rightarrow> ebind (quiet_values now payload) (\<lambda>(ack_ts, ack_by, muted).
          case set_quiet (r_name r) (str_or (jget ''subject'' payload) []) ack_ts ack_by muted (eng_db eng) of
            (found, db) \<Rightarrow> if found then Inr ((ack_ts, ack_by, muted), eng\<lparr>eng_db := db\<rparr>)
              else Inl (LookupError ''no such alert'')))"

definition dismiss :: "int \<Rightarrow> alert_engine \<Rightarrow> jobj \<Rightarrow> alert_engine result" where
  "dismiss now eng payload =
     (case RULES_BY_NAME (str_or (jget ''rule'' payload) []) of
        None \<Rightarrow> Inl (ValueError ''unknown rule'')
      | Some r \<Rightarrow>
          (let subject = str_or (jget ''subject'' payload) [];
               actor = clean_text (jor (jget ''by'' payload) (JStr [])) 120 in
           case get_state (eng_db eng) (r_name r) subject of
             None \<Rightarrow> Inl (LookupError ''no such alert'')
           | Some row \<Rightarrow>
               if r_kind r \<noteq> KIND_EVENT \<and> \<not> 0 < v_stale_since row
               then Inl (ValueError ''a condition that still holds cannot be dismissed; mute it instead'')
               else Inr (eng\<lparr>eng_db := snd (add_event (event now (r_name r) subject TRANSITION_DISMISSED
                      (v_severity row) (v_summary row)
                      (if actor \<noteq> [] then ''dismissed by '' @ actor else ''dismissed'') [])
                      (drop_state (r_name r) subject (eng_db eng)))\<rparr>)))"

primrec ints_of :: "json list \<Rightarrow> int list option" where
  "ints_of [] = Some []"
| "ints_of (v # vs) = (case (py_int v, ints_of vs) of (Some i, Some is) \<Rightarrow> Some (i # is) | _ \<Rightarrow> None)"

definition delete_history :: "alert_engine \<Rightarrow> jobj \<Rightarrow> (int \<times> alert_engine) result" where
  "delete_history eng payload =
     (let run = (\<lambda>q. case delete_events q (eng_db eng) of (n, db) \<Rightarrow> Inr (n, eng\<lparr>eng_db := db\<rparr>)) in
      if jget ''all'' payload = JBool True then run DeleteAll
      else if jget ''before'' payload \<noteq> JNull then
        (let t = clamp_int (jget ''before'' payload) 0 1 2000000000 in
         run (if t \<noteq> 0 then DeleteBefore t else DeleteIds []))
      else (case jget ''ids'' payload of
          JList ids \<Rightarrow>
            if ids = [] then Inl (ValueError ''ids, before or all is required'')
            else (case ints_of ids of None \<Rightarrow> Inl (ValueError ''ids must be numbers'')
              | Some wanted \<Rightarrow> run (DeleteIds wanted))
        | _ \<Rightarrow> Inl (ValueError ''ids, before or all is required'')))"

record portal_view =
  p_items :: "alert_row list"
  p_total :: nat
  p_critical :: nat
  p_quiet :: nat

definition portal_quiet :: "int \<Rightarrow> alert_row \<Rightarrow> bool" where
  "portal_quiet now row = (v_muted_until row > now \<or> (v_ack_ts row \<noteq> 0 \<and> v_muted_until row = 0))"

definition portal :: "int \<Rightarrow> alert_engine \<Rightarrow> portal_view" where
  "portal now eng =
     (let shown = filter (\<lambda>row. severity_rank (c_portal_min_severity (eng_config eng)) \<le> severity_rank (v_severity row))
            (active_alerts (eng_db eng));
          items = sort_key (\<lambda>row. (- int (severity_rank (v_severity row)), - v_since row))
            (filter (\<lambda>row. \<not> portal_quiet now row) shown)
      in \<lparr>p_items = take 20 items, p_total = length items,
          p_critical = length (filter (\<lambda>row. v_severity row = ''critical'') items),
          p_quiet = length (filter (portal_quiet now) shown)\<rparr>)"

section \<open>The relay's queue\<close>

text \<open>\<open>mail_queue_stuck\<close> over the lines of the output; \<open>loads\<close> is \<open>json.loads\<close>, \<open>None\<close> where it
  raises. Each result is the arrival time and the reason.\<close>

definition delay_reason :: "json \<Rightarrow> string" where
  "delay_reason recipients = (case recipients of
       JList rs \<Rightarrow> (case find (\<lambda>r. case r of JObj m \<Rightarrow> truthy (jget ''delay_reason'' m) | _ \<Rightarrow> False) rs of
           Some (JObj m) \<Rightarrow> clean_text (jget ''delay_reason'' m) 300
         | _ \<Rightarrow> [])
     | _ \<Rightarrow> [])"

definition stuck_message :: "int \<Rightarrow> json \<Rightarrow> (int \<times> string) option" where
  "stuck_message now message = (case message of
       JObj m \<Rightarrow>
         if jget ''queue_name'' m \<noteq> JStr ''deferred'' \<and> jget ''queue_name'' m \<noteq> JStr ''hold'' then None
         else (case py_int (jor (jget ''arrival_time'' m) (JInt 0)) of
             None \<Rightarrow> None
           | Some arrival \<Rightarrow>
               if arrival \<le> 0 \<or> now - arrival < MAIL_STUCK_SECONDS then None
               else Some (arrival, delay_reason (jget ''recipients'' m)))
     | _ \<Rightarrow> None)"

definition mail_queue_stuck :: "(string \<Rightarrow> json option) \<Rightarrow> string list \<Rightarrow> int \<Rightarrow> (int \<times> string) list" where
  "mail_queue_stuck loads lines now =
     List.map_filter (\<lambda>l. let line = py_strip l in
       if \<not> py_startswith line ''{'' then None
       else (case loads line of None \<Rightarrow> None | Some message \<Rightarrow> stuck_message now message)) lines"

text \<open>\<open>check_mail_queue\<close> once the relay has answered with \<open>lines\<close>: what it reports to \<open>observe\<close>.\<close>

definition mail_observation :: "(int \<times> string) list \<Rightarrow> int \<Rightarrow> jobj" where
  "mail_observation stuck now =
     (let oldest = fold max (map (\<lambda>m. now - fst m) stuck) 0;
          reason = (case find (\<lambda>m. snd m \<noteq> []) stuck of Some m \<Rightarrow> snd m | None \<Rightarrow> [])
      in [ (''rule'', JStr ''mail.delivery_failed''), (''subject'', JStr ''relay''),
           (''active'', JBool (stuck \<noteq> [])),
           (''summary'', JStr (if stuck \<noteq> []
              then ''Mail cannot be delivered: '' @ nat_to_str (length stuck) @ '' message(s) waiting, the oldest for ''
                     @ int_to_str (oldest div 60) @ '' min''
              else ''Mail is being delivered again'')),
           (''detail'', JStr (if reason \<noteq> [] then ''The relay's last reason: '' @ reason else [])) ])"

definition check_mail_queue :: "channel list \<Rightarrow> int \<Rightarrow> (string \<Rightarrow> json option) \<Rightarrow> string list \<Rightarrow> alert_engine
    \<Rightarrow> (bool \<times> alert_engine) result" where
  "check_mail_queue chs now loads lines eng =
     (let stuck = mail_queue_stuck loads lines now in
      ebind (observe chs now eng (mail_observation stuck now)) (\<lambda>(_, eng). Inr (stuck \<noteq> [], eng)))"

end
