(* ===== verification/Alert_Facts.thy ===== *)
theory Alert_Facts
  imports Alert_Engine
begin

text \<open>
  Facts about single operations of the alert engine: what a notification attempt writes, what an
  observation does to the stored row on every branch, and that each operation keeps the engine
  well formed. The history-level results are in \<open>Alert_Runs\<close>.
\<close>

section \<open>Severities\<close>

lemma severity_rank_simps [simp]:
  "severity_rank ''info'' = 0" "severity_rank ''warning'' = 1" "severity_rank ''critical'' = 2"
  by (simp_all add: severity_rank_def SEVERITIES_def)

section \<open>A notification attempt writes one event and no state\<close>

lemma alert_state_add_event [simp]: "alert_state (snd (add_event v db)) = alert_state db"
  by (simp add: add_event_def)

lemma alert_state_set_delivery [simp]: "alert_state (set_delivery i d e db) = alert_state db"
  by (simp add: set_delivery_def)

lemma alert_events_put_state [simp]: "alert_events (put_state v db) = alert_events db"
  by (simp add: put_state_def)

lemma alert_events_update_where [simp]: "alert_events (update_where f r s db) = alert_events db"
  by (simp add: update_where_def)

lemma alert_events_drop_state [simp]: "alert_events (drop_state r s db) = alert_events db"
  by (simp add: drop_state_def)

lemma alert_events_mark_stale [simp]: "alert_events (mark_stale r s t db) = alert_events db"
  by (simp add: mark_stale_def)

lemma alert_events_clear_acknowledgement [simp]:
  "alert_events (clear_acknowledgement r s db) = alert_events db"
  by (simp add: clear_acknowledgement_def)

lemma alert_events_set_quiet [simp]: "alert_events (snd (set_quiet r s a b m db)) = alert_events db"
  by (simp add: set_quiet_def)

lemma extend_event_sel [simp]:
  "ev_ts (event_values.extend v x) = ev_ts v"
  "ev_rule (event_values.extend v x) = ev_rule v"
  "ev_subject (event_values.extend v x) = ev_subject v"
  "ev_transition (event_values.extend v x) = ev_transition v"
  "ev_severity (event_values.extend v x) = ev_severity v"
  "ev_delivered (event_values.extend v x) = ev_delivered v"
  "ev_error (event_values.extend v x) = ev_error v"
  by (simp_all add: event_values.defs)

lemma extend_event_id [simp]: "ev_id (event_values.extend v \<lparr>ev_id = i\<rparr>) = i"
  by (simp add: event_values.defs)

lemma event_sel [simp]:
  "ev_ts (event t r s tr sev sm d e) = t"
  "ev_rule (event t r s tr sev sm d e) = r"
  "ev_subject (event t r s tr sev sm d e) = s"
  "ev_transition (event t r s tr sev sm d e) = tr"
  "ev_severity (event t r s tr sev sm d e) = sev"
  "ev_delivered (event t r s tr sev sm d e) = []"
  "ev_error (event t r s tr sev sm d e) = e"
  by (simp_all add: event_def)

lemma set_delivery_add_event:
  assumes "add_event v db = (i, db')"
  shows "alert_events (set_delivery i d err db') = alert_events db @
    [(event_values.extend v \<lparr>ev_id = i\<rparr>)\<lparr>ev_delivered := d, ev_error := take MAX_TEXT_CHARS err\<rparr>]"
proof -
  have i: "i = next_event_id db" and db': "alert_events db' = alert_events db @ [event_values.extend v \<lparr>ev_id = i\<rparr>]"
    using assms by (auto simp: add_event_def)
  have "map (\<lambda>e. if ev_id e = i then f e else e) (alert_events db) = alert_events db" for f
    using next_event_id_gt [of _ db] i by (fastforce intro: map_idI)
  then show ?thesis by (simp add: set_delivery_def db')
qed

lemma deliver_delivered_nonempty:
  "deliver chs c s b r = (d, e) \<Longrightarrow> d = [] \<Longrightarrow> e \<noteq> []"
  by (auto simp: deliver_def split: prod.splits if_splits)

text \<open>The event \<open>_notify\<close> leaves behind, on each of its three outcomes.\<close>

definition notify_event :: "channel list \<Rightarrow> alert_engine \<Rightarrow> rule \<Rightarrow> string \<Rightarrow> transition \<Rightarrow> string
    \<Rightarrow> string \<Rightarrow> string \<Rightarrow> int \<Rightarrow> string \<Rightarrow> bool \<times> event_values" where
  "notify_event chs eng r subject tr severity summary detail now recipient =
     (let ev = (\<lambda>t. event now (r_name r) subject t severity summary detail) in
      case refusal (eng_config eng) (eng_db eng) r subject tr severity now of
        Some reason \<Rightarrow> (False, ev tr reason)
      | None \<Rightarrow>
          if storming (eng_db eng) tr now
          then (False, ev TRANSITION_SUPPRESSED ''more than 8 notifications in 5 minutes'')
          else (let (ms, body) = render (eng_hostname eng) r subject tr severity summary detail now;
                    (d, e) = deliver chs (eng_config eng) ms body recipient
                in (d \<noteq> [], (ev tr [])\<lparr>ev_delivered := py_join '','' d,
                      ev_error := take MAX_TEXT_CHARS (py_join ''; '' e)\<rparr>)))"

lemma notify_writes_one_event:
  assumes "notify chs eng r subject tr severity summary detail now recipient = (ok, db')"
  shows "\<exists>v. notify_event chs eng r subject tr severity summary detail now recipient = (ok, v) \<and>
    alert_state db' = alert_state (eng_db eng) \<and>
    alert_events db' = alert_events (eng_db eng)
      @ [event_values.extend v \<lparr>ev_id = next_event_id (eng_db eng)\<rparr>]"
proof (cases "refusal (eng_config eng) (eng_db eng) r subject tr severity now")
  case (Some reason)
  with assms show ?thesis by (auto simp: notify_def notify_event_def Let_def add_event_def)
next
  case None
  show ?thesis
  proof (cases "storming (eng_db eng) tr now")
    case True
    with None assms show ?thesis by (auto simp: notify_def notify_event_def Let_def add_event_def)
  next
    case False
    obtain i db1 where a: "add_event (event now (r_name r) subject tr severity summary detail []) (eng_db eng) = (i, db1)"
      by fastforce
    then have i: "i = next_event_id (eng_db eng)" by (simp add: add_event_def)
    obtain ms body where m: "render (eng_hostname eng) r subject tr severity summary detail now = (ms, body)"
      by fastforce
    obtain d e where d: "deliver chs (eng_config eng) ms body recipient = (d, e)" by fastforce
    have st: "alert_state db1 = alert_state (eng_db eng)" using a by (auto simp: add_event_def)
    show ?thesis
      using None False assms set_delivery_add_event [OF a, of "py_join '','' d" "py_join ''; '' e"] st i
      by (auto simp: notify_def notify_event_def a m d event_values.defs)
  qed
qed

lemma notify_state:
  "notify chs eng r subject tr severity summary detail now recipient = (ok, db') \<Longrightarrow>
   alert_state db' = alert_state (eng_db eng)"
  using notify_writes_one_event by blast

lemma get_state_cong: "alert_state db = alert_state db' \<Longrightarrow> get_state db r s = get_state db' r s"
  by (simp add: get_state_def)

lemma db_ok_notify:
  assumes "db_ok (eng_db eng)" "notify chs eng r subject tr severity summary detail now recipient = (ok, db')"
  shows "db_ok db'"
proof -
  obtain v where v: "alert_state db' = alert_state (eng_db eng)"
    "alert_events db' = alert_events (eng_db eng) @ [event_values.extend v \<lparr>ev_id = next_event_id (eng_db eng)\<rparr>]"
    using notify_writes_one_event [OF assms(2)] by blast
  then have "db' = snd (add_event v (eng_db eng))"
    by (simp add: add_event_def)
  then show ?thesis using assms(1) by (simp add: db_ok_add_event)
qed

section \<open>An observation\<close>

lemma get_clear_acknowledgement:
  "get_state (clear_acknowledgement r' s' db) r s =
     (if (r, s) = (r', s') then map_option (\<lambda>row. row\<lparr>v_ack_ts := 0, v_ack_by := []\<rparr>) (get_state db r s)
      else get_state db r s)"
  unfolding clear_acknowledgement_def by (rule get_update_where) (simp add: row_key_def)

abbreviation decision :: "int \<Rightarrow> alert_engine \<Rightarrow> rule \<Rightarrow> string \<Rightarrow> bool \<Rightarrow> string \<Rightarrow> int option
    \<Rightarrow> alert_status \<times> int \<times> int \<times> int \<times> transition option" where
  "decision now eng r subject active severity od \<equiv>
     decide now active severity (settings_delay (eng_config eng) r od)
       (s_repeat_after (settings_for (eng_config eng) r)) (get_state (eng_db eng) (r_name r) subject)"

text \<open>The database \<open>_apply\<close> has written before it notifies.\<close>

definition stored_db :: "alert_engine \<Rightarrow> rule \<Rightarrow> string \<Rightarrow> state_values \<Rightarrow> alert_db" where
  "stored_db eng r subject v =
     (if v_state v = STATE_OK \<and> old_ack (get_state (eng_db eng) (r_name r) subject) \<noteq> 0
      then clear_acknowledgement (r_name r) subject (put_state v (eng_db eng))
      else put_state v (eng_db eng))"

definition observed_values :: "int \<Rightarrow> alert_engine \<Rightarrow> rule \<Rightarrow> string \<Rightarrow> bool \<Rightarrow> string \<Rightarrow> string \<Rightarrow> string
    \<Rightarrow> int option \<Rightarrow> string \<Rightarrow> state_values" where
  "observed_values now eng r subject active severity summary detail od recipient =
     (case decision now eng r subject active severity od of (st, since, fs, nc, tr) \<Rightarrow>
        \<lparr>v_rule = r_name r, v_subject = subject, v_state = st, v_severity = severity,
         v_since = since, v_first_seen = fs, v_last_seen = now,
         v_last_notified = old_notified (get_state (eng_db eng) (r_name r) subject), v_notify_count = nc,
         v_summary = summary, v_detail = detail, v_trigger_delay = od, v_recipient = recipient\<rparr>)"

lemma apply_observation_eq:
  assumes "decision now eng r subject active severity od = (st, since, fs, nc, tr)"
  shows "apply_observation chs now eng r subject active severity summary detail od recipient =
    (let v = observed_values now eng r subject active severity summary detail od recipient;
         db = stored_db eng r subject v;
         res = \<lparr>o_rule = r_name r, o_subject = subject, o_state = st, o_transition = tr, o_notified = False\<rparr>
     in case tr of None \<Rightarrow> (res, eng\<lparr>eng_db := db\<rparr>)
        | Some t \<Rightarrow> (case notify chs (eng\<lparr>eng_db := db\<rparr>) r subject t severity summary detail now recipient of
            (ok, db') \<Rightarrow> (res\<lparr>o_notified := ok\<rparr>, eng\<lparr>eng_db :=
              (if ok then put_state (v\<lparr>v_last_notified := now, v_notify_count := nc + 1\<rparr>) db' else db')\<rparr>)))"
proof (cases tr)
  case None
  then show ?thesis
    using assms by (simp add: apply_observation_def Let_def observed_values_def stored_db_def)
next
  case (Some t)
  then show ?thesis
    using assms
    by (simp add: apply_observation_def Let_def observed_values_def stored_db_def split: prod.split)
qed

lemma get_stored_db:
  assumes "v_rule v = r_name r" "v_subject v = subject"
  shows "get_state (stored_db eng r subject v) r' s' =
    (if (r', s') = (r_name r, subject)
     then (let row = merged_row (get_state (eng_db eng) r' s') v in
           Some (if v_state v = STATE_OK \<and> old_ack (get_state (eng_db eng) (r_name r) subject) \<noteq> 0
                 then row\<lparr>v_ack_ts := 0, v_ack_by := []\<rparr> else row))
     else get_state (eng_db eng) r' s')"
proof -
  have k: "row_key v = (r_name r, subject)" using assms by (simp add: row_key_def)
  show ?thesis
    unfolding stored_db_def if_distrib [of "\<lambda>db. get_state db r' s'"] get_clear_acknowledgement
      get_put_state k Let_def
    by (cases "(r', s') = (r_name r, subject)";
        cases "v_state v = STATE_OK \<and> old_ack (get_state (eng_db eng) (r_name r) subject) \<noteq> 0")
       (simp_all only: if_True if_False option.map simp_thms if_cancel)
qed

lemma merged_row_sel [simp]:
  "v_state (merged_row old v) = v_state v" "v_severity (merged_row old v) = v_severity v"
  "v_since (merged_row old v) = v_since v" "v_last_seen (merged_row old v) = v_last_seen v"
  "v_last_notified (merged_row old v) = v_last_notified v" "v_notify_count (merged_row old v) = v_notify_count v"
  "v_summary (merged_row old v) = v_summary v" "v_stale_since (merged_row old v) = 0"
  "v_recipient (merged_row old v) = v_recipient v"
  "v_first_seen (merged_row old v) = (case old of None \<Rightarrow> v_first_seen v | Some x \<Rightarrow> v_first_seen x)"
  "v_ack_ts (merged_row old v) = old_ack old"
  "v_muted_until (merged_row old v) = (case old of None \<Rightarrow> 0 | Some x \<Rightarrow> v_muted_until x)"
  by (simp_all add: merged_row_def old_ack_def split: option.splits)

text \<open>What is stored after an observation, field by field.\<close>

definition observed_row :: "int \<Rightarrow> alert_row option \<Rightarrow> string \<Rightarrow> alert_status \<times> int \<times> int \<times> int \<times> transition option
    \<Rightarrow> bool \<Rightarrow> alert_row \<Rightarrow> bool" where
  "observed_row now old severity d ok row = (case d of (st, since, fs, nc, tr) \<Rightarrow>
     v_state row = st \<and> v_severity row = severity \<and> v_since row = since \<and> v_last_seen row = now \<and>
     v_first_seen row = (case old of None \<Rightarrow> fs | Some x \<Rightarrow> v_first_seen x) \<and>
     v_last_notified row = (if ok then now else old_notified old) \<and>
     v_notify_count row = (if ok then nc + 1 else nc) \<and>
     v_muted_until row = (case old of None \<Rightarrow> 0 | Some x \<Rightarrow> v_muted_until x) \<and>
     v_ack_ts row = (if st = STATE_OK then 0 else old_ack old) \<and> v_stale_since row = 0)"

lemma apply_observation_row:
  assumes "apply_observation chs now eng r subject active severity summary detail od recipient = (res, eng')"
  shows "\<exists>row. get_state (eng_db eng') (r_name r) subject = Some row \<and>
    observed_row now (get_state (eng_db eng) (r_name r) subject) severity
      (decision now eng r subject active severity od) (o_notified res) row"
proof -
  obtain st since fs nc tr where d: "decision now eng r subject active severity od = (st, since, fs, nc, tr)"
    by (metis prod_cases5)
  let ?v = "observed_values now eng r subject active severity summary detail od recipient"
  let ?old = "get_state (eng_db eng) (r_name r) subject"
  have v: "v_rule ?v = r_name r" "v_subject ?v = subject" "v_state ?v = st" "v_severity ?v = severity"
    "v_since ?v = since" "v_first_seen ?v = fs" "v_last_seen ?v = now" "v_notify_count ?v = nc"
    "v_last_notified ?v = old_notified ?old"
    by (simp_all add: observed_values_def d)
  let ?db = "stored_db eng r subject ?v"
  let ?row = "merged_row ?old ?v"
  let ?row0 = "if st = STATE_OK \<and> old_ack ?old \<noteq> 0 then ?row\<lparr>v_ack_ts := 0, v_ack_by := []\<rparr> else ?row"
  have "observed_row now ?old severity (st, since, fs, nc, tr) False ?row0"
    by (simp add: observed_row_def v cong: option.case_cong)
  moreover have "get_state ?db (r_name r) subject = Some ?row0"
    by (simp add: get_stored_db [OF v(1,2)] v Let_def)
  ultimately obtain row0 where row0: "get_state ?db (r_name r) subject = Some row0"
      "observed_row now ?old severity (st, since, fs, nc, tr) False row0"
    by blast
  show ?thesis
  proof (cases tr)
    case None
    then show ?thesis
      using assms row0 d by (auto simp: apply_observation_eq [OF d] Let_def)
  next
    case (Some t)
    obtain ok db' where n: "notify chs (eng\<lparr>eng_db := ?db\<rparr>) r subject t severity summary detail now recipient = (ok, db')"
      by fastforce
    have g: "get_state db' (r_name r) subject = Some row0"
      using row0 get_state_cong [OF notify_state [OF n]] by simp
    have e: "res = \<lparr>o_rule = r_name r, o_subject = subject, o_state = st, o_transition = tr, o_notified = ok\<rparr>"
      "eng' = eng\<lparr>eng_db := (if ok then put_state (?v\<lparr>v_last_notified := now, v_notify_count := nc + 1\<rparr>) db' else db')\<rparr>"
      using assms Some n by (auto simp: apply_observation_eq [OF d] Let_def)
    show ?thesis
      using row0(2) g unfolding e d
      by (auto simp: get_put_state row_key_def v merged_row_def observed_row_def)
  qed
qed

lemma apply_observation_frame:
  assumes "apply_observation chs now eng r subject active severity summary detail od recipient = (res, eng')"
  shows "eng_config eng' = eng_config eng" "eng_hostname eng' = eng_hostname eng"
    "eng_last_prune eng' = eng_last_prune eng"
    "(r', s') \<noteq> (r_name r, subject) \<Longrightarrow> get_state (eng_db eng') r' s' = get_state (eng_db eng) r' s'"
    "o_state res = fst (decision now eng r subject active severity od)"
    "o_transition res = snd (snd (snd (snd (decision now eng r subject active severity od))))"
proof -
  obtain st since fs nc tr where d: "decision now eng r subject active severity od = (st, since, fs, nc, tr)"
    by (metis prod_cases5)
  let ?v = "observed_values now eng r subject active severity summary detail od recipient"
  let ?db = "stored_db eng r subject ?v"
  have v: "v_rule ?v = r_name r" "v_subject ?v = subject" by (simp_all add: observed_values_def d)
  have eq: "eng_config eng' = eng_config eng \<and> eng_hostname eng' = eng_hostname eng \<and>
     eng_last_prune eng' = eng_last_prune eng \<and> o_state res = st \<and> o_transition res = tr \<and>
     ((r', s') \<noteq> (r_name r, subject) \<longrightarrow> get_state (eng_db eng') r' s' = get_state (eng_db eng) r' s')"
  proof (cases tr)
    case None
    then show ?thesis using assms by (auto simp: apply_observation_eq [OF d] Let_def get_stored_db [OF v])
  next
    case (Some t)
    obtain ok db' where n: "notify chs (eng\<lparr>eng_db := ?db\<rparr>) r subject t severity summary detail now recipient = (ok, db')"
      by fastforce
    have "get_state db' r' s' = get_state ?db r' s'" using get_state_cong [OF notify_state [OF n]] by simp
    then show ?thesis
      using assms Some n v
      by (auto simp: apply_observation_eq [OF d] Let_def get_stored_db [OF v] get_put_state row_key_def)
  qed
  then show "eng_config eng' = eng_config eng" "eng_hostname eng' = eng_hostname eng"
    "eng_last_prune eng' = eng_last_prune eng"
    "(r', s') \<noteq> (r_name r, subject) \<Longrightarrow> get_state (eng_db eng') r' s' = get_state (eng_db eng) r' s'"
    "o_state res = fst (decision now eng r subject active severity od)"
    "o_transition res = snd (snd (snd (snd (decision now eng r subject active severity od))))"
    by (auto simp: d)
qed

text \<open>The history grows by exactly one event when there is a transition, and not otherwise.\<close>

lemma apply_observation_events:
  assumes "apply_observation chs now eng r subject active severity summary detail od recipient = (res, eng')"
  shows "case o_transition res of
      None \<Rightarrow> alert_events (eng_db eng') = alert_events (eng_db eng) \<and> \<not> o_notified res
    | Some t \<Rightarrow> \<exists>db v. notify_event chs (eng\<lparr>eng_db := db\<rparr>) r subject t severity summary detail now recipient
          = (o_notified res, v) \<and> alert_events db = alert_events (eng_db eng) \<and>
        alert_events (eng_db eng') = alert_events (eng_db eng)
          @ [event_values.extend v \<lparr>ev_id = next_event_id (eng_db eng)\<rparr>]"
proof -
  obtain st since fs nc tr where d: "decision now eng r subject active severity od = (st, since, fs, nc, tr)"
    by (metis prod_cases5)
  let ?v = "observed_values now eng r subject active severity summary detail od recipient"
  let ?db = "stored_db eng r subject ?v"
  have ev: "alert_events ?db = alert_events (eng_db eng)" by (simp add: stored_db_def)
  then have nid: "next_event_id ?db = next_event_id (eng_db eng)" by (simp add: next_event_id_def)
  show ?thesis
  proof (cases tr)
    case None
    then show ?thesis using assms ev by (auto simp: apply_observation_eq [OF d] Let_def)
  next
    case (Some t)
    obtain ok db' where n: "notify chs (eng\<lparr>eng_db := ?db\<rparr>) r subject t severity summary detail now recipient = (ok, db')"
      by fastforce
    obtain v where v: "notify_event chs (eng\<lparr>eng_db := ?db\<rparr>) r subject t severity summary detail now recipient = (ok, v)"
      "alert_events db' = alert_events (eng_db eng) @ [event_values.extend v \<lparr>ev_id = next_event_id (eng_db eng)\<rparr>]"
      using notify_writes_one_event [OF n] ev nid by auto
    have e: "o_transition res = Some t" "o_notified res = ok" "alert_events (eng_db eng') = alert_events db'"
      using assms Some n by (auto simp: apply_observation_eq [OF d] Let_def)
    show ?thesis unfolding e option.case
      by (intro exI [of _ ?db] exI [of _ v] conjI) (fact v ev)+
  qed
qed

lemma db_ok_apply_observation:
  assumes "db_ok (eng_db eng)"
    "apply_observation chs now eng r subject active severity summary detail od recipient = (res, eng')"
  shows "db_ok (eng_db eng')"
proof -
  obtain st since fs nc tr where d: "decision now eng r subject active severity od = (st, since, fs, nc, tr)"
    by (metis prod_cases5)
  have st: "db_ok (stored_db eng r subject v)" for v using assms(1) by (auto simp: stored_db_def)
  show ?thesis
  proof (cases tr)
    case None
    then show ?thesis using assms(2) st by (auto simp: apply_observation_eq [OF d] Let_def)
  next
    case (Some t)
    then show ?thesis
      using assms(2) st
      by (auto simp: apply_observation_eq [OF d] Let_def split: prod.splits if_splits
          intro!: db_ok_put_state elim!: db_ok_notify [rotated])
  qed
qed

end
