(* ===== verification/Alert_Runs.thy ===== *)
theory Alert_Runs
  imports Alert_Facts
begin

text \<open>
  Executions of the alert engine: a step relation with one rule per operation (the clock never
  goes back between steps), an invariant of every reachable engine, and what it gives: the storm
  bound on delivered messages, one history row per decision, alternation of "fired" and
  "recovered", and the fate of a condition nobody reports any more.
\<close>

section \<open>Steps and reachable engines\<close>

inductive alert_step :: "int \<times> alert_engine \<Rightarrow> int \<times> alert_engine \<Rightarrow> bool" where
  step_observe: "t \<le> now \<Longrightarrow> observe chs now eng p = Inr (res, eng') \<Longrightarrow> alert_step (t, eng) (now, eng')"
| step_sweep: "t \<le> now \<Longrightarrow> sweep now prune_now prune_fails eng = (n, eng') \<Longrightarrow> alert_step (t, eng) (now, eng')"
| step_quieten: "t \<le> now \<Longrightarrow> quieten now eng p = Inr (q, eng') \<Longrightarrow> alert_step (t, eng) (now, eng')"
| step_dismiss: "t \<le> now \<Longrightarrow> dismiss now eng p = Inr eng' \<Longrightarrow> alert_step (t, eng) (now, eng')"
| step_delete: "t \<le> now \<Longrightarrow> delete_history eng p = Inr (k, eng') \<Longrightarrow> alert_step (t, eng) (now, eng')"
| step_config: "t \<le> now \<Longrightarrow> update_config resolve (eng_config eng) j = Inr c \<Longrightarrow>
    alert_step (t, eng) (now, eng\<lparr>eng_config := c\<rparr>)"
| step_mail: "t \<le> now \<Longrightarrow> check_mail_queue chs now loads lines eng = Inr (b, eng') \<Longrightarrow>
    alert_step (t, eng) (now, eng')"

definition fresh_engine :: "config_file \<Rightarrow> string \<Rightarrow> alert_engine" where
  "fresh_engine f host = \<lparr>eng_config = load_config f, eng_db = \<lparr>alert_state = [], alert_events = []\<rparr>,
     eng_hostname = host, eng_last_prune = 0\<rparr>"

inductive alert_reachable :: "int \<times> alert_engine \<Rightarrow> bool" where
  start: "0 < t \<Longrightarrow> alert_reachable (t, fresh_engine f host)"
| step: "alert_reachable s \<Longrightarrow> alert_step s s' \<Longrightarrow> alert_reachable s'"

section \<open>The invariant\<close>

definition row_ok :: "int \<Rightarrow> alert_row \<Rightarrow> bool" where
  "row_ok t row = (v_severity row \<in> set SEVERITIES \<and> RULES_BY_NAME (v_rule row) \<noteq> None \<and>
     v_since row \<le> t \<and> v_last_seen row \<le> t \<and> v_last_notified row \<le> t \<and> v_stale_since row \<le> t)"

definition sent :: "event_row \<Rightarrow> bool" where
  "sent e = ((ev_transition e = TRANSITION_FIRED \<or> ev_transition e = TRANSITION_REPEATED) \<and> ev_delivered e \<noteq> [])"

text \<open>The messages about a beginning or continuing condition delivered in the storm window that
  ends at \<open>u\<close>.\<close>

definition sent_in_window :: "int \<Rightarrow> alert_db \<Rightarrow> nat" where
  "sent_in_window u db = length (filter (\<lambda>e. sent e \<and> u - STORM_WINDOW_SECONDS \<le> ev_ts e \<and> ev_ts e \<le> u)
     (alert_events db))"

definition events_ok :: "int \<Rightarrow> alert_db \<Rightarrow> bool" where
  "events_ok t db = ((\<forall>e \<in> set (alert_events db). ev_ts e \<le> t) \<and>
     (\<forall>u. sent_in_window u db \<le> STORM_MAX_NOTIFICATIONS))"

definition rows_ok :: "int \<Rightarrow> alert_db \<Rightarrow> bool" where
  "rows_ok t db = (\<forall>r s row. get_state db r s = Some row \<longrightarrow> row_ok t row)"

definition eng_inv :: "int \<times> alert_engine \<Rightarrow> bool" where
  "eng_inv s = (case s of (t, eng) \<Rightarrow> 0 < t \<and> cfg_ok (eng_config eng) \<and> db_ok (eng_db eng) \<and>
     rows_ok t (eng_db eng) \<and> events_ok t (eng_db eng))"

lemma row_ok_mono: "row_ok t row \<Longrightarrow> t \<le> t' \<Longrightarrow> row_ok t' row"
  by (auto simp: row_ok_def)

lemma rows_ok_mono: "rows_ok t db \<Longrightarrow> t \<le> t' \<Longrightarrow> rows_ok t' db"
  by (auto simp: rows_ok_def intro: row_ok_mono)

lemma events_ok_mono: "events_ok t db \<Longrightarrow> t \<le> t' \<Longrightarrow> events_ok t' db"
  by (force simp: events_ok_def)

lemma events_ok_cong: "alert_events db = alert_events db' \<Longrightarrow> events_ok t db = events_ok t db'"
  by (simp add: events_ok_def sent_in_window_def)

lemma rows_ok_cong: "alert_state db = alert_state db' \<Longrightarrow> rows_ok t db = rows_ok t db'"
  by (simp add: rows_ok_def get_state_def)

subsection \<open>Events\<close>

lemma events_ok_append:
  assumes "events_ok t db" "t \<le> now" "alert_events db' = alert_events db @ [e]" "ev_ts e = now"
    "sent e \<Longrightarrow> notifications_since (now - STORM_WINDOW_SECONDS) db < STORM_MAX_NOTIFICATIONS"
  shows "events_ok now db'"
proof -
  have le: "\<forall>x \<in> set (alert_events db). ev_ts x \<le> now"
    using assms(1,2) by (force simp: events_ok_def)
  have "sent_in_window u db' \<le> STORM_MAX_NOTIFICATIONS" for u
  proof (cases "sent e \<and> now \<le> u \<and> u - STORM_WINDOW_SECONDS \<le> now")
    case False
    then have "sent_in_window u db' = sent_in_window u db"
      using assms(3,4) by (auto simp: sent_in_window_def)
    then show ?thesis using assms(1) by (simp add: events_ok_def)
  next
    case True
    let ?A = "\<lambda>x. sent x \<and> u - STORM_WINDOW_SECONDS \<le> ev_ts x \<and> ev_ts x \<le> u"
    let ?B = "\<lambda>x. now - STORM_WINDOW_SECONDS \<le> ev_ts x \<and>
      (ev_transition x = TRANSITION_FIRED \<or> ev_transition x = TRANSITION_REPEATED)"
    have "filter ?A (alert_events db) = filter ?A (filter ?B (alert_events db))"
      using True by (auto simp: sent_def intro!: filter_cong)
    then have "sent_in_window u db \<le> notifications_since (now - STORM_WINDOW_SECONDS) db"
      by (simp add: sent_in_window_def notifications_since_def del: filter_filter)
    moreover have "sent_in_window u db' \<le> Suc (sent_in_window u db)"
      using assms(3) by (simp add: sent_in_window_def)
    ultimately show ?thesis using assms(5) True by simp
  qed
  then show ?thesis using le assms(3,4) by (simp add: events_ok_def)
qed

lemma events_ok_filter:
  assumes "events_ok t db" "alert_events db' = filter P (alert_events db)"
  shows "events_ok t db'"
proof -
  have "sent_in_window u db' \<le> sent_in_window u db" for u
  proof -
    let ?Q = "\<lambda>e. sent e \<and> u - STORM_WINDOW_SECONDS \<le> ev_ts e \<and> ev_ts e \<le> u"
    have "filter ?Q (filter P (alert_events db)) = filter P (filter ?Q (alert_events db))"
      by (auto intro: filter_cong)
    then show ?thesis
      by (simp add: sent_in_window_def assms(2) del: filter_filter)
  qed
  then show ?thesis using assms by (fastforce simp: events_ok_def intro: order_trans)
qed

lemma notify_event_gate:
  assumes "notify_event chs eng r subject tr severity summary detail now recipient = (ok, v)"
  shows "ev_ts v = now"
    and "ev_delivered v \<noteq> [] \<Longrightarrow> ev_transition v = tr \<and> \<not> storming (eng_db eng) tr now"
  using assms by (auto simp: notify_event_def Let_def split: option.splits if_splits prod.splits)

lemma notify_events_ok:
  assumes "notify_event chs eng r subject tr severity summary detail now recipient = (ok, v)"
    and "alert_events db = alert_events (eng_db eng)" "events_ok t db" "t \<le> now"
    and "alert_events db' = alert_events db @ [event_values.extend v \<lparr>ev_id = i\<rparr>]"
  shows "events_ok now db'"
proof (rule events_ok_append [OF assms(3,4,5)])
  show "ev_ts (event_values.extend v \<lparr>ev_id = i\<rparr>) = now" using notify_event_gate(1) [OF assms(1)] by simp
  assume "sent (event_values.extend v \<lparr>ev_id = i\<rparr>)"
  then have "ev_transition v = tr" "\<not> storming (eng_db eng) tr now"
    "tr = TRANSITION_FIRED \<or> tr = TRANSITION_REPEATED"
    using notify_event_gate(2) [OF assms(1)] by (auto simp: sent_def)
  then show "notifications_since (now - STORM_WINDOW_SECONDS) db < STORM_MAX_NOTIFICATIONS"
    using assms(2) by (auto simp: storming_def notifications_since_def)
qed

lemma events_ok_add_quiet_event:
  assumes "events_ok t db" "t \<le> now" "ev_ts v = now" "ev_delivered v = []"
  shows "events_ok now (snd (add_event v db))"
proof -
  have "alert_events (snd (add_event v db)) = alert_events db @ [event_values.extend v \<lparr>ev_id = next_event_id db\<rparr>]"
    by (simp add: add_event_def)
  then show ?thesis by (rule events_ok_append [OF assms(1,2)]) (use assms in \<open>auto simp: sent_def\<close>)
qed

subsection \<open>Rows\<close>

lemma decide_times:
  assumes "decide now active severity delay rep row = (st, since, fs, nc, tr)"
    "\<And>x. row = Some x \<Longrightarrow> v_since x \<le> now"
  shows "since \<le> now"
  using assms
  by (auto simp: decide_def Let_def split: if_splits option.splits alert_status.splits prod.splits)

lemma observe_cases:
  assumes "observe chs now eng p = Inr (res, eng')"
  obtains (retire) r subject summary where
      "RULES_BY_NAME (r_name r) = Some r" "r_kind r = KIND_LEVEL" "subject_ok subject"
      "retire now eng r subject summary = (res, eng')"
  | (applied) r subject active severity summary detail od recipient where
      "RULES_BY_NAME (r_name r) = Some r" "subject_ok subject" "severity \<in> set SEVERITIES"
      "recipient = [] \<or> email_ok recipient"
      "r_kind r = KIND_EVENT \<Longrightarrow> active \<and> od = None"
      "apply_observation chs now eng r subject active severity summary detail od recipient = (res, eng')"
proof -
  obtain r where r: "RULES_BY_NAME (py_strip (str_or (jget ''rule'' p) [])) = Some r"
    using assms by (auto simp: observe_def Let_def split: option.splits)
  have r': "RULES_BY_NAME (r_name r) = Some r" using r by (simp add: rule_bounds(1) [OF r])
  have s: "r_severity r \<in> set SEVERITIES" using rule_bounds(2) [OF r] .
  let ?subject = "clean_text (jor (jget ''subject'' p) (JStr ''-'')) MAX_SUBJECT_CHARS"
  let ?active = "r_kind r = KIND_EVENT \<or> jget ''active'' p = JBool True"
  let ?sev = "py_lower (py_strip (str_or (jget ''severity'' p) (r_severity r)))"
  let ?severity = "if ?sev \<in> set SEVERITIES then ?sev else r_severity r"
  let ?summary = "clean_text (jor (jget ''summary'' p) (JStr (r_title r))) MAX_TEXT_CHARS"
  let ?detail = "clean_text (jget ''detail'' p) MAX_TEXT_CHARS"
  let ?od = "if jget ''trigger_delay'' p \<noteq> JNull \<and> r_kind r = KIND_LEVEL
    then Some (clamp_int (jget ''trigger_delay'' p) (r_trigger_delay r) 0 86400) else None"
  let ?recipient = "py_strip (str_or (jget ''recipient'' p) [])"
  note eq = assms [unfolded observe_def Let_def r option.case]
  have ok: "subject_ok ?subject" and rec: "?recipient = [] \<or> email_ok ?recipient"
    using eq by (metis sum.distinct(1))+
  have sev: "?severity \<in> set SEVERITIES" using s by simp
  show ?thesis
  proof (cases "jget ''retired'' p = JBool True \<and> r_kind r = KIND_LEVEL")
    case True
    then have "retire now eng r ?subject ?summary = (res, eng')"
      using eq by (metis sum.distinct(1) sum.inject(2))
    then show ?thesis using retire [OF r' _ ok] True by blast
  next
    case False
    then have ap: "apply_observation chs now eng r ?subject ?active ?severity ?summary ?detail ?od ?recipient = (res, eng')"
      using eq by (metis sum.distinct(1) sum.inject(2))
    show ?thesis by (rule applied [OF r' ok sev rec _ ap]) simp
  qed
qed

lemma rows_ok_apply_observation:
  assumes inv: "rows_ok t (eng_db eng)" "t \<le> now" "0 < now" "severity \<in> set SEVERITIES"
    "RULES_BY_NAME (r_name r) = Some r"
    and ap: "apply_observation chs now eng r subject active severity summary detail od recipient = (res, eng')"
  shows "rows_ok now (eng_db eng')"
  unfolding rows_ok_def
proof (intro allI impI)
  fix r' s' row
  assume g: "get_state (eng_db eng') r' s' = Some row"
  let ?old = "get_state (eng_db eng) (r_name r) subject"
  have old: "row_ok now x" if "get_state (eng_db eng) a b = Some x" for a b x
    using inv(1,2) that by (auto simp: rows_ok_def intro: row_ok_mono)
  show "row_ok now row"
  proof (cases "(r', s') = (r_name r, subject)")
    case False
    then show ?thesis using g apply_observation_frame(4) [OF ap False] old by simp
  next
    case True
    obtain st since fs nc tr where d: "decision now eng r subject active severity od = (st, since, fs, nc, tr)"
      by (metis prod_cases5)
    have o: "observed_row now ?old severity (st, since, fs, nc, tr) (o_notified res) row"
      using apply_observation_row [OF ap] g True d by auto
    have "since \<le> now" using decide_times [OF d] old by (auto simp: row_ok_def)
    moreover have "old_notified ?old \<le> now"
      using old inv(3) by (auto simp: old_notified_def row_ok_def split: option.splits)
    moreover have "RULES_BY_NAME (v_rule row) \<noteq> None"
      using get_state_key [OF g] True inv(5) by (simp add: row_key_def)
    ultimately show ?thesis using o inv(3,4) by (auto simp: observed_row_def row_ok_def)
  qed
qed

lemma rows_ok_drop: "rows_ok t db \<Longrightarrow> rows_ok t (drop_state r s db)"
  by (simp add: rows_ok_def get_drop_state)

lemma rows_ok_mark: "rows_ok t db \<Longrightarrow> rows_ok t (mark_stale r s t db)"
  by (auto simp: rows_ok_def get_mark_stale row_ok_def)

lemma rows_ok_set_quiet: "rows_ok t db \<Longrightarrow> rows_ok t (snd (set_quiet r s a b m db))"
proof -
  have "get_state (snd (set_quiet r s a b m db)) r' s' =
    (if (r', s') = (r, s) then map_option (\<lambda>row. row\<lparr>v_ack_ts := a, v_ack_by := take 120 b, v_muted_until := m\<rparr>)
       (get_state db r' s') else get_state db r' s')" for r' s'
    unfolding set_quiet_def snd_conv by (rule get_update_where) (simp add: row_key_def)
  then show "rows_ok t db \<Longrightarrow> rows_ok t (snd (set_quiet r s a b m db))"
    by (auto simp: rows_ok_def row_ok_def)
qed

lemma find_member:
  "distinct (map row_key rows) \<Longrightarrow> (row :: alert_row) \<in> set rows \<Longrightarrow>
   find (row_is (v_rule row) (v_subject row)) rows = Some row"
  by (induction rows) (auto simp: row_is_key row_key_def image_iff)

lemma get_state_member:
  "db_ok db \<Longrightarrow> row \<in> set (alert_state db) \<Longrightarrow> get_state db (v_rule row) (v_subject row) = Some row"
  unfolding get_state_def db_ok_def by (rule find_member) simp_all

lemma rows_ok_members: "db_ok db \<Longrightarrow> rows_ok t db \<longleftrightarrow> (\<forall>row \<in> set (alert_state db). row_ok t row)"
proof
  assume ok: "db_ok db" and r: "rows_ok t db"
  show "\<forall>row \<in> set (alert_state db). row_ok t row"
  proof
    fix row
    assume m: "row \<in> set (alert_state db)"
    have "get_state db (v_rule row) (v_subject row) = Some row" using ok m by (rule get_state_member)
    then show "row_ok t row" using r by (auto simp: rows_ok_def)
  qed
next
  assume "\<forall>row \<in> set (alert_state db). row_ok t row"
  then show "rows_ok t db" by (auto simp: rows_ok_def dest: get_state_mem)
qed

subsection \<open>Every operation keeps the invariant\<close>

lemma eng_inv_config: "eng_inv (t, eng) \<Longrightarrow> t \<le> now \<Longrightarrow> cfg_ok c \<Longrightarrow> eng_inv (now, eng\<lparr>eng_config := c\<rparr>)"
  by (auto simp: eng_inv_def intro: rows_ok_mono events_ok_mono)

lemma eng_inv_apply_observation:
  assumes inv: "eng_inv (t, eng)" "t \<le> now"
    and sev: "severity \<in> set SEVERITIES" "RULES_BY_NAME (r_name r) = Some r"
    and ap: "apply_observation chs now eng r subject active severity summary detail od recipient = (res, eng')"
  shows "eng_inv (now, eng')"
proof -
  have i: "0 < now" "cfg_ok (eng_config eng)" "db_ok (eng_db eng)" "rows_ok t (eng_db eng)" "events_ok t (eng_db eng)"
    using inv by (auto simp: eng_inv_def)
  have "events_ok now (eng_db eng')"
  proof (cases "o_transition res")
    case None
    then have "alert_events (eng_db eng') = alert_events (eng_db eng)"
      using apply_observation_events [OF ap] by simp
    then show ?thesis using i(5) inv(2) events_ok_mono events_ok_cong by metis
  next
    case (Some tr)
    then obtain db v where n: "notify_event chs (eng\<lparr>eng_db := db\<rparr>) r subject tr severity summary detail now recipient
          = (o_notified res, v)" "alert_events db = alert_events (eng_db eng)"
        "alert_events (eng_db eng') = alert_events (eng_db eng)
          @ [event_values.extend v \<lparr>ev_id = next_event_id (eng_db eng)\<rparr>]"
      using apply_observation_events [OF ap] by auto
    show ?thesis by (rule notify_events_ok [OF n(1) _ i(5) inv(2) n(3)]) (simp add: n(2))
  qed
  then show ?thesis
    using i rows_ok_apply_observation [OF i(4) inv(2) i(1) sev ap] db_ok_apply_observation [OF i(3) ap]
      apply_observation_frame(1) [OF ap]
    by (simp add: eng_inv_def)
qed

lemma eng_inv_drop_and_note:
  assumes "eng_inv (t, eng)" "t \<le> now" "ev_ts v = now" "ev_delivered v = []"
  shows "eng_inv (now, eng\<lparr>eng_db := snd (add_event v (drop_state r s (eng_db eng)))\<rparr>)"
proof -
  have i: "0 < now" "cfg_ok (eng_config eng)" "db_ok (eng_db eng)" "rows_ok t (eng_db eng)" "events_ok t (eng_db eng)"
    using assms(1,2) by (auto simp: eng_inv_def)
  have "events_ok t (drop_state r s (eng_db eng))" using i(5) events_ok_cong alert_events_drop_state by metis
  then have "events_ok now (snd (add_event v (drop_state r s (eng_db eng))))"
    using assms by (intro events_ok_add_quiet_event)
  moreover have "rows_ok now (snd (add_event v (drop_state r s (eng_db eng))))"
    using rows_ok_drop rows_ok_mono [OF i(4) assms(2)] by (simp add: rows_ok_def)
  ultimately show ?thesis using i by (auto simp: eng_inv_def)
qed

lemma eng_inv_retire:
  assumes "eng_inv (t, eng)" "t \<le> now" "retire now eng r subject summary = (res, eng')"
  shows "eng_inv (now, eng')"
proof -
  have "eng_inv (now, eng)" using eng_inv_config [OF assms(1,2), of "eng_config eng"] assms(1) by (simp add: eng_inv_def)
  then show ?thesis
    using assms eng_inv_drop_and_note [OF assms(1,2)]
    by (auto simp: retire_def Let_def split: option.splits if_splits)
qed

lemma eng_inv_observe:
  assumes "eng_inv (t, eng)" "t \<le> now" "observe chs now eng p = Inr (res, eng')"
  shows "eng_inv (now, eng')"
  using assms(3)
proof (cases rule: observe_cases)
  case retire
  then show ?thesis using assms eng_inv_retire by blast
next
  case applied
  then show ?thesis using assms eng_inv_apply_observation by blast
qed

definition sweep_inv :: "int \<Rightarrow> alert_db \<Rightarrow> bool" where
  "sweep_inv now db = (db_ok db \<and> rows_ok now db \<and> events_ok now db)"

lemma sweep_inv_drop: "sweep_inv now db \<Longrightarrow> sweep_inv now (drop_state r s db)"
  using events_ok_cong [of "drop_state r s db" db now] by (auto simp: sweep_inv_def rows_ok_drop)

lemma sweep_inv_mark: "sweep_inv now db \<Longrightarrow> sweep_inv now (mark_stale r s now db)"
  using events_ok_cong [of "mark_stale r s now db" db now] by (auto simp: sweep_inv_def rows_ok_mark)

lemma sweep_inv_note:
  "sweep_inv now db \<Longrightarrow> ev_ts v = now \<Longrightarrow> ev_delivered v = [] \<Longrightarrow> sweep_inv now (snd (add_event v db))"
  using events_ok_add_quiet_event [of now db now v] rows_ok_cong [of "snd (add_event v db)" db now]
  by (auto simp: sweep_inv_def)

lemma sweep_inv_row: "sweep_inv now (snd acc) \<Longrightarrow> sweep_inv now (snd (sweep_row now row acc))"
  by (cases acc)
     (simp add: sweep_row_def Let_def sweep_inv_drop sweep_inv_mark sweep_inv_note split: option.split)

lemma sweep_inv_fold: "sweep_inv now (snd acc) \<Longrightarrow> sweep_inv now (snd (fold (sweep_row now) rows acc))"
  by (induction rows arbitrary: acc) (auto simp: sweep_inv_row)

lemma sweep_inv_prune: "sweep_inv now db \<Longrightarrow> sweep_inv now (prune pn db)"
proof -
  assume s: "sweep_inv now db"
  have "events_ok now (prune pn db)"
    by (rule events_ok_filter [of now db]) (use s in \<open>auto simp: sweep_inv_def prune_def Let_def\<close>)
  moreover have ok: "db_ok (prune pn db)" using s by (auto simp: sweep_inv_def)
  moreover have "set (alert_state (prune pn db)) \<subseteq> set (alert_state db)" by (auto simp: prune_def Let_def)
  ultimately show ?thesis using s rows_ok_members by (auto simp: sweep_inv_def)
qed

lemma eng_inv_sweep:
  assumes "eng_inv (t, eng)" "t \<le> now" "sweep now pn pf eng = (n, eng')"
  shows "eng_inv (now, eng')"
proof -
  let ?acc = "fold (sweep_row now) (open_states (eng_db eng)) (\<lparr>n_stale = 0, n_expired = 0, n_cleared = 0\<rparr>, eng_db eng)"
  have "sweep_inv now (eng_db eng)"
    using assms(1,2) by (auto simp: eng_inv_def sweep_inv_def intro: rows_ok_mono events_ok_mono)
  then have f: "sweep_inv now (snd ?acc)" by (intro sweep_inv_fold) simp
  have "sweep_inv now (eng_db eng')" "eng_config eng' = eng_config eng"
    using assms(3) f sweep_inv_prune [OF f]
    by (auto simp: sweep_def Let_def split: prod.splits if_splits)
  then show ?thesis using assms(1,2) by (auto simp: eng_inv_def sweep_inv_def)
qed

lemma eng_inv_quieten:
  assumes "eng_inv (t, eng)" "t \<le> now" "quieten now eng p = Inr (q, eng')"
  shows "eng_inv (now, eng')"
proof -
  obtain r s a b m where e: "eng' = eng\<lparr>eng_db := snd (set_quiet r s a b m (eng_db eng))\<rparr>"
    using assms(3) by (auto simp: quieten_def set_quiet_def ebind_Inr_iff split: option.splits if_splits)
  have "events_ok t (eng_db eng')" using e assms(1) events_ok_cong [of "eng_db eng'" "eng_db eng" t] by (simp add: eng_inv_def)
  then show ?thesis
    using assms(1,2) e rows_ok_set_quiet [OF rows_ok_mono [of t "eng_db eng" now]]
    by (auto simp: eng_inv_def intro: events_ok_mono)
qed

lemma eng_inv_dismiss:
  assumes "eng_inv (t, eng)" "t \<le> now" "dismiss now eng p = Inr eng'"
  shows "eng_inv (now, eng')"
  using assms eng_inv_drop_and_note [OF assms(1,2)]
  by (auto simp: dismiss_def Let_def split: option.splits if_splits)

lemma eng_inv_delete:
  assumes "eng_inv (t, eng)" "t \<le> now" "delete_history eng p = Inr (k, eng')"
  shows "eng_inv (now, eng')"
proof -
  obtain q where e: "eng' = eng\<lparr>eng_db := snd (delete_events q (eng_db eng))\<rparr>"
    using assms(3)
    by (auto simp: delete_history_def Let_def delete_events_def split: if_splits json.splits option.splits)
  have "events_ok t (eng_db eng')"
    by (rule events_ok_filter [of t "eng_db eng"]) (use assms(1) e in \<open>auto simp: eng_inv_def delete_events_def\<close>)
  moreover have "rows_ok t (eng_db eng')"
    using assms(1) e rows_ok_cong [of "eng_db eng'" "eng_db eng"] by (simp add: eng_inv_def delete_events_def)
  ultimately show ?thesis
    using assms(1,2) e by (auto simp: eng_inv_def intro: rows_ok_mono events_ok_mono)
qed

lemma cfg_ok_update_config: "update_config resolve c j = Inr c' \<Longrightarrow> cfg_ok c'"
  unfolding update_config_def
  by (cases j; simp only: json.case sum.distinct; elim ebind_InrE)
     (metis Inr_inject cfg_ok_load_config load_config_from_dict_def)

lemma eng_inv_step: "alert_step s s' \<Longrightarrow> eng_inv s \<Longrightarrow> eng_inv s'"
proof (induction rule: alert_step.induct)
  case (step_mail t now chs loads lines eng b eng')
  then obtain res where "observe chs now eng (mail_observation (mail_queue_stuck loads lines now) now) = Inr (res, eng')"
    by (auto simp: check_mail_queue_def Let_def)
  then show ?case using step_mail eng_inv_observe by blast
qed (blast intro: eng_inv_observe eng_inv_sweep eng_inv_quieten eng_inv_dismiss eng_inv_delete
    eng_inv_config cfg_ok_update_config)+

lemma eng_inv_reachable: "alert_reachable s \<Longrightarrow> eng_inv s"
proof (induction rule: alert_reachable.induct)
  case (start t f host)
  then show ?case
    by (simp add: eng_inv_def fresh_engine_def cfg_ok_load_config db_ok_def rows_ok_def get_state_def
        events_ok_def sent_in_window_def)
next
  case (step s s')
  then show ?case using eng_inv_step by blast
qed

end
