(* ===== verification/Alert_Properties.thy ===== *)
theory Alert_Properties
  imports Alert_Runs
begin

text \<open>
  The properties of the alert daemon: what operators and producers may rely on, and four places
  where the code does something other than its comments say.
\<close>

section \<open>Shared lemmas\<close>

lemma decide_firing:
  assumes "decide now active severity delay rep row = (st, since, fs, nc, tr)"
  defines "was \<equiv> (case row of Some x \<Rightarrow> v_state x = STATE_FIRING | None \<Rightarrow> False)"
  shows "tr = Some TRANSITION_FIRED \<Longrightarrow> \<not> was \<and> st = STATE_FIRING"
    and "tr = Some TRANSITION_RECOVERED \<Longrightarrow> was \<and> st = STATE_OK"
    and "tr = Some TRANSITION_ESCALATED \<or> tr = Some TRANSITION_REPEATED \<Longrightarrow> was \<and> st = STATE_FIRING"
    and "tr = None \<Longrightarrow> (st = STATE_FIRING) = was"
    and "tr \<in> {None, Some TRANSITION_FIRED, Some TRANSITION_RECOVERED, Some TRANSITION_ESCALATED,
           Some TRANSITION_REPEATED}"
  using assms
  by (auto simp: decide_def Let_def split: if_splits option.splits alert_status.splits)

text \<open>A list of observations in the order they arrive; a refused one changes nothing.\<close>

type_synonym observation = "channel list \<times> int \<times> jobj"

fun observe_run :: "alert_engine \<Rightarrow> observation list \<Rightarrow> observed list \<times> alert_engine" where
  "observe_run eng [] = ([], eng)"
| "observe_run eng ((chs, now, p) # obs) =
     (case observe chs now eng p of
        Inl e \<Rightarrow> observe_run eng obs
      | Inr (res, eng') \<Rightarrow> (case observe_run eng' obs of (rs, eng'') \<Rightarrow> (res # rs, eng'')))"

definition is_firing :: "alert_engine \<Rightarrow> string \<Rightarrow> string \<Rightarrow> bool" where
  "is_firing eng r s = (case get_state (eng_db eng) r s of
     Some row \<Rightarrow> v_state row = STATE_FIRING | None \<Rightarrow> False)"

definition transitions_of :: "string \<Rightarrow> string \<Rightarrow> observed list \<Rightarrow> transition list" where
  "transitions_of r s rs = List.map_filter o_transition (filter (\<lambda>x. o_rule x = r \<and> o_subject x = s) rs)"

text \<open>"Fired" only while not firing; "recovered", "repeated" and "escalated" only while firing.\<close>

fun alternates :: "bool \<Rightarrow> transition list \<Rightarrow> bool" where
  "alternates firing [] = True"
| "alternates firing (t # ts) =
     (case t of
        TRANSITION_FIRED \<Rightarrow> \<not> firing \<and> alternates True ts
      | TRANSITION_RECOVERED \<Rightarrow> firing \<and> alternates False ts
      | TRANSITION_RETIRED \<Rightarrow> alternates False ts
      | TRANSITION_REPEATED \<Rightarrow> firing \<and> alternates True ts
      | TRANSITION_ESCALATED \<Rightarrow> firing \<and> alternates True ts
      | _ \<Rightarrow> False)"

lemma observe_names:
  assumes "apply_observation chs now eng r subject active severity summary detail od recipient = (res, eng')"
  shows "o_rule res = r_name r" "o_subject res = subject"
proof -
  obtain st since fs nc tr where d: "decision now eng r subject active severity od = (st, since, fs, nc, tr)"
    by (metis prod_cases5)
  then show "o_rule res = r_name r" "o_subject res = subject"
    using assms by (auto simp: apply_observation_eq [OF d] Let_def split: option.splits prod.splits)
qed

lemma alternates_observation:
  assumes "apply_observation chs now eng r subject active severity summary detail od recipient = (res, eng')"
    "alternates (is_firing eng' (r_name r) subject) ts"
  shows "alternates (is_firing eng (r_name r) subject)
    ((case o_transition res of None \<Rightarrow> [] | Some t \<Rightarrow> [t]) @ ts)"
proof -
  let ?old = "get_state (eng_db eng) (r_name r) subject"
  obtain st since fs nc tr where d: "decision now eng r subject active severity od = (st, since, fs, nc, tr)"
    by (metis prod_cases5)
  obtain row where row: "get_state (eng_db eng') (r_name r) subject = Some row" "v_state row = st"
    using apply_observation_row [OF assms(1)] d by (auto simp: observed_row_def)
  have new: "is_firing eng' (r_name r) subject = (st = STATE_FIRING)" using row by (simp add: is_firing_def)
  have tr: "o_transition res = tr" using apply_observation_frame(6) [OF assms(1)] d by simp
  note f = decide_firing [OF d]
  show ?thesis
    using f(5) assms(2) f(1-4) unfolding new tr by (auto simp: is_firing_def split: option.splits)
qed

lemma retire_cases:
  assumes "retire now eng r subject summary = (res, eng')"
  shows "o_rule res = r_name r" "o_subject res = subject"
    "(r', s') \<noteq> (r_name r, subject) \<Longrightarrow> get_state (eng_db eng') r' s' = get_state (eng_db eng) r' s'"
    "(o_transition res = None \<and> eng' = eng \<and> \<not> is_firing eng (r_name r) subject) \<or>
     (o_transition res = Some TRANSITION_RETIRED \<and> get_state (eng_db eng') (r_name r) subject = None)"
  using assms
  by (auto simp: retire_def Let_def is_firing_def get_drop_state split: option.splits if_splits)

lemma alternates_step:
  assumes "observe chs now eng p = Inr (res, eng')" "alternates (is_firing eng' r s) (transitions_of r s rs)"
  shows "alternates (is_firing eng r s) (transitions_of r s (res # rs))"
  using assms(1)
proof (cases rule: observe_cases)
  case (retire rule subject summary)
  note c = retire_cases [OF retire(4)]
  show ?thesis
  proof (cases "(r, s) = (r_name rule, subject)")
    case True
    then show ?thesis
      using c(1,2,4) assms(2) by (auto simp: transitions_of_def map_filter_simps is_firing_def)
  next
    case False
    then show ?thesis
      using c(1,2) c(3) [OF False] assms(2) by (auto simp: transitions_of_def is_firing_def)
  qed
next
  case (applied rule subject active severity summary detail od recipient)
  note n = observe_names [OF applied(6)]
  show ?thesis
  proof (cases "(r, s) = (r_name rule, subject)")
    case True
    then show ?thesis
      using alternates_observation [OF applied(6), of "transitions_of r s rs"] n assms(2)
      by (auto simp: transitions_of_def map_filter_simps split: option.splits)
  next
    case False
    then show ?thesis
      using n apply_observation_frame(4) [OF applied(6) False] assms(2)
      by (auto simp: transitions_of_def is_firing_def)
  qed
qed

section \<open>Properties\<close>

text \<open>C7. Over any sequence of observations, for every condition the reported transitions
  alternate: it is reported as fired only when it was not firing, and as recovered, repeated or
  escalated only while it is firing.\<close>

theorem transitions_alternate:
  "alternates (is_firing eng r s) (transitions_of r s (fst (observe_run eng obs)))"
proof (induction eng obs rule: observe_run.induct)
  case (1 eng)
  then show ?case by (simp add: transitions_of_def map_filter_simps)
next
  case (2 eng chs now p obs)
  show ?case
  proof (cases "observe chs now eng p")
    case (Inl e)
    then show ?thesis using 2 by simp
  next
    case (Inr q)
    obtain res eng' where q: "q = (res, eng')" by fastforce
    obtain rs eng'' where run: "observe_run eng' obs = (rs, eng'')" by fastforce
    have "alternates (is_firing eng' r s) (transitions_of r s rs)" using 2(2) [OF Inr q [symmetric]] q run by simp
    then show ?thesis using alternates_step Inr q run by simp
  qed
qed

text \<open>Engines for the witnesses: default settings, no history, one channel that always delivers.\<close>

definition mail_channel :: channel where
  "mail_channel = \<lparr>ch_name = ''email'', ch_available = (\<lambda>_. Inr True), ch_send = (\<lambda>_ _ _. Inr (True, []))\<rparr>"

definition engine0 :: alert_engine where
  "engine0 = fresh_engine FileMissing ''gw''"






lemma py_join_nonempty: "x \<noteq> [] \<Longrightarrow> py_join sep (x # xs) \<noteq> []"
  by (cases xs) auto

lemma refusal_nonempty: "refusal c db r subject tr severity now = Some reason \<Longrightarrow> reason \<noteq> []"
  by (auto simp: refusal_def should_notify_def Let_def split: if_splits prod.splits)

lemma deliver_errors_nonempty:
  assumes "\<And>x. x \<in> set (snd acc) \<Longrightarrow> x \<noteq> []" "x \<in> set (snd (fold (deliver_step c s b) chs acc))"
  shows "x \<noteq> []"
  using assms
proof (induction chs arbitrary: acc)
  case Nil
  then show ?case by simp
next
  case (Cons ch chs)
  have "\<And>x. x \<in> set (snd (deliver_step c s b ch acc)) \<Longrightarrow> x \<noteq> []"
    using Cons.prems(1)
    by (auto simp: deliver_step_def split: prod.splits sum.splits bool.splits)
  then show ?case using Cons.IH [of "deliver_step c s b ch acc"] Cons.prems(2) by simp
qed

lemma deliver_failed_reason:
  assumes "deliver chs c s b r = ([], e)"
  shows "py_join ''; '' e \<noteq> []"
proof -
  obtain d e' where f: "fold (deliver_step (deliver_config c r) s b) chs ([], []) = (d, e')" by fastforce
  have ne: "x \<noteq> []" if "x \<in> set e'" for x
    using deliver_errors_nonempty [of "([], [])" x "deliver_config c r" s b chs] that f by simp
  show ?thesis
  proof (cases e')
    case Nil
    then show ?thesis using assms f by (auto simp: deliver_def)
  next
    case (Cons x xs)
    then show ?thesis using assms f ne [of x] py_join_nonempty by (auto simp: deliver_def)
  qed
qed

text \<open>Delivery failure never costs the record: whatever the channels do, a notification
  attempt appends exactly one event for its condition, changes no alert state, and when nothing was
  delivered the event says why.\<close>

theorem notify_keeps_the_record:
  assumes "notify chs eng r subject tr severity summary detail now recipient = (ok, db')"
  shows "alert_state db' = alert_state (eng_db eng) \<and>
    (\<exists>e. alert_events db' = alert_events (eng_db eng) @ [e] \<and> ev_ts e = now \<and> ev_rule e = r_name r \<and>
       ev_subject e = subject \<and> (\<not> ok \<longrightarrow> ev_error e \<noteq> []))"
proof -
  obtain v where v: "notify_event chs eng r subject tr severity summary detail now recipient = (ok, v)"
    "alert_state db' = alert_state (eng_db eng)"
    "alert_events db' = alert_events (eng_db eng) @ [event_values.extend v \<lparr>ev_id = next_event_id (eng_db eng)\<rparr>]"
    using notify_writes_one_event [OF assms] by blast
  have "ev_ts v = now" "ev_rule v = r_name r" "ev_subject v = subject"
    using v(1) by (auto simp: notify_event_def Let_def split: option.splits if_splits prod.splits)
  moreover have "\<not> ok \<Longrightarrow> ev_error v \<noteq> []"
    using v(1)
    by (auto simp: notify_event_def Let_def MAX_TEXT_CHARS_def split: option.splits if_splits prod.splits
        dest: refusal_nonempty deliver_failed_reason)
  ultimately show ?thesis using v by auto
qed

theorem notify_keeps_the_record_witness:
  "alert_state (snd (notify [] engine0 (Rule ''site.down'' KIND_LEVEL ''critical'' ''Site is down'') ''a''
      TRANSITION_FIRED ''critical'' [] [] 1000 [])) = alert_state (eng_db engine0)"
  using notify_keeps_the_record [of "[]" engine0 "Rule ''site.down'' KIND_LEVEL ''critical'' ''Site is down''" "''a''"
      TRANSITION_FIRED "''critical''" "[]" "[]" 1000 "[]"]
  by (metis prod.collapse)

text \<open>An observation never touches what the operator decided: the end of a mute is kept, and
  an acknowledgement is kept until the condition is over and cleared exactly then.\<close>

theorem observation_keeps_quiet_columns:
  assumes "apply_observation chs now eng r subject active severity summary detail od recipient = (res, eng')"
    and "get_state (eng_db eng) (r_name r) subject = Some row"
  shows "\<exists>row'. get_state (eng_db eng') (r_name r) subject = Some row' \<and>
    v_muted_until row' = v_muted_until row \<and>
    v_ack_ts row' = (if o_state res = STATE_OK then 0 else v_ack_ts row)"
proof -
  obtain st since fs nc tr where d: "decision now eng r subject active severity od = (st, since, fs, nc, tr)"
    by (metis prod_cases5)
  have "o_state res = st" using apply_observation_frame(5) [OF assms(1)] d by simp
  then show ?thesis
    using apply_observation_row [OF assms(1)] d assms(2) by (auto simp: observed_row_def old_ack_def)
qed

definition muted_row :: alert_row where
  "muted_row = \<lparr>v_rule = ''site.down'', v_subject = ''a'', v_state = STATE_FIRING, v_severity = ''critical'',
     v_since = 100, v_first_seen = 100, v_last_seen = 100, v_last_notified = 100, v_notify_count = 1,
     v_summary = [], v_detail = [], v_trigger_delay = None, v_recipient = [], v_ack_ts = 150,
     v_ack_by = ''anna'', v_muted_until = 5000, v_stale_since = 0\<rparr>"

definition engine_muted :: alert_engine where
  "engine_muted = engine0\<lparr>eng_db := \<lparr>alert_state = [muted_row], alert_events = []\<rparr>\<rparr>"

definition site_down :: rule where
  "site_down = Rule ''site.down'' KIND_LEVEL ''critical'' ''Site is down''"

theorem observation_keeps_quiet_columns_witness:
  "\<exists>row'. get_state (eng_db (snd (apply_observation [] 200 engine_muted site_down ''a'' True ''critical'' [] [] None [])))
     ''site.down'' ''a'' = Some row' \<and> v_muted_until row' = 5000"
proof -
  have g: "get_state (eng_db engine_muted) (r_name site_down) ''a'' = Some muted_row"
    by (simp add: engine_muted_def get_state_def row_is_def muted_row_def site_down_def)
  obtain res eng' where e: "apply_observation [] 200 engine_muted site_down ''a'' True ''critical'' [] [] None [] = (res, eng')"
    by fastforce
  then show ?thesis
    using observation_keeps_quiet_columns [OF e g] by (auto simp: site_down_def muted_row_def)
qed

section \<open>Silence is not a recovery\<close>

text \<open>The row a sweep leaves for a row it looks at.\<close>

definition swept :: "int \<Rightarrow> alert_row \<Rightarrow> alert_row option" where
  "swept now row = (case RULES_BY_NAME (v_rule row) of None \<Rightarrow> None
     | Some r \<Rightarrow>
         if r_kind r = KIND_EVENT then (if r_auto_clear r \<le> now - v_last_seen row then None else Some row)
         else if now - v_last_seen row < r_stale_after r then Some row
         else if v_state row \<noteq> STATE_FIRING then None
         else if v_stale_since row = 0 then Some (row\<lparr>v_stale_since := now\<rparr>)
         else if STALE_CLOSE_AFTER \<le> now - v_stale_since row then None
         else Some row)"

lemma sweep_row_own:
  assumes "get_state (snd acc) (v_rule row) (v_subject row) = Some row"
  shows "get_state (snd (sweep_row now row acc)) (v_rule row) (v_subject row) = swept now row"
proof (cases "RULES_BY_NAME (v_rule row)")
  case None
  then show ?thesis by (cases acc) (simp add: sweep_row_def swept_def get_drop_state)
next
  case (Some r)
  have "r_name r = v_rule row" using rule_bounds(1) [OF Some] .
  then show ?thesis
    using Some assms by (cases acc) (simp add: sweep_row_def swept_def Let_def get_drop_state get_mark_stale)
qed

lemma sweep_row_frame:
  assumes "(r, s) \<noteq> row_key row"
  shows "get_state (snd (sweep_row now row acc)) r s = get_state (snd acc) r s"
proof -
  have fr: "get_state (drop_state (v_rule row) (v_subject row) db) r s = get_state db r s"
    "get_state (mark_stale (v_rule row) (v_subject row) t db) r s = get_state db r s" for db t
    using assms by (auto simp: get_drop_state get_mark_stale row_key_def)
  have nm: "r_name x = v_rule row" if "RULES_BY_NAME (v_rule row) = Some x" for x
    using rule_bounds(1) [OF that] .
  show ?thesis
    by (cases acc; cases "RULES_BY_NAME (v_rule row)")
       (simp_all add: sweep_row_def Let_def fr nm)
qed

lemma get_sweep_fold:
  assumes "distinct (map row_key rows)"
    "\<And>row. row \<in> set rows \<Longrightarrow> get_state (snd acc) (v_rule row) (v_subject row) = Some row"
  shows "get_state (snd (fold (sweep_row now) rows acc)) r s =
    (case find (row_is r s) rows of None \<Rightarrow> get_state (snd acc) r s | Some row \<Rightarrow> swept now row)"
  using assms
proof (induction rows arbitrary: acc)
  case Nil
  then show ?case by simp
next
  case (Cons row rows)
  let ?acc = "sweep_row now row acc"
  have other: "get_state (snd ?acc) (v_rule x) (v_subject x) = Some x" if "x \<in> set rows" for x
  proof -
    have "row_key x \<noteq> row_key row" using Cons.prems(1) that by (metis distinct.simps(2) image_eqI list.set_map list.simps(9))
    then show ?thesis using Cons.prems(2) [of x] that by (simp add: sweep_row_frame row_key_def)
  qed
  have IH: "get_state (snd (fold (sweep_row now) rows ?acc)) r s =
    (case find (row_is r s) rows of None \<Rightarrow> get_state (snd ?acc) r s | Some row \<Rightarrow> swept now row)"
    using Cons.IH [of ?acc] Cons.prems(1) other by simp
  show ?case
  proof (cases "row_is r s row")
    case True
    have "find (row_is r s) rows = None"
      using True Cons.prems(1) by (force simp: find_None_iff row_is_key)
    then show ?thesis
      using IH True sweep_row_own [OF Cons.prems(2) [of row], of now] by (auto simp: row_is_def)
  next
    case False
    then have "(r, s) \<noteq> row_key row" by (auto simp: row_is_key)
    then show ?thesis using IH False sweep_row_frame [of r s row now acc]
      by (simp cong: option.case_cong)
  qed
qed

lemma open_states_find:
  assumes "db_ok db" "get_state db r s = Some row" "v_state row \<noteq> STATE_OK"
  shows "find (row_is r s) (open_states db) = Some row"
proof -
  have m: "row \<in> set (open_states db)" using assms get_state_mem by (auto simp: open_states_def)
  have "distinct (map row_key (open_states db))"
    using assms(1) by (simp add: db_ok_def open_states_def distinct_map inj_on_def distinct_sort)
  then show ?thesis using find_member m get_state_key [OF assms(2)] by (auto simp: row_key_def)
qed

lemma distinct_open_states: "db_ok db \<Longrightarrow> distinct (map row_key (open_states db))"
  by (simp add: db_ok_def open_states_def distinct_map inj_on_def distinct_sort)

lemma get_sweep:
  assumes "db_ok (eng_db eng)" "now - eng_last_prune eng < 3600"
    "get_state (eng_db eng) r s = Some row" "v_state row \<noteq> STATE_OK"
  shows "get_state (eng_db (snd (sweep now pn pf eng))) r s = swept now row"
proof -
  let ?n = "\<lparr>n_stale = 0, n_expired = 0, n_cleared = 0\<rparr>"
  have f: "get_state (snd (fold (sweep_row now) (open_states (eng_db eng)) (?n, eng_db eng))) r s = swept now row"
    using get_sweep_fold [OF distinct_open_states [OF assms(1)], of "(?n, eng_db eng)" now r s]
      open_states_find [OF assms(1,3,4)] get_state_member [OF assms(1)]
    by (auto simp: open_states_def)
  then show ?thesis using assms(2) by (auto simp: sweep_def Let_def split: prod.splits)
qed

lemma sweep_row_events:
  "\<exists>es. alert_events (snd (sweep_row now row acc)) = alert_events (snd acc) @ es \<and>
     (\<forall>e \<in> set es. ev_delivered e = [] \<and> ev_transition e \<in> {TRANSITION_STALE, TRANSITION_EXPIRED})"
  by (cases acc) (auto simp: sweep_row_def Let_def add_event_def split: option.splits)

lemma sweep_fold_events:
  "\<exists>es. alert_events (snd (fold (sweep_row now) rows acc)) = alert_events (snd acc) @ es \<and>
     (\<forall>e \<in> set es. ev_delivered e = [] \<and> ev_transition e \<in> {TRANSITION_STALE, TRANSITION_EXPIRED})"
proof (induction rows arbitrary: acc)
  case Nil
  then show ?case by simp
next
  case (Cons row rows)
  obtain es1 es2 where "alert_events (snd (sweep_row now row acc)) = alert_events (snd acc) @ es1"
    "\<forall>e \<in> set es1. ev_delivered e = [] \<and> ev_transition e \<in> {TRANSITION_STALE, TRANSITION_EXPIRED}"
    "alert_events (snd (fold (sweep_row now) rows (sweep_row now row acc))) = alert_events (snd (sweep_row now row acc)) @ es2"
    "\<forall>e \<in> set es2. ev_delivered e = [] \<and> ev_transition e \<in> {TRANSITION_STALE, TRANSITION_EXPIRED}"
    using sweep_row_events [of now row acc] Cons.IH [of "sweep_row now row acc"] by blast
  then show ?case by (intro exI [of _ "es1 @ es2"]) auto
qed

text \<open>A firing level its producer stopped reporting is never treated as recovered: a sweep
  keeps it firing and marks it unconfirmed, closes it only after it has been unconfirmed for seven
  days, and the only events a sweep adds are "stale" and "stale closed", none of them delivered.\<close>

theorem sweep_silence_is_not_recovery:
  assumes "db_ok (eng_db eng)" "now - eng_last_prune eng < 3600"
    and "get_state (eng_db eng) r s = Some row" "v_state row = STATE_FIRING"
    and "RULES_BY_NAME r = Some rule" "r_kind rule = KIND_LEVEL" "r_stale_after rule \<le> now - v_last_seen row"
  shows "get_state (eng_db (snd (sweep now pn pf eng))) r s =
      (if v_stale_since row = 0 then Some (row\<lparr>v_stale_since := now\<rparr>)
       else if now - v_stale_since row < STALE_CLOSE_AFTER then Some row else None)
    \<and> (\<exists>es. alert_events (eng_db (snd (sweep now pn pf eng))) = alert_events (eng_db eng) @ es \<and>
       (\<forall>e \<in> set es. ev_delivered e = [] \<and> ev_transition e \<in> {TRANSITION_STALE, TRANSITION_EXPIRED}))"
proof
  have "v_rule row = r" using get_state_key [OF assms(3)] by (simp add: row_key_def)
  then show "get_state (eng_db (snd (sweep now pn pf eng))) r s =
      (if v_stale_since row = 0 then Some (row\<lparr>v_stale_since := now\<rparr>)
       else if now - v_stale_since row < STALE_CLOSE_AFTER then Some row else None)"
    using get_sweep [OF assms(1-3), of pn pf] assms(4-7) by (simp add: swept_def)
next
  show "\<exists>es. alert_events (eng_db (snd (sweep now pn pf eng))) = alert_events (eng_db eng) @ es \<and>
       (\<forall>e \<in> set es. ev_delivered e = [] \<and> ev_transition e \<in> {TRANSITION_STALE, TRANSITION_EXPIRED})"
    using assms(2) sweep_fold_events [of now "open_states (eng_db eng)" "(\<lparr>n_stale = 0, n_expired = 0, n_cleared = 0\<rparr>, eng_db eng)"]
    by (auto simp: sweep_def Let_def split: prod.splits)
qed

lemma site_down_rule:
  "\<exists>rule. RULES_BY_NAME ''site.down'' = Some rule \<and> r_kind rule = KIND_LEVEL \<and> r_stale_after rule = 900 \<and>
     r_trigger_delay rule = 300 \<and> r_name rule = ''site.down''"
  by (simp add: RULES_BY_NAME_def RULES_def Rule_def)

theorem sweep_silence_is_not_recovery_witness:
  "get_state (eng_db (snd (sweep 2000 2000 False engine_muted))) ''site.down'' ''a''
     = Some (muted_row\<lparr>v_stale_since := 2000\<rparr>)"
proof -
  have g: "get_state (eng_db engine_muted) ''site.down'' ''a'' = Some muted_row" "v_state muted_row = STATE_FIRING"
    "db_ok (eng_db engine_muted)" "2000 - eng_last_prune engine_muted < 3600"
    by (simp_all add: engine_muted_def get_state_def row_is_def muted_row_def db_ok_def engine0_def fresh_engine_def)
  obtain rule where r: "RULES_BY_NAME ''site.down'' = Some rule" "r_kind rule = KIND_LEVEL" "r_stale_after rule = 900"
    using site_down_rule by blast
  show ?thesis
    using sweep_silence_is_not_recovery [OF g(3,4) g(1,2) r(1,2), of 2000 False] r(3)
    by (simp add: muted_row_def)
qed

section \<open>The operator's hand\<close>

lemma length_add_event: "length (alert_events (snd (add_event v db))) = Suc (length (alert_events db))"
  by (simp add: add_event_def)

text \<open>A level condition that is still reported cannot be dismissed: the request is refused,
  whatever else it says. An event, or a level nobody confirms any more, is dropped, and the history
  records the dismissal.\<close>

theorem dismiss_guard:
  assumes "RULES_BY_NAME (str_or (jget ''rule'' p) []) = Some rule"
    and "get_state (eng_db eng) (r_name rule) (str_or (jget ''subject'' p) []) = Some row"
  shows "case dismiss now eng p of
      Inl e \<Rightarrow> r_kind rule = KIND_LEVEL \<and> v_stale_since row \<le> 0 \<and>
        e = ValueError ''a condition that still holds cannot be dismissed; mute it instead''
    | Inr eng' \<Rightarrow> (r_kind rule = KIND_EVENT \<or> 0 < v_stale_since row) \<and>
        get_state (eng_db eng') (r_name rule) (str_or (jget ''subject'' p) []) = None \<and>
        length (alert_events (eng_db eng')) = Suc (length (alert_events (eng_db eng)))"
  using assms
  by (cases "r_kind rule")
     (auto simp: dismiss_def Let_def get_drop_state length_add_event split: sum.splits)

definition dismiss_request :: jobj where
  "dismiss_request = [(''rule'', JStr ''site.down''), (''subject'', JStr ''a'')]"

theorem dismiss_guard_witness:
  "dismiss 200 engine_muted dismiss_request
     = Inl (ValueError ''a condition that still holds cannot be dismissed; mute it instead'')"
proof -
  obtain rule where r: "RULES_BY_NAME ''site.down'' = Some rule" "r_kind rule = KIND_LEVEL" "r_name rule = ''site.down''"
    using site_down_rule by blast
  have a: "RULES_BY_NAME (str_or (jget ''rule'' dismiss_request) []) = Some rule"
    using r(1) by (simp add: dismiss_request_def)
  have b: "get_state (eng_db engine_muted) (r_name rule) (str_or (jget ''subject'' dismiss_request) []) = Some muted_row"
    by (simp add: engine_muted_def get_state_def row_is_def muted_row_def dismiss_request_def r(3))
  show ?thesis
    using dismiss_guard [OF a b, of 200] r(2) by (auto simp: muted_row_def split: sum.splits)
qed

lemma get_set_quiet:
  "get_state (snd (set_quiet r s a b m db)) r' s' =
    (if (r', s') = (r, s) then map_option (\<lambda>row. row\<lparr>v_ack_ts := a, v_ack_by := take 120 b, v_muted_until := m\<rparr>)
       (get_state db r' s') else get_state db r' s')"
  unfolding set_quiet_def snd_conv by (rule get_update_where) (simp add: row_key_def)

text \<open>While a mute lasts, no message about the condition is sent but the one that it is over.\<close>

theorem muted_sends_nothing:
  assumes "get_state (eng_db eng) (r_name r) subject = Some row" "now < v_muted_until row"
    and "tr \<noteq> TRANSITION_RECOVERED"
  shows "\<not> fst (notify chs eng r subject tr severity summary detail now recipient)"
proof -
  have "refusal (eng_config eng) (eng_db eng) r subject tr severity now \<noteq> None"
    using assms by (auto simp: refusal_def quiet_reason_def Let_def split: prod.splits)
  then show ?thesis by (auto simp: notify_def Let_def)
qed

theorem muted_sends_nothing_witness:
  "\<not> fst (notify [mail_channel] engine_muted site_down ''a'' TRANSITION_ESCALATED ''critical'' [] [] 200 [])"
  by (rule muted_sends_nothing [of _ _ _ muted_row])
     (simp_all add: engine_muted_def get_state_def row_is_def muted_row_def site_down_def)

text \<open>A mute outlives its time for reminders. \<open>quieten\<close> with mode "mute" also writes an
  acknowledgement, so once the mute has ended the condition is back in the panel's header
  (\<open>portal_quiet\<close> no longer holds), while every reminder is still refused as "acknowledged".\<close>

theorem mute_outlives_its_time:
  assumes "quieten now eng p = Inr ((ack, who, muted), eng')" "str_or (jget ''mode'' p) [] = ''mute''" "0 < now"
    and "RULES_BY_NAME (str_or (jget ''rule'' p) []) = Some rule"
    and "get_state (eng_db eng') (r_name rule) (str_or (jget ''subject'' p) []) = Some row"
    and "muted \<le> t"
  shows "\<not> portal_quiet t row \<and>
    quiet_reason (eng_db eng') rule (str_or (jget ''subject'' p) []) TRANSITION_REPEATED t = ''acknowledged''"
proof -
  let ?s = "str_or (jget ''subject'' p) []"
  have q: "ack = now" "muted = now + clamp_int (jget ''seconds'' p) 3600 300 MAX_MUTE_SECONDS"
    and e: "eng' = eng\<lparr>eng_db := snd (set_quiet (r_name rule) ?s ack who muted (eng_db eng))\<rparr>"
    using assms(1,2,4)
    by (auto simp: quieten_def quiet_values_def Let_def set_quiet_def split: if_splits)
  have "300 \<le> clamp_int (jget ''seconds'' p) 3600 300 MAX_MUTE_SECONDS"
    by (rule clamp_int_bounds) (simp_all add: MAX_MUTE_SECONDS_def)
  then have m: "muted \<noteq> 0" using q assms(3) by simp
  obtain row0 where "row = row0\<lparr>v_ack_ts := ack, v_ack_by := take 120 who, v_muted_until := muted\<rparr>"
    using assms(5) unfolding e by (auto simp: get_set_quiet)
  then have "v_ack_ts row = now" "v_muted_until row = muted" using q by simp_all
  then show ?thesis
    using assms(3,5,6) m by (auto simp: portal_quiet_def quiet_reason_def)
qed

definition mute_request :: jobj where
  "mute_request = [(''rule'', JStr ''site.down''), (''subject'', JStr ''a''), (''mode'', JStr ''mute'')]"

theorem mute_outlives_its_time_witness:
  "\<exists>eng' row rule. quieten 200 engine_muted mute_request = Inr ((200, [], 3800), eng') \<and>
     \<not> portal_quiet 3800 row \<and> quiet_reason (eng_db eng') rule ''a'' TRANSITION_REPEATED 3800 = ''acknowledged''"
proof -
  obtain rule where r: "RULES_BY_NAME ''site.down'' = Some rule" "r_name rule = ''site.down''"
    using site_down_rule by blast
  let ?row = "muted_row\<lparr>v_ack_ts := 200, v_ack_by := [], v_muted_until := 3800\<rparr>"
  let ?eng = "engine_muted\<lparr>eng_db := \<lparr>alert_state = [?row], alert_events = []\<rparr>\<rparr>"
  have q: "quieten 200 engine_muted mute_request = Inr ((200, [], 3800), ?eng)"
    by (simp add: quieten_def mute_request_def r quiet_values_def Let_def clean_text_def drop_controls_def
        jor_def str_or_def clamp_int_def set_quiet_def update_where_def engine_muted_def row_is_def muted_row_def)
  have g: "get_state (eng_db ?eng) (r_name rule) (str_or (jget ''subject'' mute_request) []) = Some ?row"
    by (simp add: get_state_def row_is_def muted_row_def mute_request_def r)
  have "\<not> portal_quiet 3800 ?row \<and> quiet_reason (eng_db ?eng) rule (str_or (jget ''subject'' mute_request) [])
      TRANSITION_REPEATED 3800 = ''acknowledged''"
    by (rule mute_outlives_its_time [OF q _ _ _ g]) (simp_all add: mute_request_def r)
  then show ?thesis using q by (intro exI [of _ ?eng] exI [of _ ?row] exI [of _ rule]) (simp add: mute_request_def)
qed

section \<open>Firing and storms\<close>

text \<open>A condition fires exactly when it is reported active and has been pending for its
  delay, counting a first report as pending since now; nothing else makes it fire.\<close>

theorem fires_exactly_after_delay:
  "(\<exists>since fs nc. decide now active severity delay rep row
      = (STATE_FIRING, since, fs, nc, Some TRANSITION_FIRED)) \<longleftrightarrow>
   active \<and> (case row of
       None \<Rightarrow> delay \<le> 0
     | Some x \<Rightarrow> (v_state x = STATE_OK \<and> delay \<le> 0) \<or> (v_state x = STATE_PENDING \<and> delay \<le> now - v_since x))"
  by (cases row; cases active)
     (auto simp: decide_def Let_def split: alert_status.splits if_splits)

text \<open>Storm control counts messages that never went out. When eight conditions fired inside
  the window and were all held back (below the minimum severity, muted, switched off), so that the
  history holds no delivered message at all, a permitted notification is still suppressed and no
  channel is tried.\<close>

theorem held_back_events_starve_delivery:
  assumes "refusal (eng_config eng) (eng_db eng) r subject tr severity now = None"
    and "tr \<noteq> TRANSITION_RECOVERED"
    and "list_all (\<lambda>e. ev_delivered e = []) (alert_events (eng_db eng))"
    and "8 \<le> length (filter (\<lambda>e. ev_transition e = TRANSITION_FIRED \<and> now - 300 \<le> ev_ts e)
           (alert_events (eng_db eng)))"
  shows "\<exists>e db'. notify chs eng r subject tr severity summary detail now recipient = (False, db') \<and>
    alert_events db' = alert_events (eng_db eng) @ [e] \<and> ev_transition e = TRANSITION_SUPPRESSED"
proof -
  let ?P = "\<lambda>e. ev_transition e = TRANSITION_FIRED \<and> now - 300 \<le> ev_ts e"
  let ?Q = "\<lambda>e. now - STORM_WINDOW_SECONDS \<le> ev_ts e \<and>
    (ev_transition e = TRANSITION_FIRED \<or> ev_transition e = TRANSITION_REPEATED)"
  have "filter ?P (alert_events (eng_db eng)) = filter ?P (filter ?Q (alert_events (eng_db eng)))"
    by (auto simp: STORM_WINDOW_SECONDS_def intro!: filter_cong)
  then have "length (filter ?P (alert_events (eng_db eng))) \<le> notifications_since (now - STORM_WINDOW_SECONDS) (eng_db eng)"
    by (simp add: notifications_since_def del: filter_filter)
  then have "storming (eng_db eng) tr now"
    using assms(2,4) by (simp add: storming_def STORM_MAX_NOTIFICATIONS_def)
  then show ?thesis using assms(1) by (simp add: notify_def Let_def add_event_def)
qed

text \<open>An information-only condition that fires for each number of a list, with the default
  settings: every message is refused as below the minimum severity.\<close>

definition hostile_ip :: rule where
  "hostile_ip = Rule ''security.hostile_ip'' KIND_EVENT ''info'' ''Adaptive protection acted on an address''"

definition hostile :: "nat \<Rightarrow> alert_engine \<Rightarrow> alert_engine" where
  "hostile i eng = eng\<lparr>eng_db := snd (notify [mail_channel] eng hostile_ip (nat_to_str i) TRANSITION_FIRED
     ''info'' [] [] (1000 + int i) [])\<rparr>"

definition engine_starved :: alert_engine where
  "engine_starved = fold hostile [0..<8] engine0"

definition backup_failed :: rule where
  "backup_failed = Rule ''backup.failed'' KIND_EVENT ''critical'' ''Backup job failed''"

lemma hostile_refused:
  assumes "eng_config eng = AlertConfig"
  shows "eng_config (hostile i eng) = AlertConfig" "alert_state (eng_db (hostile i eng)) = alert_state (eng_db eng)"
    "map (\<lambda>e. (ev_ts e, ev_transition e, ev_delivered e)) (alert_events (eng_db (hostile i eng)))
      = map (\<lambda>e. (ev_ts e, ev_transition e, ev_delivered e)) (alert_events (eng_db eng))
        @ [(1000 + int i, TRANSITION_FIRED, [])]"
proof -
  have "refusal (eng_config eng) (eng_db eng) hostile_ip s TRANSITION_FIRED ''info'' t
      = Some ''below the configured minimum severity''" for s t
    by (simp add: refusal_def should_notify_def assms AlertConfig_def settings_for_def hostile_ip_def Rule_def)
  then show "eng_config (hostile i eng) = AlertConfig" "alert_state (eng_db (hostile i eng)) = alert_state (eng_db eng)"
    "map (\<lambda>e. (ev_ts e, ev_transition e, ev_delivered e)) (alert_events (eng_db (hostile i eng)))
      = map (\<lambda>e. (ev_ts e, ev_transition e, ev_delivered e)) (alert_events (eng_db eng))
        @ [(1000 + int i, TRANSITION_FIRED, [])]"
    by (simp_all add: hostile_def notify_def Let_def add_event_def assms)
qed

lemma hostile_run:
  assumes "eng_config eng = AlertConfig"
  shows "eng_config (fold hostile is eng) = AlertConfig \<and>
    alert_state (eng_db (fold hostile is eng)) = alert_state (eng_db eng) \<and>
    map (\<lambda>e. (ev_ts e, ev_transition e, ev_delivered e)) (alert_events (eng_db (fold hostile is eng)))
      = map (\<lambda>e. (ev_ts e, ev_transition e, ev_delivered e)) (alert_events (eng_db eng))
        @ map (\<lambda>i. (1000 + int i, TRANSITION_FIRED, [])) is"
  using assms by (induction "is" arbitrary: eng) (simp_all add: hostile_refused)

lemma engine_starved_facts:
  "eng_config engine_starved = AlertConfig" "alert_state (eng_db engine_starved) = []"
  "map (\<lambda>e. (ev_ts e, ev_transition e, ev_delivered e)) (alert_events (eng_db engine_starved))
     = map (\<lambda>i. (1000 + int i, TRANSITION_FIRED, [])) [0..<8]"
  using hostile_run [of engine0 "[0..<8]"]
  by (simp_all add: engine_starved_def engine0_def fresh_engine_def)

lemma engine_starved_allows:
  "refusal (eng_config engine_starved) (eng_db engine_starved) backup_failed ''db'' TRANSITION_FIRED ''critical'' 1010 = None"
  by (simp add: refusal_def should_notify_def engine_starved_facts AlertConfig_def settings_for_def
      backup_failed_def Rule_def quiet_reason_def get_state_def)

theorem held_back_events_starve_delivery_witness:
  "\<not> fst (notify [mail_channel] engine_starved backup_failed ''db'' TRANSITION_FIRED ''critical'' [] [] 1010 [])"
proof -
  let ?es = "alert_events (eng_db engine_starved)"
  let ?f = "\<lambda>e :: event_row. (ev_ts e, ev_transition e, ev_delivered e)"
  have "list_all (\<lambda>(t, tr, d). d = []) (map ?f ?es)"
    "length (filter (\<lambda>(t, tr, d). tr = TRANSITION_FIRED \<and> 1010 - 300 \<le> t) (map ?f ?es)) = 8"
    unfolding engine_starved_facts by (simp_all add: upt_rec)
  then have "list_all (\<lambda>e. ev_delivered e = []) ?es"
    "8 \<le> length (filter (\<lambda>e. ev_transition e = TRANSITION_FIRED \<and> 1010 - 300 \<le> ev_ts e) ?es)"
    by (simp_all add: list_all_iff filter_map comp_def)
  then show ?thesis
    using held_back_events_starve_delivery [OF engine_starved_allows, of "[mail_channel]" "[]" "[]" "[]"] by auto
qed

text \<open>A trigger delay configured for an event rule loses the event: reported once, it goes
  pending, nothing is written to the history, and when its timer has run the sweep removes it,
  although the rule documents that the delay only applies to levels.\<close>

theorem delayed_event_is_lost:
  assumes "RULES_BY_NAME (r_name r) = Some r" "r_kind r = KIND_EVENT"
    and "0 < s_trigger_delay (settings_for (eng_config eng) r)"
    and "get_state (eng_db eng) (r_name r) subject = None" "db_ok (eng_db eng)"
    and "apply_observation chs now eng r subject True severity summary detail None recipient = (res, eng')"
    and "now + r_auto_clear r \<le> t" "t - eng_last_prune eng < 3600"
  shows "o_state res = STATE_PENDING \<and> alert_events (eng_db eng') = alert_events (eng_db eng) \<and>
    get_state (eng_db (snd (sweep t pn pf eng'))) (r_name r) subject = None"
proof -
  have d: "decision now eng r subject True severity None = (STATE_PENDING, now, now, 0, None)"
    using assms(3,4) by (simp add: decide_def Let_def settings_delay_def)
  have p: "o_state res = STATE_PENDING" "o_transition res = None"
    using apply_observation_frame(5,6) [OF assms(6)] d by simp_all
  then have e: "alert_events (eng_db eng') = alert_events (eng_db eng)"
    using apply_observation_events [OF assms(6)] by simp
  obtain row where row: "get_state (eng_db eng') (r_name r) subject = Some row" "v_state row = STATE_PENDING"
      "v_last_seen row = now"
    using apply_observation_row [OF assms(6)] d by (auto simp: observed_row_def)
  have "v_rule row = r_name r" using get_state_key [OF row(1)] by (simp add: row_key_def)
  then have "swept t row = None" using assms(1,2,7) row(3) by (simp add: swept_def)
  then have "get_state (eng_db (snd (sweep t pn pf eng'))) (r_name r) subject = None"
    using get_sweep [OF db_ok_apply_observation [OF assms(5,6)], of t, OF _ row(1)] row(2)
      apply_observation_frame(3) [OF assms(6)] assms(8)
    by simp
  then show ?thesis using p e by simp
qed

definition engine_delayed :: alert_engine where
  "engine_delayed = engine0\<lparr>eng_config := AlertConfig\<lparr>c_rules :=
     [(''config.apply_failed'', \<lparr>s_enabled = True, s_trigger_delay = 60, s_repeat_after = 300\<rparr>)]\<rparr>\<rparr>"

definition apply_failed :: rule where
  "apply_failed = Rule ''config.apply_failed'' KIND_EVENT ''critical'' ''HAProxy apply or reload failed''"

theorem delayed_event_is_lost_witness:
  "alert_events (eng_db (snd (apply_observation [mail_channel] 10 engine_delayed apply_failed ''host'' True
      ''critical'' [] [] None []))) = []"
proof -
  have r: "RULES_BY_NAME (r_name apply_failed) = Some apply_failed"
    by (simp add: RULES_BY_NAME_def RULES_def apply_failed_def Rule_def)
  have s: "0 < s_trigger_delay (settings_for (eng_config engine_delayed) apply_failed)"
    by (simp add: engine_delayed_def apply_failed_def settings_for_def)
  have g: "get_state (eng_db engine_delayed) (r_name apply_failed) ''host'' = None" "db_ok (eng_db engine_delayed)"
    "3600 - eng_last_prune engine_delayed < 3601" "alert_events (eng_db engine_delayed) = []"
    by (simp_all add: engine_delayed_def engine0_def fresh_engine_def get_state_def db_ok_def)
  obtain res eng' where a: "apply_observation [mail_channel] 10 (engine_delayed\<lparr>eng_last_prune := 100\<rparr>) apply_failed
      ''host'' True ''critical'' [] [] None [] = (res, eng')" by fastforce
  have "alert_events (eng_db eng') = []"
    using delayed_event_is_lost [OF r _ _ _ _ a, of 3610] s g by (simp add: apply_failed_def Rule_def)
  moreover have "alert_events (eng_db (snd (apply_observation [mail_channel] 10 engine_delayed apply_failed ''host'' True
      ''critical'' [] [] None []))) = alert_events (eng_db eng')"
    using a s g(1) by (auto simp: apply_observation_def decide_def settings_delay_def Let_def)
  ultimately show ?thesis by simp
qed

lemma observed_row_first_seen:
  "observed_row now (Some x) severity d ok row \<Longrightarrow> v_first_seen row = v_first_seen x"
  by (cases d) (simp add: observed_row_def)

text \<open>The first-seen time of a condition is never moved again. When a condition comes back
  after it was over, \<open>_apply\<close> computes "first seen now", but the upsert does not write that
  column, so the stored time stays that of the first occurrence ever recorded.\<close>

theorem first_seen_never_moves:
  assumes "apply_observation chs now eng r subject True severity summary detail od recipient = (res, eng')"
    and "get_state (eng_db eng) (r_name r) subject = Some row" "v_state row = STATE_OK"
  shows "(\<exists>st since nc tr. decision now eng r subject True severity od = (st, since, now, nc, tr)) \<and>
    (\<exists>row'. get_state (eng_db eng') (r_name r) subject = Some row' \<and> v_first_seen row' = v_first_seen row)"
proof
  show "\<exists>st since nc tr. decision now eng r subject True severity od = (st, since, now, nc, tr)"
    using assms(2,3) by (simp add: decide_def Let_def)
  show "\<exists>row'. get_state (eng_db eng') (r_name r) subject = Some row' \<and> v_first_seen row' = v_first_seen row"
    using apply_observation_row [OF assms(1)] assms(2) by (auto dest: observed_row_first_seen)
qed

theorem first_seen_never_moves_witness:
  "\<exists>row'. get_state (eng_db (snd (apply_observation [] 900 (engine0\<lparr>eng_db :=
       \<lparr>alert_state = [muted_row\<lparr>v_state := STATE_OK\<rparr>], alert_events = []\<rparr>\<rparr>) site_down ''a'' True ''critical'' [] [] None [])))
     ''site.down'' ''a'' = Some row' \<and> v_first_seen row' = 100"
proof -
  let ?eng = "engine0\<lparr>eng_db := \<lparr>alert_state = [muted_row\<lparr>v_state := STATE_OK\<rparr>], alert_events = []\<rparr>\<rparr>"
  have g: "get_state (eng_db ?eng) (r_name site_down) ''a'' = Some (muted_row\<lparr>v_state := STATE_OK\<rparr>)"
    by (simp add: get_state_def row_is_def muted_row_def site_down_def)
  obtain res eng' where e: "apply_observation [] 900 ?eng site_down ''a'' True ''critical'' [] [] None [] = (res, eng')"
    by fastforce
  then show ?thesis
    using first_seen_never_moves [OF e g] by (auto simp: site_down_def muted_row_def)
qed

section \<open>Settings\<close>

text \<open>Whatever a settings file holds, writing the settings read from it and reading them back
  gives the same settings, up to white space at the end of a webhook header value cut at 4096
  characters; and they are within their bounds.\<close>

theorem settings_round_trip:
  "load_config_from_dict (as_dict (load_config f))
     = (load_config f)\<lparr>c_webhook_header_value := py_strip (c_webhook_header_value (load_config f))\<rparr>
   \<and> cfg_ok (load_config f)"
  using load_config_as_dict [OF cfg_ok_load_config] cfg_ok_load_config by (simp add: load_config_from_dict_def)

text \<open>A per-subject recipient replaces the shared one for that message only: the channels see
  the current settings with just that field changed.\<close>

theorem recipient_override_is_local:
  assumes "cfg_ok c" "email_ok recipient" "stripped (c_webhook_header_value c)"
  shows "deliver_config c recipient = c\<lparr>c_recipient := recipient\<rparr>"
  using load_config_from_dict_recipient [OF assms] assms(2) by (auto simp: deliver_config_def email_ok_def)

theorem recipient_override_is_local_witness:
  "deliver_config AlertConfig ''ops@example.com'' = AlertConfig\<lparr>c_recipient := ''ops@example.com''\<rparr>"
  by (rule recipient_override_is_local)
     (simp_all add: email_ok_def py_isspace_def is_alnum_ascii_def is_alpha_ascii_def is_digit_def
       stripped_def AlertConfig_def Let_def cfg_ok_default [unfolded AlertConfig_def])

end
