(* ===== verification/Py_Regex.thy ===== *)
theory Py_Regex
  imports Py_Prelude
begin

text \<open>
  The regular expressions of the modelled modules and \<open>pattern.fullmatch(text)\<close>.  An
  expression is data (\<open>rex\<close>), written the way the source writes its pattern: character
  classes, sequence, alternative, bounded and unbounded repetition, and a look-ahead that
  covers the rest of the text (\<open>RBoth\<close>).  Matching runs by derivatives; \<open>rex_match_iff\<close>
  says that it decides membership in the language, and \<open>lang_chars\<close> bounds the characters
  of everything a pattern accepts, which is what the injection-safety proofs use.
\<close>

section \<open>Expressions\<close>

text \<open>A class is a list of inclusive ranges of code points, possibly negated.\<close>

datatype rex =
    RNone
  | REmpty
  | RClass bool "(nat \<times> nat) list"
  | RSeq rex rex
  | RAlt rex rex
  | RBoth rex rex
  | RRep nat nat rex
  | RStar rex

definition in_class :: "bool \<Rightarrow> (nat \<times> nat) list \<Rightarrow> char \<Rightarrow> bool" where
  "in_class neg rs c = ((\<exists>(lo, hi) \<in> set rs. lo \<le> ord c \<and> ord c \<le> hi) \<noteq> neg)"

definition lit :: "string \<Rightarrow> rex" where
  "lit s = foldr (\<lambda>c r. RSeq (RClass False [(ord c, ord c)]) r) s REmpty"

definition RPlus :: "rex \<Rightarrow> rex" where
  "RPlus r = RSeq r (RStar r)"

definition ROpt :: "rex \<Rightarrow> rex" where
  "ROpt r = RRep 0 1 r"

definition words_of :: "string list \<Rightarrow> rex" where
  "words_of ws = foldr (\<lambda>w r. RAlt (lit w) r) ws RNone"

text \<open>The classes the patterns share: \<open>A-Z\<close>, \<open>a-z\<close>, \<open>0-9\<close> and a set of single characters.\<close>

abbreviation upper_range :: "nat \<times> nat" where "upper_range \<equiv> (65, 90)"
abbreviation lower_range :: "nat \<times> nat" where "lower_range \<equiv> (97, 122)"
abbreviation digit_range :: "nat \<times> nat" where "digit_range \<equiv> (48, 57)"

definition singles :: "string \<Rightarrow> (nat \<times> nat) list" where
  "singles s = map (\<lambda>c. (ord c, ord c)) s"

definition rng :: "(nat \<times> nat) list \<Rightarrow> string \<Rightarrow> rex" where
  "rng rs s = RClass False (rs @ singles s)"

section \<open>Language\<close>

primrec lang_pow :: "nat \<Rightarrow> string set \<Rightarrow> string set" where
  "lang_pow 0 L = {[]}"
| "lang_pow (Suc n) L = {u @ v | u v. u \<in> L \<and> v \<in> lang_pow n L}"

primrec lang :: "rex \<Rightarrow> string set" where
  "lang RNone = {}"
| "lang REmpty = {[]}"
| "lang (RClass neg rs) = {[c] | c. in_class neg rs c}"
| "lang (RSeq r s) = {u @ v | u v. u \<in> lang r \<and> v \<in> lang s}"
| "lang (RAlt r s) = lang r \<union> lang s"
| "lang (RBoth r s) = lang r \<inter> lang s"
| "lang (RRep lo hi r) = (\<Union>n \<in> {lo..hi}. lang_pow n (lang r))"
| "lang (RStar r) = (\<Union>n. lang_pow n (lang r))"

section \<open>Matching\<close>

primrec nullable :: "rex \<Rightarrow> bool" where
  "nullable RNone = False"
| "nullable REmpty = True"
| "nullable (RClass neg rs) = False"
| "nullable (RSeq r s) = (nullable r \<and> nullable s)"
| "nullable (RAlt r s) = (nullable r \<or> nullable s)"
| "nullable (RBoth r s) = (nullable r \<and> nullable s)"
| "nullable (RRep lo hi r) = (lo \<le> hi \<and> (lo = 0 \<or> nullable r))"
| "nullable (RStar r) = True"

fun mk_seq :: "rex \<Rightarrow> rex \<Rightarrow> rex" where
  "mk_seq RNone s = RNone"
| "mk_seq REmpty s = s"
| "mk_seq r s = RSeq r s"

fun mk_alt :: "rex \<Rightarrow> rex \<Rightarrow> rex" where
  "mk_alt RNone s = s"
| "mk_alt r RNone = r"
| "mk_alt r s = RAlt r s"

fun mk_both :: "rex \<Rightarrow> rex \<Rightarrow> rex" where
  "mk_both RNone s = RNone"
| "mk_both r RNone = RNone"
| "mk_both r s = RBoth r s"

primrec deriv :: "char \<Rightarrow> rex \<Rightarrow> rex" where
  "deriv c RNone = RNone"
| "deriv c REmpty = RNone"
| "deriv c (RClass neg rs) = (if in_class neg rs c then REmpty else RNone)"
| "deriv c (RSeq r s) =
     (if nullable r then mk_alt (mk_seq (deriv c r) s) (deriv c s) else mk_seq (deriv c r) s)"
| "deriv c (RAlt r s) = mk_alt (deriv c r) (deriv c s)"
| "deriv c (RBoth r s) = mk_both (deriv c r) (deriv c s)"
| "deriv c (RRep lo hi r) =
     (if hi = 0 \<or> hi < lo then RNone else mk_seq (deriv c r) (RRep (lo - 1) (hi - 1) r))"
| "deriv c (RStar r) = mk_seq (deriv c r) (RStar r)"

fun rex_match :: "rex \<Rightarrow> string \<Rightarrow> bool" where
  "rex_match r [] = nullable r"
| "rex_match r (c # s) = rex_match (deriv c r) s"

lemma lang_mk_seq [simp]: "lang (mk_seq r s) = lang (RSeq r s)"
  by (cases "(r, s)" rule: mk_seq.cases) auto

lemma lang_mk_alt [simp]: "lang (mk_alt r s) = lang r \<union> lang s"
  by (cases "(r, s)" rule: mk_alt.cases) auto

lemma lang_mk_both [simp]: "lang (mk_both r s) = lang r \<inter> lang s"
  by (cases "(r, s)" rule: mk_both.cases) auto

lemma lang_pow_SucI: "u \<in> L \<Longrightarrow> v \<in> lang_pow n L \<Longrightarrow> u @ v \<in> lang_pow (Suc n) L"
  by auto

lemma lang_pow_nil: "[] \<in> lang_pow n L \<longleftrightarrow> n = 0 \<or> [] \<in> L"
  by (induction n) auto

lemma lang_pow_mono_nil: "[] \<in> L \<Longrightarrow> m \<le> n \<Longrightarrow> lang_pow m L \<subseteq> lang_pow n L"
proof (induction n)
  case (Suc n)
  have "lang_pow n L \<subseteq> lang_pow (Suc n) L" using Suc.prems(1) by force
  with Suc show ?case by (cases "m = Suc n") auto
qed simp

lemma nullable_iff: "nullable r \<longleftrightarrow> [] \<in> lang r"
proof (induction r)
  case (RRep lo hi r)
  then show ?case by (auto simp: lang_pow_nil Bex_def intro: exI [of _ lo])
next
  case (RStar r)
  then show ?case by (auto simp: lang_pow_nil)
qed auto

text \<open>A power that starts with \<open>c\<close>: the first non-empty factor starts with it.\<close>

lemma lang_pow_Cons:
  assumes "c # s \<in> lang_pow n L"
  obtains u v m where "s = u @ v" "c # u \<in> L" "v \<in> lang_pow m L" "m < n" "[] \<in> L \<or> Suc m = n"
  using assms
proof (induction n arbitrary: thesis)
  case (Suc n)
  then obtain u v where uv: "c # s = u @ v" "u \<in> L" "v \<in> lang_pow n L" by auto
  show ?case
  proof (cases u)
    case Nil
    with uv have "c # s \<in> lang_pow n L" "[] \<in> L" by simp_all
    with Suc show ?thesis by (metis less_SucI)
  next
    case (Cons d u')
    with uv have "s = u' @ v" "c # u' \<in> L" by simp_all
    with uv Suc.prems show ?thesis by blast
  qed
qed simp

lemma rep_deriv:
  assumes D: "\<And>s. s \<in> lang d \<longleftrightarrow> c # s \<in> lang r"
  shows "c # s \<in> lang (RRep lo hi r) \<longleftrightarrow>
         hi \<noteq> 0 \<and> lo \<le> hi \<and> s \<in> lang (RSeq d (RRep (lo - 1) (hi - 1) r))"
proof
  assume "c # s \<in> lang (RRep lo hi r)"
  then obtain n where n: "lo \<le> n" "n \<le> hi" "c # s \<in> lang_pow n (lang r)" by auto
  obtain u v m where m: "s = u @ v" "c # u \<in> lang r" "v \<in> lang_pow m (lang r)" "m < n"
    "[] \<in> lang r \<or> Suc m = n"
    using n(3) by (rule lang_pow_Cons)
  have "v \<in> lang_pow (max m (lo - 1)) (lang r)"
    using m(3,5) n lang_pow_mono_nil [of "lang r" m "max m (lo - 1)"] by fastforce
  moreover have "lo - 1 \<le> max m (lo - 1)" "max m (lo - 1) \<le> hi - 1" using m(4) n by auto
  ultimately have "v \<in> lang (RRep (lo - 1) (hi - 1) r)" by auto
  with m n D show "hi \<noteq> 0 \<and> lo \<le> hi \<and> s \<in> lang (RSeq d (RRep (lo - 1) (hi - 1) r))" by auto
next
  assume a: "hi \<noteq> 0 \<and> lo \<le> hi \<and> s \<in> lang (RSeq d (RRep (lo - 1) (hi - 1) r))"
  then obtain u v n where uv: "s = u @ v" "c # u \<in> lang r" "lo - 1 \<le> n" "n \<le> hi - 1"
    "v \<in> lang_pow n (lang r)" using D by auto
  then have "c # s \<in> lang_pow (Suc n) (lang r)"
    using lang_pow_SucI [of "c # u" "lang r" v n] by simp
  moreover have "lo \<le> Suc n" "Suc n \<le> hi" using uv a by auto
  ultimately show "c # s \<in> lang (RRep lo hi r)"
    by (simp only: lang.simps) (rule UN_I [of "Suc n"], auto)
qed

lemma star_deriv:
  assumes D: "\<And>s. s \<in> lang d \<longleftrightarrow> c # s \<in> lang r"
  shows "c # s \<in> lang (RStar r) \<longleftrightarrow> s \<in> lang (RSeq d (RStar r))"
proof
  assume "c # s \<in> lang (RStar r)"
  then obtain n where "c # s \<in> lang_pow n (lang r)" by auto
  then obtain u v m where "s = u @ v" "c # u \<in> lang r" "v \<in> lang_pow m (lang r)"
    by (rule lang_pow_Cons)
  then show "s \<in> lang (RSeq d (RStar r))" using D by auto
next
  assume "s \<in> lang (RSeq d (RStar r))"
  then obtain u v n where uv: "s = u @ v" "c # u \<in> lang r" "v \<in> lang_pow n (lang r)"
    using D by auto
  then have "c # s \<in> lang_pow (Suc n) (lang r)"
    using lang_pow_SucI [of "c # u" "lang r" v n] by simp
  then show "c # s \<in> lang (RStar r)" by (simp only: lang.simps) (rule UN_I [of "Suc n"], auto)
qed

lemma seq_deriv:
  assumes "\<And>s. s \<in> lang d1 \<longleftrightarrow> c # s \<in> lang r1" "\<And>s. s \<in> lang d2 \<longleftrightarrow> c # s \<in> lang r2"
  shows "c # s \<in> lang (RSeq r1 r2) \<longleftrightarrow>
         s \<in> lang (RSeq d1 r2) \<or> [] \<in> lang r1 \<and> s \<in> lang d2"
  using assms by (auto simp: Cons_eq_append_conv)

lemma lang_deriv: "s \<in> lang (deriv c r) \<longleftrightarrow> c # s \<in> lang r"
proof (induction r arbitrary: s)
  case (RSeq r1 r2)
  then show ?case
    using seq_deriv [of "deriv c r1" c r1 "deriv c r2" r2 s] by (auto simp: nullable_iff)
next
  case (RRep lo hi r)
  then show ?case
    using rep_deriv [of "deriv c r" c r s lo hi]
    by (simp only: deriv.simps lang_mk_seq split: if_split) auto
next
  case (RStar r)
  then show ?case
    using star_deriv [of "deriv c r" c r s] by (simp only: deriv.simps lang_mk_seq)
qed auto

theorem rex_match_iff: "rex_match r s \<longleftrightarrow> s \<in> lang r"
  by (induction s arbitrary: r) (simp_all add: nullable_iff lang_deriv)

section \<open>Characters and lengths of accepted text\<close>

primrec rex_char :: "rex \<Rightarrow> char \<Rightarrow> bool" where
  "rex_char RNone c = False"
| "rex_char REmpty c = False"
| "rex_char (RClass neg rs) c = in_class neg rs c"
| "rex_char (RSeq r s) c = (rex_char r c \<or> rex_char s c)"
| "rex_char (RAlt r s) c = (rex_char r c \<or> rex_char s c)"
| "rex_char (RBoth r s) c = (rex_char r c \<and> rex_char s c)"
| "rex_char (RRep lo hi r) c = rex_char r c"
| "rex_char (RStar r) c = rex_char r c"

lemma lang_pow_chars:
  assumes "\<And>u. u \<in> L \<Longrightarrow> \<forall>c \<in> set u. P c" "s \<in> lang_pow n L"
  shows "\<forall>c \<in> set s. P c"
  using assms(2)
proof (induction n arbitrary: s)
  case (Suc n)
  then show ?case using assms(1) by auto
qed simp

lemma lang_chars: "s \<in> lang r \<Longrightarrow> \<forall>c \<in> set s. rex_char r c"
proof (induction r arbitrary: s)
  case (RRep lo hi r)
  then show ?case using lang_pow_chars [of "lang r" "rex_char r" s] by auto
next
  case (RStar r)
  then show ?case using lang_pow_chars [of "lang r" "rex_char r" s] by auto
qed fastforce+

lemma rex_match_chars: "rex_match r s \<Longrightarrow> c \<in> set s \<Longrightarrow> rex_char r c"
  using lang_chars by (simp add: rex_match_iff)

text \<open>Every class of a pattern lies inside a list of allowed ranges.\<close>

primrec rex_within :: "(nat \<times> nat) list \<Rightarrow> rex \<Rightarrow> bool" where
  "rex_within A RNone = True"
| "rex_within A REmpty = True"
| "rex_within A (RClass neg rs) =
     (\<not> neg \<and> list_all (\<lambda>(lo, hi). list_ex (\<lambda>(a, b). a \<le> lo \<and> hi \<le> b) A) rs)"
| "rex_within A (RSeq r s) = (rex_within A r \<and> rex_within A s)"
| "rex_within A (RAlt r s) = (rex_within A r \<and> rex_within A s)"
| "rex_within A (RBoth r s) = (rex_within A r \<or> rex_within A s)"
| "rex_within A (RRep lo hi r) = rex_within A r"
| "rex_within A (RStar r) = rex_within A r"

lemma rex_within_char: "rex_within A r \<Longrightarrow> rex_char r c \<Longrightarrow> in_class False A c"
proof (induction r)
  case (RClass neg rs)
  then obtain lo hi where lh: "(lo, hi) \<in> set rs" "lo \<le> ord c" "ord c \<le> hi" and n: "\<not> neg"
    by (auto simp: in_class_def)
  then obtain a b where "(a, b) \<in> set A" "a \<le> lo" "hi \<le> b"
    using RClass.prems(1) by (fastforce simp: list_all_iff list_ex_iff)
  with lh show ?case unfolding in_class_def by (auto intro!: bexI [of _ "(a, b)"])
qed auto

lemma rex_match_within: "rex_within A r \<Longrightarrow> rex_match r s \<Longrightarrow> \<forall>c \<in> set s. in_class False A c"
  using rex_within_char rex_match_chars by blast

primrec rex_max :: "rex \<Rightarrow> nat option" where
  "rex_max RNone = Some 0"
| "rex_max REmpty = Some 0"
| "rex_max (RClass neg rs) = Some 1"
| "rex_max (RSeq r s) = (case (rex_max r, rex_max s) of (Some m, Some n) \<Rightarrow> Some (m + n) | _ \<Rightarrow> None)"
| "rex_max (RAlt r s) = (case (rex_max r, rex_max s) of (Some m, Some n) \<Rightarrow> Some (max m n) | _ \<Rightarrow> None)"
| "rex_max (RBoth r s) = rex_max r"
| "rex_max (RRep lo hi r) = (case rex_max r of Some m \<Rightarrow> Some (hi * m) | None \<Rightarrow> None)"
| "rex_max (RStar r) = None"

lemma lang_pow_len:
  assumes "\<And>u. u \<in> L \<Longrightarrow> length u \<le> m" "s \<in> lang_pow n L"
  shows "length s \<le> n * m"
  using assms(2)
proof (induction n arbitrary: s)
  case (Suc n)
  then obtain u v where "s = u @ v" "u \<in> L" "v \<in> lang_pow n L" by auto
  with Suc.IH assms(1) [of u] show ?case by (auto intro: add_mono)
qed simp

lemma lang_max: "s \<in> lang r \<Longrightarrow> rex_max r = Some m \<Longrightarrow> length s \<le> m"
proof (induction r arbitrary: s m)
  case (RSeq r1 r2)
  then show ?case by (fastforce split: option.splits intro: add_mono)
next
  case (RAlt r1 r2)
  then show ?case by (fastforce split: option.splits)
next
  case (RRep lo hi r)
  then obtain n k where k: "n \<le> hi" "s \<in> lang_pow n (lang r)" "rex_max r = Some k" "m = hi * k"
    by (auto split: option.splits)
  have "length s \<le> n * k" using k RRep.IH by (intro lang_pow_len [of "lang r" k s n]) auto
  with k show ?case by (meson le_trans mult_le_mono1)
qed auto

lemma rex_match_max: "rex_match r s \<Longrightarrow> rex_max r = Some m \<Longrightarrow> length s \<le> m"
  using lang_max by (simp add: rex_match_iff)

section \<open>Simple shapes\<close>

text \<open>A bounded repetition of one class is a length bound and a test of each character.\<close>

lemma lang_pow_class: "s \<in> lang_pow n (lang (RClass neg rs)) \<longleftrightarrow> length s = n \<and> (\<forall>c \<in> set s. in_class neg rs c)"
proof (induction n arbitrary: s)
  case (Suc n)
  have "s \<in> lang_pow (Suc n) (lang (RClass neg rs)) \<longleftrightarrow>
        (\<exists>c v. s = c # v \<and> in_class neg rs c \<and> v \<in> lang_pow n (lang (RClass neg rs)))"
    by (auto simp: Cons_eq_append_conv) (metis append_Cons append_Nil)
  also have "\<dots> \<longleftrightarrow> length s = Suc n \<and> (\<forall>c \<in> set s. in_class neg rs c)"
    unfolding Suc.IH by (cases s) auto
  finally show ?case .
qed auto

lemma match_rep_class:
  "rex_match (RRep lo hi (RClass neg rs)) s \<longleftrightarrow>
     lo \<le> length s \<and> length s \<le> hi \<and> (\<forall>c \<in> set s. in_class neg rs c)"
  unfolding rex_match_iff lang.simps(7) UN_iff lang_pow_class by auto

lemma lang_lit: "lang (lit w) = {w}"
  by (induction w) (auto simp: lit_def in_class_def)

lemma match_words_of: "rex_match (words_of ws) s \<longleftrightarrow> s \<in> set ws"
  unfolding rex_match_iff words_of_def by (induction ws) (auto simp: lang_lit)

lemma match_seq: "rex_match (RSeq r s) t \<longleftrightarrow> (\<exists>u v. t = u @ v \<and> rex_match r u \<and> rex_match s v)"
  unfolding rex_match_iff by auto

lemma match_opt: "rex_match (ROpt r) t \<longleftrightarrow> t = [] \<or> rex_match r t"
  unfolding rex_match_iff ROpt_def by (auto simp: atLeastAtMost_insertL [symmetric] numeral_2_eq_2
      atLeast0_atMost_Suc)

lemma match_class: "rex_match (RClass neg rs) t \<longleftrightarrow> (\<exists>c. t = [c] \<and> in_class neg rs c)"
  unfolding rex_match_iff by auto

lemma lang_opt: "lang (ROpt r) = insert [] (lang r)"
  using match_opt [of r] unfolding rex_match_iff by auto

lemma lang_seq_assoc: "lang (RSeq a (RSeq b c)) = lang (RSeq (RSeq a b) c)"
  by (auto, metis append.assoc, metis append.assoc)

end
