(* ===== verification/Py_Ipaddress.thy ===== *)
theory Py_Ipaddress
  imports Py_Prelude
begin

text \<open>
  Python's \<open>ipaddress\<close> module as the sources use it: \<open>ip_address\<close>, \<open>IPv4Address\<close>,
  \<open>ip_network(text, strict=False)\<close>, their \<open>str\<close> and \<open>is_loopback\<close> (Python 3.12).
  An address keeps the integer the module keeps, and an IPv6 one its zone identifier.
  The lemmas show that the dotted form is canonical: every text the IPv4 parser accepts is
  what printing its result gives back.
\<close>

section \<open>Addresses\<close>

datatype ipaddr = IPv4 nat | IPv6 nat "string option"

definition parse_octet :: "string \<Rightarrow> nat option" where
  "parse_octet s =
     (if s \<noteq> [] \<and> (\<forall>c \<in> set s. is_digit c) \<and> length s \<le> 3 \<and> (s = ''0'' \<or> hd s \<noteq> CHR ''0'')
         \<and> digits_val s \<le> 255
      then Some (digits_val s) else None)"

definition ipv4_of_str :: "string \<Rightarrow> nat option" where
  "ipv4_of_str s =
     (case map parse_octet (py_split CHR ''.'' s) of
        [Some a, Some b, Some c, Some d] \<Rightarrow> Some (((a * 256 + b) * 256 + c) * 256 + d)
      | _ \<Rightarrow> None)"

definition ipv4_str :: "nat \<Rightarrow> string" where
  "ipv4_str n = py_join ''.'' (map nat_to_str
     [n div 16777216, n div 65536 mod 256, n div 256 mod 256, n mod 256])"

definition is_hex :: "char \<Rightarrow> bool" where
  "is_hex c = (is_digit c \<or> (65 \<le> ord c \<and> ord c \<le> 70) \<or> (97 \<le> ord c \<and> ord c \<le> 102))"

definition hex_val :: "char \<Rightarrow> nat" where
  "hex_val c = (if is_digit c then ord c - 48 else if ord c \<le> 70 then ord c - 55 else ord c - 87)"

definition parse_hextet :: "string \<Rightarrow> nat option" where
  "parse_hextet s =
     (if s \<noteq> [] \<and> (\<forall>c \<in> set s. is_hex c) \<and> length s \<le> 4
      then Some (foldl (\<lambda>n c. 16 * n + hex_val c) 0 s) else None)"

fun nat_to_hex :: "nat \<Rightarrow> string" where
  "nat_to_hex n = (let d = char_of (if n mod 16 < 10 then 48 + n mod 16 else 87 + n mod 16)
     in if n < 16 then [d] else nat_to_hex (n div 16) @ [d])"

declare nat_to_hex.simps [simp del]

text \<open>The hextets of \<open>parts\<close>, shifted together from the left.\<close>

primrec join_hextets :: "nat \<Rightarrow> string list \<Rightarrow> nat option" where
  "join_hextets acc [] = Some acc"
| "join_hextets acc (p # ps) =
     (case parse_hextet p of None \<Rightarrow> None | Some h \<Rightarrow> join_hextets (acc * 65536 + h) ps)"

text \<open>An IPv4-style last part becomes two hextets.\<close>

definition expand_v4_tail :: "string list \<Rightarrow> string list option" where
  "expand_v4_tail parts =
     (if CHR ''.'' \<in> set (last parts) then
        (case ipv4_of_str (last parts) of None \<Rightarrow> None
         | Some v \<Rightarrow> Some (butlast parts @ [nat_to_hex (v div 65536), nat_to_hex (v mod 65536)]))
      else Some parts)"

definition ipv6_of_parts :: "string list \<Rightarrow> nat option" where
  "ipv6_of_parts parts =
     (let n = length parts in
      if n > 9 then None
      else (case filter (\<lambda>i. parts ! i = []) [1..<n - 1] of
          [] \<Rightarrow> (if n \<noteq> 8 \<or> hd parts = [] \<or> last parts = [] then None else join_hextets 0 parts)
        | [k] \<Rightarrow>
            (let hi = (if hd parts = [] then k - 1 else k);
                 lo = (if last parts = [] then n - k - 2 else n - k - 1)
             in if (hd parts = [] \<and> hi \<noteq> 0) \<or> (last parts = [] \<and> lo \<noteq> 0) \<or> hi + lo \<ge> 8 then None
                else (case join_hextets 0 (take hi parts) of None \<Rightarrow> None
                  | Some a \<Rightarrow> join_hextets (a * 65536 ^ (8 - (hi + lo))) (drop (n - lo) parts)))
        | _ \<Rightarrow> None))"

definition ipv6_of_str :: "string \<Rightarrow> nat option" where
  "ipv6_of_str s =
     (let parts = py_split CHR '':'' s in
      if length parts < 3 then None
      else case expand_v4_tail parts of None \<Rightarrow> None | Some ps \<Rightarrow> ipv6_of_parts ps)"

text \<open>\<open>IPv6Address(text)\<close>: no slash, and a zone identifier, if any, after one percent sign.\<close>

definition ipv6_address :: "string \<Rightarrow> (nat \<times> string option) option" where
  "ipv6_address s =
     (if CHR ''/'' \<in> set s then None
      else case py_split CHR ''%'' s of
          [a] \<Rightarrow> map_option (\<lambda>n. (n, None)) (ipv6_of_str a)
        | [a, z] \<Rightarrow> (if z = [] then None else map_option (\<lambda>n. (n, Some z)) (ipv6_of_str a))
        | _ \<Rightarrow> None)"

definition ip_address :: "string \<Rightarrow> ipaddr option" where
  "ip_address s =
     (case ipv4_of_str s of Some n \<Rightarrow> Some (IPv4 n)
      | None \<Rightarrow> map_option (\<lambda>(n, z). IPv6 n z) (ipv6_address s))"

text \<open>The longest run of zero hextets (the first of the longest), as the loop finds it.\<close>

fun zero_run :: "string list \<Rightarrow> nat \<Rightarrow> nat \<times> nat \<Rightarrow> nat \<times> nat \<Rightarrow> nat \<times> nat" where
  "zero_run [] i best cur = best"
| "zero_run (h # hs) i best cur =
     (if h = ''0'' then
        (let cur' = (if snd cur = 0 then (i, 1) else (fst cur, snd cur + 1))
         in zero_run hs (i + 1) (if snd cur' > snd best then cur' else best) cur')
      else zero_run hs (i + 1) best (0, 0))"

definition compress_hextets :: "string list \<Rightarrow> string list" where
  "compress_hextets hs =
     (case zero_run hs 0 (0, 0) (0, 0) of (start, len) \<Rightarrow>
        if len > 1 then
          (if start = 0 then [[]] else []) @ take start hs @ [[]] @ drop (start + len) hs
            @ (if start + len = length hs then [[]] else [])
        else hs)"

definition ipv6_str :: "nat \<Rightarrow> string" where
  "ipv6_str n = py_join '':'' (compress_hextets
     (map (\<lambda>i. nat_to_hex (n div 65536 ^ i mod 65536)) [7, 6, 5, 4, 3, 2, 1, 0]))"

fun ip_str :: "ipaddr \<Rightarrow> string" where
  "ip_str (IPv4 n) = ipv4_str n"
| "ip_str (IPv6 n z) = ipv6_str n @ (case z of None \<Rightarrow> [] | Some zone \<Rightarrow> ''%'' @ zone)"

fun is_loopback :: "ipaddr \<Rightarrow> bool" where
  "is_loopback (IPv4 n) = (n div 16777216 = 127)"
| "is_loopback (IPv6 n z) = (n = 1)"

section \<open>Networks\<close>

definition all_digits :: "string \<Rightarrow> bool" where
  "all_digits s = (s \<noteq> [] \<and> (\<forall>c \<in> set s. is_digit c))"

definition prefix_of_str :: "nat \<Rightarrow> string \<Rightarrow> nat option" where
  "prefix_of_str bits s =
     (if all_digits s \<and> length s \<le> 4300 \<and> digits_val s \<le> bits then Some (digits_val s) else None)"

definition netmask :: "nat \<Rightarrow> nat \<Rightarrow> nat" where
  "netmask bits p = (2 ^ p - 1) * 2 ^ (bits - p)"

definition prefix_of_mask :: "nat \<Rightarrow> nat option" where
  "prefix_of_mask m = List.find (\<lambda>p. netmask 32 p = m) [0..<33]"

text \<open>An IPv4 mask is a prefix length, a net mask or a host mask; an IPv6 one a prefix length.\<close>

definition v4_prefix :: "string \<Rightarrow> nat option" where
  "v4_prefix s =
     (case prefix_of_str 32 s of Some p \<Rightarrow> Some p
      | None \<Rightarrow> (case ipv4_of_str s of None \<Rightarrow> None
          | Some m \<Rightarrow> (case prefix_of_mask m of Some p \<Rightarrow> Some p
              | None \<Rightarrow> prefix_of_mask (2 ^ 32 - 1 - m))))"

record ipnet =
  net_addr :: ipaddr
  net_prefix :: nat
  net_bits :: nat

definition net_floor :: "nat \<Rightarrow> nat \<Rightarrow> nat \<Rightarrow> nat" where
  "net_floor bits p n = n div 2 ^ (bits - p) * 2 ^ (bits - p)"

definition ip_network :: "string \<Rightarrow> ipnet option" where
  "ip_network s =
     (let parts = py_split CHR ''/'' s; addr = hd parts in
      if length parts > 2 then None
      else case ipv4_of_str addr of
          Some n \<Rightarrow>
            map_option (\<lambda>p. \<lparr>net_addr = IPv4 (net_floor 32 p n), net_prefix = p, net_bits = 32\<rparr>)
              (if length parts = 2 then v4_prefix (parts ! 1) else Some 32)
        | None \<Rightarrow> (case ipv6_address addr of None \<Rightarrow> None
            | Some (n, z) \<Rightarrow>
                map_option (\<lambda>p. \<lparr>net_addr = IPv6 (net_floor 128 p n)
                                   (if net_floor 128 p n = n then z else None),
                                 net_prefix = p, net_bits = 128\<rparr>)
                  (if length parts = 2 then prefix_of_str 128 (parts ! 1) else Some 128)))"

definition ipnet_str :: "ipnet \<Rightarrow> string" where
  "ipnet_str w = ip_str (net_addr w) @ ''/'' @ nat_to_str (net_prefix w)"

section \<open>The dotted form is canonical\<close>

lemma digits_val_bound: "\<forall>c \<in> set s. is_digit c \<Longrightarrow> digits_val s < 10 ^ length s"
proof (induction s rule: rev_induct)
  case (snoc c s)
  then have "digit_val c \<le> 9" "digits_val s < 10 ^ length s"
    by (auto simp: is_digit_def digit_val_def)
  then show ?case by simp
qed (simp add: digits_val_def)

lemma ord_zero_iff: "ord c = 48 \<longleftrightarrow> c = CHR ''0''"
proof -
  have "ord (CHR ''0'') = 48" by simp
  then show ?thesis by (metis of_char_eq_iff)
qed

lemma digits_val_pos: "s \<noteq> [] \<Longrightarrow> \<forall>c \<in> set s. is_digit c \<Longrightarrow> hd s \<noteq> CHR ''0'' \<Longrightarrow> digits_val s > 0"
proof (induction s rule: rev_induct)
  case (snoc c s)
  show ?case
  proof (cases "s = []")
    case True
    have "ord c \<noteq> 48" using snoc.prems True by (simp add: ord_zero_iff)
    then show ?thesis using snoc.prems True
      by (auto simp: digits_val_def digit_val_def is_digit_def)
  next
    case False
    then have "digits_val s > 0" using snoc by simp
    then show ?thesis by simp
  qed
qed simp

lemma char_of_digit: "is_digit c \<Longrightarrow> char_of (48 + digit_val c) = c"
  by (auto simp: is_digit_def digit_val_def)

lemma digit_val_le: "is_digit c \<Longrightarrow> digit_val c < 10"
  by (auto simp: is_digit_def digit_val_def)

lemma nat_to_str_digits_val:
  "s \<noteq> [] \<Longrightarrow> \<forall>c \<in> set s. is_digit c \<Longrightarrow> hd s \<noteq> CHR ''0'' \<or> length s = 1 \<Longrightarrow> nat_to_str (digits_val s) = s"
proof (induction s rule: rev_induct)
  case (snoc c s)
  show ?case
  proof (cases "s = []")
    case True
    then show ?thesis using snoc.prems
      by (subst nat_to_str.simps) (auto simp: digits_val_def char_of_digit digit_val_le)
  next
    case False
    then have h: "hd s \<noteq> CHR ''0''" using snoc.prems by auto
    have p: "digits_val s > 0" using digits_val_pos [OF False _ h] snoc.prems by simp
    have c: "is_digit c" using snoc.prems by simp
    have "nat_to_str (digits_val s) = s" using snoc.IH [OF False] snoc.prems h by simp
    moreover have "\<not> digits_val (s @ [c]) < 10" using p by simp
    moreover have "digits_val (s @ [c]) div 10 = digits_val s" "digits_val (s @ [c]) mod 10 = digit_val c"
      using digit_val_le [OF c] by simp_all
    ultimately show ?thesis
      using char_of_digit [OF c] by (subst nat_to_str.simps) (simp del: digits_val_snoc)
  qed
qed simp

lemma parse_octet_nat_to_str: "n < 256 \<Longrightarrow> parse_octet (nat_to_str n) = Some n"
proof -
  assume n: "n < 256"
  have d: "\<forall>c \<in> set (nat_to_str n). is_digit c" using is_digit_nat_to_str by blast
  have l: "length (nat_to_str n) \<le> 3" using n by (intro length_nat_to_str_bound) auto
  have z: "nat_to_str n = ''0'' \<or> hd (nat_to_str n) \<noteq> CHR ''0''"
  proof (induction n rule: nat_to_str.induct)
    case (1 n)
    show ?case
    proof (cases "n < 10")
      case True
      have "n = 0 \<or> n = 1 \<or> n = 2 \<or> n = 3 \<or> n = 4 \<or> n = 5 \<or> n = 6 \<or> n = 7 \<or> n = 8 \<or> n = 9"
        using True by arith
      then show ?thesis by (subst (1 2) nat_to_str.simps) (elim disjE; simp add: char_of_def)
    next
      case False
      have "n div 10 > 0" using False by simp
      then have "nat_to_str (n div 10) \<noteq> ''0''"
        using digits_val_nat_to_str [of "n div 10"] by (auto simp: digits_val_def digit_val_def)
      with 1 False have "hd (nat_to_str (n div 10)) \<noteq> CHR ''0''" by blast
      then show ?thesis using False by (subst (2) nat_to_str.simps) (simp)
    qed
  qed
  show ?thesis using d l z n by (simp add: parse_octet_def digits_val_nat_to_str)
qed

lemma parse_octet_SomeD: "parse_octet s = Some n \<Longrightarrow> n < 256 \<and> s = nat_to_str n"
  using nat_to_str_digits_val [of s] by (auto simp: parse_octet_def split: if_splits)


lemma dot_not_in_nat_to_str: "CHR ''.'' \<notin> set (nat_to_str n)"
proof
  assume "CHR ''.'' \<in> set (nat_to_str n)"
  then have "is_digit CHR ''.''" by (rule is_digit_nat_to_str)
  then show False by (simp add: is_digit_def)
qed

lemma octet_split: "d < 256 \<Longrightarrow> (x * 256 + d) div 256 = x \<and> (x * 256 + d) mod 256 = (d::nat)"
  by simp

lemma ipv4_of_str_ipv4_str:
  assumes "n < 2 ^ 32"
  shows "ipv4_of_str (ipv4_str n) = Some n"
proof -
  have "n div 16777216 < 256" using assms by (simp add: less_mult_imp_div_less)
  moreover have "((n div 16777216 * 256 + n div 65536 mod 256) * 256 + n div 256 mod 256) * 256 + n mod 256 = n"
  proof -
    have "n div 65536 = n div 256 div 256" "n div 16777216 = n div 256 div 256 div 256"
      by (simp_all add: div_mult2_eq [symmetric])
    then show ?thesis by simp
  qed
  ultimately show ?thesis
    by (simp add: ipv4_of_str_def ipv4_str_def py_split_append py_split_no_sep
        dot_not_in_nat_to_str parse_octet_nat_to_str)
qed

lemma ipv4_of_str_SomeD:
  assumes "ipv4_of_str s = Some n"
  shows "n < 2 ^ 32 \<and> s = ipv4_str n"
proof -
  obtain p q r t a b c d where sp: "py_split CHR ''.'' s = [p, q, r, t]"
    and oct: "parse_octet p = Some a" "parse_octet q = Some b" "parse_octet r = Some c" "parse_octet t = Some d"
    and n: "n = ((a * 256 + b) * 256 + c) * 256 + d"
    using assms by (auto simp: ipv4_of_str_def split: list.splits option.splits)
  have s: "s = py_join ''.'' [p, q, r, t]" using py_join_split [of "CHR ''.''" s] sp by simp
  note e = oct [THEN parse_octet_SomeD]
  have "n < 2 ^ 32" using e n by simp
  moreover have "n div 16777216 = a \<and> n div 65536 mod 256 = b \<and> n div 256 mod 256 = c \<and> n mod 256 = d"
  proof -
    have d: "n div 65536 = n div 256 div 256" "n div 16777216 = n div 256 div 256 div 256"
      by (simp_all add: div_mult2_eq [symmetric])
    have "n div 256 = (a * 256 + b) * 256 + c" "n mod 256 = d"
      using e n octet_split [of d "(a * 256 + b) * 256 + c"] by blast+
    moreover from this have "n div 256 div 256 = a * 256 + b" "n div 256 mod 256 = c"
      using e octet_split [of c "a * 256 + b"] by simp_all
    moreover from this have "n div 256 div 256 div 256 = a" "n div 256 div 256 mod 256 = b"
      using e octet_split [of b a] by simp_all
    ultimately show ?thesis using d by simp
  qed
  ultimately show ?thesis using s e by (simp add: ipv4_str_def)
qed

lemma ip_address_ipv4_str [simp]: "n < 2 ^ 32 \<Longrightarrow> ip_address (ipv4_str n) = Some (IPv4 n)"
  by (simp only: ip_address_def ipv4_of_str_ipv4_str option.case)

end
