(* ===== verification/Validation.thy ===== *)
theory Validation
  imports Py_Json Py_Regex Py_Ipaddress
begin

text \<open>
  The panel's configuration validation, \<open>src/docker/app/haproxy_admin/validation.py\<close>: the
  patterns, the scalar validators, the walk over an uploaded YAML document, the site, TCP
  proxy and tuning checks, the identity conflicts between entries and \<open>validate_config_data\<close>.

  A YAML document is a tree of \<open>ynode\<close> whose containers carry the identity (\<open>id\<close>) of the
  Python object, since the walk refuses a container it meets twice; floating-point scalars
  are left out.  Once the walk has accepted a document the other checks read it as \<open>json\<close>.
\<close>

section \<open>Patterns\<close>

abbreviation alnum :: "(nat \<times> nat) list" where
  "alnum \<equiv> [upper_range, lower_range, digit_range]"

definition IDENTIFIER_RE :: rex where
  "IDENTIFIER_RE = RSeq (rng alnum []) (RRep 0 127 (rng alnum ''_.-''))"

definition DOMAIN_LABEL :: rex where
  "DOMAIN_LABEL = RSeq (rng alnum []) (ROpt (RSeq (RRep 0 61 (rng alnum ''-'')) (rng alnum [])))"

definition DOMAIN_RE :: rex where
  "DOMAIN_RE = RSeq (ROpt (lit ''*.''))
     (RBoth (RSeq (RRep 1 253 (RClass True [(10, 10)])) (ROpt (lit ''.'')))
        (RSeq (RPlus (RSeq DOMAIN_LABEL (lit ''.''))) (RSeq DOMAIN_LABEL (ROpt (lit ''.'')))))"

definition HOST_RE :: rex where
  "HOST_RE = RRep 1 253 (rng alnum ''_.:%-'')"

definition HOSTNAME_LABEL_RE :: rex where
  "HOSTNAME_LABEL_RE =
     RSeq (rng alnum []) (ROpt (RSeq (RRep 0 61 (rng alnum ''_-'')) (rng alnum [])))"

definition ISO_ALPHA2_RE :: rex where
  "ISO_ALPHA2_RE = RRep 2 2 (rng [upper_range] [])"

definition DNS_PROFILE_RE :: rex where
  "DNS_PROFILE_RE = RSeq (rng [lower_range, digit_range] [])
     (RRep 0 39 (rng [lower_range, digit_range] ''-''))"

definition CA_ID_RE :: rex where
  "CA_ID_RE = RSeq (rng [lower_range, digit_range] [])
     (RRep 0 119 (rng [lower_range, digit_range] ''._-''))"

definition INTERVAL_RE :: rex where
  "INTERVAL_RE = RSeq (rng [(49, 57)] []) (RSeq (RStar (rng [digit_range] []))
     (words_of [''ms'', ''s'', ''m'', ''h'', ''d'']))"

definition not_at_space :: rex where
  "not_at_space = RClass True [(64, 64), (9, 13), (28, 32), (133, 133), (160, 160)]"

definition EMAIL_RE :: rex where
  "EMAIL_RE = RSeq (RRep 1 64 not_at_space) (RSeq (lit ''@'') (RSeq (RRep 1 253 not_at_space)
     (RSeq (lit ''.'') (RRep 2 63 (rng alnum ''-'')))))"

definition control_char :: "char \<Rightarrow> bool" where
  "control_char c = (ord c \<le> 31 \<or> ord c = 127)"

definition has_control :: "string \<Rightarrow> bool" where
  "has_control s = (\<exists>c \<in> set s. control_char c)"

definition BALANCE_VALUES :: "string list" where
  "BALANCE_VALUES = [''roundrobin'', ''static-rr'', ''leastconn'', ''first'', ''source'',
     ''uri'', ''url_param'', ''hdr'', ''random'', ''rdp-cookie'']"

definition BALANCE_ALGORITHMS :: "string list" where
  "BALANCE_ALGORITHMS = BALANCE_VALUES @ [''hash'']"

definition BALANCE_ALGORITHM_RE :: rex where
  "BALANCE_ALGORITHM_RE = RSeq (RPlus (rng [lower_range] ''_-''))
     (ROpt (RSeq (lit ''('') (RSeq (RRep 1 64 (rng alnum ''_.-'')) (lit '')''))))"

definition BALANCE_ARGUMENT_RE :: rex where
  "BALANCE_ARGUMENT_RE = RRep 1 128 (rng alnum ''_.,=/:()-'')"

definition HTTP_REUSE_VALUES :: "string list" where
  "HTTP_REUSE_VALUES = [''never'', ''safe'', ''aggressive'', ''always'']"

definition HAPROXY_TIME_RE :: rex where
  "HAPROXY_TIME_RE = RSeq (RRep 1 9 (rng [digit_range] []))
     (ROpt (words_of [''us'', ''ms'', ''s'', ''m'', ''h'', ''d'']))"

definition HAPROXY_SIZE_RE :: rex where
  "HAPROXY_SIZE_RE = RSeq (rng [(49, 57)] []) (RSeq (RRep 0 9 (rng [digit_range] []))
     (ROpt (rng [] ''kmgKMG'')))"

definition COOKIE_NAME_RE :: rex where
  "COOKIE_NAME_RE = RRep 1 64 (rng alnum ''_.-'')"

definition COOKIE_FLAGS :: "string list" where
  "COOKIE_FLAGS = [''rewrite'', ''insert'', ''prefix'', ''indirect'', ''nocache'', ''postonly'',
     ''preserve'', ''httponly'', ''secure'', ''dynamic'']"

definition COOKIE_OPTIONS_WITH_VALUE :: "string list" where
  "COOKIE_OPTIONS_WITH_VALUE = [''domain'', ''maxidle'', ''maxlife'', ''attr'']"

definition COOKIE_VALUE_RE :: rex where
  "COOKIE_VALUE_RE = RRep 1 128 (rng alnum ''_.=;:/-'')"

definition ALPN_RE :: rex where
  "ALPN_RE = RSeq (RRep 1 32 (rng alnum ''._/-''))
     (RRep 0 7 (RSeq (lit '','') (RRep 1 32 (rng alnum ''._/-''))))"

section \<open>Scalar validators\<close>

definition validate_identifier :: "json \<Rightarrow> string \<Rightarrow> string result" where
  "validate_identifier v label =
     (let text = py_strip (str_or v []) in
      if rex_match IDENTIFIER_RE text then Inr text
      else Inl (ValueError (label @ '': only Latin letters, digits, '.', '_', and '-' are allowed (up to 128 characters)'')))"

text \<open>\<open>text.rstrip(".")\<close>\<close>

definition rstrip_dots :: "string \<Rightarrow> string" where
  "rstrip_dots s = rev (dropWhile (\<lambda>c. c = CHR ''.'') (rev s))"

definition validate_domain :: "json \<Rightarrow> string \<Rightarrow> bool \<Rightarrow> string result" where
  "validate_domain v label allow_wildcard =
     (let text = py_lower (py_strip (str_or v [])) in
      if \<not> rex_match DOMAIN_RE text then Inl (ValueError (label @ '': invalid DNS name''))
      else let text = rstrip_dots text in
      if py_startswith text ''*.'' \<and> \<not> allow_wildcard then
        Inl (ValueError (label @ '': a wildcard is only allowed among the extra certificate names, and only with DNS-01 validation''))
      else if py_startswith text ''*.'' \<and> length (py_split CHR ''.'' text) < 3 then
        Inl (ValueError (label @ '': a wildcard needs at least two labels beneath it''))
      else Inr text)"

definition validate_host :: "json \<Rightarrow> string \<Rightarrow> string result" where
  "validate_host v label =
     (let text = py_strip (str_or v []);
          bad = Inl (ValueError (label @ '': invalid IP address or hostname''));
          literal = (if py_startswith text ''['' \<and> py_endswith text '']'' then butlast (tl text) else text);
          literal = takeWhile (\<lambda>c. c \<noteq> CHR ''%'') literal
      in if \<not> rex_match HOST_RE text \<or> has_control text then bad
         else if ip_address literal \<noteq> None then Inr text
         else if CHR '':'' \<in> set text then bad
         else if \<forall>part \<in> set (py_split CHR ''.'' text). all_digits part then bad
         else if \<not> rex_match DOMAIN_RE text \<and> \<not> rex_match HOSTNAME_LABEL_RE text then bad
         else Inr text)"

definition validate_cidr :: "json \<Rightarrow> string \<Rightarrow> string result" where
  "validate_cidr v label =
     (let text = py_strip (str_or v []);
          bad = Inl (ValueError (label @ '': invalid IP address or network ('' @ repr_str text @ '')''))
      in if text = [] \<or> has_control text \<or> length text > 64 then
           Inl (ValueError (label @ '': invalid IP address or network''))
         else if CHR ''/'' \<in> set text then
           (case ip_network text of None \<Rightarrow> bad
            | Some w \<Rightarrow> Inr (if net_prefix w = net_bits w then ip_str (net_addr w) else ipnet_str w))
         else (case ip_address text of None \<Rightarrow> bad | Some a \<Rightarrow> Inr (ip_str a)))"

definition validate_port :: "json \<Rightarrow> string \<Rightarrow> int result" where
  "validate_port v label =
     (case py_int v of None \<Rightarrow> Inl (ValueError (label @ '' must be a number''))
      | Some port \<Rightarrow>
          if 1 \<le> port \<and> port \<le> 65535 then Inr port
          else Inl (ValueError (label @ '' must be between 1 and 65535'')))"

section \<open>The walk over a document\<close>

datatype ykey = KStr string | KOther

datatype ynode =
    YNull
  | YBool bool
  | YInt int
  | YStr string
  | YOther
  | YList nat "ynode list"
  | YDict nat "(ykey \<times> ynode) list"

definition key_ok :: "ykey \<Rightarrow> bool" where
  "key_ok k = (case k of KOther \<Rightarrow> False | KStr s \<Rightarrow> \<not> has_control s \<and> length s \<le> 128)"

definition key_text :: "ykey \<Rightarrow> string" where
  "key_text k = (case k of KOther \<Rightarrow> [] | KStr s \<Rightarrow> s)"

definition too_many :: "nat \<Rightarrow> unit result" where
  "too_many count = require (count \<le> 10000) ''YAML contains too many items''"

fun reject_unsafe_scalars :: "ynode \<Rightarrow> string \<Rightarrow> nat \<Rightarrow> nat list \<Rightarrow> (nat \<times> nat list) result"
  and reject_entries :: "(ykey \<times> ynode) list \<Rightarrow> string \<Rightarrow> nat \<Rightarrow> nat list \<Rightarrow> nat \<Rightarrow> (nat \<times> nat list) result"
  and reject_items :: "ynode list \<Rightarrow> nat \<Rightarrow> string \<Rightarrow> nat \<Rightarrow> nat list \<Rightarrow> nat \<Rightarrow> (nat \<times> nat list) result"
where
  "reject_unsafe_scalars v path depth seen =
     (if depth > 20 then Inl (ValueError (path @ '': structure is too deeply nested''))
      else case v of
        YStr s \<Rightarrow>
          (if length s > 16384 then Inl (ValueError (path @ '': string is too long''))
           else if has_control s then
             Inl (ValueError (path @ '': control characters and line breaks are forbidden''))
           else Inr (1, seen))
      | YDict i es \<Rightarrow>
          (if i \<in> set seen then Inl (ValueError (path @ '': YAML aliases are not allowed''))
           else reject_entries es path depth (i # seen) 1)
      | YList i xs \<Rightarrow>
          (if i \<in> set seen then Inl (ValueError (path @ '': YAML aliases are not allowed''))
           else reject_items xs 0 path depth (i # seen) 1)
      | YOther \<Rightarrow> Inl (ValueError (path @ '': unsupported value type''))
      | _ \<Rightarrow> Inr (1, seen))"
| "reject_entries [] path depth seen count = Inr (count, seen)"
| "reject_entries ((k, v) # es) path depth seen count =
     (if \<not> key_ok k then Inl (ValueError (path @ '': invalid key''))
      else ebind (reject_unsafe_scalars v (path @ ''.'' @ key_text k) (depth + 1) seen)
        (\<lambda>(n, seen). andthen (too_many (count + n)) (reject_entries es path depth seen (count + n))))"
| "reject_items [] i path depth seen count = Inr (count, seen)"
| "reject_items (v # vs) i path depth seen count =
     ebind (reject_unsafe_scalars v (path @ ''['' @ nat_to_str i @ '']'') (depth + 1) seen)
       (\<lambda>(n, seen). andthen (too_many (count + n)) (reject_items vs (i + 1) path depth seen (count + n)))"

declare reject_unsafe_scalars.simps [simp del]

text \<open>The accepted document as the other checks read it.\<close>

fun ynode_json :: "ynode \<Rightarrow> json" where
  "ynode_json YNull = JNull"
| "ynode_json (YBool b) = JBool b"
| "ynode_json (YInt i) = JInt i"
| "ynode_json (YStr s) = JStr s"
| "ynode_json YOther = JNull"
| "ynode_json (YList i xs) = JList (map ynode_json xs)"
| "ynode_json (YDict i es) = JObj (map (\<lambda>(k, v). (key_text k, ynode_json v)) es)"

end
