(* ===== verification/Validation_Config.thy ===== *)
theory Validation_Config
  imports Validation
begin

text \<open>
  The second half of \<open>validation.py\<close>: backend tuning, one site, one TCP proxy, identity
  conflicts between entries, and \<open>validate_config_data\<close>, the gate every saved or uploaded
  configuration file passes.
\<close>

section \<open>Backend tuning\<close>

definition field_text :: "jobj \<Rightarrow> string \<Rightarrow> string option" where
  "field_text vals key =
     (case jget key vals of JNull \<Rightarrow> None
      | v \<Rightarrow> (let t = py_strip (py_str v) in if t = [] then None else Some t))"

definition validate_balance :: "string \<Rightarrow> string \<Rightarrow> unit result" where
  "validate_balance v label =
     (let ws = py_words v; w0 = hd ws; name = takeWhile (\<lambda>c. c \<noteq> CHR ''('') w0 in
      require (rex_match BALANCE_ALGORITHM_RE w0 \<and> name \<in> set BALANCE_ALGORITHMS \<and> length ws \<le> 8
               \<and> (\<forall>w \<in> set (tl ws). rex_match BALANCE_ARGUMENT_RE w))
        (label @ '': unsupported algorithm''))"

fun cookie_words :: "string \<Rightarrow> string option \<Rightarrow> string list \<Rightarrow> unit result" where
  "cookie_words label waiting [] =
     (case waiting of None \<Rightarrow> Inr () | Some w \<Rightarrow> Inl (ValueError (label @ '': '' @ w @ '' needs a value'')))"
| "cookie_words label (Some w) (x # xs) =
     (if \<not> rex_match COOKIE_VALUE_RE x then Inl (ValueError (label @ '': invalid value for '' @ w))
      else cookie_words label None xs)"
| "cookie_words label None (x # xs) =
     (if x \<in> set COOKIE_OPTIONS_WITH_VALUE then cookie_words label (Some x) xs
      else if x \<notin> set COOKIE_FLAGS then Inl (ValueError (label @ '': unknown cookie option '' @ repr_str x))
      else cookie_words label None xs)"

definition validate_cookie_attrs :: "string \<Rightarrow> string \<Rightarrow> unit result" where
  "validate_cookie_attrs v label =
     (let ws = py_words v in
      if length ws > 24 then Inl (ValueError (label @ '': too many cookie options''))
      else cookie_words label None ws)"

definition tuning_field :: "jobj \<Rightarrow> string \<Rightarrow> (string \<Rightarrow> unit result) \<Rightarrow> unit result" where
  "tuning_field vals key check = (case field_text vals key of None \<Rightarrow> Inr () | Some t \<Rightarrow> check t)"

definition validate_backend_tuning :: "jobj \<Rightarrow> string \<Rightarrow> unit result" where
  "validate_backend_tuning vals prefix = checks (
     [tuning_field vals ''balance'' (\<lambda>t. validate_balance t (prefix @ ''.balance'')),
      tuning_field vals ''http_reuse'' (\<lambda>t. require (t \<in> set HTTP_REUSE_VALUES)
        (prefix @ ''.http_reuse: must be never, safe, aggressive or always''))]
     @ map (\<lambda>key. tuning_field vals key (\<lambda>t. require (rex_match HAPROXY_TIME_RE t)
          (prefix @ ''.'' @ key @ '': must be a time such as 30s, 5m or 1h'')))
        [''session_timeout'', ''http_keepalive_timeout'']
     @ map (\<lambda>key. tuning_field vals key (\<lambda>t. require (rex_match HAPROXY_SIZE_RE t)
          (prefix @ ''.'' @ key @ '': must be a size such as 50k or 1m'')))
        [''err_size'', ''rate_size'']
     @ [tuning_field vals ''cookie_name'' (\<lambda>t. require (rex_match COOKIE_NAME_RE t)
          (prefix @ ''.cookie_name: may use Latin letters, digits, '.', '_' and '-' (up to 64 characters)'')),
        tuning_field vals ''cookie_attrs'' (\<lambda>t. validate_cookie_attrs t (prefix @ ''.cookie_attrs'')),
        tuning_field vals ''backend_alpn'' (\<lambda>t. require (rex_match ALPN_RE t)
          (prefix @ ''.backend_alpn: must be a comma-separated list of protocols such as h2,http/1.1''))])"

section \<open>One site\<close>

text \<open>Iteration over a document value: lists, the keys of a mapping, the characters of a text.\<close>

definition jiter :: "json \<Rightarrow> json list result" where
  "jiter j = (case j of JList xs \<Rightarrow> Inr xs | JObj m \<Rightarrow> Inr (map (JStr \<circ> fst) m)
     | JStr s \<Rightarrow> Inr (map (\<lambda>c. JStr [c]) s)
     | _ \<Rightarrow> Inl (TypeError ''object is not iterable''))"

definition idx :: "string \<Rightarrow> nat \<Rightarrow> string" where
  "idx name i = name @ ''['' @ nat_to_str i @ '']''"

text \<open>A field that, when set, must be a list of at most \<open>n\<close> items that all pass a check.\<close>

definition list_field :: "jobj \<Rightarrow> string \<Rightarrow> nat \<Rightarrow> string \<Rightarrow> (nat \<Rightarrow> json \<Rightarrow> unit result) \<Rightarrow> unit result" where
  "list_field site key n msg check =
     (case jget key site of JNull \<Rightarrow> Inr ()
      | JList xs \<Rightarrow> (if length xs > n then Inl (ValueError msg) else each check xs)
      | _ \<Rightarrow> Inl (ValueError msg))"

definition validate_server :: "string \<Rightarrow> nat \<Rightarrow> json \<Rightarrow> unit result" where
  "validate_server prefix i server =
     (let label = idx (prefix @ ''.servers'') i in
      case server of JObj s \<Rightarrow> checks
        [ignore (validate_identifier (jor (jget ''name'' s) (JStr (''srv'' @ nat_to_str (i + 1)))) (label @ ''.name'')),
         ignore (validate_host (jget ''host'' s) (label @ ''.host'')),
         ignore (validate_port (jget ''port'' s) (label @ ''.port''))]
      | _ \<Rightarrow> Inl (ValueError (label @ '' must be an object'')))"

definition validate_servers :: "jobj \<Rightarrow> string \<Rightarrow> unit result" where
  "validate_servers entry prefix =
     ebind (jiter (jor (jget ''servers'' entry) (JList []))) (each (validate_server prefix))"

definition country_ok :: "json \<Rightarrow> bool" where
  "country_ok j = (case j of JStr s \<Rightarrow> rex_match ISO_ALPHA2_RE (py_strip s) | _ \<Rightarrow> False)"

definition is_one_of :: "json \<Rightarrow> string list \<Rightarrow> bool" where
  "is_one_of j ws = (case j of JStr s \<Rightarrow> s \<in> set ws | _ \<Rightarrow> False)"

definition slow_ms_ok :: "json \<Rightarrow> bool" where
  "slow_ms_ok j = (case j of JInt n \<Rightarrow> 0 \<le> n \<and> n \<le> 600000 | _ \<Rightarrow> False)"

definition email_text_ok :: "json \<Rightarrow> bool" where
  "email_text_ok j = (let e = py_strip (py_str j) in length e \<le> 254 \<and> rex_match EMAIL_RE e)"

text \<open>The checks of the client-certificate fields and of the alerting fields.\<close>

definition validate_mtls :: "jobj \<Rightarrow> string \<Rightarrow> unit result" where
  "validate_mtls site p =
     (let mode = jget ''mtls_mode'' site; ca_id = py_strip (str_or (jget ''mtls_ca_id'' site) []) in
      if mode \<noteq> JNull \<and> \<not> is_one_of mode [''disabled'', ''optional'', ''required''] then
        Inl (ValueError (p @ ''.mtls_mode must be disabled, optional or required''))
      else if is_one_of mode [''optional'', ''required''] then
        (if ca_id = [] then
           Inl (ValueError (p @ ''.mtls_ca_id is required when client certificates are enabled''))
         else require (rex_match CA_ID_RE ca_id) (p @ ''.mtls_ca_id: invalid identifier''))
      else Inr ())"

definition unset_or :: "jobj \<Rightarrow> string \<Rightarrow> (json \<Rightarrow> bool) \<Rightarrow> string \<Rightarrow> unit result" where
  "unset_or site key ok msg = require (jget key site = JNull \<or> ok (jget key site)) msg"

definition validate_alerting :: "jobj \<Rightarrow> string \<Rightarrow> unit result" where
  "validate_alerting site p = checks
     [unset_or site ''access_gate'' is_bool (p @ ''.access_gate must be true or false''),
      unset_or site ''alert_enabled'' is_bool (p @ ''.alert_enabled must be true or false''),
      unset_or site ''alert_mode'' (\<lambda>j. is_one_of j [''down'', ''degraded'']) (p @ ''.alert_mode must be down or degraded''),
      unset_or site ''alert_after'' (\<lambda>j. rex_match INTERVAL_RE (py_str j))
        (p @ ''.alert_after must be an interval such as 5m or 300s''),
      unset_or site ''alert_email'' email_text_ok (p @ ''.alert_email must be a valid email''),
      unset_or site ''alert_slow_ms'' slow_ms_ok
        (p @ ''.alert_slow_ms must be a number of milliseconds from 0 to 600000'')]"

definition validate_site :: "nat \<Rightarrow> json \<Rightarrow> unit result" where
  "validate_site index j =
     (let p = idx ''sites'' index in
      case j of JObj site \<Rightarrow> checks
        [ignore (validate_identifier (jor (jget ''name'' site) (jget ''domain'' site)) (p @ ''.name'')),
         ignore (validate_domain (jor (jget ''domain'' site) (jget ''name'' site)) (p @ ''.domain'') False),
         (if truthy (jget ''backend_ip'' site) then ignore (validate_host (jget ''backend_ip'' site) (p @ ''.backend_ip'')) else Inr ()),
         (if jget ''backend_port'' site \<noteq> JNull then ignore (validate_port (jget ''backend_port'' site) (p @ ''.backend_port'')) else Inr ()),
         list_field site ''geo_countries'' 249 (p @ ''.geo_countries must be a list of at most 249 ISO alpha-2 codes'')
           (\<lambda>i c. require (country_ok c) (idx (p @ ''.geo_countries'') i @ '' must be an uppercase ISO alpha-2 code'')),
         unset_or site ''dns_profile'' (\<lambda>d. rex_match DNS_PROFILE_RE (py_lower (py_strip (py_str d))))
           (p @ ''.dns_profile: may use a-z, 0-9 and dashes''),
         list_field site ''alt_names'' 100 (p @ ''.alt_names must be a list of at most 100 DNS names'')
           (\<lambda>i n. ignore (validate_domain n (idx (p @ ''.alt_names'') i) False)),
         list_field site ''cert_alt_names'' 100 (p @ ''.cert_alt_names must be a list of at most 100 DNS names'')
           (\<lambda>i n. ignore (validate_domain n (idx (p @ ''.cert_alt_names'') i) (truthy (jget ''dns_profile'' site)))),
         list_field site ''allow_ips'' 64 (p @ ''.allow_ips must be a list of at most 64 addresses or networks'')
           (\<lambda>i e. ignore (validate_cidr e (idx (p @ ''.allow_ips'') i))),
         validate_mtls site p,
         validate_alerting site p,
         validate_servers site p,
         validate_backend_tuning site p]
      | _ \<Rightarrow> Inl (ValueError (p @ '' must be an object'')))"

section \<open>One TCP proxy\<close>

definition validate_tcp :: "nat \<Rightarrow> json \<Rightarrow> unit result" where
  "validate_tcp index j =
     (let p = idx ''tcp_proxies'' index in
      case j of JObj proxy \<Rightarrow> checks
        [ignore (validate_identifier (jget ''name'' proxy) (p @ ''.name'')),
         ignore (validate_host (jor (jget ''bind_ip'' proxy) (JStr ''0.0.0.0'')) (p @ ''.bind_ip'')),
         ignore (validate_port (jget ''bind_port'' proxy) (p @ ''.bind_port'')),
         require (py_strip (str_or (jget ''balance'' proxy) ''source'') \<in> set BALANCE_VALUES) (p @ ''.balance: unsupported algorithm''),
         require (\<not> truthy (jget ''inter'' proxy) \<or> rex_match INTERVAL_RE (py_str (jget ''inter'' proxy))) (p @ ''.inter: invalid interval''),
         (if truthy (jget ''backend_host'' proxy) then
            andthen (ignore (validate_host (jget ''backend_host'' proxy) (p @ ''.backend_host'')))
              (ignore (validate_port (jget ''backend_port'' proxy) (p @ ''.backend_port'')))
          else Inr ()),
         validate_servers proxy p]
      | _ \<Rightarrow> Inl (ValueError (p @ '' must be an object'')))"

section \<open>Identity conflicts\<close>

definition haproxy_char :: "char \<Rightarrow> char" where
  "haproxy_char c = (if is_alnum_ascii c \<or> c = CHR ''_'' then c else CHR ''_'')"

definition haproxy_name :: "json \<Rightarrow> string" where
  "haproxy_name v = map haproxy_char (py_strip (str_or v []))"

definition entry_text :: "string \<Rightarrow> jobj \<Rightarrow> string" where
  "entry_text key e = py_strip (str_or (jget key e) [])"

definition routing_names :: "jobj \<Rightarrow> string list result" where
  "routing_names site =
     ebind (jiter (jor (jget ''alt_names'' site) (JList []))) (\<lambda>alts.
       Inr (map (\<lambda>n. py_lower (py_strip (py_str n)))
         (filter (\<lambda>n. py_strip (str_or n []) \<noteq> []) (jget ''domain'' site # alts))))"

definition serving :: "jobj \<Rightarrow> bool" where
  "serving site = (jget ''paused'' site \<noteq> JBool True)"

definition shared_names :: "string list \<Rightarrow> string list \<Rightarrow> string list" where
  "shared_names a b = sort (remdups (filter (\<lambda>n. n \<in> set b) a))"

fun site_conflict_in :: "string \<Rightarrow> bool \<Rightarrow> string list \<Rightarrow> json list \<Rightarrow> string option result" where
  "site_conflict_in name srv routing [] = Inr None"
| "site_conflict_in name srv routing (JObj other # others) =
     (let other_name = entry_text ''name'' other in
      if other_name = name then Inr (Some (''A site named '' @ repr_str name @ '' already exists''))
      else if haproxy_name (JStr other_name) = haproxy_name (JStr name) then
        Inr (Some (''Choose another name: '' @ repr_str name @ '' gives the same HAProxy backend name as the site ''
          @ repr_str other_name @ ''.''))
      else if srv \<and> serving other then
        ebind (routing_names other) (\<lambda>theirs.
          (case shared_names routing theirs of
             s # _ \<Rightarrow> Inr (Some (''This domain is already served by another site: '' @ repr_str s
               @ '' belongs to the site '' @ repr_str other_name @ ''.''))
           | [] \<Rightarrow> site_conflict_in name srv routing others))
      else site_conflict_in name srv routing others)"
| "site_conflict_in name srv routing (_ # others) = site_conflict_in name srv routing others"

definition site_identity_conflict :: "jobj \<Rightarrow> json list \<Rightarrow> string option result" where
  "site_identity_conflict candidate others =
     ebind (routing_names candidate) (\<lambda>routing.
       site_conflict_in (entry_text ''name'' candidate) (serving candidate) routing others)"

definition ANY_ADDRESS :: "string list" where
  "ANY_ADDRESS = [[], ''*'', ''0.0.0.0'', ''::'', ''[::]'']"

definition same_listener :: "string \<Rightarrow> string \<Rightarrow> string \<Rightarrow> string \<Rightarrow> bool" where
  "same_listener address port other_address other_port =
     (port \<noteq> [] \<and> other_port = port \<and>
      (address = other_address \<or> address \<in> set ANY_ADDRESS \<or> other_address \<in> set ANY_ADDRESS))"

fun tcp_conflict_in :: "string \<Rightarrow> string \<Rightarrow> string \<Rightarrow> json list \<Rightarrow> string option" where
  "tcp_conflict_in name address port [] = None"
| "tcp_conflict_in name address port (JObj other # others) =
     (let other_name = entry_text ''name'' other in
      if other_name = name then Some (''TCP proxy with name='' @ repr_str name @ '' already exists'')
      else if haproxy_name (JStr other_name) = haproxy_name (JStr name) then
        Some (''Choose another name: '' @ repr_str name @ '' gives the same HAProxy backend name as the TCP proxy ''
          @ repr_str other_name @ ''.'')
      else if same_listener address port (entry_text ''bind_ip'' other) (entry_text ''bind_port'' other) then
        Some (''This listening address is already taken by another TCP proxy: ''
          @ (if address = [] then ''*'' else address) @ '':'' @ port @ '' belongs to the TCP proxy ''
          @ repr_str other_name @ ''.'')
      else tcp_conflict_in name address port others)"
| "tcp_conflict_in name address port (_ # others) = tcp_conflict_in name address port others"

definition tcp_identity_conflict :: "jobj \<Rightarrow> json list \<Rightarrow> string option" where
  "tcp_identity_conflict candidate others =
     tcp_conflict_in (entry_text ''name'' candidate) (entry_text ''bind_ip'' candidate)
       (entry_text ''bind_port'' candidate) others"

fun shared_haproxy_names :: "string \<Rightarrow> (string \<times> string) list \<Rightarrow> json list \<Rightarrow> unit result" where
  "shared_haproxy_names label seen [] = Inr ()"
| "shared_haproxy_names label seen (JObj e # es) =
     (let name = entry_text ''name'' e; key = haproxy_name (JStr name) in
      case map_of seen key of
        Some other \<Rightarrow> Inl (ValueError (label @ '': '' @ repr_str name @ '' and '' @ repr_str other @ '' give the same HAProxy name''))
      | None \<Rightarrow> shared_haproxy_names label ((key, name) # seen) es)"
| "shared_haproxy_names label seen (_ # es) = shared_haproxy_names label seen es"

definition no_shared_haproxy_names :: "json list \<Rightarrow> string \<Rightarrow> unit result" where
  "no_shared_haproxy_names entries label = shared_haproxy_names label [] entries"

section \<open>A whole file\<close>

definition entries_of :: "json \<Rightarrow> string \<Rightarrow> (json list \<Rightarrow> unit result) \<Rightarrow> unit result" where
  "entries_of j msg k =
     (case j of JList xs \<Rightarrow> (if length xs > 500 then Inl (ValueError msg) else k xs)
      | _ \<Rightarrow> Inl (ValueError msg))"

definition config_doc :: "(ykey \<times> ynode) list \<Rightarrow> jobj" where
  "config_doc es = map (\<lambda>(k, v). (key_text k, ynode_json v)) es"

definition validate_config_data :: "string \<Rightarrow> nat \<Rightarrow> (ykey \<times> ynode) list \<Rightarrow> unit result" where
  "validate_config_data kind i es =
     andthen (ignore (reject_unsafe_scalars (YDict i es) ''root'' 0 []))
     (let data = config_doc es in
      if kind = ''websites'' then
        entries_of (jget_or ''sites'' (JList []) data) ''sites must be a list of at most 500 items''
          (\<lambda>sites. andthen (each validate_site sites) (no_shared_haproxy_names sites ''sites''))
      else if kind = ''tcp'' then
        entries_of (jget_or ''tcp_proxies'' (jget_or ''tcp'' (JList []) data) data)
          ''tcp_proxies must be a list of at most 500 items''
          (\<lambda>proxies. andthen (each validate_tcp proxies) (no_shared_haproxy_names proxies ''tcp_proxies''))
      else if kind = ''vars'' then
        (case jget ''site_defaults'' data of JObj defaults \<Rightarrow> validate_backend_tuning defaults ''site_defaults''
         | _ \<Rightarrow> Inr ())
      else Inr ())"

end
