(* ===== verification/Validation_Facts.thy ===== *)
theory Validation_Facts
  imports Validation_Config
begin

text \<open>
  What the validators guarantee.  The first section gives the walk over a document its
  closed form; the next ones describe the texts the patterns accept, the canonical forms
  of domains and networks, and the consistency of a list of sites or TCP proxies that the
  identity checks keep.
\<close>

section \<open>The walk\<close>

text \<open>Nodes of a document, the identities of its containers in the order they are met.\<close>

fun ysize :: "ynode \<Rightarrow> nat" where
  "ysize (YList i xs) = 1 + sum_list (map ysize xs)"
| "ysize (YDict i es) = 1 + sum_list (map (\<lambda>(k, v). ysize v) es)"
| "ysize _ = 1"

fun yids :: "ynode \<Rightarrow> nat list" where
  "yids (YList i xs) = i # concat (map yids xs)"
| "yids (YDict i es) = i # concat (map (\<lambda>(k, v). yids v) es)"
| "yids _ = []"

text \<open>Every scalar and key is harmless and nothing is nested deeper than twenty levels.\<close>

fun ysafe :: "nat \<Rightarrow> ynode \<Rightarrow> bool" where
  "ysafe d (YStr s) = (d \<le> 20 \<and> length s \<le> 16384 \<and> \<not> has_control s)"
| "ysafe d YOther = False"
| "ysafe d (YList i xs) = (d \<le> 20 \<and> (\<forall>x \<in> set xs. ysafe (d + 1) x))"
| "ysafe d (YDict i es) = (d \<le> 20 \<and> (\<forall>(k, v) \<in> set es. key_ok k \<and> ysafe (d + 1) v))"
| "ysafe d _ = (d \<le> 20)"

definition yaccept :: "nat \<Rightarrow> nat list \<Rightarrow> ynode list \<Rightarrow> bool" where
  "yaccept d seen vs = ((\<forall>v \<in> set vs. ysafe d v) \<and> distinct (concat (map yids vs))
     \<and> set (concat (map yids vs)) \<inter> set seen = {})"

lemma yaccept_Nil [simp]: "yaccept d seen []"
  by (simp add: yaccept_def)

lemma yaccept_Cons:
  "yaccept d seen (v # vs) \<longleftrightarrow> yaccept d seen [v] \<and> yaccept d (rev (yids v) @ seen) vs"
  by (auto simp: yaccept_def)

lemma yaccept_dict: "yaccept d seen [YDict i es] \<longleftrightarrow>
    d \<le> 20 \<and> i \<notin> set seen \<and> (\<forall>(k, v) \<in> set es. key_ok k) \<and> yaccept (d + 1) (i # seen) (map snd es)"
  by (auto simp: yaccept_def comp_def split_def)

lemma yaccept_list: "yaccept d seen [YList i xs] \<longleftrightarrow>
    d \<le> 20 \<and> i \<notin> set seen \<and> yaccept (d + 1) (i # seen) xs"
  by (auto simp: yaccept_def)

lemma ysize_pos: "0 < ysize v"
  by (cases v) auto

lemmas reject_cases =
  reject_unsafe_scalars.simps [of YNull] reject_unsafe_scalars.simps [of "YBool b" for b]
  reject_unsafe_scalars.simps [of "YInt n" for n] reject_unsafe_scalars.simps [of "YStr s" for s]
  reject_unsafe_scalars.simps [of YOther] reject_unsafe_scalars.simps [of "YList i xs" for i xs]
  reject_unsafe_scalars.simps [of "YDict i es" for i es]

lemma reject_closed_form:
  "reject_unsafe_scalars v path depth seen = Inr r \<longleftrightarrow>
     yaccept depth seen [v] \<and> ysize v \<le> 10000 \<and> r = (ysize v, rev (yids v) @ seen)"
  "reject_entries es path depth seen count = Inr r \<longleftrightarrow>
     (\<forall>(k, v) \<in> set es. key_ok k) \<and> yaccept (depth + 1) seen (map snd es)
     \<and> (es = [] \<or> count + sum_list (map (ysize \<circ> snd) es) \<le> 10000)
     \<and> r = (count + sum_list (map (ysize \<circ> snd) es), rev (concat (map (yids \<circ> snd) es)) @ seen)"
  "reject_items vs i path depth seen count = Inr r \<longleftrightarrow>
     yaccept (depth + 1) seen vs \<and> (vs = [] \<or> count + sum_list (map ysize vs) \<le> 10000)
     \<and> r = (count + sum_list (map ysize vs), rev (concat (map yids vs)) @ seen)"
proof (induction v path depth seen and es path depth seen count and vs i path depth seen count
    arbitrary: r and r and r
    rule: reject_unsafe_scalars_reject_entries_reject_items.induct)
  case (1 v path depth seen)
  show ?case
  proof (cases v)
    case (YList i xs)
    then show ?thesis using 1(1) [OF _ YList, of r]
      by (auto simp: reject_cases yaccept_list)
  next
    case (YDict i es)
    then show ?thesis using 1(2) [OF _ YDict, of r]
      by (auto simp: reject_cases yaccept_dict comp_def split_def)
  qed (auto simp: reject_cases yaccept_def)
next
  case (3 k v es path depth seen count)
  let ?P = "key_ok k \<and> yaccept (depth + 1) seen [v] \<and> ysize v \<le> 10000"
  show ?case
  proof (cases ?P)
    case True
    then have "reject_unsafe_scalars v (path @ ''.'' @ key_text k) (depth + 1) seen = Inr (ysize v, rev (yids v) @ seen)"
      using 3(1) by simp
    with True show ?thesis
      using 3(2) [of "rev (yids v) @ seen" "ysize v" r]
      by (auto simp: too_many_def yaccept_Cons [of _ _ v "map snd es"])
  next
    case False
    then show ?thesis using 3(1) by (auto simp: ebind_Inr_iff yaccept_Cons [of _ _ v "map snd es"])
  qed
next
  case (5 v vs i path depth seen count)
  let ?P = "yaccept (depth + 1) seen [v] \<and> ysize v \<le> 10000"
  show ?case
  proof (cases ?P)
    case True
    then have "reject_unsafe_scalars v (path @ ''['' @ nat_to_str i @ '']'') (depth + 1) seen = Inr (ysize v, rev (yids v) @ seen)"
      using 5(1) by simp
    with True show ?thesis
      using 5(2) [of "rev (yids v) @ seen" "ysize v" r]
      by (auto simp: too_many_def yaccept_Cons [of _ _ v vs])
  next
    case False
    then show ?thesis using 5(1) by (auto simp: ebind_Inr_iff yaccept_Cons [of _ _ v vs])
  qed
qed auto

section \<open>Words of a configuration line\<close>

text \<open>
  The characters the tuning patterns let into the generated configuration: none of them ends
  a word, quotes, escapes or starts a comment.
\<close>

definition TOKEN_CHARS :: "(nat \<times> nat) list" where
  "TOKEN_CHARS = [upper_range, lower_range, digit_range, (40, 41), (44, 47), (58, 59), (61, 61), (95, 95)]"

definition token_char :: "char \<Rightarrow> bool" where
  "token_char c = in_class False TOKEN_CHARS c"

lemma token_not_space: "token_char c \<Longrightarrow> \<not> py_isspace c"
  by (auto simp: token_char_def TOKEN_CHARS_def in_class_def py_isspace_def Let_def)

lemma token_not_special:
  assumes "token_char c"
  shows "c \<noteq> CHR ''#''" "c \<noteq> CHR 0x22" "c \<noteq> CHR 0x27" "c \<noteq> CHR 0x5C" "c \<noteq> CHR ''[''" "c \<noteq> CHR ''{''"
  using assms by (auto simp: token_char_def TOKEN_CHARS_def in_class_def)

lemmas pattern_defs = rng_def singles_def lit_def words_of_def RPlus_def ROpt_def

lemma tuning_pattern_chars:
  "rex_within TOKEN_CHARS BALANCE_ALGORITHM_RE" "rex_within TOKEN_CHARS BALANCE_ARGUMENT_RE"
  "rex_within TOKEN_CHARS HAPROXY_TIME_RE" "rex_within TOKEN_CHARS HAPROXY_SIZE_RE"
  "rex_within TOKEN_CHARS COOKIE_NAME_RE" "rex_within TOKEN_CHARS COOKIE_VALUE_RE"
  "rex_within TOKEN_CHARS ALPN_RE"
  by (simp_all add: TOKEN_CHARS_def BALANCE_ALGORITHM_RE_def BALANCE_ARGUMENT_RE_def HAPROXY_TIME_RE_def
      HAPROXY_SIZE_RE_def COOKIE_NAME_RE_def COOKIE_VALUE_RE_def ALPN_RE_def pattern_defs)

lemma tuning_word_chars:
  "\<forall>w \<in> set (HTTP_REUSE_VALUES @ COOKIE_FLAGS @ COOKIE_OPTIONS_WITH_VALUE). \<forall>c \<in> set w. token_char c"
  by (simp add: HTTP_REUSE_VALUES_def COOKIE_FLAGS_def COOKIE_OPTIONS_WITH_VALUE_def token_char_def
      TOKEN_CHARS_def in_class_def)

definition token :: "string \<Rightarrow> bool" where
  "token w = (\<forall>c \<in> set w. token_char c)"

lemmas pattern_tokens = tuning_pattern_chars [THEN rex_match_within, folded token_char_def token_def]

lemma word_tokens:
  "w \<in> set HTTP_REUSE_VALUES \<Longrightarrow> token w" "w \<in> set COOKIE_FLAGS \<Longrightarrow> token w"
  "w \<in> set COOKIE_OPTIONS_WITH_VALUE \<Longrightarrow> token w"
  using tuning_word_chars unfolding token_def by auto

lemma py_words_from_cover:
  "c \<in> set s \<union> set w \<Longrightarrow> \<forall>x \<in> set w. \<not> py_isspace x \<Longrightarrow> \<not> py_isspace c \<Longrightarrow> \<exists>x \<in> set (py_words_from w s). c \<in> set x"
  by (induction w s rule: py_words_from.induct) (auto split: if_splits)

lemma py_words_cover: "c \<in> set t \<Longrightarrow> py_isspace c \<or> (\<exists>x \<in> set (py_words t). c \<in> set x)"
  using py_words_from_cover [of c t "[]"] by (auto simp: py_words_def)

lemma py_words_from_solid: "\<forall>c \<in> set s. \<not> py_isspace c \<Longrightarrow> py_words_from w s = (if w = [] \<and> s = [] then [] else [rev w @ s])"
  by (induction w s rule: py_words_from.induct) auto

lemma py_words_token: "token t \<Longrightarrow> t \<noteq> [] \<Longrightarrow> py_words t = [t]"
  by (simp add: py_words_def py_words_from_solid token_def token_not_space)

lemma py_words_nonspace: "w \<in> set (py_words_from v s) \<Longrightarrow> \<forall>x \<in> set v. \<not> py_isspace x \<Longrightarrow> c \<in> set w \<Longrightarrow> \<not> py_isspace c"
  by (induction v s rule: py_words_from.induct) (auto split: if_splits)

lemma validate_balance_tokens:
  "validate_balance t label = Inr () \<Longrightarrow> w \<in> set (py_words t) \<Longrightarrow> token w"
  by (cases "py_words t") (auto simp: validate_balance_def Let_def dest: pattern_tokens)

lemma cookie_words_tokens: "cookie_words label waiting ws = Inr () \<Longrightarrow> w \<in> set ws \<Longrightarrow> token w"
proof (induction label waiting ws rule: cookie_words.induct)
  case (2 label v x xs)
  then show ?case by (auto dest: pattern_tokens split: if_splits)
next
  case (3 label x xs)
  then show ?case by (auto dest: word_tokens split: if_splits)
qed simp

definition TUNING_KEYS :: "string list" where
  "TUNING_KEYS = [''balance'', ''http_reuse'', ''session_timeout'', ''http_keepalive_timeout'',
     ''err_size'', ''rate_size'', ''cookie_name'', ''cookie_attrs'', ''backend_alpn'']"

lemma tuning_tokens:
  assumes ok: "validate_backend_tuning vals prefix = Inr ()" and key: "key \<in> set TUNING_KEYS"
    and t: "field_text vals key = Some t"
  shows "\<forall>w \<in> set (py_words t). token w" "key \<notin> {''balance'', ''cookie_attrs''} \<Longrightarrow> py_words t = [t]"
proof -
  have ne: "t \<noteq> []" using t by (auto simp: field_text_def Let_def split: json.splits if_splits)
  have f: "tuning_field vals key check = check t" for check
    by (simp add: tuning_field_def t)
  note ok' = ok [unfolded validate_backend_tuning_def checks_Inr, simplified]
  have "key = ''balance'' \<and> validate_balance t (prefix @ ''.balance'') = Inr () \<or>
        key = ''cookie_attrs'' \<and> validate_cookie_attrs t (prefix @ ''.cookie_attrs'') = Inr () \<or>
        token t \<and> key \<notin> {''balance'', ''cookie_attrs''}"
    using key ok' f unfolding TUNING_KEYS_def
    by (elim set_ConsD [elim_format] disjE; simp) (auto dest: pattern_tokens word_tokens)
  moreover have "validate_cookie_attrs t l = Inr () \<Longrightarrow> w \<in> set (py_words t) \<Longrightarrow> token w" for l w
    using cookie_words_tokens [of l None "py_words t" w]
    by (auto simp: validate_cookie_attrs_def Let_def split: if_splits)
  ultimately show "\<forall>w \<in> set (py_words t). token w" "key \<notin> {''balance'', ''cookie_attrs''} \<Longrightarrow> py_words t = [t]"
    using validate_balance_tokens py_words_token ne by auto
qed

section \<open>Entries that can stand beside each other\<close>

definition hname :: "jobj \<Rightarrow> string" where
  "hname e = haproxy_name (JStr (entry_text ''name'' e))"

definition routes :: "jobj \<Rightarrow> string set" where
  "routes e = (case routing_names e of Inl _ \<Rightarrow> {} | Inr ns \<Rightarrow> set ns)"

text \<open>Two sites with distinct HAProxy names that, when both serve, share no host name.\<close>

definition site_pair_ok :: "jobj \<Rightarrow> jobj \<Rightarrow> bool" where
  "site_pair_ok a b = (hname a \<noteq> hname b \<and> (serving a \<and> serving b \<longrightarrow> routes a \<inter> routes b = {}))"

definition on_objects :: "(jobj \<Rightarrow> jobj \<Rightarrow> bool) \<Rightarrow> json \<Rightarrow> json \<Rightarrow> bool" where
  "on_objects R x y = (case (x, y) of (JObj a, JObj b) \<Rightarrow> R a b | _ \<Rightarrow> True)"

definition sites_consistent :: "json list \<Rightarrow> bool" where
  "sites_consistent xs = sorted_wrt (on_objects site_pair_ok) xs"

lemma on_objects_JObj [simp]: "on_objects R (JObj a) (JObj b) = R a b"
  by (simp add: on_objects_def)

lemma on_objects_iff: "on_objects R (JObj a) y \<longleftrightarrow> (\<forall>b. y = JObj b \<longrightarrow> R a b)"
  "on_objects R x (JObj b) \<longleftrightarrow> (\<forall>a. x = JObj a \<longrightarrow> R a b)"
  by (auto simp: on_objects_def split: json.splits)

text \<open>Inserting an entry that is compatible with all the others, in either order.\<close>

lemma sorted_wrt_insert:
  assumes "sorted_wrt (on_objects R) (xs @ ys)"
    and "\<And>b. JObj b \<in> set (xs @ ys) \<Longrightarrow> R c b \<and> R b c"
  shows "sorted_wrt (on_objects R) (xs @ JObj c # ys)"
  using assms by (auto simp: sorted_wrt_append on_objects_iff)

lemma shared_names_Nil: "shared_names a b = [] \<longleftrightarrow> set a \<inter> set b = {}"
proof -
  have "set (shared_names a b) = set a \<inter> set b" by (auto simp: shared_names_def)
  then show ?thesis by (metis set_empty)
qed

lemma site_conflict_Cons_None:
  assumes "site_conflict_in n srv ns (JObj e # others) = Inr None"
  shows "haproxy_name (JStr (entry_text ''name'' e)) \<noteq> haproxy_name (JStr n)"
    "srv \<Longrightarrow> serving e \<Longrightarrow> set ns \<inter> routes e = {}" "site_conflict_in n srv ns others = Inr None"
  using assms by (auto simp: Let_def routes_def shared_names_Nil split: if_splits list.splits)

lemma site_conflict_in_None:
  "site_conflict_in (entry_text ''name'' c) (serving c) ns others = Inr None \<Longrightarrow>
   routing_names c = Inr ns \<Longrightarrow> JObj b \<in> set others \<Longrightarrow> site_pair_ok c b"
proof (induction others)
  case (Cons x others)
  show ?case
  proof (cases "JObj b = x")
    case True
    then show ?thesis
      using site_conflict_Cons_None [OF Cons.prems(1) [folded True]] Cons.prems(2)
      by (auto simp: site_pair_ok_def hname_def routes_def)
  next
    case False
    have "site_conflict_in (entry_text ''name'' c) (serving c) ns others = Inr None"
      using Cons.prems(1) site_conflict_Cons_None(3) by (cases x) auto
    then show ?thesis using Cons False by simp
  qed
qed simp

lemma site_identity_conflict_None:
  assumes "site_identity_conflict c others = Inr None" "JObj b \<in> set others"
  shows "site_pair_ok c b"
  using assms site_conflict_in_None [of c _ others b]
  by (auto simp: site_identity_conflict_def)

lemma site_pair_ok_sym: "site_pair_ok a b \<Longrightarrow> site_pair_ok b a"
  by (auto simp: site_pair_ok_def)

text \<open>A connection to an address and port that a TCP proxy's listener receives.\<close>

definition tcp_listens :: "jobj \<Rightarrow> string \<Rightarrow> string \<Rightarrow> bool" where
  "tcp_listens e addr port =
     (port \<noteq> [] \<and> entry_text ''bind_port'' e = port \<and>
      (entry_text ''bind_ip'' e = addr \<or> entry_text ''bind_ip'' e \<in> set ANY_ADDRESS))"

definition tcp_pair_ok :: "jobj \<Rightarrow> jobj \<Rightarrow> bool" where
  "tcp_pair_ok a b = (hname a \<noteq> hname b \<and>
     \<not> same_listener (entry_text ''bind_ip'' a) (entry_text ''bind_port'' a)
        (entry_text ''bind_ip'' b) (entry_text ''bind_port'' b))"

definition tcp_consistent :: "json list \<Rightarrow> bool" where
  "tcp_consistent xs = sorted_wrt (on_objects tcp_pair_ok) xs"

lemma tcp_pair_ok_sym: "tcp_pair_ok a b \<Longrightarrow> tcp_pair_ok b a"
  by (auto simp: tcp_pair_ok_def same_listener_def)

lemma tcp_identity_conflict_None:
  "tcp_identity_conflict c others = None \<Longrightarrow> JObj b \<in> set others \<Longrightarrow> tcp_pair_ok c b"
  unfolding tcp_identity_conflict_def
proof (induction "entry_text ''name'' c" "entry_text ''bind_ip'' c" "entry_text ''bind_port'' c" others
    rule: tcp_conflict_in.induct)
  case (2 other others)
  then show ?case by (auto simp: Let_def tcp_pair_ok_def hname_def split: if_splits)
qed auto

lemma tcp_pair_listens: "tcp_pair_ok a b \<Longrightarrow> \<not> (tcp_listens a addr port \<and> tcp_listens b addr port)"
  by (auto simp: tcp_pair_ok_def same_listener_def tcp_listens_def)

text \<open>The whole-file check: the HAProxy names of all objects are distinct.\<close>

lemma shared_haproxy_names_Inr:
  "shared_haproxy_names label seen es = Inr () \<Longrightarrow>
     sorted_wrt (on_objects (\<lambda>a b. hname a \<noteq> hname b)) es \<and>
     (\<forall>b. JObj b \<in> set es \<longrightarrow> hname b \<notin> fst ` set seen)"
proof (induction label seen es rule: shared_haproxy_names.induct)
  case (2 label seen e es)
  have n: "map_of seen (hname e) = None"
    using "2.prems" by (auto simp: Let_def hname_def split: option.splits)
  then have "shared_haproxy_names label ((hname e, entry_text ''name'' e) # seen) es = Inr ()"
    using "2.prems" by (simp add: Let_def hname_def)
  then have "sorted_wrt (on_objects (\<lambda>a b. hname a \<noteq> hname b)) es \<and>
      (\<forall>b. JObj b \<in> set es \<longrightarrow> hname b \<noteq> hname e \<and> hname b \<notin> fst ` set seen)"
    using 2(1) [OF refl refl] n unfolding hname_def by auto
  then show ?case using n by (auto simp: on_objects_iff map_of_eq_None_iff)
qed (auto simp: on_objects_def)

section \<open>Domains\<close>

definition DOMAIN_CORE :: rex where
  "DOMAIN_CORE = RSeq (RPlus (RSeq DOMAIN_LABEL (lit ''.''))) DOMAIN_LABEL"

definition host_end :: "char \<Rightarrow> bool" where
  "host_end c = in_class False alnum c"

lemma host_end_class: "in_class False (alnum @ singles []) c \<longleftrightarrow> host_end c"
  by (simp add: host_end_def singles_def)

lemma label_last: "u \<in> lang DOMAIN_LABEL \<Longrightarrow> u \<noteq> [] \<and> host_end (last u)"
  unfolding DOMAIN_LABEL_def rng_def rex_match_iff [symmetric] match_seq match_opt match_class
    host_end_class by (auto simp: singles_def host_end_def)

lemma core_last: "u \<in> lang DOMAIN_CORE \<Longrightarrow> u \<noteq> [] \<and> host_end (last u)"
  using label_last by (auto simp: DOMAIN_CORE_def)

lemma host_end_not_dot: "host_end c \<Longrightarrow> c \<noteq> CHR ''.'' \<and> c \<noteq> CHR 0x0A"
  by (auto simp: host_end_def in_class_def)

lemma core_no_newline: "u \<in> lang DOMAIN_CORE \<Longrightarrow> c \<in> set u \<Longrightarrow> in_class True [(10, 10)] c"
proof -
  assume u: "u \<in> lang DOMAIN_CORE" "c \<in> set u"
  have "rex_within [upper_range, lower_range, digit_range, (45, 46)] DOMAIN_CORE"
    by (simp add: DOMAIN_CORE_def DOMAIN_LABEL_def rng_def singles_def lit_def RPlus_def ROpt_def)
  then have "in_class False [upper_range, lower_range, digit_range, (45, 46)] c"
    using u rex_match_within by (metis rex_match_iff)
  then show ?thesis by (auto simp: in_class_def)
qed

lemma domain_match_iff:
  "rex_match DOMAIN_RE t \<longleftrightarrow> (\<exists>w u d. t = w @ u @ d \<and> w \<in> {[], ''*.''} \<and> d \<in> {[], ''.''} \<and>
     u \<in> lang DOMAIN_CORE \<and> length u \<le> 253)"
proof -
  have any: "x \<in> lang (RSeq (RRep 1 253 (RClass True [(10, 10)])) (ROpt (lit ''.''))) \<longleftrightarrow>
      (\<exists>y d. x = y @ d \<and> d \<in> {[], ''.''} \<and> 1 \<le> length y \<and> length y \<le> 253 \<and> (\<forall>c \<in> set y. in_class True [(10, 10)] c))" for x
    unfolding rex_match_iff [symmetric] match_seq match_rep_class match_opt
    by (auto simp: rex_match_iff lang_lit)
  have fit: "u @ d \<in> lang (RSeq (RRep 1 253 (RClass True [(10, 10)])) (ROpt (lit ''.''))) \<longleftrightarrow> length u \<le> 253"
    if u: "u \<in> lang DOMAIN_CORE" and d: "d \<in> {[], ''.''}" for u d
  proof
    assume "u @ d \<in> lang (RSeq (RRep 1 253 (RClass True [(10, 10)])) (ROpt (lit ''.'')))"
    then obtain y e where y: "u @ d = y @ e" "e \<in> {[], ''.''}" "length y \<le> 253" unfolding any by blast
    have "length u \<le> length y"
    proof (cases "d = [] \<and> e = ''.''")
      case True
      then have "last u = CHR ''.''" using y by simp
      then show ?thesis using core_last [OF u] host_end_not_dot by blast
    next
      case False
      then show ?thesis using y d by (metis append_Nil2 append_eq_append_conv insertE length_append
            le_add1 order_refl singletonD)
    qed
    then show "length u \<le> 253" using y by simp
  next
    assume "length u \<le> 253"
    then show "u @ d \<in> lang (RSeq (RRep 1 253 (RClass True [(10, 10)])) (ROpt (lit ''.'')))"
      unfolding any using d core_last [OF u] core_no_newline [OF u]
      by (intro exI [of _ u] exI [of _ d]) (auto simp: Suc_le_eq)
  qed
  have "rex_match DOMAIN_RE t \<longleftrightarrow> (\<exists>w u d. t = w @ u @ d \<and> w \<in> {[], ''*.''} \<and> d \<in> {[], ''.''} \<and>
     u \<in> lang DOMAIN_CORE \<and> u @ d \<in> lang (RSeq (RRep 1 253 (RClass True [(10, 10)])) (ROpt (lit ''.''))))"
    unfolding rex_match_iff DOMAIN_RE_def lang.simps(4) [of "ROpt (lit ''*.'')"] lang.simps(6) lang_seq_assoc
      DOMAIN_CORE_def [symmetric] lang.simps(4) [of DOMAIN_CORE] lang_opt lang_lit by blast
  then show ?thesis using fit by blast
qed

lemma rstrip_dots_core:
  assumes "u \<in> lang DOMAIN_CORE" "d \<in> {[], ''.''}"
  shows "rstrip_dots (w @ u @ d) = w @ u"
proof -
  obtain x c where u: "u = x @ [c]" "c \<noteq> CHR ''.''"
    using core_last [OF assms(1)] host_end_not_dot by (metis append_butlast_last_id)
  then show ?thesis using assms(2) by (auto simp: rstrip_dots_def)
qed

lemma domain_chars:
  assumes "rex_match DOMAIN_RE t" "c \<in> set t"
  shows "\<not> py_isspace c" "\<not> control_char c"
proof -
  have "rex_within [upper_range, lower_range, digit_range, (45, 46), (42, 42)] DOMAIN_RE"
    by (simp add: DOMAIN_RE_def DOMAIN_LABEL_def rng_def singles_def lit_def RPlus_def ROpt_def)
  then have "in_class False [upper_range, lower_range, digit_range, (45, 46), (42, 42)] c"
    using assms rex_match_within by blast
  then show "\<not> py_isspace c" "\<not> control_char c"
    by (auto simp: in_class_def py_isspace_def control_char_def Let_def)
qed

lemma stripped_nonspace: "\<forall>c \<in> set s. \<not> py_isspace c \<Longrightarrow> stripped s"
  by (cases "s = []") (auto simp: stripped_def)

lemma validate_domain_Inr:
  assumes "validate_domain v label aw = Inr t"
  shows "rex_match DOMAIN_RE t" "rstrip_dots t = t" "py_lower t = t" "py_startswith t ''*.'' \<Longrightarrow> aw"
    "t \<noteq> []" "length t \<le> 255" "py_startswith t ''*.'' \<Longrightarrow> 3 \<le> length (py_split CHR ''.'' t)"
proof -
  let ?x = "py_lower (py_strip (str_or v []))"
  have m: "rex_match DOMAIN_RE ?x" and t: "t = rstrip_dots ?x"
    using assms by (auto simp: validate_domain_def Let_def split: if_splits)
  obtain w u d where x: "?x = w @ u @ d" "w \<in> {[], ''*.''}" "d \<in> {[], ''.''}" "u \<in> lang DOMAIN_CORE" "length u \<le> 253"
    using m unfolding domain_match_iff by blast
  have tw: "t = w @ u" using t x rstrip_dots_core by simp
  show "rex_match DOMAIN_RE t" unfolding domain_match_iff
    using tw x by (intro exI [of _ w] exI [of _ u] exI [of _ "[]"]) auto
  show "rstrip_dots t = t" using rstrip_dots_core [of u "[]" w] x tw by simp
  have "py_lower ?x = ?x" by simp
  then show "py_lower t = t" unfolding x tw by (auto simp: py_lower_def)
  show "t \<noteq> []" using tw core_last [OF x(4)] by simp
  show "length t \<le> 255" using x tw by auto
  show "py_startswith t ''*.'' \<Longrightarrow> aw" "py_startswith t ''*.'' \<Longrightarrow> 3 \<le> length (py_split CHR ''.'' t)"
    using assms t m by (auto simp: validate_domain_def Let_def split: if_splits)
qed

lemma validate_domain_again:
  assumes "validate_domain v label aw = Inr t"
  shows "validate_domain (JStr t) label' aw = Inr t"
proof -
  note r = validate_domain_Inr [OF assms]
  have "stripped t" using domain_chars(1) [OF r(1)] by (intro stripped_nonspace) blast
  then have "py_strip t = t" by simp
  then show ?thesis using r by (auto simp: validate_domain_def Let_def not_less)
qed

section \<open>Addresses and networks\<close>

lemma no_colon_no_ipv6: "CHR '':'' \<notin> set s \<Longrightarrow> ipv6_address s = None"
proof -
  assume c: "CHR '':'' \<notin> set s"
  have "ipv6_of_str a = None" if "a \<in> set (py_split CHR ''%'' s)" for a
  proof -
    have "CHR '':'' \<notin> set a" using set_py_split [OF that] c by blast
    then show ?thesis by (simp add: ipv6_of_str_def py_split_no_sep)
  qed
  then show ?thesis by (auto simp: ipv6_address_def split: list.splits)
qed

lemma dotted_chars: "c \<in> set (ipv4_str n) \<Longrightarrow> is_digit c \<or> c = CHR ''.''"
  by (auto simp: ipv4_str_def dest: is_digit_nat_to_str)

lemma dotted_facts:
  assumes "n < 2 ^ 32"
  shows "ipv4_str n \<noteq> []" "length (ipv4_str n) \<le> 15" "CHR ''/'' \<notin> set (ipv4_str n)"
proof -
  have "length (nat_to_str (n div 16777216)) \<le> 3" "length (nat_to_str (n div 65536 mod 256)) \<le> 3"
    "length (nat_to_str (n div 256 mod 256)) \<le> 3" "length (nat_to_str (n mod 256)) \<le> 3"
    using assms by (auto intro!: length_nat_to_str_bound simp: less_mult_imp_div_less
        intro: less_trans [OF mod_less_divisor])
  then show "length (ipv4_str n) \<le> 15" by (simp add: ipv4_str_def)
  show "ipv4_str n \<noteq> []" by (simp add: ipv4_str_def)
  show "CHR ''/'' \<notin> set (ipv4_str n)" using dotted_chars by (fastforce simp: is_digit_def)
qed

lemma net_floor_le: "net_floor bits p n \<le> n"
  by (simp add: net_floor_def)

lemma net_floor_idem: "net_floor bits p (net_floor bits p n) = net_floor bits p n"
  by (simp add: net_floor_def)

text \<open>A dotted address or network in the form the validator writes it.\<close>

definition cidr_text :: "nat \<Rightarrow> nat \<Rightarrow> string" where
  "cidr_text n p = (if p = 32 then ipv4_str n else ipv4_str n @ ''/'' @ nat_to_str p)"

lemma cidr_text_props:
  assumes n: "n < 2 ^ 32" and p: "p \<le> 32"
  shows "py_strip (cidr_text n p) = cidr_text n p" "cidr_text n p \<noteq> []" "\<not> has_control (cidr_text n p)"
    "length (cidr_text n p) \<le> 64"
proof -
  have c: "\<forall>c \<in> set (cidr_text n p). is_digit c \<or> c = CHR ''.'' \<or> c = CHR ''/''"
    using dotted_chars is_digit_nat_to_str by (auto simp: cidr_text_def)
  then have "\<forall>c \<in> set (cidr_text n p). \<not> py_isspace c \<and> \<not> control_char c"
    by (auto simp: is_digit_def py_isspace_def control_char_def Let_def)
  then show "py_strip (cidr_text n p) = cidr_text n p" "\<not> has_control (cidr_text n p)"
    by (auto simp: has_control_def intro!: py_strip_stripped stripped_nonspace)
  have "length (nat_to_str p) \<le> 2" using p by (intro length_nat_to_str_bound) auto
  then show "length (cidr_text n p) \<le> 64" "cidr_text n p \<noteq> []"
    using dotted_facts [OF n] by (auto simp: cidr_text_def)
qed

lemma prefix_of_nat_to_str: "p \<le> bits \<Longrightarrow> bits \<le> 128 \<Longrightarrow> prefix_of_str bits (nat_to_str p) = Some p"
proof -
  assume p: "p \<le> bits" "bits \<le> 128"
  have "length (nat_to_str p) \<le> 3" using p by (intro length_nat_to_str_bound) auto
  then show ?thesis
    using p is_digit_nat_to_str by (auto simp: prefix_of_str_def all_digits_def digits_val_nat_to_str)
qed

lemma slash_not_in_nat_to_str: "CHR ''/'' \<notin> set (nat_to_str p)"
  using is_digit_nat_to_str [of "CHR ''/''" p] by (auto simp: is_digit_def)

lemma ip_network_cidr_text:
  assumes "n < 2 ^ 32" "p < 32" "net_floor 32 p n = n"
  shows "ip_network (ipv4_str n @ ''/'' @ nat_to_str p) = Some \<lparr>net_addr = IPv4 n, net_prefix = p, net_bits = 32\<rparr>"
proof -
  have "py_split CHR ''/'' (ipv4_str n @ ''/'' @ nat_to_str p) = [ipv4_str n, nat_to_str p]"
    using dotted_facts(3) [OF assms(1)] slash_not_in_nat_to_str by (simp add: py_split_append py_split_no_sep)
  then show ?thesis using assms prefix_of_nat_to_str [of p 32]
    by (simp add: ip_network_def Let_def ipv4_of_str_ipv4_str v4_prefix_def)
qed

lemma validate_cidr_text:
  assumes "n < 2 ^ 32" "p \<le> 32" "net_floor 32 p n = n"
  shows "validate_cidr (JStr (cidr_text n p)) label = Inr (cidr_text n p)"
proof (cases "p = 32")
  case True
  then show ?thesis using cidr_text_props [OF assms(1,2)] dotted_facts(3) [OF assms(1)] assms(1)
    by (simp add: validate_cidr_def Let_def cidr_text_def del: nat_to_str.simps)
next
  case False
  then show ?thesis using cidr_text_props [OF assms(1,2)] ip_network_cidr_text [of n p] assms
    by (simp add: validate_cidr_def Let_def cidr_text_def ipnet_str_def)
qed

lemma v4_prefix_le: "v4_prefix s = Some p \<Longrightarrow> p \<le> 32"
  by (auto simp: v4_prefix_def prefix_of_str_def prefix_of_mask_def find_Some_iff
      split: option.splits if_splits)

lemma validate_cidr_v4_form:
  assumes r: "validate_cidr v label = Inr t" and c: "CHR '':'' \<notin> set (str_or v [])"
  shows "\<exists>n p. t = cidr_text n p \<and> n < 2 ^ 32 \<and> p \<le> 32 \<and> net_floor 32 p n = n"
proof -
  let ?x = "py_strip (str_or v [])"
  have cx: "CHR '':'' \<notin> set ?x" using c set_py_strip by blast
  show ?thesis
  proof (cases "CHR ''/'' \<in> set ?x")
    case True
    obtain w where w: "ip_network ?x = Some w" "t = (if net_prefix w = net_bits w then ip_str (net_addr w) else ipnet_str w)"
      using r True by (auto simp: validate_cidr_def Let_def split: if_splits option.splits)
    let ?a = "hd (py_split CHR ''/'' ?x)"
    have "CHR '':'' \<notin> set ?a"
      using cx set_py_split [of ?a "CHR ''/''" ?x] by auto
    then obtain n p where n: "ipv4_of_str ?a = Some n" "w = \<lparr>net_addr = IPv4 (net_floor 32 p n), net_prefix = p, net_bits = 32\<rparr>"
      "p \<le> 32"
      using w(1) no_colon_no_ipv6 [of ?a] v4_prefix_le
      by (auto simp: ip_network_def Let_def split: option.splits if_splits)
    have "net_floor 32 p n < 2 ^ 32" using ipv4_of_str_SomeD [OF n(1)] net_floor_le le_less_trans by blast
    moreover have "t = cidr_text (net_floor 32 p n) p" using w(2) n(2) by (auto simp: cidr_text_def ipnet_str_def)
    ultimately show ?thesis using n(3) net_floor_idem by blast
  next
    case False
    then obtain n where "ipv4_of_str ?x = Some n" "t = ipv4_str n"
      using r no_colon_no_ipv6 [OF cx]
      by (auto simp: validate_cidr_def Let_def ip_address_def split: if_splits option.splits)
    then show ?thesis using ipv4_of_str_SomeD [of ?x n]
      by (intro exI [of _ n] exI [of _ 32]) (auto simp: cidr_text_def net_floor_def)
  qed
qed

section \<open>Evaluation of the validators on concrete input\<close>

lemmas text_eval = py_strip_def py_lstrip_def py_rstrip_def py_isspace_def py_lower_def py_lower_char_def
  py_startswith_def rstrip_dots_def

lemmas pattern_eval = pattern_defs in_class_def

lemmas address_eval = ip_address_def ipv4_of_str_def parse_octet_def is_digit_def digits_val_def digit_val_def
  ipv6_address_def ipv6_of_str_def expand_v4_tail_def ipv6_of_parts_def parse_hextet_def is_hex_def hex_val_def
  ipv6_str_def compress_hextets_def nat_to_hex.simps upt_conv_Cons Let_def

lemma char_of_digits [simp]:
  "(char_of (48::nat) :: char) = CHR ''0''" "(char_of (49::nat) :: char) = CHR ''1''"
  "(char_of (50::nat) :: char) = CHR ''2''" "(char_of (52::nat) :: char) = CHR ''4''"
  by (simp_all add: char_of_def bit_0)

lemma domain_sample: "validate_domain (JStr ''a.b'') l False = Inr ''a.b''"
  by (simp add: validate_domain_def DOMAIN_RE_def DOMAIN_LABEL_def pattern_eval text_eval)

lemma identifier_sample: "validate_identifier (JStr ''a'') l = Inr ''a''"
  by (simp add: validate_identifier_def IDENTIFIER_RE_def pattern_eval text_eval)

lemmas config_eval = validate_config_data_def config_doc_def reject_cases key_ok_def key_text_def has_control_def
  control_char_def too_many_def entries_of_def each_def jor_def list_field_def unset_or_def is_one_of_def
  jiter_def tuning_field_def field_text_def Let_def require_def andthen_def ignore_def

lemma network_sample: "validate_cidr (JStr ''10.0.0.5/24'') l = Inr ''10.0.0.0/24''"
  by (simp add: validate_cidr_def text_eval has_control_def control_char_def ip_network_def v4_prefix_def
      prefix_of_str_def all_digits_def net_floor_def ipnet_str_def ipv4_str_def nat_to_str.simps address_eval)

end
