(* ===== verification/Validation_Properties.thy ===== *)
theory Validation_Properties
  imports Validation_Facts
begin

text \<open>
  The properties of the panel's configuration validation, each followed by its witness
  where it has hypotheses.
\<close>

section \<open>Reading back an accepted document\<close>

lemma config_doc_get:
  "jget k (config_doc es) = j \<Longrightarrow> j \<noteq> JNull \<Longrightarrow> \<exists>kk v. (kk, v) \<in> set es \<and> ynode_json v = j"
  by (auto simp: jget_def jget_or_def config_doc_def split: option.splits dest!: map_of_SomeD) blast

lemma ynode_json_JStr: "ynode_json v = JStr s \<Longrightarrow> v = YStr s"
  by (cases v) auto

lemma ynode_json_JObj: "ynode_json v = JObj d \<Longrightarrow> \<exists>i es. v = YDict i es \<and> d = config_doc es"
  by (cases v) (auto simp: config_doc_def)

lemma safe_text:
  assumes "ysafe n (YDict i es)" "jget k (config_doc es) = JStr s"
  shows "\<not> has_control s"
proof -
  obtain kk where "(kk, YStr s) \<in> set es"
    using config_doc_get [OF assms(2)] ynode_json_JStr by blast
  then show ?thesis using assms(1) by auto
qed

lemma py_repr_ends:
  "py_repr (JList xs) = CHR ''['' # (py_join '', '' (map py_repr xs) @ '']'')"
  "py_repr (JObj m) = CHR ''{'' # (py_join '', '' (map (\<lambda>(k, v). repr_str k @ '': '' @ py_repr v) m) @ ''}'')"
  by simp_all

lemma stripped_bracket: "\<not> py_isspace a \<Longrightarrow> \<not> py_isspace z \<Longrightarrow> stripped (a # (s @ [z]))"
  by (simp add: stripped_def)

lemma int_to_str_chars: "c \<in> set (int_to_str n) \<Longrightarrow> is_digit c \<or> c = CHR ''-''"
  by (auto simp: int_to_str_def split: if_splits dest: is_digit_nat_to_str)

text \<open>A text made of tokens is either an accepted string or has no white space at all.\<close>

lemma token_text_no_control:
  assumes t: "field_text d key = Some t" and w: "\<forall>w \<in> set (py_words t). token w"
    and s: "\<And>s. jget key d = JStr s \<Longrightarrow> \<not> has_control s" and c: "c \<in> set t"
  shows "\<not> control_char c"
proof -
  have tok: "py_isspace x \<or> token_char x" if "x \<in> set t" for x
    using py_words_cover [OF that] w by (auto simp: token_def)
  obtain j where j: "jget key d = j" "j \<noteq> JNull" "t = py_strip (py_str j)"
    using t by (auto simp: field_text_def Let_def split: json.splits if_splits)
  show ?thesis
  proof (cases j)
    case (JStr x)
    then show ?thesis using s j c set_py_strip [of x] by (auto simp: has_control_def)
  next
    case (JBool b)
    have "set t \<subseteq> set (py_str j)" using j(3) set_py_strip by simp
    then show ?thesis using JBool c by (auto simp: py_str_def control_char_def split: if_splits)
  next
    case (JInt n)
    have "set t \<subseteq> set (py_str j)" using j(3) set_py_strip by simp
    then have "is_digit c \<or> c = CHR ''-''" using JInt c int_to_str_chars by (auto simp: py_str_def)
    then show ?thesis by (auto simp: is_digit_def control_char_def)
  next
    case (JList xs)
    have "stripped (py_repr (JList xs))"
      unfolding py_repr_ends by (intro stripped_bracket) (simp_all add: py_isspace_def)
    then have "CHR ''['' \<in> set t" using j(3) JList by (simp add: py_str_def del: py_repr.simps)
        (simp add: py_repr_ends del: py_repr.simps)
    then show ?thesis using tok [of "CHR ''[''"] token_not_special(5) by (auto simp: py_isspace_def)
  next
    case (JObj m)
    have "stripped (py_repr (JObj m))"
      unfolding py_repr_ends by (intro stripped_bracket) (simp_all add: py_isspace_def)
    then have "CHR ''{'' \<in> set t" using j(3) JObj by (simp add: py_str_def del: py_repr.simps)
        (simp add: py_repr_ends del: py_repr.simps)
    then show ?thesis using tok [of "CHR ''{''"] token_not_special(6) by (auto simp: py_isspace_def)
  qed (use j in simp)
qed

lemma walk_accepts:
  "reject_unsafe_scalars v path depth seen = Inr r \<Longrightarrow> ysafe depth v"
  by (simp add: reject_closed_form(1) yaccept_def)

section \<open>Properties\<close>

text \<open>The walk over an uploaded document accepts exactly the safe ones: every text at most
  16384 characters without control characters, every key a text of at most 128 characters without
  them, nothing nested more than twenty levels deep, no value of another type, no container met
  twice (no YAML alias) and at most ten thousand nodes.  It then returns the number of nodes.\<close>

theorem walk_accepts_exactly_safe_documents:
  "reject_unsafe_scalars v path 0 [] = Inr r \<longleftrightarrow>
     ysafe 0 v \<and> distinct (yids v) \<and> ysize v \<le> 10000 \<and> r = (ysize v, rev (yids v))"
  by (simp add: reject_closed_form(1) yaccept_def)

text \<open>A websites file that passes validation holds at most 500 sites, all of them objects with
  a valid name and a routing domain that is not a wildcard, and no two sites get the same
  HAProxy name.\<close>

theorem accepted_websites_file:
  assumes "validate_config_data ''websites'' i es = Inr ()"
  shows "\<exists>sites. jget_or ''sites'' (JList []) (config_doc es) = JList sites \<and> length sites \<le> 500
     \<and> sorted_wrt (on_objects (\<lambda>a b. hname a \<noteq> hname b)) sites
     \<and> (\<forall>k < length sites. \<exists>site n d. sites ! k = JObj site
          \<and> validate_identifier (jor (jget ''name'' site) (jget ''domain'' site)) (idx ''sites'' k @ ''.name'') = Inr n
          \<and> validate_domain (jor (jget ''domain'' site) (jget ''name'' site)) (idx ''sites'' k @ ''.domain'') False = Inr d
          \<and> \<not> py_startswith d ''*.'')"
proof -
  obtain sites where j: "jget_or ''sites'' (JList []) (config_doc es) = JList sites" and len: "length sites \<le> 500"
    and each: "each validate_site sites = Inr ()" and names: "no_shared_haproxy_names sites ''sites'' = Inr ()"
    using assms by (auto simp: validate_config_data_def entries_of_def Let_def split: json.splits if_splits)
  have "\<exists>site n d. sites ! k = JObj site
      \<and> validate_identifier (jor (jget ''name'' site) (jget ''domain'' site)) (idx ''sites'' k @ ''.name'') = Inr n
      \<and> validate_domain (jor (jget ''domain'' site) (jget ''name'' site)) (idx ''sites'' k @ ''.domain'') False = Inr d
      \<and> \<not> py_startswith d ''*.''" if "k < length sites" for k
  proof -
    have v: "validate_site k (sites ! k) = Inr ()" using each that by (simp add: each_Inr)
    then obtain site where s: "sites ! k = JObj site"
      by (cases "sites ! k") (auto simp: validate_site_def)
    have "\<exists>n. validate_identifier (jor (jget ''name'' site) (jget ''domain'' site)) (idx ''sites'' k @ ''.name'') = Inr n"
      "\<exists>d. validate_domain (jor (jget ''domain'' site) (jget ''name'' site)) (idx ''sites'' k @ ''.domain'') False = Inr d"
      using v s by (simp_all add: validate_site_def Let_def)
    then show ?thesis using s validate_domain_Inr(4) by blast
  qed
  then show ?thesis
    using j len shared_haproxy_names_Inr [of "''sites''" "[]" sites] names
    by (auto simp: no_shared_haproxy_names_def)
qed

theorem accepted_websites_file_witness:
  "\<exists>sites. jget_or ''sites'' (JList []) (config_doc
     [(KStr ''sites'', YList 1 [YDict 2 [(KStr ''name'', YStr ''a''), (KStr ''domain'', YStr ''a.b'')]])])
     = JList sites \<and> length sites \<le> 500"
proof -
  have "validate_config_data ''websites'' 0
     [(KStr ''sites'', YList 1 [YDict 2 [(KStr ''name'', YStr ''a''), (KStr ''domain'', YStr ''a.b'')]])] = Inr ()"
    by (simp add: config_eval identifier_sample domain_sample validate_site_def validate_mtls_def
        validate_alerting_def validate_servers_def validate_backend_tuning_def no_shared_haproxy_names_def)
  from accepted_websites_file [OF this] show ?thesis by blast
qed

text \<open>A site the panel accepts keeps the list consistent: if no two sites had the same HAProxy
  name and no two serving sites shared a host name, the same holds with the saved site put in its
  place among the others.\<close>

theorem accepted_site_keeps_sites_consistent:
  assumes "sites_consistent (before @ after)"
    and "site_identity_conflict site (before @ after) = Inr None"
  shows "sites_consistent (before @ JObj site # after)"
  using assms site_identity_conflict_None site_pair_ok_sym unfolding sites_consistent_def
  by (intro sorted_wrt_insert) blast+

theorem accepted_site_keeps_sites_consistent_witness:
  "sites_consistent ([JObj [(''name'', JStr ''shop'')]] @ JObj [(''name'', JStr ''blog'')] # [])"
  by (rule accepted_site_keeps_sites_consistent)
     (simp_all add: sites_consistent_def site_identity_conflict_def routing_names_def jor_def jiter_def
       entry_text_def serving_def haproxy_name_def haproxy_char_def is_alnum_ascii_def is_alpha_ascii_def
       is_digit_def py_strip_def py_lstrip_def py_rstrip_def py_isspace_def shared_names_def Let_def)



text \<open>The tuning values of an accepted variables file are safe to write on a configuration
  line: every word of them is made of characters that neither quote, escape nor start a comment,
  no character is a line break or another control character, and apart from the balance and cookie
  options each value is a single word.\<close>

theorem accepted_tuning_is_safe_on_a_config_line:
  assumes ok: "validate_config_data ''vars'' i es = Inr ()"
    and d: "jget ''site_defaults'' (config_doc es) = JObj d"
    and key: "key \<in> set TUNING_KEYS" and t: "field_text d key = Some t"
  shows "(\<forall>w \<in> set (py_words t). token w) \<and> (\<forall>c \<in> set t. \<not> control_char c \<and> c \<noteq> CHR ''#'')
     \<and> (key \<notin> {''balance'', ''cookie_attrs''} \<longrightarrow> py_words t = [t])"
proof -
  have v: "validate_backend_tuning d ''site_defaults'' = Inr ()"
    using ok d by (simp add: validate_config_data_def)
  obtain r where "reject_unsafe_scalars (YDict i es) ''root'' 0 [] = Inr r"
    using ok by (auto simp: validate_config_data_def)
  then have safe: "ysafe 0 (YDict i es)" by (rule walk_accepts)
  obtain kk j ds where ds: "(kk, YDict j ds) \<in> set es" "d = config_doc ds"
    using config_doc_get [OF d] ynode_json_JObj by blast
  then have s: "\<not> has_control x" if "jget key d = JStr x" for x
    using safe that safe_text [of 1 j ds key x] by fastforce
  note w = tuning_tokens(1) [OF v key t]
  have "c \<noteq> CHR ''#''" if "c \<in> set t" for c
    using py_words_cover [OF that] w token_not_special(1) by (auto simp: token_def py_isspace_def)
  then show ?thesis using w tuning_tokens(2) [OF v key t] token_text_no_control [OF t w s] by blast
qed

theorem accepted_tuning_is_safe_on_a_config_line_witness:
  "py_words ''safe'' = [''safe'']"
proof -
  let ?es = "[(KStr ''site_defaults'', YDict 1 [(KStr ''http_reuse'', YStr ''safe'')])]"
  have f: "field_text [(''http_reuse'', JStr ''safe'')] ''http_reuse'' = Some ''safe''"
    by (simp add: field_text_def text_eval)
  have "validate_config_data ''vars'' 0 ?es = Inr ()"
    by (simp add: config_eval validate_backend_tuning_def text_eval HTTP_REUSE_VALUES_def)
  moreover have "jget ''site_defaults'' (config_doc ?es) = JObj [(''http_reuse'', JStr ''safe'')]"
    by (simp add: config_doc_def key_text_def)
  ultimately show ?thesis
    using accepted_tuning_is_safe_on_a_config_line [OF _ _ _ f] by (simp add: TUNING_KEYS_def)
qed

text \<open>A validated domain is in canonical form: validating the result again returns it unchanged;
  it is lower case, has no trailing dot, is at most 255 characters long, and is a wildcard only
  where wildcards are allowed.\<close>

theorem validated_domain_is_canonical:
  assumes "validate_domain v label allow_wildcard = Inr t"
  shows "validate_domain (JStr t) label' allow_wildcard = Inr t \<and> py_lower t = t \<and> rstrip_dots t = t
     \<and> length t \<le> 255 \<and> (py_startswith t ''*.'' \<longrightarrow> allow_wildcard)"
  using validate_domain_again [OF assms] validate_domain_Inr [OF assms] by blast

theorem validated_domain_is_canonical_witness:
  "validate_domain (JStr ''a.b'') ''again'' False = Inr ''a.b''"
  using validated_domain_is_canonical [OF domain_sample] by blast

text \<open>An IPv4 address or network that the validator returns is canonical: it is a dotted address
  without host bits, with a prefix length only when that is shorter than 32, and validating it again
  returns it unchanged.\<close>

theorem validated_ipv4_network_is_canonical:
  assumes "validate_cidr v label = Inr t" and "CHR '':'' \<notin> set (str_or v [])"
  shows "validate_cidr (JStr t) label' = Inr t
     \<and> (\<exists>n p. t = cidr_text n p \<and> n < 2 ^ 32 \<and> p \<le> 32 \<and> net_floor 32 p n = n)"
  using validate_cidr_v4_form [OF assms] validate_cidr_text by blast

theorem validated_ipv4_network_is_canonical_witness:
  "validate_cidr (JStr ''10.0.0.0/24'') ''again'' = Inr ''10.0.0.0/24''"
  using validated_ipv4_network_is_canonical [OF network_sample] by simp

text \<open>The zone identifier of an IPv6 address is not checked: a text with a blank and a second
  address inside its zone passes the network validator unchanged, so it adds a word to the line of
  the configuration it is written on.\<close>

theorem zone_identifier_passes_unchecked:
  "validate_cidr (JStr ''::1%x 0.0.0.0'') label = Inr ''::1%x 0.0.0.0''"
  by (simp add: validate_cidr_def text_eval has_control_def control_char_def address_eval)

end
