(* ===== verification/Udp_Forward.thy ===== *)
theory Udp_Forward
  imports Py_Json Py_Regex Py_Ipaddress
begin

text \<open>
  The UDP forwarding generator,
  \<open>src/ansible/roles/haproxy-admin/files/haproxy-udp-forward.py\<close>: it reads \<open>udp.yml\<close>,
  validates the forwards and builds the iptables rules of its four chains.

  Name resolution (\<open>socket.getaddrinfo\<close>) is the argument \<open>resolve\<close>, running an iptables
  command the argument \<open>run\<close>, and the parsed document an argument of \<open>load_forwards\<close>.
  A \<open>ConfigError\<close>, a \<open>SystemExit\<close> and the \<open>ValueError\<close> of a malformed resolved address are
  the constructors of \<open>udp_error\<close>.
\<close>

section \<open>Parsing\<close>

datatype udp_error = ConfigError string | SystemExit string | AddressError string

definition MAX_PORTS_PER_FORWARD :: int where
  "MAX_PORTS_PER_FORWARD = 1024"

definition PORT_RANGE_RE :: rex where
  "PORT_RANGE_RE = RSeq (RRep 1 5 (rng [digit_range] []))
     (ROpt (RSeq (lit ''-'') (RRep 1 5 (rng [digit_range] []))))"

text \<open>The two groups of the pattern; the second is absent for a single port.\<close>

definition range_groups :: "string \<Rightarrow> (string \<times> string option) option" where
  "range_groups text =
     (if rex_match PORT_RANGE_RE text then
        (case py_split CHR ''-'' text of [a] \<Rightarrow> Some (a, None) | a # b # _ \<Rightarrow> Some (a, Some b) | [] \<Rightarrow> None)
      else None)"

text \<open>\<open>str(value if value is not None else "").strip()\<close>\<close>

definition range_text :: "json \<Rightarrow> string" where
  "range_text v = py_strip (if v = JNull then [] else py_str v)"

definition port_range :: "json \<Rightarrow> string \<Rightarrow> udp_error + int \<times> int" where
  "port_range v field =
     (let text = range_text v in
      case range_groups text of
        None \<Rightarrow> Inl (ConfigError (field @ '' must be a port or inclusive range such as 51820-51830''))
      | Some (a, b) \<Rightarrow>
          (let start = int (digits_val a); end' = int (digits_val (case b of None \<Rightarrow> a | Some x \<Rightarrow> x)) in
           if \<not> (1 \<le> start \<and> start \<le> 65535) \<or> \<not> (1 \<le> end' \<and> end' \<le> 65535) then
             Inl (ConfigError (field @ '' must be within 1-65535, got '' @ repr_str text))
           else if end' < start then
             Inl (ConfigError (field @ '' range end must not be lower than its start''))
           else if end' - start + 1 > MAX_PORTS_PER_FORWARD then
             Inl (ConfigError (field @ '' range may contain at most '' @ int_to_str MAX_PORTS_PER_FORWARD @ '' ports''))
           else Inr (start, end')))"

definition format_port_range :: "int \<Rightarrow> int \<Rightarrow> json" where
  "format_port_range start end' =
     (if start = end' then JInt start else JStr (int_to_str start @ ''-'' @ int_to_str end'))"

definition dport_tokens :: "int \<Rightarrow> int \<Rightarrow> string list" where
  "dport_tokens start end' =
     [''--dport'', (if start = end' then int_to_str start else int_to_str start @ '':'' @ int_to_str end')]"

text \<open>What \<open>getaddrinfo\<close> gives: the text of an \<open>OSError\<close>, or the addresses.\<close>

type_synonym resolver = "string \<Rightarrow> string + string list"

definition resolve_ipv4 :: "resolver \<Rightarrow> string \<Rightarrow> udp_error + string" where
  "resolve_ipv4 resolve host =
     (case ipv4_of_str host of Some n \<Rightarrow> Inr (ipv4_str n)
      | None \<Rightarrow> (case resolve host of
          Inl exc \<Rightarrow> Inl (ConfigError (''cannot resolve backend host '' @ repr_str host @ '': '' @ exc))
        | Inr [] \<Rightarrow> Inl (ConfigError (''backend host '' @ repr_str host @ '' has no IPv4 address''))
        | Inr (a # _) \<Rightarrow> Inr a))"

record forward =
  fw_name :: string
  listen_port :: json
  listen_start :: int
  listen_end :: int
  backend_ip :: string
  backend_port :: json
  backend_start :: int
  backend_end :: int
  ban_check :: bool
  zero_trust :: bool

definition normalize_forward :: "resolver \<Rightarrow> json \<Rightarrow> udp_error + forward" where
  "normalize_forward resolve j =
     (case j of JObj raw \<Rightarrow>
        (let name = py_strip (str_or (jget ''name'' raw) []) in
         ebind (port_range (jget ''listen_port'' raw) ''listen_port'') (\<lambda>(ls, le).
         let host = py_strip (str_or (jget ''backend_host'' raw) []) in
         if host = [] then
           Inl (ConfigError (''forward '' @ (if name = [] then py_repr (format_port_range ls le) else repr_str name)
             @ '' is missing backend_host''))
         else ebind (resolve_ipv4 resolve host) (\<lambda>ip.
         case ip_address ip of
           None \<Rightarrow> Inl (AddressError ip)
         | Some a \<Rightarrow>
             if is_loopback a then
               Inl (ConfigError ''backend_host must not resolve to a loopback address; use a container or LAN backend'')
             else ebind (port_range (jget ''backend_port'' raw) ''backend_port'') (\<lambda>(bs, be).
             if le - ls + 1 \<noteq> be - bs + 1 then
               Inl (ConfigError ''listen_port and backend_port ranges must contain the same number of ports'')
             else Inr \<lparr>fw_name = (if name = [] then ''udp'' @ int_to_str ls else name),
                       listen_port = format_port_range ls le, listen_start = ls, listen_end = le,
                       backend_ip = ip, backend_port = format_port_range bs be,
                       backend_start = bs, backend_end = be,
                       ban_check = truthy (jget_or ''ban_check'' (JBool True) raw),
                       zero_trust = truthy (jget_or ''zero_trust'' (JBool False) raw)\<rparr>))))
      | _ \<Rightarrow> Inl (ConfigError ''each UDP forward must be a mapping''))"

definition is_disabled :: "json \<Rightarrow> bool" where
  "is_disabled j = (case j of JObj e \<Rightarrow> jget ''enabled'' e = JBool False | _ \<Rightarrow> False)"

definition port_list :: "int \<Rightarrow> int \<Rightarrow> int list" where
  "port_list start end' = [start..end']"

fun load_entries :: "resolver \<Rightarrow> string \<Rightarrow> nat \<Rightarrow> int list \<Rightarrow> json list \<Rightarrow> udp_error + forward list" where
  "load_entries resolve path index seen [] = Inr []"
| "load_entries resolve path index seen (entry # rest) =
     (if is_disabled entry then load_entries resolve path (index + 1) seen rest
      else let at = path @ '': udp_forwards['' @ nat_to_str index @ '']: '' in
      case normalize_forward resolve entry of
        Inl (ConfigError exc) \<Rightarrow> Inl (SystemExit (at @ exc))
      | Inl e \<Rightarrow> Inl e
      | Inr f \<Rightarrow>
          (let ports = port_list (listen_start f) (listen_end f);
               overlap = filter (\<lambda>p. p \<in> set seen) ports
           in if overlap \<noteq> [] then
                Inl (SystemExit (at @ ''listen port '' @ int_to_str (Min (set overlap)) @ '' is configured more than once''))
              else ebind (load_entries resolve path (index + 1) (ports @ seen) rest) (\<lambda>fs. Inr (f # fs))))"

text \<open>The file: missing, unreadable, or the document \<open>yaml.safe_load\<close> returned.\<close>

datatype udp_source = NoFile | Unreadable string | Document json

definition load_forwards :: "resolver \<Rightarrow> string \<Rightarrow> udp_source \<Rightarrow> udp_error + forward list" where
  "load_forwards resolve path src =
     (case src of
        NoFile \<Rightarrow> Inr []
      | Unreadable exc \<Rightarrow> Inl (SystemExit (''cannot read '' @ path @ '': '' @ exc))
      | Document doc \<Rightarrow>
          (case jor doc (JObj []) of
             JObj data \<Rightarrow>
               (let entries = jget ''udp_forwards'' data;
                    entries = (if entries = JNull then jget ''udp'' data else entries)
                in case entries of JList xs \<Rightarrow> load_entries resolve path 0 [] xs | _ \<Rightarrow> Inr [])
           | _ \<Rightarrow> Inl (SystemExit (path @ '': root must be a mapping''))))"

section \<open>Rules\<close>

definition RAW_CHAIN :: string where "RAW_CHAIN = ''HP_UDP_RAW''"
definition NAT_PRE :: string where "NAT_PRE = ''HP_UDP_PRE''"
definition NAT_POST :: string where "NAT_POST = ''HP_UDP_POST''"
definition FWD_CHAIN :: string where "FWD_CHAIN = ''HP_UDP_FWD''"
definition LEGACY_INPUT_CHAIN :: string where "LEGACY_INPUT_CHAIN = ''HP_UDP_IN''"
definition BAN_SET :: string where "BAN_SET = ''haproxy_ban''"
definition AUTH_SET :: string where "AUTH_SET = ''haproxy_ip_auth''"

definition WIRING :: "(string \<times> string \<times> string) list" where
  "WIRING = [(''raw'', ''PREROUTING'', RAW_CHAIN), (''nat'', ''PREROUTING'', NAT_PRE),
     (''nat'', ''POSTROUTING'', NAT_POST), (''filter'', ''FORWARD'', FWD_CHAIN)]"

type_synonym command = "string list"

definition established_rule :: command where
  "established_rule = [''-t'', ''filter'', ''-A'', FWD_CHAIN, ''-m'', ''conntrack'', ''--ctstate'',
     ''ESTABLISHED,RELATED'', ''-j'', ''ACCEPT'']"

definition ban_rule :: "forward \<Rightarrow> command" where
  "ban_rule f = [''-t'', ''raw'', ''-A'', RAW_CHAIN, ''-p'', ''udp''] @ dport_tokens (listen_start f) (listen_end f)
     @ [''-m'', ''set'', ''--match-set'', BAN_SET, ''src'', ''-j'', ''DROP'']"

definition auth_rule :: "forward \<Rightarrow> command" where
  "auth_rule f = [''-t'', ''raw'', ''-A'', RAW_CHAIN, ''-p'', ''udp''] @ dport_tokens (listen_start f) (listen_end f)
     @ [''-m'', ''set'', ''!'', ''--match-set'', AUTH_SET, ''src'', ''-j'', ''DROP'']"

definition port_rules :: "forward \<Rightarrow> int \<Rightarrow> command list" where
  "port_rules f p =
     (let bp = int_to_str (backend_start f + (p - listen_start f)) in
      [[''-t'', ''nat'', ''-A'', NAT_PRE, ''-p'', ''udp'', ''--dport'', int_to_str p, ''-j'', ''DNAT'',
        ''--to-destination'', backend_ip f @ '':'' @ bp],
       [''-t'', ''nat'', ''-A'', NAT_POST, ''-p'', ''udp'', ''-d'', backend_ip f, ''--dport'', bp, ''-j'', ''MASQUERADE''],
       [''-t'', ''filter'', ''-A'', FWD_CHAIN, ''-p'', ''udp'', ''-d'', backend_ip f, ''--dport'', bp, ''-j'', ''ACCEPT'']])"

definition forward_rules :: "forward \<Rightarrow> command list" where
  "forward_rules f =
     (if ban_check f then [ban_rule f] else []) @ (if zero_trust f then [auth_rule f] else [])
     @ concat (map (port_rules f) [listen_start f..listen_end f])"

definition build_rule_commands :: "forward list \<Rightarrow> command list" where
  "build_rule_commands fs = established_rule # concat (map forward_rules fs)"

section \<open>Applying\<close>

definition restore_table :: "command list \<Rightarrow> string \<Rightarrow> string list" where
  "restore_table cmds table =
     [''*'' @ table]
     @ map (\<lambda>(t, b, chain). ''-F '' @ chain) (filter (\<lambda>(t, b, chain). t = table) WIRING)
     @ map (\<lambda>c. py_join '' '' (drop 2 c)) (filter (\<lambda>c. length c \<ge> 3 \<and> take 2 c = [''-t'', table]) cmds)
     @ [''COMMIT'']"

definition restore_lines :: "command list \<Rightarrow> string list" where
  "restore_lines cmds = concat (map (restore_table cmds) [''raw'', ''nat'', ''filter''])"

text \<open>
  One restore transaction: \<open>restore\<close> is the program, which returns the text it printed when its
  exit status is not zero.
\<close>

definition run_restore :: "('s \<Rightarrow> string \<Rightarrow> string + 's) \<Rightarrow> command list \<Rightarrow> 's \<Rightarrow> string + 's" where
  "run_restore restore cmds st =
     (case restore st (py_join [CHR 0x0A] (restore_lines cmds) @ [CHR 0x0A]) of
        Inr st' \<Rightarrow> Inr st'
      | Inl e \<Rightarrow> Inl (''iptables-restore failed: '' @ py_strip (if e = [] then ''unknown error'' else e)))"

text \<open>
  \<open>_run\<close>: the exit status of one iptables command, 0 for success, and the new kernel state.
  With \<open>check=True\<close> a non-zero status raises.
\<close>

type_synonym 's runner = "'s \<Rightarrow> command \<Rightarrow> int \<times> 's"

definition run_checked :: "'s runner \<Rightarrow> command \<Rightarrow> 's \<Rightarrow> string + 's" where
  "run_checked run args st =
     (case run st args of (rc, st') \<Rightarrow> if rc = 0 then Inr st' else Inl (''command failed: '' @ py_join '' '' args))"

fun ensure_scaffolding :: "'s runner \<Rightarrow> (string \<times> string \<times> string) list \<Rightarrow> 's \<Rightarrow> string + 's" where
  "ensure_scaffolding run [] st = Inr st"
| "ensure_scaffolding run ((table, builtin, chain) # ws) st =
     (let (rc1, st1) = run st [''-t'', table, ''-N'', chain];
          (rc2, st2) = run st1 [''-t'', table, ''-C'', builtin, ''-j'', chain]
      in if rc2 \<noteq> 0 then
           ebind (run_checked run [''-t'', table, ''-I'', builtin, ''1'', ''-j'', chain] st2)
             (ensure_scaffolding run ws)
         else ensure_scaffolding run ws st2)"

text \<open>The loop that deletes every jump to the retired chain; \<open>None\<close> when it never ends.\<close>

partial_function (option) delete_legacy_jumps :: "'s runner \<Rightarrow> 's \<Rightarrow> (string + 's) option" where
  "delete_legacy_jumps run st =
     (let (rc, st1) = run st [''-t'', ''filter'', ''-C'', ''INPUT'', ''-j'', LEGACY_INPUT_CHAIN] in
      if rc \<noteq> 0 then Some (Inr st1)
      else case run_checked run [''-t'', ''filter'', ''-D'', ''INPUT'', ''-j'', LEGACY_INPUT_CHAIN] st1 of
          Inl e \<Rightarrow> Some (Inl e)
        | Inr st2 \<Rightarrow> delete_legacy_jumps run st2)"

definition remove_legacy_loopback_scaffolding :: "'s runner \<Rightarrow> 's \<Rightarrow> (string + 's) option" where
  "remove_legacy_loopback_scaffolding run st =
     (case delete_legacy_jumps run st of
        None \<Rightarrow> None
      | Some (Inl e) \<Rightarrow> Some (Inl e)
      | Some (Inr st1) \<Rightarrow>
          (let st2 = snd (run st1 [''-t'', ''filter'', ''-F'', LEGACY_INPUT_CHAIN]);
               st3 = snd (run st2 [''-t'', ''filter'', ''-X'', LEGACY_INPUT_CHAIN])
           in Some (Inr st3)))"

record udp_state =
  us_version :: int
  us_applied_at :: string
  us_forwards :: int
  us_ports :: int
  us_local_backends :: int

definition state_payload :: "string \<Rightarrow> forward list \<Rightarrow> udp_state" where
  "state_payload now fs =
     \<lparr>us_version = 1, us_applied_at = now, us_forwards = int (length fs),
      us_ports = sum_list (map (\<lambda>f. listen_end f - listen_start f + 1) fs), us_local_backends = 0\<rparr>"

text \<open>
  \<open>apply_forwards\<close> after the sysctl settings: the retired chain goes, the chains and jumps are
  put in place, one restore transaction replaces their rules (\<open>restore\<close>, with the text of the
  error when it is refused), and the state file is written.
\<close>

definition apply_forwards ::
  "'s runner \<Rightarrow> ('s \<Rightarrow> string \<Rightarrow> string + 's) \<Rightarrow> string \<Rightarrow> forward list \<Rightarrow> 's \<Rightarrow> (string + 's \<times> udp_state) option" where
  "apply_forwards run restore now fs st =
     (case remove_legacy_loopback_scaffolding run st of
        None \<Rightarrow> None
      | Some r \<Rightarrow> Some (
          ebind r (\<lambda>st1.
          ebind (ensure_scaffolding run WIRING st1) (\<lambda>st2.
          ebind (run_restore restore (build_rule_commands fs) st2) (\<lambda>st3.
          Inr (st3, state_payload now fs))))))"

end
