(* ===== verification/Udp_Panel.thy ===== *)
theory Udp_Panel
  imports Udp_Forward Validation
begin

text \<open>
  The panel's side of UDP forwarding, \<open>src/docker/app/haproxy_admin/services_haproxy_udp.py\<close>
  with the helpers it takes from \<open>services_haproxy_config.py\<close>: validating one forward, the
  overlap check, and saving or deleting a forward with the write, apply and rollback of
  \<open>udp.yml\<close>.

  What lies outside the panel is the record \<open>udp_env\<close>: YAML reading and writing over a type of
  file contents (with the content \<open>udp_forwards: []\<close> that stands for a missing file), the
  fingerprint of an entry, the control daemon's port check and rule reload, and the failures of
  file operations.  The world is the file with its mode, and the content the kernel rules were
  last installed from.  A save runs under the source lock, so it is one step of the world.
\<close>

section \<open>One forward\<close>

definition parse_port_range :: "json \<Rightarrow> string \<Rightarrow> (int \<times> int \<times> json) result" where
  "parse_port_range v label =
     (let text = range_text v in
      case range_groups text of
        None \<Rightarrow> Inl (ValueError (label @ '' must be a port or inclusive range such as 51820-51830''))
      | Some (a, b) \<Rightarrow>
          (let start = int (digits_val a); end' = int (digits_val (case b of None \<Rightarrow> a | Some x \<Rightarrow> x)) in
           if \<not> (1 \<le> start \<and> start \<le> 65535) \<or> \<not> (1 \<le> end' \<and> end' \<le> 65535) then
             Inl (ValueError (label @ '' must be between 1 and 65535''))
           else if end' < start then
             Inl (ValueError (label @ '' range end must not be lower than its start''))
           else if end' - start + 1 > 1024 then
             Inl (ValueError (label @ '' range may contain at most 1024 ports''))
           else Inr (start, end',
             if start = end' then JInt start else JStr (int_to_str start @ ''-'' @ int_to_str end'))))"

definition boolean_field :: "jobj \<Rightarrow> string \<Rightarrow> bool \<Rightarrow> bool result" where
  "boolean_field raw field dflt =
     (case map_of raw field of
        None \<Rightarrow> Inr dflt
      | Some (JBool b) \<Rightarrow> Inr b
      | Some _ \<Rightarrow> Inl (ValueError (field @ '' must be true or false'')))"

definition LOOPBACK_MSG :: string where
  "LOOPBACK_MSG = ''backend_host must not use a loopback address; use a container or LAN backend''"

definition loopback_host :: "string \<Rightarrow> bool" where
  "loopback_host host =
     (py_lower host = ''localhost'' \<or> (case ip_address host of None \<Rightarrow> False | Some a \<Rightarrow> is_loopback a))"

definition normalize_udp_entry :: "json \<Rightarrow> jobj result" where
  "normalize_udp_entry j =
     (case j of JObj raw \<Rightarrow>
        ebind (validate_identifier (jget ''name'' raw) ''name'') (\<lambda>name.
        ebind (parse_port_range (jget ''listen_port'' raw) ''listen_port'') (\<lambda>(ls, le, lv).
        ebind (validate_host (jget ''backend_host'' raw) ''backend_host'') (\<lambda>host.
        if loopback_host host then Inl (ValueError LOOPBACK_MSG)
        else ebind (parse_port_range (jget ''backend_port'' raw) ''backend_port'') (\<lambda>(bs, be, bv).
        if le - ls \<noteq> be - bs then
          Inl (ValueError ''listen_port and backend_port ranges must contain the same number of ports'')
        else ebind (boolean_field raw ''ban_check'' True) (\<lambda>ban.
        ebind (boolean_field raw ''zero_trust'' False) (\<lambda>zero.
        ebind (boolean_field raw ''enabled'' True) (\<lambda>on.
          Inr [(''name'', JStr name), (''listen_port'', lv), (''backend_host'', JStr host),
               (''backend_port'', bv), (''ban_check'', JBool ban), (''zero_trust'', JBool zero),
               (''enabled'', JBool on)])))))))
      | _ \<Rightarrow> Inl (ValueError ''Invalid UDP forward format (expected a JSON object)''))"

section \<open>Looking through the saved forwards\<close>

text \<open>\<open>f.get\<close> on an entry that is not a mapping raises.\<close>

definition as_mapping :: "json \<Rightarrow> jobj result" where
  "as_mapping j = (case j of JObj e \<Rightarrow> Inr e | _ \<Rightarrow> Inl (TypeError ''object has no attribute get''))"

definition range_for_entry :: "jobj \<Rightarrow> (int \<times> int) result" where
  "range_for_entry e =
     ebind (parse_port_range (jget ''listen_port'' e) ''existing listen_port'') (\<lambda>(a, b, _). Inr (a, b))"

fun err_text :: "py_error \<Rightarrow> string" where
  "err_text (ValueError m) = m"
| "err_text (LookupError m) = m"
| "err_text (TypeError m) = m"
| "err_text (RuntimeError m) = m"

fun overlapping_from :: "nat \<Rightarrow> json list \<Rightarrow> int \<Rightarrow> int \<Rightarrow> nat option \<Rightarrow> string option result" where
  "overlapping_from i [] start end' skip = Inr None"
| "overlapping_from i (j # js) start end' skip =
     (if skip = Some i then overlapping_from (i + 1) js start end' skip
      else ebind (as_mapping j) (\<lambda>e.
        if jget ''enabled'' e = JBool False then overlapping_from (i + 1) js start end' skip
        else case range_for_entry e of
            Inl exc \<Rightarrow> Inr (Some (''Existing UDP configuration is invalid: '' @ err_text exc))
          | Inr (a, b) \<Rightarrow>
              if start \<le> b \<and> a \<le> end' then
                Inr (Some (''UDP listen range '' @ int_to_str start @ ''-'' @ int_to_str end' @ '' overlaps ''
                  @ py_repr (jget_or ''name'' (JStr ''another forward'') e)
                  @ '' ('' @ int_to_str a @ ''-'' @ int_to_str b @ '')''))
              else overlapping_from (i + 1) js start end' skip))"

definition overlapping_forward :: "json list \<Rightarrow> int \<Rightarrow> int \<Rightarrow> nat option \<Rightarrow> string option result" where
  "overlapping_forward forwards start end' skip = overlapping_from 0 forwards start end' skip"

text \<open>The index of the first forward with a name, and whether there is one.\<close>

fun find_named :: "string \<Rightarrow> nat \<Rightarrow> json list \<Rightarrow> nat option result" where
  "find_named name i [] = Inr None"
| "find_named name i (j # js) =
     ebind (as_mapping j) (\<lambda>e. if jget ''name'' e = JStr name then Inr (Some i) else find_named name (i + 1) js)"

definition any_named :: "string \<Rightarrow> json list \<Rightarrow> bool result" where
  "any_named name js = ebind (find_named name 0 js) (\<lambda>r. Inr (r \<noteq> None))"

section \<open>The file and the rules\<close>

record 'c udp_world =
  udp_file :: "('c \<times> nat) option"
  udp_rules :: "'c option"

record 'c udp_env =
  yaml_load :: "'c \<Rightarrow> json"
  yaml_dump :: "jobj \<Rightarrow> 'c"
  byte_length :: "'c \<Rightarrow> nat"
  empty_file :: 'c
  fingerprint :: "json \<Rightarrow> string"
  port_busy :: "int \<Rightarrow> int \<Rightarrow> string option"
  reload :: "nat \<Rightarrow> 'c \<Rightarrow> string + jobj"
  read_error :: "string option"
  write_error :: "nat \<Rightarrow> string option"

definition load_yaml :: "'c udp_env \<Rightarrow> 'c udp_world \<Rightarrow> jobj" where
  "load_yaml env w =
     (case udp_file w of None \<Rightarrow> []
      | Some (content, mode) \<Rightarrow>
          (case yaml_load env content of JNull \<Rightarrow> [] | JObj d \<Rightarrow> d | j \<Rightarrow> [(''_'', j)]))"

text \<open>
  \<open>apply_udp_forwards\<close>: the daemon reloads the rules from the file; a success installs its content.
  The first argument numbers the calls of one save.
\<close>

definition apply_udp_forwards :: "'c udp_env \<Rightarrow> nat \<Rightarrow> 'c udp_world \<Rightarrow> (string + jobj) \<times> 'c udp_world" where
  "apply_udp_forwards env k w =
     (let content = (case udp_file w of None \<Rightarrow> empty_file env | Some (c, _) \<Rightarrow> c) in
      case reload env k content of
        Inl err \<Rightarrow> (Inl (if err = [] then ''UDP forwarding apply failed'' else err), w)
      | Inr state \<Rightarrow> (Inr state, w\<lparr>udp_rules := Some content\<rparr>))"

definition write_snapshot :: "'c udp_env \<Rightarrow> nat \<Rightarrow> 'c \<Rightarrow> nat \<Rightarrow> 'c udp_world \<Rightarrow> string + 'c udp_world" where
  "write_snapshot env k raw mode w =
     (case write_error env k of Some e \<Rightarrow> Inl e | None \<Rightarrow> Inr (w\<lparr>udp_file := Some (raw, mode)\<rparr>))"

definition MAX_UDP_YAML_BYTES :: nat where
  "MAX_UDP_YAML_BYTES = 512 * 1024"

definition success_message :: "jobj \<Rightarrow> string result" where
  "success_message state =
     (case (py_int (jget_or ''forwards'' (JInt 0) state), py_int (jget_or ''ports'' (JInt 0) state)) of
        (Some f, Some p) \<Rightarrow> Inr (''UDP forwarding applied immediately. Active forwards: '' @ int_to_str f
          @ ''; forwarded ports: '' @ int_to_str p @ ''; applied at: ''
          @ str_or (jget ''applied_at'' state) ''unknown'' @ ''.'')
      | _ \<Rightarrow> Inl (TypeError ''int() argument''))"

type_synonym answer = "(bool \<times> string) result"

definition write_and_apply :: "'c udp_env \<Rightarrow> jobj \<Rightarrow> 'c udp_world \<Rightarrow> answer \<times> 'c udp_world" where
  "write_and_apply env data w =
     (let raw = yaml_dump env data;
          previous = (case udp_file w of None \<Rightarrow> empty_file env | Some (c, _) \<Rightarrow> c);
          mode = (case udp_file w of None \<Rightarrow> 416 | Some (_, m) \<Rightarrow> m)
      in if byte_length env raw > MAX_UDP_YAML_BYTES then (Inr (False, ''udp.yml exceeds the size limit''), w)
         else if udp_file w \<noteq> None \<and> read_error env \<noteq> None then
           (Inr (False, ''Failed to read the previous udp.yml: '' @ the (read_error env)), w)
         else case write_snapshot env 0 raw mode w of
             Inl e \<Rightarrow> (Inr (False, ''Failed to write udp.yml: '' @ e), w)
           | Inr w1 \<Rightarrow>
         (case apply_udp_forwards env 0 w1 of
             (Inr state, w2) \<Rightarrow> (ebind (success_message state) (\<lambda>m. Inr (True, m)), w2)
           | (Inl err, w2) \<Rightarrow>
         (case write_snapshot env 1 previous mode w2 of
             Inl e \<Rightarrow> (Inr (False, ''Applying the UDP rules failed and restoring udp.yml also failed: ''
               @ err @ ''; restore error: '' @ e), w2)
           | Inr w3 \<Rightarrow>
         (case apply_udp_forwards env 1 w3 of
             (Inr _, w4) \<Rightarrow> (Inr (False, ''Applying the UDP rules failed. The previous configuration and rules were restored automatically: '' @ err), w4)
           | (Inl e2, w4) \<Rightarrow> (Inr (False, ''Applying the UDP rules failed and automatic rule rollback also failed: ''
               @ err @ ''; rollback error: '' @ e2), w4)))))"

section \<open>Saving and deleting\<close>

definition check_entry_revision :: "'c udp_env \<Rightarrow> json \<Rightarrow> json \<Rightarrow> string \<Rightarrow> string option" where
  "check_entry_revision env entry expected what =
     (let e = py_strip (str_or expected []) in
      if e \<noteq> [] \<and> entry \<noteq> JNull \<and> fingerprint env entry \<noteq> e then
        Some (what @ '' was changed in another session after this page was loaded. Reload the page to see that change, then make yours again.'')
      else None)"

definition forwards_of :: "jobj \<Rightarrow> json" where
  "forwards_of data =
     (if jget ''udp_forwards'' data = JNull then jget ''udp'' data else jget ''udp_forwards'' data)"

definition put_forwards :: "json list \<Rightarrow> jobj \<Rightarrow> jobj" where
  "put_forwards forwards data = jput ''udp_forwards'' (JList forwards) (AList.delete ''udp'' data)"

definition port_conflict :: "'c udp_env \<Rightarrow> jobj \<Rightarrow> int \<Rightarrow> int \<Rightarrow> string option" where
  "port_conflict env entry ls le =
     (if truthy (jget ''enabled'' entry) then
        map_option (\<lambda>busy. ''Port '' @ busy @ ''/udp is already in use on the host'') (port_busy env ls le)
      else None)"

text \<open>The new list of forwards, or the answer that refuses the save.\<close>

definition placed_forward :: "'c udp_env \<Rightarrow> jobj \<Rightarrow> int \<Rightarrow> int \<Rightarrow> json list \<Rightarrow> string \<Rightarrow> json \<Rightarrow> (string + json list) result" where
  "placed_forward env entry ls le forwards original revision =
     (let name = py_str (jget ''name'' entry);
          refuse = (\<lambda>m. Inr (Inl m));
          taken = refuse (''UDP forward with name='' @ repr_str name @ '' already exists'');
          finish = (\<lambda>skip fs.
            ebind (overlapping_forward forwards ls le skip) (\<lambda>overlap.
            case overlap of Some m \<Rightarrow> refuse m
            | None \<Rightarrow> (case port_conflict env entry ls le of Some m \<Rightarrow> refuse m | None \<Rightarrow> Inr (Inr fs))))
      in if original \<noteq> [] then
           ebind (find_named original 0 forwards) (\<lambda>found.
           case found of None \<Rightarrow> refuse (''UDP forward with name='' @ repr_str original @ '' not found'')
           | Some i \<Rightarrow>
             (case check_entry_revision env (forwards ! i) revision (''UDP forward '' @ repr_str original) of
                Some m \<Rightarrow> refuse m
              | None \<Rightarrow>
                  ebind (if name = original then Inr False else any_named name forwards) (\<lambda>dup.
                  if dup then taken else finish (Some i) (forwards[i := JObj entry]))))
         else ebind (any_named name forwards) (\<lambda>dup. if dup then taken else finish None (forwards @ [JObj entry])))"

definition save_udp :: "'c udp_env \<Rightarrow> json \<Rightarrow> string \<Rightarrow> json \<Rightarrow> 'c udp_world \<Rightarrow> answer \<times> 'c udp_world" where
  "save_udp env udp original revision w =
     (case normalize_udp_entry udp of
        Inl e \<Rightarrow> (Inr (False, err_text e), w)
      | Inr entry \<Rightarrow>
          (let data = load_yaml env w;
               forwards = (case forwards_of data of JList xs \<Rightarrow> xs | _ \<Rightarrow> [])
           in case parse_port_range (jget ''listen_port'' entry) ''listen_port'' of
                Inl e \<Rightarrow> (Inr (False, err_text e), w)
              | Inr (ls, le, _) \<Rightarrow>
                  (case placed_forward env entry ls le forwards original revision of
                     Inl e \<Rightarrow> (Inl e, w)
                   | Inr (Inl m) \<Rightarrow> (Inr (False, m), w)
                   | Inr (Inr fs) \<Rightarrow> write_and_apply env (put_forwards fs data) w)))"

fun drop_named :: "string \<Rightarrow> json list \<Rightarrow> json list result" where
  "drop_named name [] = Inr []"
| "drop_named name (j # js) =
     ebind (as_mapping j) (\<lambda>e. ebind (drop_named name js) (\<lambda>r.
       Inr (if jget ''name'' e = JStr name then r else j # r)))"

definition delete_udp :: "'c udp_env \<Rightarrow> string \<Rightarrow> 'c udp_world \<Rightarrow> answer \<times> 'c udp_world" where
  "delete_udp env name w =
     (let data = load_yaml env w in
      case forwards_of data of
        JList forwards \<Rightarrow>
          (case drop_named name forwards of
             Inl e \<Rightarrow> (Inl e, w)
           | Inr fs \<Rightarrow>
               if length fs = length forwards then
                 (Inr (False, ''UDP forward with name='' @ repr_str name @ '' not found''), w)
               else write_and_apply env (put_forwards fs data) w)
      | _ \<Rightarrow> (Inr (False, ''Invalid udp.yml structure (expected a udp_forwards list)''), w))"

end
