(* ===== verification/Udp_Facts.thy ===== *)
theory Udp_Facts
  imports Udp_Forward
begin

text \<open>
  What the generated rules do.  The first section is the meaning of the iptables options the
  generator uses, as a function on packets; the next ones describe accepted configurations,
  and the path of a packet through the four chains.
\<close>

section \<open>Meaning of a rule\<close>

text \<open>A packet of a new UDP flow, or of an established one, with the sets its source is in.\<close>

record packet =
  src_sets :: "string list"
  established :: bool
  daddr :: string
  dport :: int

definition port_in :: "string \<Rightarrow> int \<Rightarrow> bool" where
  "port_in d p = (case py_split CHR '':'' d of
     [a] \<Rightarrow> int (digits_val a) = p
   | [a, b] \<Rightarrow> int (digits_val a) \<le> p \<and> p \<le> int (digits_val b)
   | _ \<Rightarrow> False)"

text \<open>The match options of a rule up to its target.\<close>

fun opts_match :: "packet \<Rightarrow> string list \<Rightarrow> bool" where
  "opts_match pkt [] = True"
| "opts_match pkt [o1] = False"
| "opts_match pkt (o1 # a # r) =
     (if o1 = ''-j'' then True
      else if o1 = ''-p'' then a = ''udp'' \<and> opts_match pkt r
      else if o1 = ''--dport'' then port_in a (dport pkt) \<and> opts_match pkt r
      else if o1 = ''-d'' then daddr pkt = a \<and> opts_match pkt r
      else if o1 = ''-m'' then opts_match pkt r
      else if o1 = ''--ctstate'' then established pkt \<and> opts_match pkt r
      else if o1 = ''--match-set'' then a \<in> set (src_sets pkt) \<and> opts_match pkt (tl r)
      else if o1 = ''!'' then \<not> hd r \<in> set (src_sets pkt) \<and> opts_match pkt (tl (tl r))
      else False)"

definition target :: "string list \<Rightarrow> string list" where
  "target toks = tl (dropWhile (\<lambda>x. x \<noteq> ''-j'') toks)"

text \<open>The rules a command list appends to one chain, and the target of the first that matches.\<close>

definition chain_rules :: "string \<Rightarrow> string \<Rightarrow> command list \<Rightarrow> string list list" where
  "chain_rules table chain cmds =
     map (drop 4) (filter (\<lambda>c. take 4 c = [''-t'', table, ''-A'', chain]) cmds)"

definition chain_verdict :: "string list list \<Rightarrow> packet \<Rightarrow> string list option" where
  "chain_verdict rules pkt = map_option target (List.find (opts_match pkt) rules)"

datatype outcome = Untouched | Dropped | Forwarded string int | Blocked string int

text \<open>The path of a packet: raw, destination NAT, and the forward chain for the new destination.\<close>

definition packet_path :: "command list \<Rightarrow> packet \<Rightarrow> outcome" where
  "packet_path cmds pkt =
     (if chain_verdict (chain_rules ''raw'' RAW_CHAIN cmds) pkt = Some [''DROP''] then Dropped
      else case chain_verdict (chain_rules ''nat'' NAT_PRE cmds) pkt of
        Some [t, o1, dest] \<Rightarrow>
          (let ip = takeWhile (\<lambda>c. c \<noteq> CHR '':'') dest;
               port = int (digits_val (drop (length ip + 1) dest));
               pkt' = pkt\<lparr>daddr := ip, dport := port\<rparr>
           in if chain_verdict (chain_rules ''filter'' FWD_CHAIN cmds) pkt' = Some [''ACCEPT'']
              then Forwarded ip port else Blocked ip port)
      | _ \<Rightarrow> Untouched)"

section \<open>Ports in text\<close>

lemma colon_not_in_int: "0 \<le> p \<Longrightarrow> CHR '':'' \<notin> set (int_to_str p)"
  using is_digit_nat_to_str digit_not_special by (fastforce simp: int_to_str_def)

lemma digits_val_int: "0 \<le> p \<Longrightarrow> int (digits_val (int_to_str p)) = p"
  by (simp add: int_to_str_def digits_val_nat_to_str)

lemma port_in_single: "0 \<le> q \<Longrightarrow> port_in (int_to_str q) p \<longleftrightarrow> p = q"
  by (auto simp: port_in_def py_split_no_sep colon_not_in_int digits_val_int)

lemma port_in_range: "0 \<le> a \<Longrightarrow> 0 \<le> b \<Longrightarrow> port_in (int_to_str a @ '':'' @ int_to_str b) p \<longleftrightarrow> a \<le> p \<and> p \<le> b"
  by (auto simp: port_in_def py_split_append py_split_no_sep colon_not_in_int digits_val_int)

section \<open>Accepted forwards\<close>

definition fwd_ok :: "forward \<Rightarrow> bool" where
  "fwd_ok f = (1 \<le> listen_start f \<and> listen_start f \<le> listen_end f \<and> listen_end f \<le> 65535
     \<and> 1 \<le> backend_start f \<and> backend_end f \<le> 65535
     \<and> listen_end f - listen_start f = backend_end f - backend_start f
     \<and> listen_end f - listen_start f < MAX_PORTS_PER_FORWARD
     \<and> (\<exists>n < 2 ^ 32. backend_ip f = ipv4_str n \<and> n div 16777216 \<noteq> 127))"

text \<open>What \<open>getaddrinfo\<close> with \<open>AF_INET\<close> documents: dotted IPv4 addresses.\<close>

definition ipv4_resolver :: "resolver \<Rightarrow> bool" where
  "ipv4_resolver resolve = (\<forall>h as. resolve h = Inr as \<longrightarrow> (\<forall>a \<in> set as. ipv4_of_str a \<noteq> None))"

lemma port_range_Inr:
  "port_range v field = Inr (a, b) \<Longrightarrow> 1 \<le> a \<and> a \<le> b \<and> b \<le> 65535 \<and> b - a < MAX_PORTS_PER_FORWARD"
  by (auto simp: port_range_def Let_def split: option.splits if_splits)

lemma resolve_ipv4_dotted:
  assumes "ipv4_resolver resolve" "resolve_ipv4 resolve host = Inr ip"
  shows "\<exists>n < 2 ^ 32. ip = ipv4_str n"
proof (cases "ipv4_of_str host")
  case None
  then obtain as where "resolve host = Inr (ip # as)"
    using assms(2) by (auto simp: resolve_ipv4_def split: sum.splits list.splits)
  then have "ipv4_of_str ip \<noteq> None" using assms(1) by (fastforce simp: ipv4_resolver_def)
  then show ?thesis using ipv4_of_str_SomeD by blast
next
  case (Some n)
  then show ?thesis using assms(2) ipv4_of_str_SomeD [OF Some] by (auto simp: resolve_ipv4_def)
qed

lemma normalize_forward_ok:
  assumes r: "ipv4_resolver resolve" and n: "normalize_forward resolve j = Inr f"
  shows "fwd_ok f"
proof -
  obtain raw where j: "j = JObj raw" using n by (cases j) (auto simp: normalize_forward_def)
  let ?host = "py_strip (str_or (jget ''backend_host'' raw) [])"
  obtain ls le ip a bs be where
    l: "port_range (jget ''listen_port'' raw) ''listen_port'' = Inr (ls, le)"
    and i: "resolve_ipv4 resolve ?host = Inr ip" "ip_address ip = Some a" "\<not> is_loopback a"
    and b: "port_range (jget ''backend_port'' raw) ''backend_port'' = Inr (bs, be)"
    and e: "le - ls + 1 = be - bs + 1"
    and f: "listen_start f = ls" "listen_end f = le" "backend_ip f = ip" "backend_start f = bs" "backend_end f = be"
    using n unfolding j normalize_forward_def
    by (auto simp: Let_def split: if_splits option.splits)
  obtain m where m: "m < 2 ^ 32" "ip = ipv4_str m" using resolve_ipv4_dotted [OF r i(1)] by blast
  then have "a = IPv4 m" using i(2) by simp
  then have "m div 16777216 \<noteq> 127" using i(3) by simp
  then show ?thesis
    using port_range_Inr [OF l] port_range_Inr [OF b] e f m by (auto simp: fwd_ok_def)
qed

definition ports_of :: "forward \<Rightarrow> int set" where
  "ports_of f = {listen_start f..listen_end f}"

lemma load_entries_ok:
  assumes r: "ipv4_resolver resolve" and l: "load_entries resolve path i seen es = Inr fs"
  shows "(\<forall>f \<in> set fs. fwd_ok f \<and> ports_of f \<inter> set seen = {}) \<and> sorted_wrt (\<lambda>f g. ports_of f \<inter> ports_of g = {}) fs"
  using l
proof (induction es arbitrary: i seen fs)
  case (Cons e es)
  show ?case
  proof (cases "is_disabled e")
    case True
    then show ?thesis using Cons by simp
  next
    case False
    then obtain f gs where f: "normalize_forward resolve e = Inr f"
      and o: "\<forall>p \<in> ports_of f. p \<notin> set seen"
      and g: "load_entries resolve path (i + 1) (port_list (listen_start f) (listen_end f) @ seen) es = Inr gs"
      and fs: "fs = f # gs"
      using Cons.prems
      by (auto simp: Let_def ports_of_def port_list_def filter_empty_conv split: sum.splits udp_error.splits if_splits)
    have "set (port_list (listen_start f) (listen_end f)) = ports_of f" by (simp add: port_list_def ports_of_def)
    then show ?thesis using Cons.IH [OF g] normalize_forward_ok [OF r f] o fs by auto
  qed
qed simp

section \<open>The four chains\<close>

lemma opts_match_dport:
  assumes "0 \<le> a" "a \<le> b"
  shows "opts_match pkt (dport_tokens a b @ r) \<longleftrightarrow> a \<le> dport pkt \<and> dport pkt \<le> b \<and> opts_match pkt r"
proof -
  let ?d = "if a = b then int_to_str a else int_to_str a @ '':'' @ int_to_str b"
  have "port_in ?d (dport pkt) \<longleftrightarrow> a \<le> dport pkt \<and> dport pkt \<le> b"
    using assms port_in_single [of a "dport pkt"] port_in_range [of a b "dport pkt"] by auto
  then show ?thesis by (simp add: dport_tokens_def)
qed

lemma opts_match_p [simp]: "opts_match pkt (''-p'' # ''udp'' # r) = opts_match pkt r"
  by simp

definition raw_hit :: "packet \<Rightarrow> forward \<Rightarrow> bool" where
  "raw_hit pkt f = (dport pkt \<in> ports_of f \<and>
     ((ban_check f \<and> BAN_SET \<in> set (src_sets pkt)) \<or> (zero_trust f \<and> AUTH_SET \<notin> set (src_sets pkt))))"

lemma ban_rule_match:
  assumes "fwd_ok f"
  shows "opts_match pkt (drop 4 (ban_rule f)) \<longleftrightarrow> dport pkt \<in> ports_of f \<and> BAN_SET \<in> set (src_sets pkt)"
  using assms opts_match_dport [of "listen_start f" "listen_end f" pkt]
  by (simp add: ban_rule_def fwd_ok_def ports_of_def)

lemma auth_rule_match:
  assumes "fwd_ok f"
  shows "opts_match pkt (drop 4 (auth_rule f)) \<longleftrightarrow> dport pkt \<in> ports_of f \<and> AUTH_SET \<notin> set (src_sets pkt)"
  using assms opts_match_dport [of "listen_start f" "listen_end f" pkt]
  by (simp add: auth_rule_def fwd_ok_def ports_of_def)

lemma dport_tokens_no_j: "''-j'' \<notin> set (dport_tokens a b)" if "0 \<le> a" "0 \<le> b"
proof -
  have "hd (int_to_str a) \<noteq> CHR ''-''"
    using that is_digit_nat_to_str [of "hd (nat_to_str (nat a))" "nat a"] digit_not_special
    by (auto simp: int_to_str_def)
  moreover have "int_to_str a \<noteq> []" by (simp add: int_to_str_def)
  ultimately show ?thesis by (cases "int_to_str a") (auto simp: dport_tokens_def)
qed

lemma raw_targets:
  assumes "fwd_ok f"
  shows "target (drop 4 (ban_rule f)) = [''DROP'']" "target (drop 4 (auth_rule f)) = [''DROP'']"
proof -
  have "''-j'' \<notin> set (dport_tokens (listen_start f) (listen_end f))"
    using assms by (intro dport_tokens_no_j) (auto simp: fwd_ok_def)
  then have "dropWhile (\<lambda>x. x \<noteq> ''-j'') (dport_tokens (listen_start f) (listen_end f) @ r) =
      dropWhile (\<lambda>x. x \<noteq> ''-j'') r" for r
    by (intro dropWhile_append2) auto
  then show "target (drop 4 (ban_rule f)) = [''DROP'']" "target (drop 4 (auth_rule f)) = [''DROP'']"
    by (simp_all add: target_def ban_rule_def auth_rule_def BAN_SET_def AUTH_SET_def)
qed

lemmas chain_names = RAW_CHAIN_def NAT_PRE_def NAT_POST_def FWD_CHAIN_def

lemma chain_rules_Cons:
  "chain_rules t c (cmd # cmds) =
     (if take 4 cmd = [''-t'', t, ''-A'', c] then [drop 4 cmd] else []) @ chain_rules t c cmds"
  by (simp add: chain_rules_def)

lemma chain_rules_append: "chain_rules t c (xs @ ys) = chain_rules t c xs @ chain_rules t c ys"
  by (simp add: chain_rules_def)

lemma chain_rules_concat: "chain_rules t c (concat xss) = concat (map (chain_rules t c) xss)"
  by (induction xss) (simp_all add: chain_rules_append, simp add: chain_rules_def)

lemma chain_rules_Nil [simp]: "chain_rules t c [] = []"
  by (simp add: chain_rules_def)

definition dnat_rule :: "forward \<Rightarrow> int \<Rightarrow> string list" where
  "dnat_rule f p = [''-p'', ''udp'', ''--dport'', int_to_str p, ''-j'', ''DNAT'', ''--to-destination'',
     backend_ip f @ '':'' @ int_to_str (backend_start f + (p - listen_start f))]"

definition accept_rule :: "forward \<Rightarrow> int \<Rightarrow> string list" where
  "accept_rule f p = [''-p'', ''udp'', ''-d'', backend_ip f, ''--dport'',
     int_to_str (backend_start f + (p - listen_start f)), ''-j'', ''ACCEPT'']"

lemma port_rules_chains:
  "chain_rules ''raw'' RAW_CHAIN (port_rules f p) = []"
  "chain_rules ''nat'' NAT_PRE (port_rules f p) = [dnat_rule f p]"
  "chain_rules ''filter'' FWD_CHAIN (port_rules f p) = [accept_rule f p]"
  by (simp_all add: port_rules_def chain_rules_def chain_names dnat_rule_def accept_rule_def Let_def)

lemma filter_rules_chains:
  "take 4 (ban_rule f) = [''-t'', ''raw'', ''-A'', RAW_CHAIN]"
  "take 4 (auth_rule f) = [''-t'', ''raw'', ''-A'', RAW_CHAIN]"
  "take 4 established_rule = [''-t'', ''filter'', ''-A'', FWD_CHAIN]"
  by (simp_all add: ban_rule_def auth_rule_def established_rule_def)

lemma forward_rules_chains:
  "chain_rules ''raw'' RAW_CHAIN (forward_rules f) =
     (if ban_check f then [drop 4 (ban_rule f)] else []) @ (if zero_trust f then [drop 4 (auth_rule f)] else [])"
  "chain_rules ''nat'' NAT_PRE (forward_rules f) = map (dnat_rule f) [listen_start f..listen_end f]"
  "chain_rules ''filter'' FWD_CHAIN (forward_rules f) = map (accept_rule f) [listen_start f..listen_end f]"
  by (simp_all add: forward_rules_def chain_rules_append chain_rules_concat chain_rules_Cons filter_rules_chains
      port_rules_chains comp_def)

lemma build_chains:
  "chain_rules ''raw'' RAW_CHAIN (build_rule_commands fs) = concat (map (chain_rules ''raw'' RAW_CHAIN \<circ> forward_rules) fs)"
  "chain_rules ''nat'' NAT_PRE (build_rule_commands fs) = concat (map (\<lambda>f. map (dnat_rule f) [listen_start f..listen_end f]) fs)"
  "chain_rules ''filter'' FWD_CHAIN (build_rule_commands fs) =
     drop 4 established_rule # concat (map (\<lambda>f. map (accept_rule f) [listen_start f..listen_end f]) fs)"
  by (simp_all add: build_rule_commands_def chain_rules_Cons chain_rules_concat filter_rules_chains
      forward_rules_chains comp_def)

lemma verdict_uniform:
  assumes "\<And>r. r \<in> set rules \<Longrightarrow> opts_match pkt r \<Longrightarrow> target r = t"
  shows "chain_verdict rules pkt = (if \<exists>r \<in> set rules. opts_match pkt r then Some t else None)"
proof (cases "List.find (opts_match pkt) rules")
  case None
  then show ?thesis by (auto simp: chain_verdict_def find_None_iff)
next
  case (Some r)
  then have "r \<in> set rules" "opts_match pkt r" by (auto simp: find_Some_iff)
  then show ?thesis using assms Some by (auto simp: chain_verdict_def)
qed

lemma raw_verdict:
  assumes "\<forall>f \<in> set fs. fwd_ok f"
  shows "chain_verdict (chain_rules ''raw'' RAW_CHAIN (build_rule_commands fs)) pkt =
     (if \<exists>f \<in> set fs. raw_hit pkt f then Some [''DROP''] else None)"
proof -
  let ?R = "chain_rules ''raw'' RAW_CHAIN (build_rule_commands fs)"
  have t: "target r = [''DROP'']" if "r \<in> set ?R" for r
    using that assms raw_targets by (auto simp: build_chains forward_rules_chains split: if_splits)
  have "(\<exists>r \<in> set ?R. opts_match pkt r) \<longleftrightarrow> (\<exists>f \<in> set fs. raw_hit pkt f)"
    using assms ban_rule_match auth_rule_match
    by (auto simp: build_chains forward_rules_chains raw_hit_def split: if_splits) blast+
  then show ?thesis using verdict_uniform [of ?R pkt "[''DROP'']"] t by simp
qed

lemma colon_not_in_dotted: "CHR '':'' \<notin> set (ipv4_str n)"
proof
  assume "CHR '':'' \<in> set (ipv4_str n)"
  then have "is_digit CHR '':''"
    by (auto simp: ipv4_str_def dest: is_digit_nat_to_str)
  then show False by (simp add: is_digit_def)
qed

lemma takeWhile_colon: "CHR '':'' \<notin> set s \<Longrightarrow> takeWhile (\<lambda>c. c \<noteq> CHR '':'') (s @ CHR '':'' # t) = s"
  by (induction s) auto

lemma dnat_rule_match:
  assumes "0 \<le> p"
  shows "opts_match pkt (dnat_rule f p) \<longleftrightarrow> dport pkt = p"
  using assms port_in_single [of p "dport pkt"] by (simp add: dnat_rule_def)

lemma int_to_str_not_j: "0 \<le> p \<Longrightarrow> int_to_str p \<noteq> ''-j''"
proof
  assume "0 \<le> p" "int_to_str p = ''-j''"
  then have "CHR ''j'' \<in> set (nat_to_str (nat p))" by (simp add: int_to_str_def)
  then have "is_digit CHR ''j''" by (rule is_digit_nat_to_str)
  then show False by (simp add: is_digit_def)
qed

lemma ports_unique:
  "sorted_wrt (\<lambda>f g. ports_of f \<inter> ports_of g = {}) fs \<Longrightarrow> f \<in> set fs \<Longrightarrow> g \<in> set fs \<Longrightarrow>
     p \<in> ports_of f \<Longrightarrow> p \<in> ports_of g \<Longrightarrow> g = f"
  by (induction fs) auto

lemma nat_rules_iff: "r \<in> set (chain_rules ''nat'' NAT_PRE (build_rule_commands fs)) \<longleftrightarrow>
    (\<exists>g \<in> set fs. \<exists>p \<in> ports_of g. r = dnat_rule g p)"
  by (auto simp: build_chains(2) ports_of_def)

lemma fwd_rules_iff: "r \<in> set (chain_rules ''filter'' FWD_CHAIN (build_rule_commands fs)) \<longleftrightarrow>
    r = drop 4 established_rule \<or> (\<exists>g \<in> set fs. \<exists>p \<in> ports_of g. r = accept_rule g p)"
  by (auto simp: build_chains(3) ports_of_def)

lemma fwd_ok_ip: "fwd_ok f \<Longrightarrow> \<exists>n < 2 ^ 32. backend_ip f = ipv4_str n"
  by (auto simp: fwd_ok_def)

lemma dnat_rule_target:
  assumes "0 \<le> p"
  shows "target (dnat_rule f p) = [''DNAT'', ''--to-destination'',
     backend_ip f @ '':'' @ int_to_str (backend_start f + (p - listen_start f))]"
  using int_to_str_not_j [OF assms] by (simp add: target_def dnat_rule_def)

lemma accept_rule_match:
  assumes "0 \<le> backend_start f + (p - listen_start f)"
  shows "opts_match pkt (accept_rule f p) \<longleftrightarrow>
     daddr pkt = backend_ip f \<and> dport pkt = backend_start f + (p - listen_start f)"
  using assms port_in_single [of "backend_start f + (p - listen_start f)" "dport pkt"]
  by (simp add: accept_rule_def)

lemma dotted_not_j: "ipv4_str n \<noteq> ''-j''"
proof
  assume "ipv4_str n = ''-j''"
  then have "CHR ''j'' \<in> set (ipv4_str n)" by simp
  then have "is_digit CHR ''j''" by (auto simp: ipv4_str_def dest: is_digit_nat_to_str)
  then show False by (simp add: is_digit_def)
qed

lemma accept_rule_target:
  assumes "fwd_ok f" "p \<in> ports_of f"
  shows "target (accept_rule f p) = [''ACCEPT'']"
proof -
  have "0 \<le> backend_start f + (p - listen_start f)" using assms by (auto simp: fwd_ok_def ports_of_def)
  then have "int_to_str (backend_start f + (p - listen_start f)) \<noteq> ''-j''" by (rule int_to_str_not_j)
  moreover have "backend_ip f \<noteq> ''-j''" using fwd_ok_ip [OF assms(1)] dotted_not_j by metis
  ultimately show ?thesis by (simp add: target_def accept_rule_def)
qed

lemma nat_verdict:
  assumes ok: "\<forall>f \<in> set fs. fwd_ok f" and apart: "sorted_wrt (\<lambda>f g. ports_of f \<inter> ports_of g = {}) fs"
    and f: "f \<in> set fs" "dport pkt \<in> ports_of f"
  shows "chain_verdict (chain_rules ''nat'' NAT_PRE (build_rule_commands fs)) pkt =
     Some [''DNAT'', ''--to-destination'',
       backend_ip f @ '':'' @ int_to_str (backend_start f + (dport pkt - listen_start f))]"
proof -
  let ?R = "chain_rules ''nat'' NAT_PRE (build_rule_commands fs)"
  have nonneg: "0 \<le> p" if "g \<in> set fs" "p \<in> ports_of g" for g p
    using ok that by (auto simp: fwd_ok_def ports_of_def)
  have t: "target r = [''DNAT'', ''--to-destination'',
       backend_ip f @ '':'' @ int_to_str (backend_start f + (dport pkt - listen_start f))]"
    if r: "r \<in> set ?R" "opts_match pkt r" for r
  proof -
    obtain g p where g: "g \<in> set fs" "p \<in> ports_of g" "r = dnat_rule g p"
      using r(1) unfolding nat_rules_iff by blast
    have p: "p = dport pkt" using r(2) g dnat_rule_match [of p pkt g] nonneg [OF g(1,2)] by simp
    have gf: "g = f" using ports_unique [OF apart f(1) g(1) f(2)] g(2) p by simp
    show ?thesis using dnat_rule_target [OF nonneg [OF g(1,2)], of g] g(3) unfolding p gf by simp
  qed
  have "dnat_rule f (dport pkt) \<in> set ?R" using f unfolding nat_rules_iff by blast
  moreover have "opts_match pkt (dnat_rule f (dport pkt))" using dnat_rule_match nonneg f by blast
  ultimately show ?thesis using verdict_uniform [of ?R pkt, OF t] by auto
qed

lemma nat_verdict_None:
  assumes ok: "\<forall>f \<in> set fs. fwd_ok f" and "\<forall>f \<in> set fs. dport pkt \<notin> ports_of f"
  shows "chain_verdict (chain_rules ''nat'' NAT_PRE (build_rule_commands fs)) pkt = None"
proof -
  have "\<not> opts_match pkt r" if r: "r \<in> set (chain_rules ''nat'' NAT_PRE (build_rule_commands fs))" for r
  proof -
    obtain g p where g: "g \<in> set fs" "p \<in> ports_of g" "r = dnat_rule g p"
      using r unfolding nat_rules_iff by blast
    moreover have "0 \<le> p" using ok g by (auto simp: fwd_ok_def ports_of_def)
    ultimately show ?thesis using dnat_rule_match [of p pkt g] assms(2) by auto
  qed
  then show ?thesis by (auto simp: chain_verdict_def find_None_iff)
qed

lemma forward_verdict:
  assumes ok: "\<forall>f \<in> set fs. fwd_ok f" and f: "f \<in> set fs" "p \<in> ports_of f"
    and d: "daddr pkt = backend_ip f" "dport pkt = backend_start f + (p - listen_start f)"
  shows "chain_verdict (chain_rules ''filter'' FWD_CHAIN (build_rule_commands fs)) pkt = Some [''ACCEPT'']"
proof -
  let ?R = "chain_rules ''filter'' FWD_CHAIN (build_rule_commands fs)"
  have "target r = [''ACCEPT'']" if r: "r \<in> set ?R" for r
  proof (cases "r = drop 4 established_rule")
    case True
    then show ?thesis by (simp add: target_def established_rule_def)
  next
    case False
    then obtain g q where "g \<in> set fs" "q \<in> ports_of g" "r = accept_rule g q"
      using r unfolding fwd_rules_iff by blast
    then show ?thesis using ok accept_rule_target by blast
  qed
  moreover have "accept_rule f p \<in> set ?R" using f unfolding fwd_rules_iff by blast
  moreover have "opts_match pkt (accept_rule f p)"
    using d ok f by (subst accept_rule_match) (auto simp: fwd_ok_def ports_of_def)
  ultimately show ?thesis using verdict_uniform [of ?R pkt "[''ACCEPT'']"] by auto
qed

lemma packet_path_build:
  assumes ok: "\<forall>f \<in> set fs. fwd_ok f" and apart: "sorted_wrt (\<lambda>f g. ports_of f \<inter> ports_of g = {}) fs"
    and f: "f \<in> set fs" "dport pkt \<in> ports_of f" and r: "\<not> raw_hit pkt f"
  shows "packet_path (build_rule_commands fs) pkt =
     Forwarded (backend_ip f) (backend_start f + (dport pkt - listen_start f))"
proof -
  have nr: "\<not> (\<exists>g \<in> set fs. raw_hit pkt g)"
    using r ports_unique [OF apart f(1) _ f(2)] by (auto simp: raw_hit_def)
  let ?q = "backend_start f + (dport pkt - listen_start f)"
  have q: "0 \<le> ?q" using ok f by (auto simp: fwd_ok_def ports_of_def)
  have c: "CHR '':'' \<notin> set (backend_ip f)" using ok f fwd_ok_ip colon_not_in_dotted by metis
  have v: "chain_verdict (chain_rules ''filter'' FWD_CHAIN (build_rule_commands fs))
      (pkt\<lparr>daddr := backend_ip f, dport := ?q\<rparr>) = Some [''ACCEPT'']"
    using forward_verdict [OF ok f(1) f(2), of "pkt\<lparr>daddr := backend_ip f, dport := ?q\<rparr>"] by simp
  have tw: "takeWhile (\<lambda>c. c \<noteq> CHR '':'') (backend_ip f @ '':'' @ int_to_str ?q) = backend_ip f"
    using takeWhile_colon [OF c] by simp
  have dr: "drop (length (backend_ip f) + 1) (backend_ip f @ '':'' @ int_to_str ?q) = int_to_str ?q" by simp
  have rv: "chain_verdict (chain_rules ''raw'' RAW_CHAIN (build_rule_commands fs)) pkt = None"
    using raw_verdict [OF ok, of pkt] nr by simp
  show ?thesis
    unfolding packet_path_def rv nat_verdict [OF ok apart f]
    by (simp only: option.case list.case Let_def tw dr digits_val_int [OF q] v if_True if_False option.distinct) simp
qed

section \<open>The restore transaction\<close>

text \<open>
  The meaning of the restore input: a table line, a flush, an appended rule and the final
  COMMIT, on the rules of every chain of every table.
\<close>

type_synonym chain_store = "string \<times> string \<Rightarrow> string list list"

definition line_effect :: "string \<Rightarrow> string \<times> chain_store \<Rightarrow> string \<times> chain_store" where
  "line_effect l = (\<lambda>(table, st).
     if l \<noteq> [] \<and> hd l = CHR ''*'' then (tl l, st)
     else case py_split CHR '' '' l of
         [f, c] \<Rightarrow> if f = ''-F'' then (table, st((table, c) := [])) else (table, st)
       | a # c # toks \<Rightarrow> if a = ''-A'' then (table, st((table, c) := st (table, c) @ [toks])) else (table, st)
       | _ \<Rightarrow> (table, st))"

definition restore_effect :: "string list \<Rightarrow> chain_store \<Rightarrow> chain_store" where
  "restore_effect ls st = snd (fold line_effect ls ([], st))"

lemma py_split_join: "ws \<noteq> [] \<Longrightarrow> \<forall>w \<in> set ws. sep \<notin> set w \<Longrightarrow> py_split sep (py_join [sep] ws) = ws"
  by (induction ws rule: induct_list012) (simp_all add: py_split_no_sep py_split_append)

definition solid :: "command \<Rightarrow> bool" where
  "solid c = (\<forall>w \<in> set c. CHR '' '' \<notin> set w)"

text \<open>A command that appends a non-empty rule to a chain of a table.\<close>

definition append_cmd :: "command \<Rightarrow> bool" where
  "append_cmd c = (solid c \<and> (\<exists>t ch o1 toks. c = ''-t'' # t # ''-A'' # ch # o1 # toks))"

lemma line_effect_append:
  assumes "solid (''-A'' # ch # o1 # toks)"
  shows "line_effect (py_join '' '' (''-A'' # ch # o1 # toks)) (t, st) = (t, st((t, ch) := st (t, ch) @ [o1 # toks]))"
proof -
  have "py_split CHR '' '' (py_join '' '' (''-A'' # ch # o1 # toks)) = ''-A'' # ch # o1 # toks"
    using assms by (intro py_split_join) (auto simp: solid_def)
  then show ?thesis by (simp add: line_effect_def)
qed

lemma fold_appends:
  assumes "\<forall>c \<in> set cs. append_cmd c \<and> take 2 c = [''-t'', t]"
  shows "fold line_effect (map (\<lambda>c. py_join '' '' (drop 2 c)) cs) (t, st) =
     (t, \<lambda>(t', ch). if t' = t then st (t, ch) @ chain_rules t ch cs else st (t', ch))"
  using assms
proof (induction cs arbitrary: st)
  case (Cons c cs)
  then obtain ch o1 toks where c: "c = ''-t'' # t # ''-A'' # ch # o1 # toks" "solid c"
    by (auto simp: append_cmd_def)
  have s: "solid (''-A'' # ch # o1 # toks)" using c by (simp add: solid_def)
  have "fold line_effect (map (\<lambda>c. py_join '' '' (drop 2 c)) (c # cs)) (t, st) =
      fold line_effect (map (\<lambda>c. py_join '' '' (drop 2 c)) cs) (t, st((t, ch) := st (t, ch) @ [o1 # toks]))"
    using line_effect_append [OF s, of t st] c(1) by simp
  also have "\<dots> = (t, \<lambda>(t', ch'). if t' = t then (st((t, ch) := st (t, ch) @ [o1 # toks])) (t, ch') @ chain_rules t ch' cs
      else (st((t, ch) := st (t, ch) @ [o1 # toks])) (t', ch'))"
    using Cons by simp
  also have "\<dots> = (t, \<lambda>(t', ch'). if t' = t then st (t, ch') @ chain_rules t ch' (c # cs) else st (t', ch'))"
    using c(1) by (auto simp: chain_rules_Cons)
  finally show ?case .
qed (auto simp: chain_rules_def)

definition managed :: "string \<times> string \<Rightarrow> bool" where
  "managed k = (k \<in> set (map (\<lambda>(t, b, c). (t, c)) WIRING))"

lemma chain_rules_filter:
  "chain_rules t ch (filter (\<lambda>c. 3 \<le> length c \<and> take 2 c = [''-t'', t]) cmds) = chain_rules t ch cmds"
proof -
  have "3 \<le> length c \<and> take 2 c = [''-t'', t]" if "take 4 c = [''-t'', t, ''-A'', ch]" for c :: command
  proof -
    have "c = [''-t'', t, ''-A'', ch] @ drop 4 c" using that by (metis append_take_drop_id)
    then obtain r where "c = [''-t'', t, ''-A'', ch] @ r" by blast
    then show ?thesis by simp
  qed
  then show ?thesis by (auto simp: chain_rules_def intro!: arg_cong [of _ _ "map (drop 4)"] filter_cong)
qed

lemma line_effect_flush:
  "CHR '' '' \<notin> set c \<Longrightarrow> line_effect (''-F '' @ c) (t, st) = (t, st((t, c) := []))"
  using py_split_append [of "CHR '' ''" "''-F''" c] by (simp add: line_effect_def py_split_no_sep)

lemma fold_flush:
  "\<forall>c \<in> set cs. CHR '' '' \<notin> set c \<Longrightarrow> fold line_effect (map ((@) ''-F '') cs) (t, st) =
     (t, \<lambda>(t', ch). if t' = t \<and> ch \<in> set cs then [] else st (t', ch))"
proof (induction cs arbitrary: st)
  case (Cons c cs)
  then show ?case using line_effect_flush [of c t st] by auto
qed auto

lemma wiring_chains:
  assumes "table \<in> {''raw'', ''nat'', ''filter''}"
  shows "\<exists>cs. map (\<lambda>(t, b, chain). ''-F '' @ chain) (filter (\<lambda>(t, b, chain). t = table) WIRING) = map ((@) ''-F '') cs
     \<and> (\<forall>c \<in> set cs. CHR '' '' \<notin> set c) \<and> (\<forall>ch. managed (table, ch) \<longleftrightarrow> ch \<in> set cs)"
proof -
  let ?cs = "map (\<lambda>(t, b, c). c) (filter (\<lambda>(t, b, chain). t = table) WIRING)"
  have "\<forall>c \<in> set ?cs. CHR '' '' \<notin> set c" by (auto simp: WIRING_def chain_names)
  moreover have "managed (table, ch) \<longleftrightarrow> ch \<in> set ?cs" for ch
    by (force simp: managed_def)
  ultimately show ?thesis by (intro exI [of _ ?cs]) (auto simp: comp_def split_def)
qed

lemma restore_table_effect:
  assumes "\<forall>c \<in> set cmds. append_cmd c" "table \<in> {''raw'', ''nat'', ''filter''}"
  shows "fold line_effect (restore_table cmds table) (t0, st) =
     (table, \<lambda>(t, ch). if t = table then (if managed (t, ch) then [] else st (t, ch)) @ chain_rules t ch cmds else st (t, ch))"
proof -
  let ?F = "filter (\<lambda>c. length c \<ge> 3 \<and> take 2 c = [''-t'', table]) cmds"
  obtain cs where cs: "map (\<lambda>(t, b, chain). ''-F '' @ chain) (filter (\<lambda>(t, b, chain). t = table) WIRING) = map ((@) ''-F '') cs"
    "\<forall>c \<in> set cs. CHR '' '' \<notin> set c" "\<And>ch. managed (table, ch) \<longleftrightarrow> ch \<in> set cs"
    using wiring_chains [OF assms(2)] by blast
  have ap: "\<forall>c \<in> set ?F. append_cmd c \<and> take 2 c = [''-t'', table]" using assms(1) by simp
  have head: "line_effect (''*'' @ table) (t0, st) = (table, st)" by (simp add: line_effect_def)
  have commit: "line_effect ''COMMIT'' x = x" for x by (cases x) (simp add: line_effect_def)
  have "fold line_effect (restore_table cmds table) (t0, st) =
      (table, \<lambda>(t', ch). if t' = table then (if t' = table \<and> ch \<in> set cs then [] else st (t', ch)) @ chain_rules table ch ?F
        else st (t', ch))"
    unfolding restore_table_def cs(1) fold_append comp_def
    using fold_flush [OF cs(2), of table st] fold_appends [OF ap] head commit by (auto simp: fun_eq_iff)
  then show ?thesis using cs(3) by (auto simp: chain_rules_filter fun_eq_iff)
qed

lemma restore_lines_effect:
  assumes "\<forall>c \<in> set cmds. append_cmd c"
  shows "restore_effect (restore_lines cmds) st (t, ch) =
     (if t \<in> {''raw'', ''nat'', ''filter''} then (if managed (t, ch) then [] else st (t, ch)) @ chain_rules t ch cmds
      else st (t, ch))"
  using restore_table_effect [OF assms]
  by (simp add: restore_effect_def restore_lines_def del: fold_append) (auto simp: fold_append comp_def)

text \<open>Every generated command appends to a managed chain.\<close>

lemma space_not_in_int: "0 \<le> p \<Longrightarrow> CHR '' '' \<notin> set (int_to_str p)"
  using is_digit_nat_to_str digit_not_space by (fastforce simp: int_to_str_def py_isspace_def)

lemma space_not_in_dotted: "CHR '' '' \<notin> set (ipv4_str n)"
proof
  assume "CHR '' '' \<in> set (ipv4_str n)"
  then have "is_digit CHR '' ''" by (auto simp: ipv4_str_def dest: is_digit_nat_to_str)
  then show False by (simp add: is_digit_def)
qed

lemma build_append_cmds:
  assumes "\<forall>f \<in> set fs. fwd_ok f" "c \<in> set (build_rule_commands fs)"
  shows "append_cmd c \<and> (\<exists>t ch. take 4 c = [''-t'', t, ''-A'', ch] \<and> managed (t, ch))"
proof -
  have dt: "\<forall>w \<in> set (dport_tokens (listen_start f) (listen_end f)). CHR '' '' \<notin> set w" if "fwd_ok f" for f
    using that space_not_in_int by (auto simp: dport_tokens_def fwd_ok_def)
  consider "c = established_rule" | f where "f \<in> set fs" "c = ban_rule f \<or> c = auth_rule f"
    | f p where "f \<in> set fs" "p \<in> ports_of f" "c \<in> set (port_rules f p)"
    using assms(2) by (auto simp: build_rule_commands_def forward_rules_def ports_of_def split: if_splits)
  then show ?thesis
  proof cases
    case 1
    then show ?thesis by (simp add: append_cmd_def solid_def established_rule_def chain_names managed_def WIRING_def)
  next
    case 2
    then have "fwd_ok f" using assms(1) by blast
    from dt [OF this] have "solid c" using 2(2)
      by (auto simp: solid_def ban_rule_def auth_rule_def BAN_SET_def AUTH_SET_def chain_names)
    moreover have "take 4 c = [''-t'', ''raw'', ''-A'', RAW_CHAIN] \<and> (\<exists>toks. c = ''-t'' # ''raw'' # ''-A'' # RAW_CHAIN # ''-p'' # toks)"
      using 2 by (auto simp: ban_rule_def auth_rule_def)
    ultimately show ?thesis by (auto simp: append_cmd_def managed_def WIRING_def)
  next
    case 3
    have ok: "fwd_ok f" using assms(1) 3 by blast
    have nn: "0 \<le> p" "0 \<le> backend_start f + (p - listen_start f)" using ok 3 by (auto simp: fwd_ok_def ports_of_def)
    have ip: "CHR '' '' \<notin> set (backend_ip f)" using fwd_ok_ip [OF ok] space_not_in_dotted by metis
    have "solid c" using 3(3) nn [THEN space_not_in_int] ip
      by (auto simp: port_rules_def Let_def solid_def chain_names)
    moreover have "\<exists>t ch toks. c = ''-t'' # t # ''-A'' # ch # ''-p'' # toks \<and> managed (t, ch)"
      using 3(3) by (auto simp: port_rules_def Let_def managed_def WIRING_def)
    ultimately show ?thesis by (auto simp: append_cmd_def)
  qed
qed

end
