(* ===== verification/Udp_Panel_Facts.thy ===== *)
theory Udp_Panel_Facts
  imports Udp_Panel Udp_Facts
begin

text \<open>
  Facts about the panel's UDP operations: its parser agrees with the generator's, a save keeps the
  saved forwards consistent, the file and the kernel rules stay in step across failed applies, and
  the generator accepts what the panel saves.
\<close>

section \<open>The panel's parser and the generator's\<close>

lemma parse_port_range_iff:
  "parse_port_range v l = Inr (a, b, c) \<longleftrightarrow> port_range v f = Inr (a, b) \<and> c = format_port_range a b"
  by (auto simp: parse_port_range_def port_range_def Let_def MAX_PORTS_PER_FORWARD_def format_port_range_def
      split: option.splits if_splits)

lemma digits_within: "0 < k \<Longrightarrow> n < 10 ^ k \<Longrightarrow> rex_match (RRep 1 k (rng [digit_range] [])) (nat_to_str n)"
proof -
  assume a: "0 < k" "n < 10 ^ k"
  have "length (nat_to_str n) \<le> k" using a by (intro length_nat_to_str_bound) auto
  moreover have "Suc 0 \<le> length (nat_to_str n)" by (simp add: Suc_le_eq)
  moreover have "in_class False [digit_range] c" if "c \<in> set (nat_to_str n)" for c
    using is_digit_nat_to_str [OF that] by (simp add: in_class_def is_digit_def)
  ultimately show ?thesis by (simp add: rng_def singles_def match_rep_class)
qed

lemma dash_not_in_nat: "CHR ''-'' \<notin> set (nat_to_str n)"
  using is_digit_nat_to_str digit_not_special by blast

lemma port_text_groups:
  assumes "m < 100000" "n < 100000"
  shows "range_groups (nat_to_str m) = Some (nat_to_str m, None)"
    "range_groups (nat_to_str m @ ''-'' @ nat_to_str n) = Some (nat_to_str m, Some (nat_to_str n))"
proof -
  have d: "rex_match (RRep 1 5 (rng [digit_range] [])) (nat_to_str m)" "rex_match (RRep 1 5 (rng [digit_range] [])) (nat_to_str n)"
    using assms digits_within [of 5 m] digits_within [of 5 n] by simp_all
  then have "rex_match PORT_RANGE_RE (nat_to_str m)" unfolding PORT_RANGE_RE_def match_seq match_opt
    by (intro exI [of _ "nat_to_str m"] exI [of _ "[]"]) simp
  then show "range_groups (nat_to_str m) = Some (nat_to_str m, None)"
    by (simp add: range_groups_def py_split_no_sep dash_not_in_nat)
  have "rex_match (RSeq (lit ''-'') (RRep 1 5 (rng [digit_range] []))) (''-'' @ nat_to_str n)"
    unfolding match_seq using d(2) by (intro exI [of _ "''-''"] exI [of _ "nat_to_str n"]) (simp add: rex_match_iff lang_lit)
  then have "rex_match PORT_RANGE_RE (nat_to_str m @ ''-'' @ nat_to_str n)" unfolding PORT_RANGE_RE_def match_seq [of "RRep 1 5 _" "ROpt _"] match_opt
    using d(1) by (intro exI [of _ "nat_to_str m"] exI [of _ "''-'' @ nat_to_str n"]) simp
  then show "range_groups (nat_to_str m @ ''-'' @ nat_to_str n) = Some (nat_to_str m, Some (nat_to_str n))"
    by (simp add: range_groups_def py_split_append py_split_no_sep dash_not_in_nat)
qed

definition range_ok :: "int \<Rightarrow> int \<Rightarrow> bool" where
  "range_ok a b = (1 \<le> a \<and> a \<le> b \<and> b \<le> 65535 \<and> b - a < MAX_PORTS_PER_FORWARD)"

lemma range_text_format:
  assumes "range_ok a b"
  shows "range_text (format_port_range a b) =
     (if a = b then nat_to_str (nat a) else nat_to_str (nat a) @ ''-'' @ nat_to_str (nat b))"
proof -
  have i: "int_to_str a = nat_to_str (nat a)" "int_to_str b = nat_to_str (nat b)"
    using assms by (auto simp: int_to_str_def range_ok_def)
  have s: "py_strip (nat_to_str n) = nat_to_str n" for n
    using is_digit_nat_to_str by (intro py_strip_stripped stripped_digits)
  have "stripped (nat_to_str m @ ''-'' @ nat_to_str n)" for m n
    using is_digit_nat_to_str [of "hd (nat_to_str m)" m] is_digit_nat_to_str [of "last (nat_to_str n)" n]
    by (auto simp: stripped_def dest: digit_not_space)
  then show ?thesis using i s by (auto simp: range_text_def format_port_range_def py_str_def)
qed

lemma port_range_format:
  assumes "range_ok a b"
  shows "port_range (format_port_range a b) f = Inr (a, b)"
proof -
  have b: "nat a < 100000" "nat b < 100000" using assms by (auto simp: range_ok_def)
  show ?thesis
    using assms port_text_groups [OF b] digits_val_nat_to_str
    by (auto simp: port_range_def range_text_format [OF assms] range_ok_def Let_def)
qed

lemma port_range_ok: "port_range v f = Inr (a, b) \<Longrightarrow> range_ok a b"
  using port_range_Inr by (auto simp: range_ok_def)

lemma parse_port_range_format: "range_ok a b \<Longrightarrow> parse_port_range (format_port_range a b) l = Inr (a, b, format_port_range a b)"
  using port_range_format parse_port_range_iff by blast

section \<open>Consistent lists of forwards\<close>

definition obj_of :: "json \<Rightarrow> jobj" where
  "obj_of j = (case j of JObj e \<Rightarrow> e | _ \<Rightarrow> [])"

definition enabled_ports :: "json \<Rightarrow> int set" where
  "enabled_ports j = (if jget ''enabled'' (obj_of j) = JBool False then {}
     else case range_for_entry (obj_of j) of Inl _ \<Rightarrow> {} | Inr (a, b) \<Rightarrow> {a..b})"

definition fwd_apart :: "json \<Rightarrow> json \<Rightarrow> bool" where
  "fwd_apart a b = (jget ''name'' (obj_of a) \<noteq> jget ''name'' (obj_of b) \<and> enabled_ports a \<inter> enabled_ports b = {})"

text \<open>Every entry is a mapping, no two have the same name, no two enabled ones share a port.\<close>

definition udp_consistent :: "json list \<Rightarrow> bool" where
  "udp_consistent js = ((\<forall>j \<in> set js. \<exists>e. j = JObj e) \<and>
     (\<forall>i < length js. \<forall>k < length js. i \<noteq> k \<longrightarrow> fwd_apart (js ! i) (js ! k)))"

lemma fwd_apart_sym: "fwd_apart a b \<Longrightarrow> fwd_apart b a"
  by (auto simp: fwd_apart_def)

lemma as_mapping_Inr [simp]: "as_mapping j = Inr e \<longleftrightarrow> j = JObj e"
  by (cases j) (auto simp: as_mapping_def)

lemma obj_of_JObj [simp]: "obj_of (JObj e) = e"
  by (simp add: obj_of_def)

lemma overlapping_from_None:
  assumes "overlapping_from i js s e skip = Inr None" "k < length js" "skip \<noteq> Some (i + k)"
  shows "enabled_ports (js ! k) \<inter> {s..e} = {}"
  using assms
proof (induction js arbitrary: i k)
  case (Cons j js)
  show ?case
  proof (cases k)
    case 0
    then have "skip \<noteq> Some i" using Cons.prems by simp
    then show ?thesis using Cons.prems(1) 0
      by (auto simp: enabled_ports_def split: if_splits sum.splits)
  next
    case (Suc k')
    have "overlapping_from (i + 1) js s e skip = Inr None"
      using Cons.prems(1) by (auto split: if_splits sum.splits)
    then show ?thesis using Cons.IH [of "i + 1" k'] Cons.prems Suc by simp
  qed
qed simp

lemma find_named_facts:
  "find_named name i js = Inr None \<Longrightarrow> \<forall>j \<in> set js. jget ''name'' (obj_of j) \<noteq> JStr name"
  "find_named name i js = Inr (Some m) \<Longrightarrow> \<exists>k < length js. m = i + k \<and> jget ''name'' (obj_of (js ! k)) = JStr name"
  by (induction js arbitrary: i) (auto split: if_splits, fastforce)

lemma any_named_False: "any_named name js = Inr False \<Longrightarrow> j \<in> set js \<Longrightarrow> jget ''name'' (obj_of j) \<noteq> JStr name"
  using find_named_facts(1) [of name 0 js] by (auto simp: any_named_def)

lemma normalize_udp_entry_steps:
  assumes "normalize_udp_entry (JObj raw) = Inr entry"
  obtains name ls le lv host bs be bv ban zero on where
    "validate_identifier (jget ''name'' raw) ''name'' = Inr name"
    "parse_port_range (jget ''listen_port'' raw) ''listen_port'' = Inr (ls, le, lv)"
    "validate_host (jget ''backend_host'' raw) ''backend_host'' = Inr host" "\<not> loopback_host host"
    "parse_port_range (jget ''backend_port'' raw) ''backend_port'' = Inr (bs, be, bv)" "le - ls = be - bs"
    "entry = [(''name'', JStr name), (''listen_port'', lv), (''backend_host'', JStr host),
        (''backend_port'', bv), (''ban_check'', JBool ban), (''zero_trust'', JBool zero), (''enabled'', JBool on)]"
proof -
  note a = assms [unfolded normalize_udp_entry_def json.case]
  obtain name where 1: "validate_identifier (jget ''name'' raw) ''name'' = Inr name"
    using a by (rule ebind_InrE)
  note a = a [unfolded 1 ebind_simps]
  obtain l where 2: "parse_port_range (jget ''listen_port'' raw) ''listen_port'' = Inr l"
    using a by (rule ebind_InrE)
  obtain ls le lv where l: "l = (ls, le, lv)" by (cases l)
  note a = a [unfolded 2 l ebind_simps prod.case]
  obtain host where 3: "validate_host (jget ''backend_host'' raw) ''backend_host'' = Inr host"
    using a by (rule ebind_InrE)
  note a = a [unfolded 3 ebind_simps]
  have 4: "\<not> loopback_host host" using a by (metis Inl_Inr_False)
  note a = a [unfolded if_not_P [OF 4]]
  obtain b where 5: "parse_port_range (jget ''backend_port'' raw) ''backend_port'' = Inr b"
    using a by (rule ebind_InrE)
  obtain bs be bv where b: "b = (bs, be, bv)" by (cases b)
  note a = a [unfolded 5 b ebind_simps prod.case]
  have 6: "le - ls = be - bs" using a by (metis Inl_Inr_False)
  from a 6 obtain ban zero on where
    "entry = [(''name'', JStr name), (''listen_port'', lv), (''backend_host'', JStr host),
        (''backend_port'', bv), (''ban_check'', JBool ban), (''zero_trust'', JBool zero), (''enabled'', JBool on)]"
    by (simp only: simp_thms if_False) (elim ebind_InrE, drule Inr_inject, drule sym, blast)
  from that [OF 1 2 [unfolded l] 3 4 5 [unfolded b] 6 this] show ?thesis .
qed

lemma normalize_udp_entry_fields:
  assumes "normalize_udp_entry j = Inr entry"
  obtains name ls le host bs be ban zero on v l v' l' where "entry =
       [(''name'', JStr name), (''listen_port'', format_port_range ls le), (''backend_host'', JStr host),
        (''backend_port'', format_port_range bs be), (''ban_check'', JBool ban), (''zero_trust'', JBool zero),
        (''enabled'', JBool on)]"
     "range_ok ls le" "range_ok bs be" "le - ls = be - bs" "\<not> loopback_host host"
     "validate_host v l = Inr host" "validate_identifier v' l' = Inr name"
proof -
  obtain raw where j: "j = JObj raw" using assms by (cases j) (auto simp: normalize_udp_entry_def)
  show thesis
  proof (rule normalize_udp_entry_steps [OF assms [unfolded j]])
    fix name ls le lv host bs be bv ban zero on
    assume a: "validate_identifier (jget ''name'' raw) ''name'' = Inr name"
      "parse_port_range (jget ''listen_port'' raw) ''listen_port'' = Inr (ls, le, lv)"
      "validate_host (jget ''backend_host'' raw) ''backend_host'' = Inr host" "\<not> loopback_host host"
      "parse_port_range (jget ''backend_port'' raw) ''backend_port'' = Inr (bs, be, bv)" "le - ls = be - bs"
      "entry = [(''name'', JStr name), (''listen_port'', lv), (''backend_host'', JStr host),
        (''backend_port'', bv), (''ban_check'', JBool ban), (''zero_trust'', JBool zero), (''enabled'', JBool on)]"
    have l: "range_ok ls le" "lv = format_port_range ls le" using a(2) parse_port_range_iff port_range_ok by blast+
    have b: "range_ok bs be" "bv = format_port_range bs be" using a(5) parse_port_range_iff port_range_ok by blast+
    show thesis by (rule that [OF a(7) [unfolded l b] l(1) b(1) a(6) a(4) a(3) a(1)])
  qed
qed

lemma update_consistent:
  assumes c: "udp_consistent js" and k: "k < length js"
    and o: "\<And>i. i < length js \<Longrightarrow> i \<noteq> k \<Longrightarrow> fwd_apart (js ! i) (JObj e)"
  shows "udp_consistent (js[k := JObj e])"
proof -
  have "\<forall>j \<in> set (js[k := JObj e]). \<exists>e. j = JObj e"
    using c set_update_subset_insert [of js k "JObj e"] by (auto simp: udp_consistent_def)
  moreover have "fwd_apart (js[k := JObj e] ! i) (js[k := JObj e] ! m)"
    if "i < length js" "m < length js" "i \<noteq> m" for i m
    using that c k o [of i] fwd_apart_sym [OF o [of m]]
    by (cases "i = k"; cases "m = k") (auto simp: udp_consistent_def)
  ultimately show ?thesis by (simp add: udp_consistent_def)
qed

lemma append_consistent:
  assumes c: "udp_consistent js"
    and o: "\<And>i. i < length js \<Longrightarrow> fwd_apart (js ! i) (JObj e)"
  shows "udp_consistent (js @ [JObj e])"
proof -
  have "fwd_apart ((js @ [JObj e]) ! i) ((js @ [JObj e]) ! m)"
    if "i < Suc (length js)" "m < Suc (length js)" "i \<noteq> m" for i m
    using that c o [of i] fwd_apart_sym [OF o [of m]]
    by (cases "i = length js"; cases "m = length js") (auto simp: udp_consistent_def nth_append)
  then show ?thesis using c by (auto simp: udp_consistent_def)
qed

lemma placed_forward_consistent:
  assumes c: "udp_consistent js" and e: "normalize_udp_entry j = Inr entry"
    and p: "parse_port_range (jget ''listen_port'' entry) ''listen_port'' = Inr (ls, le, lv)"
    and r: "placed_forward env entry ls le js original revision = Inr (Inr fs)"
  shows "udp_consistent fs"
proof -
  obtain name where n: "jget ''name'' entry = JStr name"
    using normalize_udp_entry_fields [OF e] by (metis jget_simps(2))
  have ports: "enabled_ports (JObj entry) \<subseteq> {ls..le}"
  proof -
    have "parse_port_range (jget ''listen_port'' entry) ''existing listen_port'' = Inr (ls, le, lv)"
      using p parse_port_range_iff by blast
    then show ?thesis by (simp add: enabled_ports_def range_for_entry_def)
  qed
  show ?thesis
  proof (cases "original = []")
    case True
    then have "any_named name js = Inr False" "overlapping_forward js ls le None = Inr None" "fs = js @ [JObj entry]"
      using r n by (auto simp: placed_forward_def Let_def split: if_splits option.splits)
    moreover from this have "fwd_apart (js ! i) (JObj entry)" if "i < length js" for i
      using that any_named_False [of name js "js ! i"] n ports overlapping_from_None [of 0 js ls le None i]
      by (auto simp: overlapping_forward_def fwd_apart_def)
    ultimately show ?thesis using append_consistent [OF c, of entry] by simp
  next
    case False
    then obtain k where k: "find_named original 0 js = Inr (Some k)"
      "name = original \<or> any_named name js = Inr False"
      "overlapping_forward js ls le (Some k) = Inr None" "fs = js[k := JObj entry]"
      using r n by (auto simp: placed_forward_def Let_def split: if_splits option.splits)
    have kl: "k < length js" "jget ''name'' (obj_of (js ! k)) = JStr original"
      using find_named_facts(2) [OF k(1)] by auto
    have "fwd_apart (js ! i) (JObj entry)" if i: "i < length js" "i \<noteq> k" for i
    proof -
      have "fwd_apart (js ! i) (js ! k)" using c i kl by (simp add: udp_consistent_def)
      then have "jget ''name'' (obj_of (js ! i)) \<noteq> JStr name"
        using k(2) kl i any_named_False [of name js "js ! i"] by (auto simp: fwd_apart_def)
      then show ?thesis
        using n ports k(3) i overlapping_from_None [of 0 js ls le "Some k" i]
        by (auto simp: overlapping_forward_def fwd_apart_def)
    qed
    then show ?thesis using update_consistent [OF c kl(1), of entry] k(4) by simp
  qed
qed

lemma drop_named_filter: "drop_named name js = Inr fs \<Longrightarrow> fs = filter (\<lambda>j. jget ''name'' (obj_of j) \<noteq> JStr name) js"
  by (induction js arbitrary: fs) auto

section \<open>File and rules\<close>

text \<open>The kernel rules are those of the file.\<close>

definition in_sync :: "'c udp_world \<Rightarrow> bool" where
  "in_sync w = (case udp_file w of None \<Rightarrow> False | Some (c, _) \<Rightarrow> udp_rules w = Some c)"

text \<open>
  What a write attempt leaves behind: the untouched world; the new content installed; the new
  content in the file but neither installed nor taken back, when putting the old file back failed;
  or the old content back in the file, with the old or freshly reinstalled rules.
\<close>

lemma write_and_apply_worlds:
  assumes w: "write_and_apply env data w = (r, w')"
  defines "prev \<equiv> (case udp_file w of None \<Rightarrow> (empty_file env, 416) | Some f \<Rightarrow> f)"
  shows "(w' = w \<and> (\<exists>m. r = Inr (False, m)))
    \<or> (\<exists>mode. w' = w\<lparr>udp_file := Some (yaml_dump env data, mode), udp_rules := Some (yaml_dump env data)\<rparr>
          \<and> (\<forall>m. r \<noteq> Inr (False, m)))
    \<or> (\<exists>mode e. write_error env 1 = Some e \<and> w' = w\<lparr>udp_file := Some (yaml_dump env data, mode)\<rparr>
          \<and> (\<exists>m. r = Inr (False, m)))
    \<or> (w' \<in> {w\<lparr>udp_file := Some prev\<rparr>, w\<lparr>udp_file := Some prev, udp_rules := Some (fst prev)\<rparr>}
          \<and> (\<exists>m. r = Inr (False, m)))"
proof -
  let ?raw = "yaml_dump env data"
  have pm: "prev = (case udp_file w of None \<Rightarrow> empty_file env | Some (c, _) \<Rightarrow> c, case udp_file w of None \<Rightarrow> 416 | Some (_, m) \<Rightarrow> m)"
    by (auto simp: prev_def split: option.splits)
  obtain p m where p: "prev = (p, m)" by (cases prev)
  have pw: "(case udp_file w of None \<Rightarrow> empty_file env | Some (c, _) \<Rightarrow> c) = p"
    "(case udp_file w of None \<Rightarrow> 416 | Some (_, m) \<Rightarrow> m) = m" using pm p by auto
  show ?thesis
    using w unfolding write_and_apply_def Let_def pw write_snapshot_def p apply_udp_forwards_def fst_conv
    by (auto split: if_splits option.splits sum.splits simp: ebind_def)
qed

lemma write_and_apply_in_sync:
  assumes "write_and_apply env data w = (r, w')" "write_error env 1 = None" "in_sync w"
  shows "in_sync w'"
  using write_and_apply_worlds [OF assms(1)] assms(2,3)
  by (auto simp: in_sync_def split: option.splits)

lemma save_udp_cases:
  obtains "snd (save_udp env udp original revision w) = w"
  | entry ls le lv fs where "normalize_udp_entry udp = Inr entry"
      "parse_port_range (jget ''listen_port'' entry) ''listen_port'' = Inr (ls, le, lv)"
      "placed_forward env entry ls le (case forwards_of (load_yaml env w) of JList xs \<Rightarrow> xs | _ \<Rightarrow> []) original revision
         = Inr (Inr fs)"
      "save_udp env udp original revision w = write_and_apply env (put_forwards fs (load_yaml env w)) w"
proof (cases "normalize_udp_entry udp")
  case (Inl e)
  then show ?thesis by (intro that(1)) (simp add: save_udp_def)
next
  case (Inr entry)
  note n = this
  show ?thesis
  proof (cases "parse_port_range (jget ''listen_port'' entry) ''listen_port''")
    case (Inl e)
    then show ?thesis using n by (intro that(1)) (simp add: save_udp_def Let_def)
  next
    case (Inr t)
    obtain ls le lv where t: "t = (ls, le, lv)" by (cases t)
    let ?P = "placed_forward env entry ls le (case forwards_of (load_yaml env w) of JList xs \<Rightarrow> xs | _ \<Rightarrow> []) original revision"
    have s: "save_udp env udp original revision w = (case ?P of Inl e \<Rightarrow> (Inl e, w) | Inr (Inl m) \<Rightarrow> (Inr (False, m), w)
        | Inr (Inr fs) \<Rightarrow> write_and_apply env (put_forwards fs (load_yaml env w)) w)"
      using n Inr t by (simp add: save_udp_def Let_def)
    consider e where "?P = Inl e" | m where "?P = Inr (Inl m)" | fs where "?P = Inr (Inr fs)"
      by (metis sum.exhaust)
    then show ?thesis
    proof cases
      case (3 fs)
      show ?thesis by (rule that(2) [OF n Inr [unfolded t] 3]) (simp add: s 3)
    qed (rule that(1), simp add: s)+
  qed
qed

lemma delete_udp_cases:
  obtains "snd (delete_udp env name w) = w"
  | js fs where "forwards_of (load_yaml env w) = JList js" "drop_named name js = Inr fs"
      "delete_udp env name w = write_and_apply env (put_forwards fs (load_yaml env w)) w"
proof (cases "forwards_of (load_yaml env w)")
  case (JList js)
  note j = this
  show ?thesis
  proof (cases "drop_named name js")
    case (Inl e)
    then show ?thesis using j by (intro that(1)) (simp add: delete_udp_def)
  next
    case (Inr fs)
    then show ?thesis using j that by (cases "length fs = length js") (auto simp: delete_udp_def)
  qed
qed (rule that(1), simp add: delete_udp_def)+

text \<open>The forwards the panel reads from the file.\<close>

definition saved_forwards :: "'c udp_env \<Rightarrow> 'c udp_world \<Rightarrow> json list" where
  "saved_forwards env w = (case forwards_of (load_yaml env w) of JList xs \<Rightarrow> xs | _ \<Rightarrow> [])"

text \<open>What the panel relies on of its YAML library: reading back what was written.\<close>

definition yaml_round_trip :: "'c udp_env \<Rightarrow> bool" where
  "yaml_round_trip env = ((\<forall>d. yaml_load env (yaml_dump env d) = JObj d) \<and>
     yaml_load env (empty_file env) = JObj [(''udp_forwards'', JList [])])"

lemma forwards_of_put: "forwards_of (put_forwards fs data) = JList fs"
  by (simp add: forwards_of_def put_forwards_def)

lemma saved_forwards_file:
  "udp_file w = Some (yaml_dump env (put_forwards fs d), mode) \<Longrightarrow> yaml_round_trip env \<Longrightarrow> saved_forwards env w = fs"
  by (simp add: saved_forwards_def load_yaml_def yaml_round_trip_def forwards_of_put)

lemma udp_consistent_Nil [simp]: "udp_consistent []"
  by (simp add: udp_consistent_def)

lemma write_keeps_consistent:
  assumes w: "write_and_apply env (put_forwards fs d) w = (r, w')" and y: "yaml_round_trip env"
    and c: "udp_consistent (saved_forwards env w)" "udp_consistent fs"
  shows "udp_consistent (saved_forwards env w')"
proof -
  have e: "saved_forwards env x = []" if "udp_file x = Some (empty_file env, m)" for x m
    using that y by (simp add: saved_forwards_def load_yaml_def yaml_round_trip_def forwards_of_def)
  have s: "saved_forwards env x = saved_forwards env w" if "udp_file x = udp_file w" for x
    using that by (simp add: saved_forwards_def load_yaml_def)
  have n: "saved_forwards env w = []" if "udp_file w = None"
    using that by (simp add: saved_forwards_def load_yaml_def forwards_of_def)
  have f: "udp_consistent (saved_forwards env x)"
    if "udp_file x = udp_file w \<or> (\<exists>m. udp_file x = Some (yaml_dump env (put_forwards fs d), m))
      \<or> (udp_file w = None \<and> (\<exists>m. udp_file x = Some (empty_file env, m)))" for x
    using that c e [of x] s [of x] saved_forwards_file [OF _ y, of x fs d] by auto
  show ?thesis
    using write_and_apply_worlds [OF w]
  proof (elim disjE)
    assume "w' = w \<and> (\<exists>m. r = Inr (False, m))"
    then show ?thesis using c by simp
  next
    assume "w' \<in> {w\<lparr>udp_file := Some (case udp_file w of None \<Rightarrow> (empty_file env, 416) | Some f \<Rightarrow> f)\<rparr>,
        w\<lparr>udp_file := Some (case udp_file w of None \<Rightarrow> (empty_file env, 416) | Some f \<Rightarrow> f),
          udp_rules := Some (fst (case udp_file w of None \<Rightarrow> (empty_file env, 416) | Some f \<Rightarrow> f))\<rparr>} \<and> (\<exists>m. r = Inr (False, m))"
    then have "udp_file w' = Some (case udp_file w of None \<Rightarrow> (empty_file env, 416) | Some f \<Rightarrow> f)" by auto
    then show ?thesis by (intro f) (auto split: option.splits)
  qed (rule f, force)+
qed

lemma udp_consistent_iff: "udp_consistent js \<longleftrightarrow> (\<forall>j \<in> set js. \<exists>e. j = JObj e) \<and> sorted_wrt fwd_apart js"
proof -
  have "fwd_apart (js ! i) (js ! k)" if "sorted_wrt fwd_apart js" "i < length js" "k < length js" "i \<noteq> k" for i k
    using that fwd_apart_sym [of "js ! k" "js ! i"]
    by (cases "i < k") (auto simp: sorted_wrt_iff_nth_less not_less)
  then show ?thesis unfolding udp_consistent_def sorted_wrt_iff_nth_less by fastforce
qed

lemma drop_named_consistent: "drop_named name js = Inr fs \<Longrightarrow> udp_consistent js \<Longrightarrow> udp_consistent fs"
  by (auto simp: udp_consistent_iff sorted_wrt_filter dest!: drop_named_filter)

section \<open>The generator accepts what the panel saves\<close>

text \<open>An entry the panel normalised whose backend is an IPv4 address.\<close>

definition panel_entry :: "json \<Rightarrow> bool" where
  "panel_entry j = (\<exists>e raw host n. j = JObj e \<and> normalize_udp_entry raw = Inr e
     \<and> jget ''backend_host'' e = JStr host \<and> ipv4_of_str host = Some n)"

lemma panel_entry_accepted:
  assumes "panel_entry j"
  obtains f where "normalize_forward resolve j = Inr f" "\<not> is_disabled j \<Longrightarrow> ports_of f = enabled_ports j"
proof -
  obtain e raw host n where j: "j = JObj e" and e: "normalize_udp_entry raw = Inr e"
    and h: "jget ''backend_host'' e = JStr host" "ipv4_of_str host = Some n"
    using assms by (auto simp: panel_entry_def)
  obtain name ls le bs be ban zero on where en: "e =
       [(''name'', JStr name), (''listen_port'', format_port_range ls le), (''backend_host'', JStr host),
        (''backend_port'', format_port_range bs be), (''ban_check'', JBool ban), (''zero_trust'', JBool zero),
        (''enabled'', JBool on)]"
    and ok: "range_ok ls le" "range_ok bs be" "le - ls = be - bs" "\<not> loopback_host host"
    by (rule normalize_udp_entry_fields [OF e]) (use h in auto)
  have n: "n < 2 ^ 32" "host = ipv4_str n" using ipv4_of_str_SomeD [OF h(2)] by auto
  have st: "py_strip host = host" "host \<noteq> []"
  proof -
    have "\<not> py_isspace c" if "c \<in> set host" for c
      using that n(2) is_digit_nat_to_str digit_not_space by (auto simp: ipv4_str_def py_isspace_def)
    then show "py_strip host = host" by (intro py_strip_stripped) (cases "host = []", auto simp: stripped_def)
    show "host \<noteq> []" by (simp add: n(2) ipv4_str_def)
  qed
  have ip: "ip_address host = Some (IPv4 n)" "\<not> is_loopback (IPv4 n)"
    using n ok(4) by (auto simp: loopback_host_def)
  have r: "resolve_ipv4 resolve host = Inr host" using h(2) n by (simp add: resolve_ipv4_def)
  let ?f = "\<lparr>fw_name = (if py_strip name = [] then ''udp'' @ int_to_str ls else py_strip name),
      listen_port = format_port_range ls le, listen_start = ls, listen_end = le, backend_ip = host,
      backend_port = format_port_range bs be, backend_start = bs, backend_end = be, ban_check = ban, zero_trust = zero\<rparr>"
  have f: "normalize_forward resolve j = Inr ?f"
    unfolding j en normalize_forward_def json.case
    using port_range_format [OF ok(1)] port_range_format [OF ok(2)] ok(3) st ip r
    by (auto simp: Let_def)
  have p: "ports_of ?f = enabled_ports j" if "\<not> is_disabled j"
    using that parse_port_range_format [OF ok(1)]
    by (simp add: ports_of_def enabled_ports_def is_disabled_def j en range_for_entry_def)
  show ?thesis using that [OF f] p by blast
qed

lemma load_entries_accepts:
  assumes "\<forall>j \<in> set js. panel_entry j" "sorted_wrt fwd_apart js"
    "\<forall>j \<in> set js. \<not> is_disabled j \<longrightarrow> enabled_ports j \<inter> set seen = {}"
  shows "\<exists>fs. load_entries resolve path i seen js = Inr fs \<and> map ports_of fs = map enabled_ports (filter (\<lambda>j. \<not> is_disabled j) js)"
  using assms
proof (induction js arbitrary: i seen)
  case (Cons j js)
  show ?case
  proof (cases "is_disabled j")
    case True
    then show ?thesis using Cons by auto
  next
    case False
    obtain f where f: "normalize_forward resolve j = Inr f" "ports_of f = enabled_ports j"
      using Cons.prems(1) False by (meson list.set_intros(1) panel_entry_accepted)
    let ?ports = "port_list (listen_start f) (listen_end f)"
    have ps: "set ?ports = enabled_ports j" using f(2) by (simp add: port_list_def ports_of_def)
    have "\<forall>k \<in> set js. \<not> is_disabled k \<longrightarrow> enabled_ports k \<inter> set (?ports @ seen) = {}"
      using Cons.prems(2,3) ps by (auto simp: fwd_apart_def)
    then obtain fs where "load_entries resolve path (i + 1) (?ports @ seen) js = Inr fs"
      "map ports_of fs = map enabled_ports (filter (\<lambda>j. \<not> is_disabled j) js)"
      using Cons.IH [of "?ports @ seen" "i + 1"] Cons.prems by auto
    moreover have "filter (\<lambda>p. p \<in> set seen) ?ports = []"
      using Cons.prems(3) False ps by (auto simp: filter_empty_conv)
    ultimately show ?thesis using f False by (auto simp: Let_def)
  qed
qed simp

end
