(* ===== verification/Udp_Properties.thy ===== *)
theory Udp_Properties
  imports Udp_Panel_Facts
begin

text \<open>
  The properties of UDP forwarding: what the generated rules do to packets, that one restore
  transaction replaces exactly the managed chains, that the retired chain's clean-up ends, and that
  the panel keeps its file consistent, in step with the kernel and acceptable to the generator.
\<close>

section \<open>A kernel for the clean-up loop\<close>

text \<open>
  The documented behaviour of the two iptables commands of the loop, as laws of the parameter
  \<open>run\<close>: \<open>-C\<close> changes nothing and succeeds while a jump is left, \<open>-D\<close> then deletes one.
\<close>

definition jump_check :: command where
  "jump_check = [''-t'', ''filter'', ''-C'', ''INPUT'', ''-j'', LEGACY_INPUT_CHAIN]"

definition jump_delete :: command where
  "jump_delete = [''-t'', ''filter'', ''-D'', ''INPUT'', ''-j'', LEGACY_INPUT_CHAIN]"

definition iptables_jumps :: "'s runner \<Rightarrow> ('s \<Rightarrow> nat) \<Rightarrow> bool" where
  "iptables_jumps run jumps = ((\<forall>st. snd (run st jump_check) = st \<and> (fst (run st jump_check) = 0 \<longleftrightarrow> 0 < jumps st))
     \<and> (\<forall>st. 0 < jumps st \<longrightarrow> fst (run st jump_delete) = 0 \<and> jumps (snd (run st jump_delete)) = jumps st - 1))"

lemma delete_legacy_jumps_ends:
  assumes "iptables_jumps run jumps"
  shows "\<exists>st'. delete_legacy_jumps run st = Some (Inr st') \<and> jumps st' = 0"
proof (induction "jumps st" arbitrary: st)
  case 0
  then show ?case using assms
    by (subst delete_legacy_jumps.simps) (auto simp: iptables_jumps_def jump_check_def [symmetric] split_def Let_def)
next
  case (Suc n)
  have p: "0 < jumps st" using Suc(2) by simp
  let ?st = "snd (run st jump_delete)"
  have d: "fst (run st jump_delete) = 0" "n = jumps ?st" "snd (run st jump_check) = st" "fst (run st jump_check) = 0"
    using assms p Suc(2) by (auto simp: iptables_jumps_def)
  have "delete_legacy_jumps run st = delete_legacy_jumps run ?st"
    using d by (subst delete_legacy_jumps.simps)
      (simp add: jump_check_def [symmetric] jump_delete_def [symmetric] run_checked_def split_def Let_def)
  then show ?case using Suc(1) [OF d(2)] by simp
qed

section \<open>A sample configuration\<close>

lemma sample_dotted: "ipv4_of_str ''10.0.0.2'' = Some 167772162" "ipv4_str 167772162 = ''10.0.0.2''"
proof -
  show "ipv4_of_str ''10.0.0.2'' = Some 167772162"
    by (simp add: ipv4_of_str_def parse_octet_def is_digit_def digits_val_def digit_val_def)
  from ipv4_of_str_SomeD [OF this] show "ipv4_str 167772162 = ''10.0.0.2''" by simp
qed

lemma sample_strip: "py_strip ''10.0.0.2'' = ''10.0.0.2''"
  by (simp add: py_strip_def py_lstrip_def py_rstrip_def py_isspace_def)

definition sample_entry :: jobj where
  "sample_entry = [(''name'', JStr ''dns''), (''listen_port'', JInt 53), (''backend_host'', JStr ''10.0.0.2''),
     (''backend_port'', JInt 5353), (''ban_check'', JBool True), (''zero_trust'', JBool False), (''enabled'', JBool True)]"

lemma sample_ports:
  "port_range (JInt 53) f = Inr (53, 53)" "port_range (JInt 5353) f = Inr (5353, 5353)"
  using port_range_format [of 53 53 f] port_range_format [of 5353 5353 f]
  by (simp_all add: range_ok_def MAX_PORTS_PER_FORWARD_def format_port_range_def)

lemma sample_panel: "panel_entry (JObj sample_entry)"
proof -
  have p: "parse_port_range (JInt 53) l = Inr (53, 53, JInt 53)" "parse_port_range (JInt 5353) l = Inr (5353, 5353, JInt 5353)" for l
    using sample_ports parse_port_range_iff by (fastforce simp: format_port_range_def)+
  have n: "validate_identifier (JStr ''dns'') l = Inr ''dns''" for l
    by (simp add: validate_identifier_def IDENTIFIER_RE_def rng_def singles_def in_class_def
        py_strip_def py_lstrip_def py_rstrip_def py_isspace_def)
  have ip: "ip_address ''10.0.0.2'' = Some (IPv4 167772162)" by (simp add: ip_address_def sample_dotted)
  have h: "validate_host (JStr ''10.0.0.2'') l = Inr ''10.0.0.2''" for l
    by (simp add: validate_host_def sample_strip HOST_RE_def match_rep_class rng_def singles_def in_class_def has_control_def
        control_char_def py_startswith_def ip Let_def)
  have "normalize_udp_entry (JObj sample_entry) = Inr sample_entry"
    by (simp add: normalize_udp_entry_def sample_entry_def n p h loopback_host_def ip boolean_field_def py_lower_def py_lower_char_def Let_def)
  then show ?thesis
    unfolding panel_entry_def using sample_dotted(1)
    by (intro exI [of _ sample_entry] exI [of _ "JObj sample_entry"] exI [of _ "''10.0.0.2''"] exI [of _ 167772162])
       (simp add: sample_entry_def)
qed

definition sample_forward :: forward where
  "sample_forward = \<lparr>fw_name = ''dns'', listen_port = JInt 53, listen_start = 53, listen_end = 53, backend_ip = ''10.0.0.2'',
     backend_port = JInt 5353, backend_start = 5353, backend_end = 5353, ban_check = True, zero_trust = False\<rparr>"

lemma sample_load:
  "load_forwards (\<lambda>h. Inl []) ''udp.yml'' (Document (JObj [(''udp_forwards'', JList [JObj sample_entry])])) = Inr [sample_forward]"
  by (simp add: load_forwards_def jor_def is_disabled_def normalize_forward_def sample_entry_def sample_ports sample_strip
      resolve_ipv4_def sample_dotted ip_address_def sample_forward_def format_port_range_def
      py_strip_def py_lstrip_def py_rstrip_def py_isspace_def)

section \<open>Properties\<close>



text \<open>One restore transaction replaces the rules of the four managed chains by the generated
  ones, whatever they held before, and leaves every other chain of every table as it was.\<close>

theorem restore_replaces_exactly_the_managed_chains:
  assumes "ipv4_resolver resolve" and "load_forwards resolve path src = Inr fs"
  shows "restore_effect (restore_lines (build_rule_commands fs)) st (t, ch) =
     (if managed (t, ch) then chain_rules t ch (build_rule_commands fs) else st (t, ch))"
proof -
  obtain es where "load_entries resolve path 0 [] es = Inr fs \<or> fs = []"
    using assms(2) by (auto simp: load_forwards_def Let_def split: udp_source.splits json.splits)
  then have ok: "\<forall>f \<in> set fs. fwd_ok f" using load_entries_ok [OF assms(1)] by fastforce
  note cmds = build_append_cmds [OF ok]
  have other: "chain_rules t ch (build_rule_commands fs) = []" if "\<not> managed (t, ch)"
    using cmds that by (fastforce simp: chain_rules_def filter_empty_conv)
  have "managed (t, ch) \<Longrightarrow> t \<in> {''raw'', ''nat'', ''filter''}" by (auto simp: managed_def WIRING_def)
  then show ?thesis using restore_lines_effect [of "build_rule_commands fs" st t ch] cmds other by auto
qed

theorem restore_replaces_exactly_the_managed_chains_witness:
  "restore_effect (restore_lines (build_rule_commands [sample_forward])) (\<lambda>_. [[''old'']]) (''filter'', ''DOCKER'') = [[''old'']]"
proof -
  have r: "ipv4_resolver (\<lambda>h. Inl [])" by (simp add: ipv4_resolver_def)
  have "\<not> managed (''filter'', ''DOCKER'')" by (simp add: managed_def WIRING_def chain_names)
  then show ?thesis using restore_replaces_exactly_the_managed_chains [OF r sample_load] by simp
qed

text \<open>C37. The clean-up of the retired chain ends: as long as the check reports a jump only while
  one is left and a deletion removes one, the loop finishes without an error.\<close>

theorem legacy_cleanup_terminates:
  assumes "iptables_jumps run jumps"
  shows "\<exists>st'. remove_legacy_loopback_scaffolding run st = Some (Inr st')"
  using delete_legacy_jumps_ends [OF assms, of st]
  by (auto simp: remove_legacy_loopback_scaffolding_def)

theorem legacy_cleanup_terminates_witness:
  "\<exists>st'. remove_legacy_loopback_scaffolding
     (\<lambda>(n::nat) args. if args = jump_check then (if n = 0 then 1 else 0, n)
        else if args = jump_delete then (0, n - 1) else (0, n)) 3 = Some (Inr st')"
proof -
  have d: "jump_delete \<noteq> jump_check" by (simp add: jump_delete_def jump_check_def)
  show ?thesis
    by (rule legacy_cleanup_terminates [where jumps = id]) (use d in \<open>simp add: iptables_jumps_def\<close>)
qed

text \<open>The panel and the generator read port ranges alike: a value one of them accepts the other
  accepts with the same bounds, and the canonical form the panel stores reads back to the range.\<close>

theorem port_range_parsers_agree:
  "((\<exists>c. parse_port_range v label = Inr (a, b, c)) \<longleftrightarrow> port_range v field = Inr (a, b)) \<and>
   (parse_port_range v label = Inr (a, b, c) \<longrightarrow> port_range c field = Inr (a, b))"
  using parse_port_range_iff [of v label a b _ field] port_range_format [of a b field]
    port_range_ok [of v field a b] by auto

theorem port_range_parsers_agree_witness:
  "port_range (JInt 53) ''listen_port'' = Inr (53, 53)"
proof -
  have "parse_port_range (JInt 53) ''l'' = Inr (53, 53, JInt 53)"
    using sample_ports(1) parse_port_range_iff by (fastforce simp: format_port_range_def)
  then show ?thesis
    using port_range_parsers_agree [of "JInt 53" "''l''" 53 53 "''listen_port''" "JInt 53"] by blast
qed

text \<open>C8. Saving and deleting forwards keeps the saved list consistent: every entry a mapping, no
  two entries with the same name, no two enabled ones with a common listening port -- also when the
  write or the apply fails and the previous file is put back.\<close>

theorem saved_forwards_stay_consistent:
  assumes "yaml_round_trip env" and "udp_consistent (saved_forwards env w)"
  shows "udp_consistent (saved_forwards env (snd (save_udp env udp original revision w))) \<and>
     udp_consistent (saved_forwards env (snd (delete_udp env name w)))"
proof
  show "udp_consistent (saved_forwards env (snd (save_udp env udp original revision w)))"
  proof (cases rule: save_udp_cases [of env udp original revision w])
    case (2 entry ls le lv fs)
    have "udp_consistent fs"
      by (rule placed_forward_consistent [OF assms(2) 2(1,2) 2(3) [folded saved_forwards_def]])
    then show ?thesis
      using write_keeps_consistent [OF _ assms(1,2), of fs "load_yaml env w"] 2(4) by (metis prod.collapse)
  qed (simp add: assms)
  show "udp_consistent (saved_forwards env (snd (delete_udp env name w)))"
  proof (cases rule: delete_udp_cases [of env name w])
    case (2 js fs)
    have "udp_consistent fs"
      using drop_named_consistent [OF 2(2)] assms(2) 2(1) by (simp add: saved_forwards_def)
    then show ?thesis
      using write_keeps_consistent [OF _ assms(1,2), of fs "load_yaml env w"] 2(3) by (metis prod.collapse)
  qed (simp add: assms)
qed

text \<open>A panel whose file contents are the documents themselves and whose daemon refuses the first
  reload of every save.\<close>

definition sample_env :: "json udp_env" where
  "sample_env = \<lparr>yaml_load = id, yaml_dump = JObj, byte_length = (\<lambda>_. 0), empty_file = JObj [(''udp_forwards'', JList [])],
     fingerprint = (\<lambda>_. []), port_busy = (\<lambda>_ _. None),
     reload = (\<lambda>k c. if k = 0 then Inl ''refused'' else Inr []), read_error = None, write_error = (\<lambda>_. None)\<rparr>"

definition sample_world :: "json udp_world" where
  "sample_world = \<lparr>udp_file = Some (JObj [(''udp_forwards'', JList [JObj sample_entry])], 416),
     udp_rules = Some (JObj [(''udp_forwards'', JList [JObj sample_entry])])\<rparr>"

theorem saved_forwards_stay_consistent_witness:
  "udp_consistent (saved_forwards sample_env (snd (delete_udp sample_env ''dns'' sample_world)))"
proof -
  have "yaml_round_trip sample_env" by (simp add: yaml_round_trip_def sample_env_def)
  moreover have "udp_consistent (saved_forwards sample_env sample_world)"
    by (simp add: saved_forwards_def load_yaml_def sample_env_def sample_world_def forwards_of_def udp_consistent_def)
  ultimately show ?thesis using saved_forwards_stay_consistent by blast
qed



text \<open>C36. The generator accepts what the panel saves: a consistent list of entries the panel
  normalised, with IPv4 addresses as backends, loads without an error, and the loaded forwards
  listen on exactly the ports of the enabled entries.\<close>

theorem generator_accepts_panel_entries:
  assumes "udp_consistent js" and "\<forall>j \<in> set js. panel_entry j" and "forwards_of data = JList js"
  shows "\<exists>fs. load_forwards resolve path (Document (JObj data)) = Inr fs \<and>
     map ports_of fs = map enabled_ports (filter (\<lambda>j. \<not> is_disabled j) js)"
proof -
  have "jor (JObj data) (JObj []) = JObj data" by (simp add: jor_def)
  then have "load_forwards resolve path (Document (JObj data)) = load_entries resolve path 0 [] js"
    using assms(3) by (auto simp: load_forwards_def forwards_of_def Let_def split: if_splits)
  then show ?thesis
    using load_entries_accepts [OF assms(2)] assms(1) by (simp add: udp_consistent_iff)
qed

theorem generator_accepts_panel_entries_witness:
  "\<exists>fs. load_forwards (\<lambda>h. Inl []) ''udp.yml'' (Document (JObj [(''udp_forwards'', JList [JObj sample_entry])])) = Inr fs \<and>
     map ports_of fs = map enabled_ports (filter (\<lambda>j. \<not> is_disabled j) [JObj sample_entry])"
  by (rule generator_accepts_panel_entries) (simp_all add: udp_consistent_def sample_panel forwards_of_def)

end
