(* ===== verification/Users_Daemon.thy ===== *)
theory Users_Daemon
  imports Py_Json Py_Regex
begin

text \<open>
  The users daemon, \<open>src/ansible/roles/authelia/files/authelia-usersd.py\<close>: the requests that
  list, read, change, create and delete the users of Authelia's \<open>users_database.yml\<close>.

  The state is the parsed document of the file, \<open>None\<close> while the file does not exist; a handler
  reads it afresh, as the daemon does, and returns the answer with the document it saved.  The
  order of keys in the file plays no part: every use is a look-up, a sorted listing or a search.
  The argon2 hasher is the argument \<open>hasher\<close>.  A \<open>ValueError\<close> becomes an answer; any other
  exception leaves \<open>handle_request\<close> and is answered by the server loop.
\<close>

section \<open>Validation\<close>

definition USERNAME_RE :: rex where
  "USERNAME_RE = RSeq (rng [upper_range, lower_range, digit_range] [])
     (RRep 0 63 (rng [upper_range, lower_range, digit_range] ''_.@-''))"

definition EMAIL_LABEL :: rex where
  "EMAIL_LABEL = RSeq (rng [upper_range, lower_range, digit_range] [])
     (ROpt (RSeq (RRep 0 61 (rng [upper_range, lower_range, digit_range] ''-'')) (rng [upper_range, lower_range, digit_range] [])))"

definition USER_EMAIL_RE :: rex where
  "USER_EMAIL_RE = RSeq (RPlus (RClass False ([upper_range, lower_range, digit_range, (33, 33), (35, 39), (42, 43), (45, 47),
        (61, 61), (63, 63), (94, 96), (123, 126)])))
     (RSeq (lit ''@'') (RSeq (RPlus (RSeq EMAIL_LABEL (lit ''.''))) EMAIL_LABEL))"

definition hash_password :: "(string \<Rightarrow> string + string) \<Rightarrow> string \<Rightarrow> string + string" where
  "hash_password hasher plain =
     (if 8 \<le> length plain \<and> length plain \<le> 1024 then hasher plain
      else Inl ''The password must be 8 to 1024 characters long'')"

definition validated_username :: "jobj \<Rightarrow> string result" where
  "validated_username req =
     (let username = py_strip (str_or (jget ''username'' req) []) in
      if rex_match USERNAME_RE username then Inr username
      else Inl (ValueError ''username must contain only letters, digits, '.', '_', '@' or '-' (max 64)''))"

definition text_field :: "jobj \<Rightarrow> string \<Rightarrow> jobj result" where
  "text_field fields key =
     (case map_of fields key of None \<Rightarrow> Inr []
      | Some v \<Rightarrow>
          (let raw = str_or v []; val = py_strip raw; max_length = (if key = ''email'' then 254 else 320) in
           if \<exists>c \<in> set raw. ord c < 32 \<or> ord c = 127 then Inl (ValueError (key @ '' is invalid''))
           else if val = [] \<or> length val > max_length then Inl (ValueError (key @ '' is invalid''))
           else if key = ''email'' \<and> \<not> rex_match USER_EMAIL_RE val then Inl (ValueError ''email is invalid'')
           else Inr [(key, JStr val)]))"

definition groups_field :: "jobj \<Rightarrow> jobj result" where
  "groups_field fields =
     (case map_of fields ''groups'' of None \<Rightarrow> Inr []
      | Some (JList gs) \<Rightarrow>
          (if length gs > 50 then Inl (ValueError ''groups must be a list with no more than 50 entries'')
           else let out = filter (rex_match USERNAME_RE) (map (\<lambda>g. py_strip (py_str g)) gs) in
           if length out \<noteq> length gs then Inl (ValueError ''group name is invalid'')
           else Inr [(''groups'', JList (map JStr out))])
      | Some _ \<Rightarrow> Inl (ValueError ''groups must be a list with no more than 50 entries''))"

definition disabled_field :: "jobj \<Rightarrow> jobj" where
  "disabled_field fields =
     (case map_of fields ''disabled'' of None \<Rightarrow> [] | Some v \<Rightarrow> [(''disabled'', JBool (truthy v))])"

definition validated_fields :: "jobj \<Rightarrow> jobj result" where
  "validated_fields req =
     (case jor (jget ''fields'' req) (JObj []) of
        JObj fields \<Rightarrow>
          ebind (text_field fields ''displayname'') (\<lambda>d.
          ebind (text_field fields ''email'') (\<lambda>e.
          ebind (groups_field fields) (\<lambda>g.
          Inr (d @ e @ g @ disabled_field fields))))
      | _ \<Rightarrow> Inl (ValueError ''fields must be an object''))"

definition password_from_request :: "jobj \<Rightarrow> string result" where
  "password_from_request req =
     (case jget ''password_plain'' req of
        JNull \<Rightarrow> Inr [] | JStr s \<Rightarrow> Inr s
      | _ \<Rightarrow> Inl (ValueError ''password_plain must be a string''))"

section \<open>Users\<close>

definition safe_user_view :: "string \<Rightarrow> jobj \<Rightarrow> json" where
  "safe_user_view username raw =
     (let groups = (case jor (jget ''groups'' raw) (JList []) of
            JList gs \<Rightarrow> map (JStr \<circ> py_str) gs | g \<Rightarrow> [JStr (py_str g)])
      in JObj [(''username'', JStr username), (''displayname'', jor (jget_or ''displayname'' (JStr []) raw) (JStr [])),
               (''email'', jor (jget_or ''email'' (JStr []) raw) (JStr [])), (''groups'', JList groups),
               (''disabled'', JBool (truthy (jget_or ''disabled'' (JBool False) raw)))])"

definition is_enabled_superadmin :: "json \<Rightarrow> bool" where
  "is_enabled_superadmin j =
     (case j of JObj user \<Rightarrow>
        \<not> truthy (jget_or ''disabled'' (JBool False) user) \<and>
        (let groups = (case jor (jget ''groups'' user) (JList []) of JList gs \<Rightarrow> gs | g \<Rightarrow> [g])
         in ''superadmin'' \<in> set (map (\<lambda>g. py_strip (py_str g)) groups))
      | _ \<Rightarrow> False)"

text \<open>\<open>replacement\<close> is \<open>None\<close> for a deletion.\<close>

definition removes_last_enabled_superadmin :: "jobj \<Rightarrow> string \<Rightarrow> jobj option \<Rightarrow> bool" where
  "removes_last_enabled_superadmin users username replacement =
     (if \<not> is_enabled_superadmin (jget username users) then False
      else if (case replacement of None \<Rightarrow> False | Some r \<Rightarrow> is_enabled_superadmin (JObj r)) then False
      else \<not> (\<exists>(n, u) \<in> set users. n \<noteq> username \<and> is_enabled_superadmin u))"

text \<open>
  \<open>_load_users_data\<close>: the whole document, whether the users are below \<open>users\<close>, and the users.
\<close>

definition load_users_data :: "json option \<Rightarrow> (jobj \<times> bool \<times> jobj) result" where
  "load_users_data file =
     (case file of None \<Rightarrow> Inl (RuntimeError ''users file not found'')
      | Some doc \<Rightarrow>
          (case jor doc (JObj []) of
             JObj data \<Rightarrow>
               (case map_of data ''users'' of
                  Some (JObj users) \<Rightarrow> Inr (data, True, users)
                | _ \<Rightarrow> Inr (data, False, data))
           | _ \<Rightarrow> Inl (ValueError ''unexpected YAML structure (root is not a dict)'')))"

text \<open>The document after the users have been changed in place, saved.\<close>

definition save_users :: "jobj \<Rightarrow> bool \<Rightarrow> jobj \<Rightarrow> json option" where
  "save_users root nested users = Some (JObj (if nested then jput ''users'' (JObj users) root else users))"

section \<open>Requests\<close>

type_synonym users_answer = "jobj result"

definition refuse :: "string \<Rightarrow> users_answer" where
  "refuse msg = Inr [(''ok'', JBool False), (''error'', JStr msg)]"

definition not_found :: "string \<Rightarrow> users_answer" where
  "not_found username = refuse (''user '' @ [CHR 0x27] @ username @ [CHR 0x27] @ '' not found'')"

definition user_answer :: "string \<Rightarrow> jobj \<Rightarrow> users_answer" where
  "user_answer username user = Inr [(''ok'', JBool True), (''user'', safe_user_view username user)]"

definition handle_list :: "json option \<Rightarrow> users_answer" where
  "handle_list file =
     ebind (load_users_data file) (\<lambda>(root, nested, users).
       Inr [(''ok'', JBool True),
            (''users'', JList (concat (map (\<lambda>n. case jor (jget n users) (JObj []) of
                 JObj u \<Rightarrow> [safe_user_view n u] | _ \<Rightarrow> []) (sort (map fst users)))))])"

definition handle_get :: "jobj \<Rightarrow> json option \<Rightarrow> users_answer" where
  "handle_get req file =
     ebind (validated_username req) (\<lambda>username.
     ebind (load_users_data file) (\<lambda>(root, nested, users).
       case jget username users of
         JObj user \<Rightarrow> user_answer username user
       | _ \<Rightarrow> not_found username))"

text \<open>A fallible step inside a handler: on an exception nothing has been saved.\<close>

definition attempt :: "'a result \<Rightarrow> json option \<Rightarrow> ('a \<Rightarrow> users_answer \<times> json option) \<Rightarrow> users_answer \<times> json option" where
  "attempt r file k = (case r of Inl e \<Rightarrow> (Inl e, file) | Inr x \<Rightarrow> k x)"

definition set_default_groups :: "jobj \<Rightarrow> jobj" where
  "set_default_groups user = (case map_of user ''groups'' of None \<Rightarrow> jput ''groups'' (JList []) user | Some _ \<Rightarrow> user)"

definition put_field :: "jobj \<Rightarrow> string \<Rightarrow> jobj \<Rightarrow> jobj" where
  "put_field fields key user = (case map_of fields key of None \<Rightarrow> user | Some v \<Rightarrow> jput key v user)"

definition put_fields :: "jobj \<Rightarrow> jobj \<Rightarrow> jobj" where
  "put_fields fields user =
     fold (put_field fields) [''displayname'', ''email'', ''disabled'', ''groups''] user"

definition update_all :: "jobj \<Rightarrow> jobj \<Rightarrow> jobj" where
  "update_all fields user = fold (\<lambda>(k, v) u. jput k v u) fields user"

definition update_loaded ::
  "(string \<Rightarrow> string + string) \<Rightarrow> string \<Rightarrow> jobj \<Rightarrow> string \<Rightarrow> json option \<Rightarrow> jobj \<times> bool \<times> jobj \<Rightarrow> users_answer \<times> json option" where
  "update_loaded hasher username fields password file = (\<lambda>(root, nested, users).
     case jget username users of
       JObj user \<Rightarrow>
         (if removes_last_enabled_superadmin users username (Some (update_all fields user)) then
            (refuse ''the last enabled superadmin cannot be disabled or demoted'', file)
          else
            let user1 = put_fields fields (set_default_groups user);
                finish = (\<lambda>u. (user_answer username u, save_users root nested (jput username (JObj u) users)))
            in if password = [] then finish user1
               else (case hash_password hasher password of
                   Inl exc \<Rightarrow> (refuse (''Could not hash the password: '' @ exc), file)
                 | Inr h \<Rightarrow> finish (jput ''password'' (JStr h) user1)))
     | _ \<Rightarrow> (not_found username, file))"

definition handle_update :: "(string \<Rightarrow> string + string) \<Rightarrow> jobj \<Rightarrow> json option \<Rightarrow> users_answer \<times> json option" where
  "handle_update hasher req file =
     attempt (validated_username req) file (\<lambda>username.
     attempt (validated_fields req) file (\<lambda>fields.
     attempt (password_from_request req) file (\<lambda>password.
     attempt (load_users_data file) file (update_loaded hasher username fields password file))))"

definition new_user :: "string \<Rightarrow> jobj \<Rightarrow> jobj" where
  "new_user h fields =
     [(''password'', JStr h), (''displayname'', jor (jget_or ''displayname'' (JStr []) fields) (JStr [])),
      (''email'', jor (jget_or ''email'' (JStr []) fields) (JStr [])),
      (''groups'', jor (jget_or ''groups'' (JList []) fields) (JList [])),
      (''disabled'', JBool (truthy (jget_or ''disabled'' (JBool False) fields)))]"

definition create_loaded ::
  "(string \<Rightarrow> string + string) \<Rightarrow> string \<Rightarrow> jobj \<Rightarrow> string \<Rightarrow> json option \<Rightarrow> jobj \<times> bool \<times> jobj \<Rightarrow> users_answer \<times> json option" where
  "create_loaded hasher username fields password file = (\<lambda>(root, nested, users).
     if map_of users username \<noteq> None then
       (refuse (''user '' @ [CHR 0x27] @ username @ [CHR 0x27] @ '' already exists''), file)
     else case hash_password hasher password of
         Inl exc \<Rightarrow> (refuse (''Could not hash the password: '' @ exc), file)
       | Inr h \<Rightarrow> (user_answer username (new_user h fields),
           save_users root nested (jput username (JObj (new_user h fields)) users)))"

definition handle_create :: "(string \<Rightarrow> string + string) \<Rightarrow> jobj \<Rightarrow> json option \<Rightarrow> users_answer \<times> json option" where
  "handle_create hasher req file =
     attempt (validated_username req) file (\<lambda>username.
     attempt (validated_fields req) file (\<lambda>fields.
     attempt (password_from_request req) file (\<lambda>password.
     if password = [] then (refuse ''password_plain is required for create'', file)
     else attempt (load_users_data file) file (create_loaded hasher username fields password file))))"

definition delete_loaded :: "string \<Rightarrow> json option \<Rightarrow> jobj \<times> bool \<times> jobj \<Rightarrow> users_answer \<times> json option" where
  "delete_loaded username file = (\<lambda>(root, nested, users).
     case map_of users username of
       None \<Rightarrow> (not_found username, file)
     | Some deleted \<Rightarrow>
         (if removes_last_enabled_superadmin users username None then
            (refuse ''the last enabled superadmin cannot be deleted'', file)
          else
            ((case jor deleted (JObj []) of
                JObj u \<Rightarrow> Inr [(''ok'', JBool True),
                  (''message'', JStr (''user '' @ [CHR 0x27] @ username @ [CHR 0x27] @ '' deleted'')),
                  (''user'', safe_user_view username u)]
              | _ \<Rightarrow> Inl (TypeError ''object has no attribute get'')),
             save_users root nested (AList.delete username users))))"

definition handle_delete :: "jobj \<Rightarrow> json option \<Rightarrow> users_answer \<times> json option" where
  "handle_delete req file =
     attempt (validated_username req) file (\<lambda>username.
     attempt (load_users_data file) file (delete_loaded username file))"

definition dispatch_request :: "(string \<Rightarrow> string + string) \<Rightarrow> jobj \<Rightarrow> json option \<Rightarrow> users_answer \<times> json option" where
  "dispatch_request hasher req file =
     (case jor (jget ''action'' req) (JStr []) of
        JStr s \<Rightarrow>
          (let action = py_strip s in
           if action = ''list'' then (handle_list file, file)
           else if action = ''get'' then (handle_get req file, file)
           else if action = ''update'' then handle_update hasher req file
           else if action = ''create'' then handle_create hasher req file
           else if action = ''delete'' then handle_delete req file
           else (refuse (''unknown action: '' @ action), file))
      | _ \<Rightarrow> (Inl (TypeError ''object has no attribute strip''), file))"

definition handle_request :: "(string \<Rightarrow> string + string) \<Rightarrow> json \<Rightarrow> json option \<Rightarrow> users_answer \<times> json option" where
  "handle_request hasher req file =
     (case req of JObj r \<Rightarrow>
        (case dispatch_request hasher r file of
           (Inl (ValueError m), file') \<Rightarrow> (refuse m, file')
         | x \<Rightarrow> x)
      | _ \<Rightarrow> (refuse ''request must be a JSON object'', file))"

end
