(* ===== verification/Users_Properties.thy ===== *)
theory Users_Properties
  imports Users_Daemon
begin

text \<open>
  The properties of the users daemon: an enabled superadmin is never lost, a refused request
  changes nothing, passwords stay out of the answers, and what was created is read back.
\<close>

section \<open>User names\<close>

lemma match_class_Cons: "rex_match (RSeq (RClass neg rs) r) (c # s) \<longleftrightarrow> in_class neg rs c \<and> rex_match r s"
  unfolding rex_match_iff by (auto simp: Cons_eq_append_conv intro: exI [of _ "[c]"])

lemma match_USERNAME_RE:
  "rex_match USERNAME_RE (c # s) \<longleftrightarrow> in_class False ([upper_range, lower_range, digit_range] @ singles []) c
     \<and> length s \<le> 63 \<and> (\<forall>d \<in> set s. in_class False ([upper_range, lower_range, digit_range] @ singles ''_.@-'') d)"
  unfolding USERNAME_RE_def rng_def match_class_Cons match_rep_class by simp

section \<open>Updated users\<close>



lemma map_of_put_field [simp]:
  "map_of (put_field fields key user) k = (if k = key \<and> map_of fields key \<noteq> None then map_of fields key else map_of user k)"
  by (auto simp: put_field_def split: option.splits)






section \<open>The last superadmin\<close>

definition has_admin :: "jobj \<Rightarrow> bool" where
  "has_admin users = (\<exists>n u. map_of users n = Some u \<and> is_enabled_superadmin u)"










lemma handle_request_state: "snd (handle_request hasher req file) =
    (case req of JObj r \<Rightarrow> snd (dispatch_request hasher r file) | _ \<Rightarrow> file)"
  by (auto simp: handle_request_def split: json.splits prod.splits sum.splits py_error.splits)

section \<open>Answers\<close>

definition says_ok :: "users_answer \<Rightarrow> bool" where
  "says_ok a = (case a of Inl _ \<Rightarrow> False | Inr m \<Rightarrow> jget ''ok'' m = JBool True)"

lemma says_ok_simps [simp]:
  "says_ok (Inl e) = False" "says_ok (refuse m) = False" "says_ok (not_found n) = False" "says_ok (user_answer n u) = True"
  by (simp_all add: says_ok_def refuse_def not_found_def user_answer_def)

text \<open>A change of the file comes with a success, or with the exception that follows a deletion.\<close>

lemma handlers_refuse:
  "\<not> says_ok (fst (handle_update hasher req file)) \<Longrightarrow> snd (handle_update hasher req file) = file"
  "\<not> says_ok (fst (handle_create hasher req file)) \<Longrightarrow> snd (handle_create hasher req file) = file"
  "fst (handle_delete req file) = Inr a \<Longrightarrow> \<not> says_ok (Inr a) \<Longrightarrow> snd (handle_delete req file) = file"
proof -
  show "\<not> says_ok (fst (handle_update hasher req file)) \<Longrightarrow> snd (handle_update hasher req file) = file"
    by (auto simp: handle_update_def attempt_def update_loaded_def Let_def split: sum.splits prod.splits json.splits if_splits)
  show "\<not> says_ok (fst (handle_create hasher req file)) \<Longrightarrow> snd (handle_create hasher req file) = file"
    by (auto simp: handle_create_def attempt_def create_loaded_def Let_def split: sum.splits prod.splits if_splits)
  show "fst (handle_delete req file) = Inr a \<Longrightarrow> \<not> says_ok (Inr a) \<Longrightarrow> snd (handle_delete req file) = file"
    by (auto simp: handle_delete_def attempt_def delete_loaded_def says_ok_def split: sum.splits prod.splits json.splits if_splits option.splits)
qed

lemma dispatch_refuse:
  assumes "fst (dispatch_request hasher r file) = a" "\<not> says_ok a" "\<forall>m. a \<noteq> Inl (TypeError m)"
  shows "snd (dispatch_request hasher r file) = file"
proof -
  have d: "snd (handle_delete r file) = file" if "fst (handle_delete r file) = a"
  proof (cases a)
    case (Inl e)
    then show ?thesis using that assms(3)
      by (auto simp: handle_delete_def attempt_def delete_loaded_def not_found_def refuse_def
          split: sum.splits prod.splits json.splits if_splits option.splits)
  next
    case (Inr m)
    then show ?thesis using handlers_refuse(3) that assms(2) by blast
  qed
  show ?thesis
    using assms(1,2) d handlers_refuse(1,2)
    by (auto simp: dispatch_request_def Let_def split: json.splits if_splits)
qed

section \<open>Reading back\<close>

lemma jor_JObj_cases: "jor (JObj d) (JObj []) = JObj d"
  by (simp add: jor_def)







definition is_object :: "json \<Rightarrow> bool" where
  "is_object j = (case j of JObj _ \<Rightarrow> True | _ \<Rightarrow> False)"

lemma is_object_simps [simp]:
  "is_object (JObj m)" "\<not> is_object (JStr s)" "\<not> is_object (JBool b)" "\<not> is_object (JList xs)"
  by (simp_all add: is_object_def)

lemma validated_fields_types:
  assumes "validated_fields req = Inr fields"
  shows "(k, v) \<in> set fields \<Longrightarrow> \<not> is_object v"
proof -
  obtain fs d e g where f: "text_field fs ''displayname'' = Inr d" "text_field fs ''email'' = Inr e"
    "groups_field fs = Inr g" "fields = d @ e @ g @ disabled_field fs"
    using assms by (auto simp: validated_fields_def split: json.splits)
  have "\<forall>(k, v) \<in> set d. \<not> is_object v" "\<forall>(k, v) \<in> set e. \<not> is_object v"
    using f(1,2) by (auto simp: text_field_def Let_def split: option.splits if_splits)
  moreover have "\<forall>(k, v) \<in> set g. \<not> is_object v"
    using f(3) by (auto simp: groups_field_def Let_def split: option.splits if_splits json.splits)
  moreover have "\<forall>(k, v) \<in> set (disabled_field fs). \<not> is_object v"
    by (auto simp: disabled_field_def split: option.splits)
  ultimately show "(k, v) \<in> set fields \<Longrightarrow> \<not> is_object v" by (auto simp: f(4))
qed

lemma not_admin: "\<not> is_object v \<Longrightarrow> \<not> is_enabled_superadmin v"
  by (cases v) (simp_all add: is_enabled_superadmin_def)

lemma new_user_hides_admin:
  assumes "validated_fields req = Inr fields"
  shows "\<not> has_admin (new_user h fields)"
proof -
  have "\<not> is_object (jor (jget_or k x fields) x)" if "\<not> is_object x" for k x
    using validated_fields_types [OF assms] that
    by (auto simp: jor_def jget_or_def split: option.splits dest: map_of_SomeD)
  then have "\<forall>(k, v) \<in> set (new_user h fields). \<not> is_enabled_superadmin v"
    by (auto simp: new_user_def intro!: not_admin)
  then show ?thesis by (auto simp: has_admin_def dest!: map_of_SomeD)
qed

lemma example_name:
  "validated_username ((''username'', JStr ''users'') # r) = Inr ''users''"
  "validated_username ((''username'', JStr ''ann'') # r) = Inr ''ann''"
  by (simp_all add: validated_username_def str_or_def jor_def py_strip_def py_lstrip_def py_rstrip_def py_isspace_def
      match_USERNAME_RE in_class_def singles_def del: rex_match.simps)

lemma example_no_fields: "validated_fields [(''username'', JStr n), (''password_plain'', JStr p)] = Inr []"
  by (simp add: validated_fields_def text_field_def groups_field_def disabled_field_def jor_def)

section \<open>Properties\<close>



text \<open>A refused request changes nothing: when the answer is not a success and the handler did
  not fail on a stored user that is not a mapping, the file is as it was.\<close>

theorem refused_requests_change_nothing:
  assumes "\<not> says_ok (fst (handle_request hasher req file))"
    and "\<forall>m. fst (handle_request hasher req file) \<noteq> Inl (TypeError m)"
  shows "snd (handle_request hasher req file) = file"
proof (cases req)
  case (JObj r)
  obtain a f where d: "dispatch_request hasher r file = (a, f)" by (cases "dispatch_request hasher r file")
  have "\<not> says_ok a" "\<forall>m. a \<noteq> Inl (TypeError m)"
    using assms JObj d by (auto simp: handle_request_def split: sum.splits py_error.splits)
  then show ?thesis
    using dispatch_refuse [of hasher r "file" a] d JObj by (simp add: handle_request_state)
qed (simp_all add: handle_request_def)

theorem refused_requests_change_nothing_witness:
  "snd (handle_request (\<lambda>p. Inr p) (JObj [(''action'', JStr ''drop'')]) (Some (JObj []))) = Some (JObj [])"
  by (rule refused_requests_change_nothing)
     (simp_all add: handle_request_def dispatch_request_def jor_def py_strip_def py_lstrip_def py_rstrip_def
       py_isspace_def refuse_def says_ok_def)



text \<open>C40. In a file whose users stand at the top level, creating a user named \<open>users\<close> succeeds and
  hides every account: from then on the new user's own attributes are taken for the users, and none
  of them is a superadmin.\<close>

theorem user_named_users_hides_all:
  assumes "load_users_data f = Inr (root, False, users)" "validated_username req = Inr ''users''"
    and "says_ok (fst (handle_create hasher req f))"
  shows "\<exists>root' h fields. load_users_data (snd (handle_create hasher req f)) = Inr (root', True, new_user h fields)
     \<and> \<not> has_admin (new_user h fields)"
proof -
  have "load_users_data (save_users root False (jput ''users'' (JObj u) users)) = Inr (jput ''users'' (JObj u) users, True, u)" for u
    by (simp add: load_users_data_def save_users_def jor_JObj_cases)
  then show ?thesis
    using assms new_user_hides_admin by (fastforce simp: handle_create_def attempt_def create_loaded_def split: sum.splits if_splits)
qed

theorem user_named_users_hides_all_witness:
  "\<exists>root' h fields. load_users_data (snd (handle_create (\<lambda>p. Inr p)
       [(''username'', JStr ''users''), (''password_plain'', JStr ''12345678'')]
       (Some (JObj [(''root'', JObj [(''groups'', JList [JStr ''superadmin''])])])))) = Inr (root', True, new_user h fields)
     \<and> \<not> has_admin (new_user h fields)"
  by (rule user_named_users_hides_all [where users = "[(''root'', JObj [(''groups'', JList [JStr ''superadmin''])])]"])
     (simp_all add: load_users_data_def jor_def example_name handle_create_def attempt_def example_no_fields
       password_from_request_def create_loaded_def hash_password_def)

end
