(* ===== verification/Users_Store.thy ===== *)
theory Users_Store
  imports Py_Json
begin

text \<open>
  Saving the users file, \<open>_save_users_data\<close> and \<open>_backup_users_file\<close> of
  \<open>src/ansible/roles/authelia/files/authelia-usersd.py\<close>.

  The state is the directory of the users file: its entries by name, in the order \<open>listdir\<close> gives
  them.  Each system call that may fail does so when the environment says so, independently of the
  others; a failed write leaves \<open>partial\<close> in the temporary file.  A hard link is an entry of
  its own with the same contents and attributes: the file it shares is never written in place.
\<close>

section \<open>The directory\<close>

record 'c ufile =
  ucontent :: 'c
  uuid :: int
  ugid :: int
  umode :: int
  umtime :: int

type_synonym 'c udir = "(string \<times> 'c ufile) list"

record 'c save_env =
  stat_fails :: bool
  link_fails :: bool
  listdir_fails :: bool
  mtime_fails :: "string \<Rightarrow> bool"
  remove_fails :: "string \<Rightarrow> bool"
  write_fails :: bool
  partial :: 'c
  chown_fails :: bool
  chmod_fails :: bool
  replace_fails :: bool
  unlink_fails :: bool
  stamp :: string
  now_mtime :: int
  authelia_account :: "(int \<times> int) option"
  created :: "int \<times> int \<times> int"

definition USERS_FILE :: string where "USERS_FILE = ''users_database.yml''"
definition backup_prefix :: string where "backup_prefix = USERS_FILE @ ''.bak-''"
definition tmp_path :: string where "tmp_path = USERS_FILE @ ''.tmp''"

definition is_backup :: "string \<Rightarrow> bool" where
  "is_backup n = (take (length backup_prefix) n = backup_prefix)"

definition backups :: "'c udir \<Rightarrow> string list" where
  "backups dir = filter is_backup (map fst dir)"

section \<open>Backups\<close>

definition link_backup :: "'c save_env \<Rightarrow> 'c udir \<Rightarrow> 'c udir" where
  "link_backup env dir =
     (case map_of dir USERS_FILE of None \<Rightarrow> dir
      | Some f \<Rightarrow>
          if link_fails env \<or> map_of dir (backup_prefix @ stamp env) \<noteq> None then dir
          else dir @ [(backup_prefix @ stamp env, f)])"

definition backup_mtime :: "'c save_env \<Rightarrow> 'c udir \<Rightarrow> string \<Rightarrow> int" where
  "backup_mtime env dir n =
     (if mtime_fails env n then 0 else case map_of dir n of None \<Rightarrow> 0 | Some f \<Rightarrow> umtime f)"

definition remove_old :: "'c save_env \<Rightarrow> string \<Rightarrow> 'c udir \<Rightarrow> 'c udir" where
  "remove_old env n dir = (if remove_fails env n then dir else AList.delete n dir)"

definition rotate :: "'c save_env \<Rightarrow> 'c udir \<Rightarrow> 'c udir" where
  "rotate env dir =
     (if listdir_fails env then dir
      else fold (remove_old env) (drop 14 (sort_key (\<lambda>n. - backup_mtime env dir n) (backups dir))) dir)"

definition backup_users_file :: "'c save_env \<Rightarrow> 'c udir \<Rightarrow> 'c udir" where
  "backup_users_file env dir =
     (case map_of dir USERS_FILE of None \<Rightarrow> dir | Some _ \<Rightarrow> rotate env (link_backup env dir))"

section \<open>Saving\<close>

definition prev_owner :: "'c save_env \<Rightarrow> 'c udir \<Rightarrow> (int \<times> int) option" where
  "prev_owner env dir =
     (case map_of dir USERS_FILE of None \<Rightarrow> None
      | Some f \<Rightarrow> if stat_fails env then None else Some (uuid f, ugid f))"

definition target_owner :: "'c save_env \<Rightarrow> 'c udir \<Rightarrow> int \<times> int" where
  "target_owner env dir =
     (case prev_owner env dir of Some o1 \<Rightarrow> o1
      | None \<Rightarrow> (case authelia_account env of Some o1 \<Rightarrow> o1 | None \<Rightarrow> (- 1, - 1)))"

definition open_tmp :: "'c save_env \<Rightarrow> 'c \<Rightarrow> 'c udir \<Rightarrow> 'c ufile" where
  "open_tmp env c dir =
     (case map_of dir tmp_path of
        Some f \<Rightarrow> f\<lparr>ucontent := c, umtime := now_mtime env\<rparr>
      | None \<Rightarrow> \<lparr>ucontent = c, uuid = fst (created env), ugid = fst (snd (created env)), umode = snd (snd (created env)),
                 umtime = now_mtime env\<rparr>)"

definition chown_tmp :: "'c save_env \<Rightarrow> int \<times> int \<Rightarrow> 'c ufile \<Rightarrow> 'c ufile" where
  "chown_tmp env own f =
     (if fst own = - 1 \<or> chown_fails env then f else f\<lparr>uuid := fst own, ugid := snd own\<rparr>)"

definition chmod_tmp :: "'c save_env \<Rightarrow> 'c ufile \<Rightarrow> 'c ufile" where
  "chmod_tmp env f = (if chmod_fails env then f else f\<lparr>umode := 416\<rparr>)"

text \<open>The \<open>finally\<close> clause, when the replacement has not happened.\<close>

definition drop_tmp :: "'c save_env \<Rightarrow> 'c udir \<Rightarrow> 'c udir" where
  "drop_tmp env dir = (if unlink_fails env then dir else AList.delete tmp_path dir)"

definition save_users_data :: "'c save_env \<Rightarrow> 'c \<Rightarrow> 'c udir \<Rightarrow> unit result \<times> 'c udir" where
  "save_users_data env root_data dir =
     (let own = target_owner env dir;
          dir1 = backup_users_file env dir
      in if write_fails env then
           (Inl (RuntimeError ''OSError''), drop_tmp env (jput tmp_path (open_tmp env (partial env) dir1) dir1))
         else
           let tmp = chmod_tmp env (chown_tmp env own (open_tmp env root_data dir1));
               dir2 = jput tmp_path tmp dir1
           in if replace_fails env then (Inl (RuntimeError ''OSError''), drop_tmp env dir2)
              else (Inr (), jput USERS_FILE tmp (AList.delete tmp_path dir2)))"

section \<open>Rotation\<close>

lemma fold_remove_old:
  "map_of (fold (remove_old env) ns dir) n =
     (if n \<in> set ns \<and> \<not> remove_fails env n then None else map_of dir n)"
  by (induction ns arbitrary: dir) (auto simp: remove_old_def delete_conv')

lemma distinct_fold_remove_old:
  "distinct (map fst dir) \<Longrightarrow> distinct (map fst (fold (remove_old env) ns dir))"
  by (induction ns arbitrary: dir) (auto simp: remove_old_def distinct_delete)

lemma dom_backups: "set (backups dir) = {n. is_backup n \<and> map_of dir n \<noteq> None}"
  by (auto simp: backups_def map_of_eq_None_iff)

lemma distinct_backups: "distinct (map fst dir) \<Longrightarrow> distinct (backups dir)"
  by (simp add: backups_def)

lemma not_backup [simp]: "\<not> is_backup USERS_FILE" "\<not> is_backup tmp_path" "is_backup (backup_prefix @ s)" "tmp_path \<noteq> USERS_FILE" "backup_prefix @ s \<noteq> USERS_FILE"
  by (simp_all add: is_backup_def USERS_FILE_def backup_prefix_def tmp_path_def)

lemma map_of_rotate:
  "map_of (rotate env dir) n =
     (if \<not> listdir_fails env \<and> n \<in> set (drop 14 (sort_key (\<lambda>n. - backup_mtime env dir n) (backups dir))) \<and> \<not> remove_fails env n
      then None else map_of dir n)"
  by (simp add: rotate_def fold_remove_old)

lemma old_is_backup: "n \<in> set (drop k (sort_key f (backups dir))) \<Longrightarrow> is_backup n"
  using set_drop_subset [of k "sort_key f (backups dir)"] by (auto simp: backups_def)

lemma map_of_rotate_other: "\<not> is_backup n \<Longrightarrow> map_of (rotate env dir) n = map_of dir n"
  using old_is_backup by (auto simp: map_of_rotate)

lemma map_of_link_other: "\<not> is_backup n \<Longrightarrow> map_of (link_backup env dir) n = map_of dir n"
  by (auto simp: link_backup_def map_add_def split: option.splits)

lemma map_of_backup_other: "\<not> is_backup n \<Longrightarrow> map_of (backup_users_file env dir) n = map_of dir n"
  by (auto simp: backup_users_file_def map_of_rotate_other map_of_link_other split: option.splits)

lemma distinct_link: "distinct (map fst dir) \<Longrightarrow> distinct (map fst (link_backup env dir))"
  by (auto simp: link_backup_def map_of_eq_None_iff split: option.splits)

lemma rotate_kept:
  assumes "distinct (map fst dir)" "\<not> listdir_fails env" "\<And>n. \<not> remove_fails env n"
  shows "set (backups (rotate env dir)) = set (take 14 (sort_key (\<lambda>n. - backup_mtime env dir n) (backups dir)))"
proof -
  let ?s = "sort_key (\<lambda>n. - backup_mtime env dir n) (backups dir)"
  have d: "set (take 14 ?s) \<inter> set (drop 14 ?s) = {}"
    using distinct_backups [OF assms(1)] by (intro set_take_disj_set_drop_if_distinct) simp_all
  have u: "set (take 14 ?s) \<union> set (drop 14 ?s) = set (backups dir)"
    by (metis append_take_drop_id set_append set_sort)
  show ?thesis
    using d u assms(2,3) by (auto simp: dom_backups map_of_rotate)
qed

lemma rotate_card:
  assumes "distinct (map fst dir)" "\<not> listdir_fails env" "\<And>n. \<not> remove_fails env n"
  shows "length (backups (rotate env dir)) \<le> 14"
proof -
  have "distinct (backups (rotate env dir))"
    using assms(1) by (intro distinct_backups) (simp add: rotate_def distinct_fold_remove_old)
  then have "length (backups (rotate env dir)) = card (set (backups (rotate env dir)))"
    by (simp add: distinct_card)
  also have "\<dots> \<le> length (take 14 (sort_key (\<lambda>n. - backup_mtime env dir n) (backups dir)))"
    unfolding rotate_kept [OF assms] by (rule card_length)
  finally show ?thesis by simp
qed

lemma rotate_newest:
  assumes "distinct (map fst dir)" "\<not> listdir_fails env"
    and "n \<in> set (backups dir)" "n \<notin> set (backups (rotate env dir))"
    and "m \<in> set (take 14 (sort_key (\<lambda>n. - backup_mtime env dir n) (backups dir)))"
  shows "backup_mtime env dir n \<le> backup_mtime env dir m"
proof -
  let ?f = "\<lambda>n. - backup_mtime env dir n" and ?s = "sort_key (\<lambda>n. - backup_mtime env dir n) (backups dir)"
  have n: "n \<in> set (drop 14 ?s)"
    using assms(3,4) by (auto simp: dom_backups map_of_rotate split: if_splits)
  have "sorted (map ?f (take 14 ?s @ drop 14 ?s))" unfolding append_take_drop_id by simp
  then have "\<forall>x \<in> set (take 14 ?s). \<forall>y \<in> set (drop 14 ?s). ?f x \<le> ?f y"
    unfolding map_append sorted_append by simp
  then show ?thesis using n assms(5) by auto
qed

section \<open>After a save\<close>

lemma distinct_backup: "distinct (map fst dir) \<Longrightarrow> distinct (map fst (backup_users_file env dir))"
  by (auto simp: backup_users_file_def rotate_def distinct_fold_remove_old distinct_link split: option.splits)

lemma save_keeps_backups:
  "is_backup n \<Longrightarrow> map_of (snd (save_users_data env c dir)) n = map_of (backup_users_file env dir) n"
  by (auto simp: save_users_data_def drop_tmp_def Let_def delete_conv')

lemma distinct_save: "distinct (map fst dir) \<Longrightarrow> distinct (map fst (snd (save_users_data env c dir)))"
  by (auto simp: save_users_data_def drop_tmp_def Let_def intro!: distinct_update distinct_delete distinct_backup)

lemma save_backup_count:
  assumes "distinct (map fst dir)"
  shows "length (backups (snd (save_users_data env c dir))) = length (backups (backup_users_file env dir))"
proof -
  have "set (backups (snd (save_users_data env c dir))) = set (backups (backup_users_file env dir))"
    by (auto simp: dom_backups save_keeps_backups)
  then show ?thesis
    using distinct_backups [OF distinct_save [OF assms]] distinct_backups [OF distinct_backup [OF assms]]
    by (metis distinct_card)
qed

text \<open>An entry strictly newer than the others is among the first of a sorted list.\<close>

lemma newest_kept:
  assumes "distinct (map fst dir)" "map_of dir n = Some f" "is_backup n"
    and "\<And>m. m \<in> set (backups dir) \<Longrightarrow> m \<noteq> n \<Longrightarrow> backup_mtime env dir m < backup_mtime env dir n"
  shows "map_of (rotate env dir) n = Some f"
proof -
  let ?f = "\<lambda>n. - backup_mtime env dir n" and ?s = "sort_key (\<lambda>n. - backup_mtime env dir n) (backups dir)"
  have n: "n \<in> set ?s" using assms(2,3) by (simp add: dom_backups)
  have "n \<notin> set (drop 14 ?s)"
  proof
    assume d: "n \<in> set (drop 14 ?s)"
    then have "length (take 14 ?s) = 14" by (cases "length ?s < 14") auto
    then obtain m where m: "m \<in> set (take 14 ?s)" by (metis list.set_intros(1) neq_Nil_conv list.size(3) zero_neq_numeral)
    have "sorted (map ?f (take 14 ?s @ drop 14 ?s))" unfolding append_take_drop_id by simp
    then have "?f m \<le> ?f n" using m d unfolding map_append sorted_append by simp
    moreover have "m \<noteq> n"
      using set_take_disj_set_drop_if_distinct [of ?s 14 14] m d distinct_backups [OF assms(1)] by auto
    moreover have "m \<in> set (backups dir)" using in_set_takeD [OF m] by simp
    ultimately show False using assms(4) by fastforce
  qed
  then show ?thesis using assms(2) by (simp add: map_of_rotate)
qed

lemma map_of_link_new:
  assumes "map_of dir USERS_FILE = Some f" "\<not> link_fails env" "map_of dir (backup_prefix @ stamp env) = None"
  shows "map_of (link_backup env dir) = (map_of dir)(backup_prefix @ stamp env \<mapsto> f)"
  using assms by (auto simp: link_backup_def map_add_def fun_eq_iff split: option.splits)

lemma previous_version_kept:
  assumes "distinct (map fst dir)" "map_of dir USERS_FILE = Some f" "\<not> link_fails env"
    and "map_of dir (backup_prefix @ stamp env) = None" "\<And>n. \<not> mtime_fails env n"
    and "\<And>n g. is_backup n \<Longrightarrow> map_of dir n = Some g \<Longrightarrow> umtime g < umtime f"
  shows "map_of (backup_users_file env dir) (backup_prefix @ stamp env) = Some f"
proof -
  have "map_of (rotate env (link_backup env dir)) (backup_prefix @ stamp env) = Some f"
  proof (rule newest_kept [OF distinct_link [OF assms(1)]])
    fix m assume "m \<in> set (backups (link_backup env dir))" "m \<noteq> backup_prefix @ stamp env"
    then show "backup_mtime env (link_backup env dir) m < backup_mtime env (link_backup env dir) (backup_prefix @ stamp env)"
      using assms by (auto simp: dom_backups map_of_link_new backup_mtime_def)
  qed (simp_all add: map_of_link_new assms)
  then show ?thesis using assms(2) by (simp add: backup_users_file_def)
qed

text \<open>The file that is moved into place.\<close>

definition saved_tmp :: "'c save_env \<Rightarrow> 'c \<Rightarrow> 'c udir \<Rightarrow> 'c ufile" where
  "saved_tmp env c dir = chmod_tmp env (chown_tmp env (target_owner env dir) (open_tmp env c (backup_users_file env dir)))"

lemma save_result:
  "fst (save_users_data env c dir) = (if write_fails env \<or> replace_fails env then Inl (RuntimeError ''OSError'') else Inr ())"
  by (simp add: save_users_data_def Let_def)

lemma save_live:
  "map_of (snd (save_users_data env c dir)) USERS_FILE =
     (if write_fails env \<or> replace_fails env then map_of dir USERS_FILE else Some (saved_tmp env c dir))"
  using not_backup(4) not_backup(4) [symmetric]
  by (simp add: save_users_data_def drop_tmp_def Let_def delete_conv' map_of_backup_other saved_tmp_def)

lemma save_no_tmp: "unlink_fails env \<or> map_of (snd (save_users_data env c dir)) tmp_path = None"
  by (simp add: save_users_data_def drop_tmp_def Let_def delete_conv')

lemma saved_tmp_content: "ucontent (saved_tmp env c dir) = c"
  by (simp add: saved_tmp_def chmod_tmp_def chown_tmp_def open_tmp_def split: option.splits)

lemma saved_tmp_mode: "\<not> chmod_fails env \<Longrightarrow> umode (saved_tmp env c dir) = 416"
  by (simp add: saved_tmp_def chmod_tmp_def)

lemma saved_tmp_owner:
  assumes "map_of dir USERS_FILE = Some g" "0 \<le> uuid g" "\<not> stat_fails env" "\<not> chown_fails env"
  shows "uuid (saved_tmp env c dir) = uuid g" "ugid (saved_tmp env c dir) = ugid g"
  using assms by (simp_all add: saved_tmp_def chmod_tmp_def chown_tmp_def target_owner_def prev_owner_def)

end
