(* ===== verification/Guard_Score.thy ===== *)
theory Guard_Score
  imports Complex_Main Py_Json Py_Ipaddress
begin

text \<open>
  Scoring in the adaptive protection daemon,
  \<open>src/ansible/roles/haproxy-admin/files/easy-ha-proxy-guardd.py\<close>: the ladder of ban durations,
  the weights and thresholds, \<open>score_events\<close> and who is excluded.  The floating-point numbers of the
  scorer are exact rationals here.
\<close>

section \<open>The ladder of ban durations\<close>

definition BAN_DURATIONS :: "int list" where
  "BAN_DURATIONS = [3600, 7 * 86400, 30 * 86400, 90 * 86400]"

definition MIN_BAN_SECONDS :: int where "MIN_BAN_SECONDS = 60"
definition MAX_BAN_SECONDS :: int where "MAX_BAN_SECONDS = 365 * 86400"
definition MAX_BAN_STEPS :: nat where "MAX_BAN_STEPS = 6"

definition ban_step :: "json \<Rightarrow> int result" where
  "ban_step entry =
     (case entry of
        JInt n \<Rightarrow>
          (if n < MIN_BAN_SECONDS \<or> n > MAX_BAN_SECONDS
           then Inl (ValueError ''each step must be between 60 seconds and 365 days'') else Inr n)
      | _ \<Rightarrow> Inl (ValueError ''each step must be a whole number of seconds''))"

fun pairwise_ok :: "int list \<Rightarrow> bool" where
  "pairwise_ok (a # b # xs) = (\<not> b < a \<and> pairwise_ok (b # xs))"
| "pairwise_ok _ = True"

definition validate_ban_durations :: "json \<Rightarrow> int list result" where
  "validate_ban_durations data =
     (case data of
        JList (x # xs) \<Rightarrow>
          (if length (x # xs) > MAX_BAN_STEPS then Inl (ValueError ''at most 6 steps'')
           else ebind (emap ban_step (x # xs)) (\<lambda>steps.
             if pairwise_ok steps then Inr steps
             else Inl (ValueError ''each step must be at least as long as the one before'')))
      | _ \<Rightarrow> Inl (ValueError ''ban durations must be a non-empty list''))"

section \<open>Findings and weights\<close>

record sec_event =
  ev_ts :: int
  ev_ip :: string
  ev_type :: string
  ev_source :: string
  ev_site :: string
  ev_category :: string
  ev_detail :: string
  ev_handled :: bool

definition DEFAULT_WEIGHTS :: "(string \<times> int) list" where
  "DEFAULT_WEIGHTS =
     [(''SCANNER_PATH'', 35), (''SCANNER_PATH_DECISIVE'', 60), (''QUERY_INJECTION'', 60),
      (''SCANNER_MULTI_CATEGORY'', 20), (''LOW_AND_SLOW_SCANNER'', 30), (''NOT_FOUND_ENUMERATION'', 15),
      (''WIDE_ENUMERATION'', 30), (''MASS_ENUMERATION'', 60), (''RECURRING_SCANNER'', 30),
      (''INVALID_HOST_ACTIVITY'', 10), (''NOSNI_PROBING'', 10), (''RATE_EXCEEDED'', 15),
      (''ERROR_RATE_EXCEEDED'', 15), (''LEGACY_HAPROXY_BAN'', 30), (''HARD_FLOOR_EPISODE'', 0)]"

record scoring_policy =
  weights :: "(string \<times> int) list"
  category_cap :: int
  window_seconds :: int
  decay_seconds :: int

definition default_policy :: scoring_policy where
  "default_policy = \<lparr>weights = DEFAULT_WEIGHTS, category_cap = 25, window_seconds = 24 * 3600, decay_seconds = 6 * 3600\<rparr>"

definition event_weight :: "scoring_policy \<Rightarrow> string \<Rightarrow> int" where
  "event_weight policy event_type = (case map_of (weights policy) event_type of None \<Rightarrow> 0 | Some w \<Rightarrow> w)"

definition TELEMETRY_EVENTS :: "string list" where
  "TELEMETRY_EVENTS = [''RATE_EXCEEDED'', ''ERROR_RATE_EXCEEDED'', ''LEGACY_HAPROXY_BAN'']"

definition u02_policy :: "scoring_policy \<Rightarrow> scoring_policy" where
  "u02_policy base =
     (let w = fold (\<lambda>t w. jput t 0 w) TELEMETRY_EVENTS (weights base)
      in base\<lparr>weights := (case map_of w ''HARD_FLOOR_EPISODE'' of
           Some v \<Rightarrow> if v \<noteq> 0 then w else jput ''HARD_FLOOR_EPISODE'' 60 w
         | None \<Rightarrow> jput ''HARD_FLOOR_EPISODE'' 60 w)\<rparr>)"

definition REFUSAL_DOES_NOT_EXCUSE :: "string list" where
  "REFUSAL_DOES_NOT_EXCUSE = [''SCANNER_PATH_DECISIVE'']"

definition DEFAULT_THRESHOLDS :: "(int \<times> string) list" where
  "DEFAULT_THRESHOLDS = [(80, ''HOSTILE''), (60, ''HIGH_RISK''), (40, ''SUSPICIOUS''), (20, ''WATCH''), (0, ''NORMAL'')]"

definition state_for :: "int \<Rightarrow> string" where
  "state_for score = (case find (\<lambda>(threshold, name). score \<ge> threshold) DEFAULT_THRESHOLDS of
     None \<Rightarrow> ''NORMAL'' | Some (_, name) \<Rightarrow> name)"

definition RECOMMENDED_ACTIONS :: "(string \<times> string) list" where
  "RECOMMENDED_ACTIONS = [(''NORMAL'', ''none''), (''WATCH'', ''observe''), (''SUSPICIOUS'', ''throttle''),
     (''HIGH_RISK'', ''temporary_ban''), (''HOSTILE'', ''long_ban'')]"

definition ADAPTIVE_BAN_CODE :: int where "ADAPTIVE_BAN_CODE = 40"
definition MANUAL_BAN_CODE :: int where "MANUAL_BAN_CODE = 50"
definition OWN_BAN_CODES :: "int list" where "OWN_BAN_CODES = [ADAPTIVE_BAN_CODE, MANUAL_BAN_CODE]"

definition own_ban_observation :: "sec_event \<Rightarrow> bool" where
  "own_ban_observation e = (\<exists>code \<in> set OWN_BAN_CODES. ev_detail e = ''code='' @ int_to_str code)"

section \<open>The score\<close>

text \<open>Python's \<open>round\<close>: to the nearest, a half to the even neighbour.\<close>

definition py_round :: "rat \<Rightarrow> int" where
  "py_round x =
     (let f = \<lfloor>x\<rfloor>; d = x - of_int f
      in if d < 1 / 2 then f else if d > 1 / 2 then f + 1 else if even f then f else f + 1)"

definition round2 :: "rat \<Rightarrow> rat" where
  "round2 x = of_int (py_round (x * 100)) / 100"

record contribution =
  c_event :: sec_event
  c_points :: rat
  c_reason :: string

record tally =
  total :: rat
  per_category :: "(string \<times> rat) list"
  contributions :: "contribution list"
  counted :: nat

definition decay_of :: "scoring_policy \<Rightarrow> int \<Rightarrow> rat" where
  "decay_of policy age =
     (if decay_seconds policy > 0 then max 0 (1 - of_int age / of_int (decay_seconds policy)) else 1)"

definition finding_category :: "sec_event \<Rightarrow> string" where
  "finding_category e = (if ev_category e = [] then ev_type e else ev_category e)"

definition grant_points :: "scoring_policy \<Rightarrow> sec_event \<Rightarrow> int \<Rightarrow> rat \<Rightarrow> tally \<Rightarrow> tally" where
  "grant_points policy e base points t =
     (let category = finding_category e;
          used = (case map_of (per_category t) category of None \<Rightarrow> 0 | Some u \<Rightarrow> u);
          ceiling = max (category_cap policy) base;
          allowed = max 0 (of_int ceiling - used);
          granted = min points allowed
      in \<lparr>total = total t + granted,
          per_category = jput category (used + granted) (per_category t),
          contributions = contributions t @ [\<lparr>c_event = e, c_points = round2 granted,
            c_reason = (if granted < points then ''category cap reached'' else ''counted'')\<rparr>],
          counted = counted t + 1\<rparr>)"

definition score_event :: "int \<Rightarrow> scoring_policy \<Rightarrow> sec_event \<Rightarrow> tally \<Rightarrow> tally" where
  "score_event now policy e t =
     (let age = max 0 (now - ev_ts e); base = event_weight policy (ev_type e) in
      if age > window_seconds policy then t
      else if base \<le> 0 then t
      else if ev_type e = ''LEGACY_HAPROXY_BAN'' \<and> own_ban_observation e then t
      else if ev_handled e \<and> ev_type e \<notin> set REFUSAL_DOES_NOT_EXCUSE then
        t\<lparr>contributions := contributions t @ [\<lparr>c_event = e, c_points = 0, c_reason = ''already refused by the gateway''\<rparr>]\<rparr>
      else let points = of_int base * decay_of policy age in
      if points \<le> 0 then t else grant_points policy e base points t)"

record scored =
  s_score :: int
  s_state :: string
  s_action :: string
  s_counted :: nat
  s_categories :: "(string \<times> rat) list"
  s_contributions :: "contribution list"

definition tally_events :: "sec_event list \<Rightarrow> int \<Rightarrow> scoring_policy \<Rightarrow> tally" where
  "tally_events events now policy =
     fold (score_event now policy) events \<lparr>total = 0, per_category = [], contributions = [], counted = 0\<rparr>"

definition score_events :: "sec_event list \<Rightarrow> int \<Rightarrow> scoring_policy \<Rightarrow> scored" where
  "score_events events now policy =
     (let t = tally_events events now policy;
          score = min 100 (py_round (total t));
          state = state_for score
      in \<lparr>s_score = score, s_state = state,
          s_action = (case map_of RECOMMENDED_ACTIONS state of None \<Rightarrow> ''none'' | Some a \<Rightarrow> a),
          s_counted = counted t, s_categories = map (\<lambda>(n, v). (n, round2 v)) (per_category t),
          s_contributions = contributions t\<rparr>)"

section \<open>Exclusions\<close>

text \<open>\<open>enforceable\<close>: only an IPv4 address can stand in the ban table.\<close>

definition enforceable :: "string \<Rightarrow> bool" where
  "enforceable ip = (case ip_address ip of Some (IPv4 _) \<Rightarrow> True | _ \<Rightarrow> False)"

fun is_link_local :: "ipaddr \<Rightarrow> bool" where
  "is_link_local (IPv4 n) = (n div 65536 = 43518)"
| "is_link_local (IPv6 n z) = (n div 2 ^ 118 = 1018)"

fun in_network :: "ipaddr \<Rightarrow> ipnet \<Rightarrow> bool" where
  "in_network (IPv4 n) net = (case net_addr net of IPv4 m \<Rightarrow> net_floor 32 (net_prefix net) n = m | _ \<Rightarrow> False)"
| "in_network (IPv6 n _) net = (case net_addr net of IPv6 m _ \<Rightarrow> net_floor 128 (net_prefix net) n = m | _ \<Rightarrow> False)"

record verdict =
  v_excluded :: bool
  v_reason :: string
  v_source :: string

record exclusions =
  authenticated :: "string list"
  networks :: "(ipnet \<times> string) list"
  geo_trusted :: bool

definition verdict_for :: "exclusions \<Rightarrow> string \<Rightarrow> verdict" where
  "verdict_for ex ip =
     (if ip \<in> set (authenticated ex) then \<lparr>v_excluded = True, v_reason = ''authenticated'', v_source = []\<rparr>
      else case ip_address ip of
        None \<Rightarrow> \<lparr>v_excluded = True, v_reason = ''unparsable'', v_source = []\<rparr>
      | Some a \<Rightarrow>
          if is_loopback a \<or> is_link_local a then \<lparr>v_excluded = True, v_reason = ''local'', v_source = []\<rparr>
          else case find (\<lambda>(net, src). \<not> (src = ''geo-whitelist'' \<and> \<not> geo_trusted ex) \<and> in_network a net) (networks ex) of
            Some (_, src) \<Rightarrow> \<lparr>v_excluded = True, v_reason = ''whitelisted'', v_source = src\<rparr>
          | None \<Rightarrow> \<lparr>v_excluded = False, v_reason = [], v_source = []\<rparr>)"

end
