(* ===== verification/Guard_Store.thy ===== *)
theory Guard_Store
  imports Guard_Score
begin

text \<open>
  The tables the adaptive protection daemon decides from, as \<open>SecurityDatabase\<close> of
  \<open>src/ansible/roles/haproxy-admin/files/easy-ha-proxy-guardd.py\<close> reads and writes them, one
  definition per method.  A table is the list of its rows in insertion order; one with a primary key
  on the address is an association list.  The reason text of a decision and the columns nothing here
  reads (\<open>family\<close>, \<open>enforceable\<close>) are left out.
\<close>

section \<open>Tables\<close>

record ip_row =
  first_seen :: int
  last_seen :: int
  row_excluded :: bool
  exclusion_reason :: string
  banned_until :: int
  ban_code :: int
  authenticated_at :: int

record decision =
  d_id :: int
  d_ts :: int
  d_ip :: string
  d_action :: string
  d_source :: string
  d_code :: int
  d_until :: int
  d_strike :: int
  d_score :: int
  d_policy :: string
  d_outcome :: string

record manual_row =
  placed_at :: int
  expires_at :: int
  seen_at :: int
  reasserted :: bool

record guard_db =
  ip_state :: "(string \<times> ip_row) list"
  events :: "sec_event list"
  decisions :: "decision list"
  next_decision :: int
  manual_bans :: "(string \<times> manual_row) list"
  cooldowns :: "(string \<times> int) list"

section \<open>Addresses and events\<close>

definition observe_ip :: "string \<Rightarrow> int \<Rightarrow> verdict \<Rightarrow> guard_db \<Rightarrow> guard_db" where
  "observe_ip ip ts v db =
     (case ip_address ip of None \<Rightarrow> db
      | Some _ \<Rightarrow> db\<lparr>ip_state := (case map_of (ip_state db) ip of
            Some row \<Rightarrow> jput ip (row\<lparr>last_seen := ts, row_excluded := v_excluded v, exclusion_reason := v_reason v\<rparr>) (ip_state db)
          | None \<Rightarrow> jput ip \<lparr>first_seen = ts, last_seen = ts, row_excluded = v_excluded v, exclusion_reason = v_reason v,
              banned_until = 0, ban_code = 0, authenticated_at = 0\<rparr> (ip_state db))\<rparr>)"

definition MAX_PATH_LENGTH :: nat where "MAX_PATH_LENGTH = 200"

definition record_events :: "sec_event list \<Rightarrow> guard_db \<Rightarrow> guard_db" where
  "record_events es db = db\<lparr>events := events db @ map (\<lambda>e. e\<lparr>ev_detail := take MAX_PATH_LENGTH (ev_detail e)\<rparr>) es\<rparr>"

definition update_ip :: "string \<Rightarrow> (ip_row \<Rightarrow> ip_row) \<Rightarrow> guard_db \<Rightarrow> guard_db" where
  "update_ip ip f db = (case map_of (ip_state db) ip of None \<Rightarrow> db | Some row \<Rightarrow> db\<lparr>ip_state := jput ip (f row) (ip_state db)\<rparr>)"

definition record_authenticated :: "string list \<Rightarrow> int \<Rightarrow> guard_db \<Rightarrow> guard_db" where
  "record_authenticated ips ts db = fold (\<lambda>ip. update_ip ip (authenticated_at_update (\<lambda>_. ts))) ips db"

definition clear_ban :: "string \<Rightarrow> guard_db \<Rightarrow> guard_db" where
  "clear_ban ip = update_ip ip (\<lambda>row. row\<lparr>banned_until := 0, ban_code := 0\<rparr>)"

definition scheduled_bans :: "guard_db \<Rightarrow> (string \<times> int) list" where
  "scheduled_bans db = map (\<lambda>(ip, row). (ip, banned_until row)) (filter (\<lambda>(ip, row). banned_until row > 0) (ip_state db))"

section \<open>Decisions\<close>

definition record_decision ::
  "string \<Rightarrow> int \<Rightarrow> string \<Rightarrow> string \<Rightarrow> string \<Rightarrow> int \<Rightarrow> int \<Rightarrow> int \<Rightarrow> int \<Rightarrow> string \<Rightarrow> guard_db \<Rightarrow> int \<times> guard_db" where
  "record_decision ip ts action src outcome code until strike score policy db =
     (next_decision db,
      db\<lparr>decisions := decisions db @ [\<lparr>d_id = next_decision db, d_ts = ts, d_ip = ip, d_action = action, d_source = src,
           d_code = code, d_until = until, d_strike = strike, d_score = score, d_policy = policy, d_outcome = outcome\<rparr>],
         next_decision := next_decision db + 1\<rparr>)"

definition settle_decision :: "int \<Rightarrow> string \<Rightarrow> guard_db \<Rightarrow> guard_db" where
  "settle_decision i outcome db =
     db\<lparr>decisions := map (\<lambda>d. if d_id d = i \<and> d_outcome d = ''pending'' then d\<lparr>d_outcome := outcome\<rparr> else d) (decisions db)\<rparr>"

definition commit_ban :: "int \<Rightarrow> string \<Rightarrow> int \<Rightarrow> int \<Rightarrow> int \<Rightarrow> string \<Rightarrow> guard_db \<Rightarrow> guard_db" where
  "commit_ban i ip until code now detail db =
     settle_decision i ''applied''
       (record_events [\<lparr>ev_ts = now, ev_ip = ip, ev_type = ''BAN_APPLIED'', ev_source = ''guardd'', ev_site = [],
            ev_category = [], ev_detail = detail, ev_handled = False\<rparr>]
         (update_ip ip (\<lambda>row. row\<lparr>banned_until := until, ban_code := code, last_seen := now\<rparr>) db))"

definition pending_decisions :: "int \<Rightarrow> guard_db \<Rightarrow> decision list" where
  "pending_decisions before db =
     sort_key d_ts (filter (\<lambda>d. d_outcome d = ''pending'' \<and> d_ts d < before) (decisions db))"

section \<open>The operator's bans\<close>

definition MANUAL_BAN_REPLACED_MARGIN :: int where "MANUAL_BAN_REPLACED_MARGIN = 120"

definition note_manual_ban :: "string \<Rightarrow> int \<Rightarrow> int \<Rightarrow> guard_db \<Rightarrow> guard_db" where
  "note_manual_ban ip now expires db =
     db\<lparr>manual_bans := jput ip (case map_of (manual_bans db) ip of
          None \<Rightarrow> \<lparr>placed_at = now, expires_at = expires, seen_at = now, reasserted = False\<rparr>
        | Some r \<Rightarrow> r\<lparr>seen_at := now,
            expires_at := (if \<not> reasserted r \<and> expires > expires_at r + MANUAL_BAN_REPLACED_MARGIN then expires
                           else expires_at r)\<rparr>) (manual_bans db)\<rparr>"

definition write_manual_ban :: "string \<Rightarrow> manual_row \<Rightarrow> guard_db \<Rightarrow> guard_db" where
  "write_manual_ban ip row db = db\<lparr>manual_bans := jput ip row (manual_bans db)\<rparr>"

definition mark_manual_reasserted :: "string \<Rightarrow> guard_db \<Rightarrow> guard_db" where
  "mark_manual_reasserted ip db =
     db\<lparr>manual_bans := map (\<lambda>(k, r). (k, if k = ip then r\<lparr>reasserted := True\<rparr> else r)) (manual_bans db)\<rparr>"

definition forget_manual_ban :: "string \<Rightarrow> guard_db \<Rightarrow> bool \<times> guard_db" where
  "forget_manual_ban ip db =
     (map_of (manual_bans db) ip \<noteq> None, db\<lparr>manual_bans := AList.delete ip (manual_bans db)\<rparr>)"

section \<open>Reading events\<close>

definition max_ts :: "sec_event list \<Rightarrow> int" where
  "max_ts es = (case map ev_ts es of [] \<Rightarrow> 0 | t # ts \<Rightarrow> fold max ts t)"

definition last_ban_ts :: "string \<Rightarrow> guard_db \<Rightarrow> int" where
  "last_ban_ts ip db = max_ts (filter (\<lambda>e. ev_ip e = ip \<and> ev_type e = ''BAN_APPLIED'') (events db))"

definition newest_finding_ts :: "string \<Rightarrow> guard_db \<Rightarrow> int" where
  "newest_finding_ts ip db =
     max_ts (filter (\<lambda>e. ev_ip e = ip \<and> ev_type e \<noteq> ''BAN_APPLIED'' \<and> ev_type e \<noteq> ''BAN_LIFTED''
       \<and> \<not> (ev_type e = ''LEGACY_HAPROXY_BAN'' \<and> own_ban_observation e)) (events db))"

definition ban_timestamps :: "string \<Rightarrow> guard_db \<Rightarrow> int list" where
  "ban_timestamps ip db =
     sort (take 100 (rev (sort (map ev_ts (filter (\<lambda>e. ev_ip e = ip \<and> ev_type e = ''BAN_APPLIED'') (events db))))))"

definition events_for :: "string \<Rightarrow> int \<Rightarrow> guard_db \<Rightarrow> sec_event list" where
  "events_for ip since db =
     take 500 (sort_key (\<lambda>e. - ev_ts e) (rev (filter (\<lambda>e. ev_ip e = ip \<and> ev_ts e \<ge> since) (events db))))"

definition enforcement_addresses :: "int \<times> string \<Rightarrow> int \<Rightarrow> nat \<Rightarrow> guard_db \<Rightarrow> (int \<times> string) list" where
  "enforcement_addresses after before limit db =
     take limit (sort (filter (\<lambda>k. k > after \<and> fst k \<le> before) (map (\<lambda>(ip, row). (first_seen row, ip)) (ip_state db))))"

definition cooldown_passed :: "string \<Rightarrow> int \<Rightarrow> int \<Rightarrow> guard_db \<Rightarrow> bool \<times> guard_db" where
  "cooldown_passed fingerprint ts window db =
     (case map_of (cooldowns db) fingerprint of
        Some last_ts \<Rightarrow> if ts - last_ts < window then (False, db)
          else (True, db\<lparr>cooldowns := jput fingerprint ts (cooldowns db)\<rparr>)
      | None \<Rightarrow> (True, db\<lparr>cooldowns := jput fingerprint ts (cooldowns db)\<rparr>))"

end
