(* ===== verification/Guard_Queue.thy ===== *)
theory Guard_Queue
  imports Py_Json
begin

text \<open>
  The \<open>EnforcementQueue\<close> of \<open>easy-ha-proxy-guardd.py\<close>: addresses with fresh findings, urgent ones and
  ordinary ones, each with the generation of its newest finding.  An \<open>OrderedDict\<close> is an association
  list; assigning to a key it has keeps the key's place.  The methods run under one lock, so a history
  of the queue is a sequence of calls.
\<close>

section \<open>The queue\<close>

record equeue =
  q_limit :: nat
  urgent :: "(string \<times> nat) list"
  ordinary :: "(string \<times> nat) list"
  generation :: nat
  overflows :: nat

definition new_queue :: "int \<Rightarrow> equeue" where
  "new_queue limit = \<lparr>q_limit = nat (max 1 limit), urgent = [], ordinary = [], generation = 0, overflows = 0\<rparr>"

definition enqueue :: "string \<Rightarrow> bool \<Rightarrow> equeue \<Rightarrow> equeue" where
  "enqueue ip is_urgent q =
     (if is_urgent then q\<lparr>urgent := jput ip (generation q) (urgent q)\<rparr>
      else q\<lparr>ordinary := jput ip (generation q) (ordinary q)\<rparr>)"

definition mark :: "string \<Rightarrow> bool \<Rightarrow> equeue \<Rightarrow> equeue" where
  "mark ip is_urgent q0 =
     (let q = q0\<lparr>generation := generation q0 + 1\<rparr> in
      if map_of (urgent q) ip \<noteq> None then q\<lparr>urgent := jput ip (generation q) (urgent q)\<rparr>
      else if map_of (ordinary q) ip \<noteq> None then
        (if is_urgent then enqueue ip is_urgent (q\<lparr>ordinary := AList.delete ip (ordinary q)\<rparr>)
         else q\<lparr>ordinary := jput ip (generation q) (ordinary q)\<rparr>)
      else if length (urgent q) + length (ordinary q) \<ge> q_limit q then
        (let q1 = q\<lparr>overflows := overflows q + 1\<rparr> in
         if \<not> is_urgent \<or> ordinary q1 = [] then q1
         else enqueue ip is_urgent (q1\<lparr>ordinary := tl (ordinary q1)\<rparr>))
      else enqueue ip is_urgent q)"

definition batch :: "nat \<Rightarrow> equeue \<Rightarrow> (string \<times> nat) list" where
  "batch limit q =
     (let us = take (limit - limit div 4) (urgent q);
          os = take (limit - length us) (ordinary q);
          us' = (if length us + length os < limit then take (limit - length os) (urgent q) else us)
      in us' @ os)"

definition ack_in :: "string \<Rightarrow> nat \<Rightarrow> (string \<times> nat) list \<Rightarrow> (string \<times> nat) list" where
  "ack_in ip gen xs = (if map_of xs ip = Some gen then AList.delete ip xs else xs)"

definition acknowledge :: "string \<Rightarrow> nat \<Rightarrow> equeue \<Rightarrow> equeue" where
  "acknowledge ip gen q = q\<lparr>urgent := ack_in ip gen (urgent q), ordinary := ack_in ip gen (ordinary q)\<rparr>"

section \<open>What a client may rely on\<close>

text \<open>
  A queue of findings, as the enforcement cycle uses it: \<open>stamp q a\<close> is the generation an address
  is queued with, \<open>clock\<close> the newest generation given out.  Putting an address may be refused or
  may displace another one; acknowledging removes an address only at the generation named.
\<close>

locale finding_queue =
  fixes ok :: "'q \<Rightarrow> bool" and stamp :: "'q \<Rightarrow> 'a \<Rightarrow> nat option" and clock :: "'q \<Rightarrow> nat"
    and put :: "'a \<Rightarrow> bool \<Rightarrow> 'q \<Rightarrow> 'q" and ack :: "'a \<Rightarrow> nat \<Rightarrow> 'q \<Rightarrow> 'q"
  assumes put_ok: "ok q \<Longrightarrow> ok (put a u q)"
    and ack_ok: "ok q \<Longrightarrow> ok (ack a n q)"
    and stamp_clock: "ok q \<Longrightarrow> stamp q a = Some n \<Longrightarrow> n \<le> clock q"
    and put_clock: "clock (put a u q) = Suc (clock q)"
    and ack_clock: "clock (ack a n q) = clock q"
    and put_stamp: "ok q \<Longrightarrow> stamp (put a u q) a = None \<or> stamp (put a u q) a = Some (Suc (clock q))"
    and put_queued: "ok q \<Longrightarrow> stamp q a \<noteq> None \<Longrightarrow> stamp (put a u q) a \<noteq> None"
    and ack_stamp: "ok q \<Longrightarrow> stamp (ack a n q) b = (if b = a \<and> stamp q a = Some n then None else stamp q b)"
begin

primrec run :: "('a \<times> bool + 'a \<times> nat) list \<Rightarrow> 'q \<Rightarrow> 'q" where
  "run [] q = q"
| "run (c # cs) q = run cs (case c of Inl (a, u) \<Rightarrow> put a u q | Inr (a, n) \<Rightarrow> ack a n q)"

lemma run_ok: "ok q \<Longrightarrow> ok (run cs q)"
  by (induction cs arbitrary: q) (auto simp: put_ok ack_ok split: sum.splits prod.splits)

lemma run_clock: "clock q \<le> clock (run cs q)"
proof (induction cs arbitrary: q)
  case (Cons c cs)
  show ?case
    using Cons [of "put (fst (projl c)) (snd (projl c)) q"] Cons [of "ack (fst (projr c)) (snd (projr c)) q"]
    by (auto simp: put_clock ack_clock split: sum.splits)
qed simp

text \<open>An acknowledgement of what was read earlier never removes a finding put since.\<close>

lemma fresh_finding_kept:
  assumes "ok q" "stamp q a = Some n" "stamp (put a u (run cs q)) a \<noteq> None"
  shows "stamp (ack a n (put a u (run cs q))) a = Some (Suc (clock (run cs q)))"
proof -
  let ?q = "run cs q"
  have "ok ?q" using assms(1) by (rule run_ok)
  moreover have "stamp (put a u ?q) a = Some (Suc (clock ?q))" using put_stamp [OF \<open>ok ?q\<close>, of a u] assms(3) by auto
  moreover have "n < Suc (clock ?q)" using stamp_clock [OF assms(1,2)] run_clock [of q cs] by simp
  ultimately show ?thesis by (simp add: ack_stamp put_ok)
qed

end

section \<open>The enforcement queue is one\<close>

definition queue_ok :: "equeue \<Rightarrow> bool" where
  "queue_ok q = (distinct (map fst (urgent q @ ordinary q)) \<and> length (urgent q) + length (ordinary q) \<le> q_limit q
     \<and> (\<forall>n \<in> snd ` set (urgent q @ ordinary q). n \<le> generation q))"

definition queue_stamp :: "equeue \<Rightarrow> string \<Rightarrow> nat option" where
  "queue_stamp q ip = map_of (urgent q @ ordinary q) ip"

lemma length_delete_key: "distinct (map fst xs) \<Longrightarrow> map_of xs k \<noteq> None \<Longrightarrow> Suc (length (AList.delete k xs)) = length xs"
  by (induction xs) (auto simp: delete_notin_dom dom_map_of_conv_image_fst, blast)

lemma length_jput: "length (jput k v xs) = (if map_of xs k = None then Suc (length xs) else length xs)"
  by (induction xs) auto

lemma gens_jput: "snd ` set xs \<subseteq> {..n} \<Longrightarrow> v \<le> n \<Longrightarrow> snd ` set (jput k v xs) \<subseteq> {..n}"
  by (induction xs) auto

lemma gens_delete: "snd ` set xs \<subseteq> {..n} \<Longrightarrow> snd ` set (AList.delete k xs) \<subseteq> {..n}"
  by (induction xs) auto

lemma keys_jput: "fst ` set (jput k v xs) = insert k (fst ` set xs)"
  by (induction xs) auto

lemma keys_delete: "fst ` set (AList.delete k xs) = fst ` set xs - {k}"
  by (induction xs) auto

lemma queue_okI:
  assumes "distinct (map fst (urgent q))" "distinct (map fst (ordinary q))" "fst ` set (urgent q) \<inter> fst ` set (ordinary q) = {}"
    "length (urgent q) + length (ordinary q) \<le> q_limit q"
    "snd ` set (urgent q) \<subseteq> {..generation q}" "snd ` set (ordinary q) \<subseteq> {..generation q}"
  shows "queue_ok q"
  using assms unfolding queue_ok_def by auto

lemma queue_okD:
  assumes "queue_ok q"
  shows "distinct (map fst (urgent q))" "distinct (map fst (ordinary q))" "fst ` set (urgent q) \<inter> fst ` set (ordinary q) = {}"
    "length (urgent q) + length (ordinary q) \<le> q_limit q"
    "snd ` set (urgent q) \<subseteq> {..generation q}" "snd ` set (ordinary q) \<subseteq> {..generation q}"
  using assms unfolding queue_ok_def by auto

lemma ack_in_facts:
  "distinct (map fst xs) \<Longrightarrow> distinct (map fst (ack_in ip n xs))" "fst ` set (ack_in ip n xs) \<subseteq> fst ` set xs"
  "snd ` set xs \<subseteq> {..g} \<Longrightarrow> snd ` set (ack_in ip n xs) \<subseteq> {..g}" "length (ack_in ip n xs) \<le> length xs"
  "map_of (ack_in ip n xs) b = (if b = ip \<and> map_of xs ip = Some n then None else map_of xs b)"
proof -
  show "snd ` set xs \<subseteq> {..g} \<Longrightarrow> snd ` set (ack_in ip n xs) \<subseteq> {..g}"
    by (simp only: ack_in_def gens_delete split: if_split) blast
qed (auto simp: ack_in_def keys_delete distinct_delete delete_conv' length_delete_le)

lemma mark_generation: "generation (mark ip u q) = Suc (generation q)" "q_limit (mark ip u q) = q_limit q"
  by (simp_all add: mark_def enqueue_def Let_def)

lemma disjoint_mono: "A \<inter> B = {} \<Longrightarrow> C \<subseteq> A \<Longrightarrow> D \<subseteq> B \<Longrightarrow> C \<inter> D = {}"
  by blast

lemma queue_ok_ack:
  assumes "queue_ok q"
  shows "queue_ok (acknowledge ip n q)"
proof (rule queue_okI)
  note d = queue_okD [OF assms]
  show "fst ` set (urgent (acknowledge ip n q)) \<inter> fst ` set (ordinary (acknowledge ip n q)) = {}"
    by (rule disjoint_mono [OF d(3)]) (simp_all add: acknowledge_def ack_in_facts(2))
  show "length (urgent (acknowledge ip n q)) + length (ordinary (acknowledge ip n q)) \<le> q_limit (acknowledge ip n q)"
    using d(4) add_mono [OF ack_in_facts(4) ack_in_facts(4), of ip n "urgent q" ip n "ordinary q"] by (simp add: acknowledge_def)
qed (use queue_okD [OF assms] in \<open>simp_all add: acknowledge_def ack_in_facts(1,3)\<close>)

lemma queue_ok_enqueue:
  assumes "queue_ok q" "map_of (urgent q) ip = None" "map_of (ordinary q) ip = None"
    "length (urgent q) + length (ordinary q) < q_limit q"
  shows "queue_ok (enqueue ip u q)"
proof (rule queue_okI)
  note d = queue_okD [OF assms(1)]
  have n: "ip \<notin> fst ` set (urgent q)" "ip \<notin> fst ` set (ordinary q)"
    using assms(2,3) by (simp_all add: map_of_eq_None_iff)
  show "fst ` set (urgent (enqueue ip u q)) \<inter> fst ` set (ordinary (enqueue ip u q)) = {}"
    using d(3) n by (cases u) (simp_all add: enqueue_def keys_jput)
qed (use queue_okD [OF assms(1)] assms(2,3,4) in \<open>simp_all add: enqueue_def length_jput distinct_update gens_jput\<close>)

lemma queue_ok_restamp:
  assumes "queue_ok q"
  shows "map_of (urgent q) ip \<noteq> None \<Longrightarrow> queue_ok (q\<lparr>urgent := jput ip (generation q) (urgent q)\<rparr>)"
    and "map_of (ordinary q) ip \<noteq> None \<Longrightarrow> queue_ok (q\<lparr>ordinary := jput ip (generation q) (ordinary q)\<rparr>)"
proof -
  note d = queue_okD [OF assms]
  show "queue_ok (q\<lparr>urgent := jput ip (generation q) (urgent q)\<rparr>)" if "map_of (urgent q) ip \<noteq> None"
  proof (rule queue_okI)
    have "ip \<in> fst ` set (urgent q)" using that by (metis map_of_eq_None_iff)
    then show "fst ` set (urgent (q\<lparr>urgent := jput ip (generation q) (urgent q)\<rparr>))
        \<inter> fst ` set (ordinary (q\<lparr>urgent := jput ip (generation q) (urgent q)\<rparr>)) = {}"
      using d(3) by (simp add: keys_jput insert_absorb)
  qed (use d that in \<open>simp_all add: length_jput distinct_update gens_jput del: not_None_eq\<close>)
  show "queue_ok (q\<lparr>ordinary := jput ip (generation q) (ordinary q)\<rparr>)" if "map_of (ordinary q) ip \<noteq> None"
  proof (rule queue_okI)
    have "ip \<in> fst ` set (ordinary q)" using that by (metis map_of_eq_None_iff)
    then show "fst ` set (urgent (q\<lparr>ordinary := jput ip (generation q) (ordinary q)\<rparr>))
        \<inter> fst ` set (ordinary (q\<lparr>ordinary := jput ip (generation q) (ordinary q)\<rparr>)) = {}"
      using d(3) by (simp add: keys_jput insert_absorb)
  qed (use d that in \<open>simp_all add: length_jput distinct_update gens_jput del: not_None_eq\<close>)
qed

lemma queue_ok_drop:
  assumes "queue_ok q"
  shows "queue_ok (q\<lparr>ordinary := AList.delete ip (ordinary q)\<rparr>)" "queue_ok (q\<lparr>ordinary := tl (ordinary q)\<rparr>)"
proof -
  note d = queue_okD [OF assms]
  have t: "distinct (map fst (tl xs))" "fst ` set (tl xs) \<subseteq> fst ` set xs" "length (tl xs) \<le> length xs"
    "snd ` set (tl xs) \<subseteq> snd ` set xs" if "distinct (map fst xs)" for xs :: "(string \<times> nat) list"
    using that by (cases xs; auto)+
  show "queue_ok (q\<lparr>ordinary := AList.delete ip (ordinary q)\<rparr>)"
    using d length_delete_le [of ip "ordinary q"]
    by (intro queue_okI) (auto simp: distinct_delete keys_delete gens_delete simp del: image_subset_iff)
  have "snd ` set (tl (ordinary q)) \<subseteq> {..generation q}" using t(4) [OF d(2)] d(6) by (rule order_trans)
  then show "queue_ok (q\<lparr>ordinary := tl (ordinary q)\<rparr>)"
    using d t(1,3) [OF d(2)] disjoint_mono [OF d(3) order_refl t(2) [OF d(2)]]
    by (intro queue_okI) simp_all
qed

lemma queue_ok_tick: "queue_ok q \<Longrightarrow> queue_ok (q\<lparr>generation := generation q + 1\<rparr>)"
  by (force simp: queue_ok_def)

lemma queue_ok_overflow: "queue_ok (q\<lparr>overflows := k\<rparr>) = queue_ok q"
  by (simp add: queue_ok_def)

lemma queue_ok_mark:
  assumes "queue_ok q0"
  shows "queue_ok (mark ip u q0)"
proof -
  define q where "q = q0\<lparr>generation := generation q0 + 1\<rparr>"
  have q: "queue_ok q" unfolding q_def using assms by (rule queue_ok_tick)
  note d = queue_okD [OF q]
  have m: "mark ip u q0 =
     (if map_of (urgent q) ip \<noteq> None then q\<lparr>urgent := jput ip (generation q) (urgent q)\<rparr>
      else if map_of (ordinary q) ip \<noteq> None then
        (if u then enqueue ip u (q\<lparr>ordinary := AList.delete ip (ordinary q)\<rparr>)
         else q\<lparr>ordinary := jput ip (generation q) (ordinary q)\<rparr>)
      else if length (urgent q) + length (ordinary q) \<ge> q_limit q then
        (let q1 = q\<lparr>overflows := overflows q + 1\<rparr> in
         if \<not> u \<or> ordinary q1 = [] then q1 else enqueue ip u (q1\<lparr>ordinary := tl (ordinary q1)\<rparr>))
      else enqueue ip u q)"
    unfolding mark_def q_def Let_def ..
  show ?thesis
  proof (cases "map_of (urgent q) ip")
    case u0: None
    show ?thesis
    proof (cases "map_of (ordinary q) ip")
      case o0: None
      show ?thesis
      proof (cases "length (urgent q) + length (ordinary q) \<ge> q_limit q")
        case True
        have "queue_ok (enqueue ip u ((q\<lparr>overflows := overflows q + 1\<rparr>)\<lparr>ordinary := tl (ordinary q)\<rparr>))"
          if o: "ordinary q \<noteq> []"
        proof (rule queue_ok_enqueue)
          have "map_of (tl (ordinary q)) ip = None" using o0 o by (cases "ordinary q") (auto split: if_splits)
          then show "map_of (ordinary ((q\<lparr>overflows := overflows q + 1\<rparr>)\<lparr>ordinary := tl (ordinary q)\<rparr>)) ip = None" by simp
          show "length (urgent ((q\<lparr>overflows := overflows q + 1\<rparr>)\<lparr>ordinary := tl (ordinary q)\<rparr>)) +
              length (ordinary ((q\<lparr>overflows := overflows q + 1\<rparr>)\<lparr>ordinary := tl (ordinary q)\<rparr>))
              < q_limit ((q\<lparr>overflows := overflows q + 1\<rparr>)\<lparr>ordinary := tl (ordinary q)\<rparr>)"
            using o d(4) by (cases "ordinary q") auto
        qed (use queue_ok_drop(2) [of "q\<lparr>overflows := overflows q + 1\<rparr>"] q u0 in \<open>simp_all add: queue_ok_overflow\<close>)
        then show ?thesis using True u0 o0 q by (auto simp: m Let_def queue_ok_overflow)
      next
        case False
        then show ?thesis using queue_ok_enqueue [OF q u0 o0] u0 o0 by (simp add: m)
      qed
    next
      case (Some n)
      have "queue_ok (enqueue ip u (q\<lparr>ordinary := AList.delete ip (ordinary q)\<rparr>))"
        using queue_ok_drop(1) [OF q] u0 d(4) length_delete_key [OF d(2), of ip] Some
        by (intro queue_ok_enqueue) (simp_all add: delete_conv')
      then show ?thesis using queue_ok_restamp(2) [OF q] Some u0 by (auto simp: m)
    qed
  next
    case (Some n)
    then show ?thesis using queue_ok_restamp(1) [OF q] by (simp add: m)
  qed
qed

lemma queue_stamp_mark:
  assumes "queue_ok q"
  shows "queue_stamp (mark ip u q) ip = None \<or> queue_stamp (mark ip u q) ip = Some (Suc (generation q))"
    and "queue_stamp q ip \<noteq> None \<Longrightarrow> queue_stamp (mark ip u q) ip \<noteq> None"
  by (auto simp: queue_stamp_def mark_def enqueue_def Let_def map_add_def delete_conv' split: option.splits)

lemma queue_stamp_ack:
  assumes "queue_ok q"
  shows "queue_stamp (acknowledge a n q) b = (if b = a \<and> queue_stamp q a = Some n then None else queue_stamp q b)"
proof -
  have "map_of (urgent q) a = None \<or> map_of (ordinary q) a = None"
    using queue_okD(3) [OF assms] by (auto simp: map_of_eq_None_iff)
  then show ?thesis by (auto simp: queue_stamp_def acknowledge_def ack_in_facts(5) map_add_def split: option.splits)
qed

interpretation eq: finding_queue queue_ok queue_stamp generation mark acknowledge
proof unfold_locales
  show "queue_ok q \<Longrightarrow> queue_stamp q a = Some n \<Longrightarrow> n \<le> generation q" for q a n
    by (force simp: queue_ok_def queue_stamp_def dest: map_of_SomeD)
  show "generation (acknowledge a n q) = generation q" for a n q by (simp add: acknowledge_def)
qed (simp_all add: queue_ok_mark queue_ok_ack mark_generation queue_stamp_mark queue_stamp_ack)

section \<open>Batches\<close>

lemma length_batch: "length (batch n q) = min n (length (urgent q) + length (ordinary q))"
  by (auto simp: batch_def Let_def min_def)

lemma batch_ordinary_share:
  "\<exists>us. batch n q = us @ take (n - min (n - n div 4) (length (urgent q))) (ordinary q)"
  unfolding batch_def Let_def by (simp add: min.commute)

lemma batch_stamp:
  assumes "queue_ok q" "(ip, gen) \<in> set (batch n q)"
  shows "queue_stamp q ip = Some gen"
proof -
  have "(ip, gen) \<in> set (urgent q @ ordinary q)"
    using assms(2) by (auto simp: batch_def Let_def split: if_splits dest: in_set_takeD)
  then show ?thesis using assms(1) by (simp add: queue_stamp_def queue_ok_def map_of_is_SomeI del: map_of_append)
qed

lemma queue_ok_new: "queue_ok (new_queue limit)"
  by (simp add: queue_ok_def new_queue_def)

lemma q_limit_run: "q_limit (eq.run calls q) = q_limit q"
  by (induction calls arbitrary: q) (auto simp: mark_generation acknowledge_def split: sum.splits)

end
