(* ===== verification/Guard_Engine.thy ===== *)
theory Guard_Engine
  imports Guard_Store Guard_Queue
begin

text \<open>
  Ban decisions of the adaptive protection daemon: the \<open>Enforcer\<close> and the enforcement half of
  \<open>GuardEngine\<close> in \<open>src/ansible/roles/haproxy-admin/files/easy-ha-proxy-guardd.py\<close>.

  HAProxy is the argument \<open>rt\<close>: what a read of \<open>tbl_ban\<close> gives, how it answers \<open>set table\<close> and
  \<open>clear table\<close>, each with HAProxy's own state \<open>'s\<close>, so that any command may fail at any time.  A row
  is the three numbers the daemon reads from it.  A call returns a value or raises an \<open>OSError\<close>, and
  hands on the engine's state in both cases.  Every decision runs under one lock.
\<close>

section \<open>HAProxy and the engine's state\<close>

datatype rt_error = LiftRefused string | TableUnreadable string | RuntimeAnswerTooLarge string | OSErr string

fun BAN_TABLE_UNSURE :: "rt_error \<Rightarrow> bool" where
  "BAN_TABLE_UNSURE (OSErr _) = False"
| "BAN_TABLE_UNSURE _ = True"

record ban_row =
  gpc0 :: int
  gpt0 :: int
  exp_ms :: int

record 's runtime =
  show_table :: "string option \<Rightarrow> 's \<Rightarrow> (rt_error + (string \<times> ban_row) list) \<times> 's"
  set_table :: "string \<Rightarrow> int \<Rightarrow> int \<Rightarrow> 's \<Rightarrow> (rt_error + string) \<times> 's"
  clear_table :: "string \<Rightarrow> 's \<Rightarrow> (rt_error + string) \<times> 's"
  start_time :: "'s \<Rightarrow> int \<times> 's"

record 's guard =
  hap :: 's
  mode :: string
  n_refused :: nat
  n_applied :: nat
  n_failed :: nat
  n_lifted :: nat
  ban_durations :: "int list"
  ban_durations_changed_at :: int
  ban_policy :: string
  base_policy :: scoring_policy
  excl :: exclusions
  enforcement_queue :: equeue
  scan_after :: "int \<times> string"
  scan_before :: int
  enforcement_checked :: nat
  events_recorded :: nat
  manual_restored :: nat
  legacy_observed :: "(string \<times> int) list"
  burst_bans :: "int list"
  burst_reported :: "int option"
  alerts :: "(string \<times> string) list option"
  db :: guard_db

type_synonym ('s, 'a) act = "'s guard \<Rightarrow> (rt_error + 'a) \<times> 's guard"

definition gret :: "'a \<Rightarrow> ('s, 'a) act" where
  "gret x g = (Inr x, g)"

definition gbind :: "('s, 'a) act \<Rightarrow> ('a \<Rightarrow> ('s, 'b) act) \<Rightarrow> ('s, 'b) act" where
  "gbind m k g = (case m g of (Inl e, g') \<Rightarrow> (Inl e, g') | (Inr x, g') \<Rightarrow> k x g')"

text \<open>\<open>except BAN_TABLE_UNSURE\<close>: the handler gets the exception; any other one passes.\<close>

definition catch_unsure :: "('s, 'a) act \<Rightarrow> (rt_error \<Rightarrow> ('s, 'a) act) \<Rightarrow> ('s, 'a) act" where
  "catch_unsure m h g = (case m g of (Inl e, g') \<Rightarrow> if BAN_TABLE_UNSURE e then h e g' else (Inl e, g') | r \<Rightarrow> r)"

definition gmodify :: "('s guard \<Rightarrow> 's guard) \<Rightarrow> ('s, unit) act" where
  "gmodify f g = (Inr (), f g)"

primrec gfor :: "('x \<Rightarrow> 'a \<Rightarrow> ('s, 'a) act) \<Rightarrow> 'x list \<Rightarrow> 'a \<Rightarrow> ('s, 'a) act" where
  "gfor f [] acc = gret acc"
| "gfor f (x # xs) acc = gbind (f x acc) (gfor f xs)"

definition change_db :: "(guard_db \<Rightarrow> guard_db) \<Rightarrow> 's guard \<Rightarrow> 's guard" where
  "change_db f g = g\<lparr>db := f (db g)\<rparr>"

section \<open>The enforcer\<close>

definition read_bans :: "'s runtime \<Rightarrow> string option \<Rightarrow> ('s, (string \<times> ban_row) list) act" where
  "read_bans rt key g = (case show_table rt key (hap g) of (r, s) \<Rightarrow> (r, g\<lparr>hap := s\<rparr>))"

definition write_ban :: "'s runtime \<Rightarrow> string \<Rightarrow> int \<Rightarrow> int \<Rightarrow> ('s, string) act" where
  "write_ban rt ip flag code g = (case set_table rt ip flag code (hap g) of (r, s) \<Rightarrow> (r, g\<lparr>hap := s\<rparr>))"

definition ban :: "'s runtime \<Rightarrow> string \<Rightarrow> ('s, bool) act" where
  "ban rt ip g =
     (if mode g \<noteq> ''enforce'' then (Inr False, g\<lparr>n_refused := n_refused g + 1\<rparr>)
      else if \<not> enforceable ip then (Inr False, g)
      else gbind (write_ban rt ip 1 ADAPTIVE_BAN_CODE) (\<lambda>answer g'.
        if py_strip answer \<noteq> [] then (Inr False, g'\<lparr>n_failed := n_failed g' + 1\<rparr>)
        else (Inr True, g'\<lparr>n_applied := n_applied g' + 1\<rparr>)) g)"

definition active_bans :: "'s runtime \<Rightarrow> ('s, (string \<times> int) list) act" where
  "active_bans rt = gbind (read_bans rt None) (\<lambda>rows.
     gret (map (\<lambda>(ip, f). (ip, gpt0 f)) (filter (\<lambda>(ip, f). gpc0 f > 0) rows)))"

definition adaptive_bans :: "'s runtime \<Rightarrow> ('s, string list) act" where
  "adaptive_bans rt = gbind (read_bans rt None) (\<lambda>rows.
     gret (map fst (filter (\<lambda>(ip, f). gpt0 f = ADAPTIVE_BAN_CODE \<and> gpc0 f > 0) rows)))"

definition clear_entry :: "'s runtime \<Rightarrow> string \<Rightarrow> ('s, unit) act" where
  "clear_entry rt ip g =
     (case clear_table rt ip (hap g) of
        (Inl e, s) \<Rightarrow> (Inl e, g\<lparr>hap := s\<rparr>)
      | (Inr answer, s) \<Rightarrow>
          if py_strip answer \<noteq> [] then
            (Inl (LiftRefused (''HAProxy refused to lift the ban on '' @ ip)), g\<lparr>hap := s, n_failed := n_failed g + 1\<rparr>)
          else (Inr (), g\<lparr>hap := s\<rparr>))"

definition lift :: "'s runtime \<Rightarrow> string \<Rightarrow> ('s, bool) act" where
  "lift rt ip = gbind (read_bans rt (Some ip)) (\<lambda>rows.
     case map_of rows ip of None \<Rightarrow> gret False
     | Some f \<Rightarrow> if gpt0 f \<noteq> ADAPTIVE_BAN_CODE then gret False
         else gbind (clear_entry rt ip) (\<lambda>_ g. (Inr True, g\<lparr>n_lifted := n_lifted g + 1\<rparr>)))"

definition restore :: "'s runtime \<Rightarrow> string \<Rightarrow> int \<Rightarrow> ('s, bool) act" where
  "restore rt ip code =
     (if \<not> enforceable ip then gret False
      else gbind (write_ban rt ip 1 code) (\<lambda>answer. gret (py_strip answer = [])))"

definition lift_code :: "'s runtime \<Rightarrow> string \<Rightarrow> int \<Rightarrow> ('s, bool) act" where
  "lift_code rt ip code = gbind (read_bans rt (Some ip)) (\<lambda>rows.
     case map_of rows ip of None \<Rightarrow> gret False
     | Some f \<Rightarrow> if gpt0 f \<noteq> code then gret False else gbind (clear_entry rt ip) (\<lambda>_. gret True))"

definition started_at :: "'s runtime \<Rightarrow> ('s, int) act" where
  "started_at rt g = (case start_time rt (hap g) of (t, s) \<Rightarrow> (Inr t, g\<lparr>hap := s\<rparr>))"

definition LEGACY_BAN_CODES :: "int list" where "LEGACY_BAN_CODES = [10, 20, 30]"

definition lift_legacy :: "'s runtime \<Rightarrow> string \<Rightarrow> ('s, int) act" where
  "lift_legacy rt ip = gbind (read_bans rt (Some ip)) (\<lambda>rows.
     case map_of rows ip of None \<Rightarrow> gret 0
     | Some f \<Rightarrow> if gpc0 f \<le> 0 \<or> gpt0 f \<notin> set LEGACY_BAN_CODES then gret 0
         else gbind (clear_entry rt ip) (\<lambda>_. gret (gpt0 f)))"

definition release :: "'s runtime \<Rightarrow> string \<Rightarrow> ('s, bool) act" where
  "release rt ip = gbind (read_bans rt (Some ip)) (\<lambda>rows.
     case map_of rows ip of None \<Rightarrow> gret False
     | Some f \<Rightarrow> if gpc0 f \<le> 0 then gret False
         else gbind (write_ban rt ip 0 (gpt0 f)) (\<lambda>answer g.
           if py_strip answer \<noteq> [] then
             (Inl (LiftRefused (''HAProxy refused to lift the ban on '' @ ip)), g\<lparr>n_failed := n_failed g + 1\<rparr>)
           else (Inr True, g)))"

section \<open>Reputation\<close>

definition WOULD_BAN_SCORE :: int where "WOULD_BAN_SCORE = 60"
definition WATCH_SCORE :: int where "WATCH_SCORE = 20"
definition TRUST_AFTER_SIGN_IN_SECONDS :: int where "TRUST_AFTER_SIGN_IN_SECONDS = 7 * 86400"

definition scoring_policy_of :: "'s guard \<Rightarrow> scoring_policy" where
  "scoring_policy_of g = (if ban_policy g = ''u02'' then u02_policy (base_policy g) else base_policy g)"

record reputation =
  r_ip :: string
  r_score :: int
  r_state :: string
  r_action :: string
  r_enforceable :: bool
  r_excluded :: bool
  r_exclusion :: string
  r_authenticated_at :: int
  r_event_count :: nat
  r_categories :: "(string \<times> rat) list"
  r_blockers :: "string list"
  r_would_ban :: bool
  r_banned_until :: int
  r_likely_false_positive :: bool

definition ban_blockers :: "string \<Rightarrow> int \<Rightarrow> reputation \<Rightarrow> string list" where
  "ban_blockers policy now r =
     (if r_excluded r then [''exempt ('' @ r_exclusion r @ '')''] else []) @
     (if r_authenticated_at r = 0 then []
      else if policy \<noteq> ''u02'' then [''has authenticated before'']
      else if r_authenticated_at r \<ge> now - TRUST_AFTER_SIGN_IN_SECONDS then [''signed in within the last 7 days'']
      else []) @
     (if r_enforceable r then [] else [''IPv4-only ban path''])"

definition reputation_of :: "string \<Rightarrow> int \<Rightarrow> scoring_policy \<Rightarrow> (string \<times> int) list \<Rightarrow> 's guard \<Rightarrow> reputation" where
  "reputation_of ip now policy scheduled g =
     (let evs = events_for ip (now - window_seconds policy) (db g);
          sc = score_events evs now policy;
          v = verdict_for (excl g) ip;
          auth = (case map_of (ip_state (db g)) ip of None \<Rightarrow> 0 | Some row \<Rightarrow> authenticated_at row);
          score = (if v_excluded v then 0 else s_score sc);
          r = \<lparr>r_ip = ip, r_score = score, r_state = (if v_excluded v then ''NORMAL'' else s_state sc),
               r_action = (if v_excluded v then ''none'' else s_action sc),
               r_enforceable = enforceable ip, r_excluded = v_excluded v, r_exclusion = v_reason v,
               r_authenticated_at = auth, r_event_count = length evs, r_categories = s_categories sc,
               r_blockers = [], r_would_ban = False,
               r_banned_until = (case map_of scheduled ip of None \<Rightarrow> 0 | Some u \<Rightarrow> u),
               r_likely_false_positive = (auth \<noteq> 0 \<and> score \<ge> WATCH_SCORE)\<rparr>;
          bl = ban_blockers (ban_policy g) now r
      in r\<lparr>r_blockers := bl, r_would_ban := (score \<ge> WOULD_BAN_SCORE \<and> bl = [])\<rparr>)"

section \<open>Strikes\<close>

text \<open>\<open>strike_retention\<close>: only called with a level of at least one.\<close>

definition strike_retention :: "int list \<Rightarrow> nat \<Rightarrow> int" where
  "strike_retention ladder level = ladder ! min (level - 1) (length ladder - 1) * (int level + 1)"

definition strike_step :: "int list \<Rightarrow> int \<Rightarrow> nat \<times> int \<Rightarrow> nat \<times> int" where
  "strike_step ladder ts lp =
     (case lp of (level, previous) \<Rightarrow>
       ((if level \<noteq> 0 \<and> ts - previous > strike_retention ladder level then 0 else level) + 1, ts))"

definition strike_level :: "string \<Rightarrow> int \<Rightarrow> 's guard \<Rightarrow> nat" where
  "strike_level ip now g =
     (let stamps = filter (\<lambda>ts. ts \<ge> ban_durations_changed_at g) (ban_timestamps ip (db g)) in
      if stamps = [] then 0
      else case fold (strike_step (ban_durations g)) stamps (0, 0) of (level, previous) \<Rightarrow>
        if now - max previous (newest_finding_ts ip (db g)) > strike_retention (ban_durations g) level then 0 else level)"

definition ban_duration :: "string \<Rightarrow> int \<Rightarrow> 's guard \<Rightarrow> int" where
  "ban_duration ip now g = ban_durations g ! min (strike_level ip now g) (length (ban_durations g) - 1)"

definition set_ban_durations :: "json \<Rightarrow> int \<Rightarrow> 's guard \<Rightarrow> int list result \<times> 's guard" where
  "set_ban_durations data now g =
     (case validate_ban_durations data of Inl e \<Rightarrow> (Inl e, g)
      | Inr checked \<Rightarrow> (Inr checked, g\<lparr>ban_durations := checked, ban_durations_changed_at := now\<rparr>))"

end
