(* ===== verification/Guard_Enforce.thy ===== *)
theory Guard_Enforce
  imports Guard_Engine
begin

text \<open>
  The enforcement cycle of \<open>GuardEngine\<close> and the operator's requests, in
  \<open>easy-ha-proxy-guardd.py\<close>: settling what a crash left, lifting what was served, the kill switch,
  re-asserting, deciding new bans from the queue and the sweep, bans placed and cleared by hand, the
  mode switch, and keeping the operator's bans across a restart of HAProxy.

  The generator \<open>_enforcement_rows\<close> is interleaved with the loop that consumes it, as it runs: an
  address is acknowledged only after its row has been dealt with.  The scan position is kept in
  the state only, not also written to \<open>guard_state\<close>.  Database calls succeed, except in
  \<open>place_manual_ban\<close>, which handles their failure.
\<close>

section \<open>Recording\<close>

definition COOLDOWN_SECONDS :: "(string \<times> int) list" where
  "COOLDOWN_SECONDS =
     [(''SCANNER_PATH'', 300), (''SCANNER_MULTI_CATEGORY'', 900), (''LOW_AND_SLOW_SCANNER'', 3600),
      (''NOT_FOUND_ENUMERATION'', 900), (''WIDE_ENUMERATION'', 900), (''MASS_ENUMERATION'', 3600),
      (''RECURRING_SCANNER'', 6 * 3600), (''INVALID_HOST_ACTIVITY'', 600), (''NOSNI_PROBING'', 600),
      (''RATE_EXCEEDED'', 60), (''ERROR_RATE_EXCEEDED'', 60), (''HARD_FLOOR_EPISODE'', 600), (''HARD_FLOOR_TRUSTED'', 600)]"

definition queue_enforcement_check :: "string \<Rightarrow> string \<Rightarrow> bool \<Rightarrow> 's guard \<Rightarrow> 's guard" where
  "queue_enforcement_check ip event_type handled g =
     (if map_of DEFAULT_WEIGHTS event_type = None then g
      else if handled \<and> event_type \<notin> set REFUSAL_DOES_NOT_EXCUSE then g
      else g\<lparr>enforcement_queue := mark ip (event_weight (scoring_policy_of g) event_type \<ge> WOULD_BAN_SCORE) (enforcement_queue g)\<rparr>)"

definition emit :: "sec_event \<Rightarrow> string \<Rightarrow> 's guard \<Rightarrow> bool \<times> 's guard" where
  "emit e fingerprint g =
     (let window = (case map_of COOLDOWN_SECONDS (ev_type e) of None \<Rightarrow> 60 | Some w \<Rightarrow> w);
          key = (if fingerprint = [] then ev_ip e @ ''|'' @ ev_type e else fingerprint)
      in case cooldown_passed key (ev_ts e) window (db g) of
        (False, d) \<Rightarrow> (False, g\<lparr>db := d\<rparr>)
      | (True, d) \<Rightarrow>
          let g1 = g\<lparr>db := record_events [e] (observe_ip (ev_ip e) (ev_ts e) (verdict_for (excl g) (ev_ip e)) d)\<rparr>;
              g2 = queue_enforcement_check (ev_ip e) (ev_type e) (ev_handled e) g1
          in (True, g2\<lparr>events_recorded := events_recorded g2 + 1\<rparr>))"

definition lifted_event :: "string \<Rightarrow> int \<Rightarrow> string \<Rightarrow> string \<Rightarrow> sec_event" where
  "lifted_event ip now src detail =
     \<lparr>ev_ts = now, ev_ip = ip, ev_type = ''BAN_LIFTED'', ev_source = src, ev_site = [], ev_category = [],
      ev_detail = detail, ev_handled = False\<rparr>"

definition note_decision ::
  "string \<Rightarrow> int \<Rightarrow> string \<Rightarrow> string \<Rightarrow> string \<Rightarrow> int \<Rightarrow> int \<Rightarrow> 's guard \<Rightarrow> 's guard" where
  "note_decision ip now action src outcome code until g =
     g\<lparr>db := snd (record_decision ip now action src outcome code until 0 0 (ban_policy g) (db g))\<rparr>"

definition observe_alert :: "string \<Rightarrow> string \<Rightarrow> 's guard \<Rightarrow> 's guard" where
  "observe_alert rule key g = (case alerts g of None \<Rightarrow> g | Some as \<Rightarrow> g\<lparr>alerts := Some (as @ [(rule, key)])\<rparr>)"

section \<open>Settling pending decisions\<close>

definition settle_one :: "'s runtime \<Rightarrow> int \<Rightarrow> (string \<times> int) list \<Rightarrow> (string \<times> int) list \<Rightarrow> decision \<Rightarrow> unit \<Rightarrow> ('s, unit) act" where
  "settle_one rt now standing scheduled d _ =
     (let ip = d_ip d; ours = (map_of standing ip = Some ADAPTIVE_BAN_CODE \<and> map_of scheduled ip = None) in
      if ours \<and> d_until d > now then
        gmodify (change_db (commit_ban (d_id d) ip (d_until d) ADAPTIVE_BAN_CODE (d_ts d)
          (''score='' @ int_to_str (d_score d) @ '' seconds='' @ int_to_str (d_until d - d_ts d) @ '' [settled]'')))
      else if ours then
        gbind (catch_unsure (gbind (lift rt ip) (\<lambda>_. gret True)) (\<lambda>_. gret False)) (\<lambda>lifted.
          if lifted then gmodify (change_db (settle_decision (d_id d) ''abandoned'')) else gret ())
      else gmodify (change_db (settle_decision (d_id d) ''abandoned'')))"

definition DECISION_PENDING_GRACE :: int where "DECISION_PENDING_GRACE = 60"

definition settle_pending_decisions :: "'s runtime \<Rightarrow> int \<Rightarrow> ('s, unit) act" where
  "settle_pending_decisions rt now g =
     (let pending = pending_decisions (now - DECISION_PENDING_GRACE) (db g) in
      if pending = [] then (Inr (), g)
      else case active_bans rt g of
        (Inl _, g1) \<Rightarrow> (Inr (), g1)
      | (Inr standing, g1) \<Rightarrow> gfor (settle_one rt now standing (scheduled_bans (db g1))) pending () g1)"

section \<open>The cycle\<close>

text \<open>What is written after a scheduled ban was looked at: the lift, and, once served, its end.\<close>

definition after_lift :: "int \<Rightarrow> bool \<Rightarrow> string \<Rightarrow> int \<Rightarrow> bool \<Rightarrow> 's guard \<Rightarrow> 's guard" where
  "after_lift now enforcing ip until taken_off g =
     (let served = until \<le> now;
          g1 = (if taken_off then
              note_decision ip now ''lifted'' (if served then ''expiry'' else ''mode'') ''applied'' ADAPTIVE_BAN_CODE until
                (snd (emit (lifted_event ip now ''guardd'' (if enforcing then ''expired'' else ''enforcement disabled''))
                   (ip @ ''|BAN_LIFTED|'' @ int_to_str until) g))
            else g)
      in if served then change_db (clear_ban ip) g1 else g1)"

definition lift_scheduled :: "'s runtime \<Rightarrow> int \<Rightarrow> bool \<Rightarrow> string \<times> int \<Rightarrow> string list \<Rightarrow> ('s, string list) act" where
  "lift_scheduled rt now enforcing x lifted =
     (case x of (ip, until) \<Rightarrow>
       if enforcing \<and> \<not> until \<le> now then gret lifted
       else gbind (catch_unsure (gbind (lift rt ip) (\<lambda>b. gret (Some b))) (\<lambda>_. gret None)) (\<lambda>taken.
         case taken of None \<Rightarrow> gret lifted
         | Some taken_off \<Rightarrow> (\<lambda>g. (Inr (if taken_off then lifted @ [ip] else lifted), after_lift now enforcing ip until taken_off g))))"

definition sweep_one :: "'s runtime \<Rightarrow> (string \<times> int) list \<Rightarrow> string \<Rightarrow> string list \<Rightarrow> ('s, string list) act" where
  "sweep_one rt scheduled ip lifted =
     (if map_of scheduled ip \<noteq> None then gret lifted
      else catch_unsure (gbind (lift rt ip) (\<lambda>b. gret (if b then lifted @ [ip] else lifted))) (\<lambda>_. gret lifted))"

definition reassert_one :: "'s runtime \<Rightarrow> int \<Rightarrow> (string \<times> int) list \<Rightarrow> string \<times> int \<Rightarrow> unit \<Rightarrow> ('s, unit) act" where
  "reassert_one rt now standing x _ =
     (case x of (ip, until) \<Rightarrow>
        if until \<le> now \<or> map_of standing ip \<noteq> None then gret () else gbind (ban rt ip) (\<lambda>_. gret ()))"

definition BURST_WINDOW_SECONDS :: int where "BURST_WINDOW_SECONDS = 300"
definition BURST_MIN_BANS :: nat where "BURST_MIN_BANS = 15"
definition BURST_REPORT_GAP_SECONDS :: int where "BURST_REPORT_GAP_SECONDS = 3600"

definition check_burst :: "nat \<Rightarrow> int \<Rightarrow> 's guard \<Rightarrow> 's guard" where
  "check_burst banned now g =
     (let bans = dropWhile (\<lambda>t. t \<le> now - BURST_WINDOW_SECONDS) (burst_bans g @ replicate banned now);
          g1 = g\<lparr>burst_bans := bans\<rparr>
      in if length bans < BURST_MIN_BANS then g1
         else if (case burst_reported g of None \<Rightarrow> False | Some t \<Rightarrow> now - t < BURST_REPORT_GAP_SECONDS) then g1
         else observe_alert ''security.burst'' ''gateway'' (g1\<lparr>burst_reported := Some now\<rparr>))"

text \<open>What the loop does with one row, up to the decision to ban.\<close>

definition wants_ban :: "int \<Rightarrow> (string \<times> int) list \<Rightarrow> (string \<times> int) list \<Rightarrow> reputation \<Rightarrow> 's guard \<Rightarrow> bool" where
  "wants_ban now scheduled standing row g =
     (let ip = r_ip row in
      r_score row \<ge> WOULD_BAN_SCORE \<and>
      \<not> (case map_of scheduled ip of None \<Rightarrow> 0 | Some u \<Rightarrow> u) > now \<and>
      (case map_of standing ip of None \<Rightarrow> True | Some c \<Rightarrow> c = ADAPTIVE_BAN_CODE) \<and>
      ban_blockers (ban_policy g) now row = [] \<and>
      \<not> (last_ban_ts ip (db g) \<noteq> 0 \<and> newest_finding_ts ip (db g) \<le> last_ban_ts ip (db g)))"

definition apply_ban :: "'s runtime \<Rightarrow> int \<Rightarrow> reputation \<Rightarrow> string list \<Rightarrow> ('s, string list) act" where
  "apply_ban rt now row applied g =
     (let ip = r_ip row; duration = ban_duration ip now g in
      case record_decision ip now ''applied'' ''adaptive'' ''pending'' ADAPTIVE_BAN_CODE (now + duration)
          (int (strike_level ip now g) + 1) (r_score row) (ban_policy g) (db g) of
        (i, d) \<Rightarrow>
          gbind (ban rt ip) (\<lambda>done g'.
            if \<not> done then
              (Inr applied, g'\<lparr>db := settle_decision i ''failed'' (db g'), enforcement_queue := mark ip True (enforcement_queue g')\<rparr>)
            else
              let detail = ''score='' @ int_to_str (r_score row) @ '' seconds='' @ int_to_str duration @ '' ['' @
                    py_join '', '' (sort (map fst (r_categories row))) @ '']'';
                  g1 = change_db (commit_ban i ip (now + duration) ADAPTIVE_BAN_CODE now detail) g'
              in (Inr (applied @ [ip]), observe_alert ''security.hostile_ip'' ip (g1\<lparr>events_recorded := events_recorded g1 + 1\<rparr>)))
            (g\<lparr>db := d\<rparr>))"

definition consider_row ::
  "'s runtime \<Rightarrow> int \<Rightarrow> (string \<times> int) list \<Rightarrow> (string \<times> int) list \<Rightarrow> string \<Rightarrow> string list \<Rightarrow> ('s, string list) act" where
  "consider_row rt now scheduled standing ip applied g =
     (let row = reputation_of ip now (scoring_policy_of g) scheduled g;
          g1 = g\<lparr>enforcement_checked := enforcement_checked g + 1\<rparr>
      in if wants_ban now scheduled standing row g1 then apply_ban rt now row applied g1 else (Inr applied, g1))"

definition pending_row ::
  "'s runtime \<Rightarrow> int \<Rightarrow> (string \<times> int) list \<Rightarrow> (string \<times> int) list \<Rightarrow> string \<times> nat \<Rightarrow> string list \<Rightarrow> ('s, string list) act" where
  "pending_row rt now scheduled standing x applied =
     (case x of (ip, gen) \<Rightarrow>
       gbind (consider_row rt now scheduled standing ip applied) (\<lambda>applied' g.
         (Inr applied', g\<lparr>enforcement_queue := acknowledge ip gen (enforcement_queue g)\<rparr>)))"

definition sweep_address ::
  "'s runtime \<Rightarrow> int \<Rightarrow> (string \<times> int) list \<Rightarrow> (string \<times> int) list \<Rightarrow> string list \<Rightarrow> int \<times> string \<Rightarrow> string list \<Rightarrow> ('s, string list) act" where
  "sweep_address rt now scheduled standing seen x applied =
     (case x of (first, ip) \<Rightarrow>
       gbind (if ip \<in> set seen then gret applied else consider_row rt now scheduled standing ip applied) (\<lambda>applied' g.
         (Inr applied', g\<lparr>scan_after := (first, ip)\<rparr>)))"

definition ENFORCEMENT_BATCH :: nat where "ENFORCEMENT_BATCH = 200"
definition ENFORCEMENT_SWEEP_RESERVE :: nat where "ENFORCEMENT_SWEEP_RESERVE = 50"

text \<open>The page of the sweep: where it starts this time, with the addresses on it.\<close>

definition sweep_page :: "int \<Rightarrow> nat \<Rightarrow> 's guard \<Rightarrow> (int \<times> string) list \<times> 's guard" where
  "sweep_page now allowance g =
     (let g1 = (if scan_before g = 0 then g\<lparr>scan_before := now\<rparr> else g);
          page = enforcement_addresses (scan_after g1) (scan_before g1) allowance (db g1)
      in if page = [] \<and> scan_after g1 \<noteq> (0, []) then
           (enforcement_addresses (0, []) now allowance (db g1), g1\<lparr>scan_after := (0, []), scan_before := now\<rparr>)
         else (page, g1))"

definition enforcement_rows ::
  "'s runtime \<Rightarrow> int \<Rightarrow> (string \<times> int) list \<Rightarrow> (string \<times> int) list \<Rightarrow> string list \<Rightarrow> ('s, string list) act" where
  "enforcement_rows rt now scheduled standing applied g =
     (let pending = batch (ENFORCEMENT_BATCH - ENFORCEMENT_SWEEP_RESERVE) (enforcement_queue g);
          allowance = ENFORCEMENT_BATCH - length pending
      in gbind (gfor (pending_row rt now scheduled standing) pending applied) (\<lambda>applied1 g1.
           case sweep_page now allowance g1 of (page, g2) \<Rightarrow>
             gbind (gfor (sweep_address rt now scheduled standing (map fst pending)) page applied1) (\<lambda>applied2 g3.
               (Inr applied2, if length page < allowance then g3\<lparr>scan_after := (0, []), scan_before := 0\<rparr> else g3)) g2)
         (g\<lparr>enforcement_checked := 0\<rparr>))"

record enforcement_result =
  e_applied :: "string list"
  e_lifted :: "string list"
  e_enforcing :: bool

definition apply_enforcement :: "'s runtime \<Rightarrow> int \<Rightarrow> ('s, enforcement_result) act" where
  "apply_enforcement rt now =
     gbind (gmodify (\<lambda>g. g\<lparr>enforcement_checked := 0\<rparr>)) (\<lambda>_.
     gbind (settle_pending_decisions rt now) (\<lambda>_ g.
       let scheduled = scheduled_bans (db g); enforcing = (mode g = ''enforce'') in
       gbind (gfor (lift_scheduled rt now enforcing) scheduled []) (\<lambda>lifted.
         if \<not> enforcing then
           gbind (adaptive_bans rt) (\<lambda>ours.
           gbind (gfor (sweep_one rt scheduled) ours lifted) (\<lambda>lifted'.
             gret \<lparr>e_applied = [], e_lifted = lifted', e_enforcing = False\<rparr>))
         else
           gbind (active_bans rt) (\<lambda>standing.
           gbind (gfor (reassert_one rt now standing) scheduled ()) (\<lambda>_.
           gbind (enforcement_rows rt now scheduled standing []) (\<lambda>applied g'.
             (Inr \<lparr>e_applied = applied, e_lifted = lifted, e_enforcing = True\<rparr>,
              if applied \<noteq> [] then check_burst (length applied) now g' else g'))))) g))"

definition SUPPORTED_MODES :: "string list" where "SUPPORTED_MODES = [''off'', ''monitor'', ''enforce'']"

definition set_mode :: "'s runtime \<Rightarrow> string \<Rightarrow> int \<Rightarrow> 's guard \<Rightarrow> (rt_error + enforcement_result) result \<times> 's guard" where
  "set_mode rt m now g =
     (let md = py_lower (py_strip m) in
      if md \<notin> set SUPPORTED_MODES then (Inl (ValueError ''mode must be one of off, monitor, enforce''), g)
      else case apply_enforcement rt now (g\<lparr>mode := md\<rparr>) of (r, g') \<Rightarrow> (Inr r, g'))"

end
