(* ===== verification/Guard_Manual.thy ===== *)
theory Guard_Manual
  imports Guard_Enforce
begin

text \<open>
  The operator's requests about bans in \<open>easy-ha-proxy-guardd.py\<close>: \<open>place_manual_ban\<close>,
  \<open>forget_ban\<close>, and \<open>keep_manual_bans\<close>, which remembers the bans placed by hand and puts back
  those a restart of HAProxy lost.
\<close>

section \<open>Placing a ban by hand\<close>

definition MANUAL_BAN_DEFAULT_SECONDS :: int where "MANUAL_BAN_DEFAULT_SECONDS = 7 * 86400"

text \<open>Which of the database calls fail, in the order \<open>place_manual_ban\<close> makes them.\<close>

record manual_faults =
  remember_fails :: bool
  put_back_fails :: bool
  rewrite_fails :: bool
  decision_fails :: bool

datatype manual_error = ManualValue string | ManualRefused string | ManualOs rt_error

record manual_answer =
  m_ip :: string
  m_until :: int
  m_remembered :: bool

definition fresh_row :: "int \<Rightarrow> int \<Rightarrow> manual_row" where
  "fresh_row now until = \<lparr>placed_at = now, expires_at = until, seen_at = now, reasserted = False\<rparr>"

definition put_back :: "manual_faults \<Rightarrow> string \<Rightarrow> manual_row option \<Rightarrow> 's guard \<Rightarrow> 's guard" where
  "put_back fl ip previous g =
     (if remember_fails fl \<or> put_back_fails fl then g
      else case previous of
        Some row \<Rightarrow> change_db (write_manual_ban ip row) g
      | None \<Rightarrow> change_db (\<lambda>d. snd (forget_manual_ban ip d)) g)"

definition table_until :: "'s runtime \<Rightarrow> string \<Rightarrow> int \<Rightarrow> 's guard \<Rightarrow> int \<times> 's guard" where
  "table_until rt ip now g =
     (let dflt = now + MANUAL_BAN_DEFAULT_SECONDS in
      case read_bans rt (Some ip) g of
        (Inl _, g') \<Rightarrow> (dflt, g')
      | (Inr rows, g') \<Rightarrow>
          (case map_of rows ip of
             Some f \<Rightarrow> if exp_ms f > 0 then now + exp_ms f div 1000 else dflt
           | None \<Rightarrow> dflt, g'))"

definition record_manual :: "manual_faults \<Rightarrow> string \<Rightarrow> int \<Rightarrow> int \<Rightarrow> 's guard \<Rightarrow> bool \<times> 's guard" where
  "record_manual fl ip now until g =
     (if rewrite_fails fl then (False, g)
      else let g1 = change_db (write_manual_ban ip (fresh_row now until)) g in
      if decision_fails fl then (False, g1)
      else (\<not> remember_fails fl, note_decision ip now ''applied'' ''operator'' ''applied'' MANUAL_BAN_CODE until g1))"

definition place_manual_ban ::
  "'s runtime \<Rightarrow> manual_faults \<Rightarrow> string \<Rightarrow> int \<Rightarrow> 's guard \<Rightarrow> (manual_error + manual_answer) \<times> 's guard" where
  "place_manual_ban rt fl ip now g =
     (let checked = py_strip ip in
      if \<not> enforceable checked then (Inl (ManualValue ''only an IPv4 address can be banned''), g)
      else
        let previous = map_of (manual_bans (db g)) checked;
            g1 = (if remember_fails fl then g
                  else change_db (write_manual_ban checked (fresh_row now (now + MANUAL_BAN_DEFAULT_SECONDS))) g)
        in case restore rt checked MANUAL_BAN_CODE g1 of
            (Inl e, g2) \<Rightarrow> (Inl (ManualOs e), put_back fl checked previous g2)
          | (Inr placed, g2) \<Rightarrow>
              if \<not> placed then (Inl (ManualRefused (''HAProxy refused the ban on '' @ checked)), put_back fl checked previous g2)
              else case table_until rt checked now g2 of
                (until, g3) \<Rightarrow> (case record_manual fl checked now until g3 of
                  (remembered, g4) \<Rightarrow> (Inr \<lparr>m_ip = checked, m_until = until, m_remembered = remembered\<rparr>, g4)))"

section \<open>Clearing a ban by hand\<close>

definition KNOWN_BANS_MAX :: nat where "KNOWN_BANS_MAX = 5000"

definition settle_legacy_observed :: "string \<Rightarrow> 's guard \<Rightarrow> int \<times> 's guard" where
  "settle_legacy_observed ip g =
     (let code = (case map_of (legacy_observed g) ip of None \<Rightarrow> 0 | Some c \<Rightarrow> c);
          rest = AList.delete ip (legacy_observed g)
      in (code, g\<lparr>legacy_observed := (if code \<noteq> 0 then drop (length rest - KNOWN_BANS_MAX) rest else rest)\<rparr>))"

record forget_answer =
  f_refused :: bool
  f_ip :: string
  f_was_scheduled :: bool
  f_lifted :: bool

text \<open>The two calls to HAProxy, under one \<open>except\<close>: was it refused, lifted, released.\<close>

definition lift_and_release :: "'s runtime \<Rightarrow> string \<Rightarrow> ('s, bool \<times> bool \<times> bool) act" where
  "lift_and_release rt ip =
     catch_unsure (gbind (lift rt ip) (\<lambda>lifted.
       catch_unsure (gbind (release rt ip) (\<lambda>released. gret (False, lifted, released))) (\<lambda>_. gret (True, lifted, False))))
     (\<lambda>_. gret (True, False, False))"

definition record_forgotten :: "string \<Rightarrow> int \<Rightarrow> int \<Rightarrow> bool \<Rightarrow> bool \<Rightarrow> bool \<Rightarrow> 's guard \<Rightarrow> 's guard" where
  "record_forgotten ip now held manual refused lifted g =
     (let g1 = (if held \<noteq> 0 \<or> lifted then
            snd (emit (lifted_event ip now ''operator'' ''cleared by hand'') (ip @ ''|BAN_LIFTED|'' @ int_to_str now) g) else g)
      in case settle_legacy_observed ip g1 of (legacy, g2) \<Rightarrow>
        if held \<noteq> 0 \<or> lifted \<or> manual \<or> legacy \<noteq> 0 then
          note_decision ip now ''lifted'' ''operator'' (if refused then ''failed'' else ''applied'')
            (if held \<noteq> 0 \<or> lifted then ADAPTIVE_BAN_CODE else if manual then MANUAL_BAN_CODE else legacy) held g2
        else g2)"

definition forget_ban :: "'s runtime \<Rightarrow> string \<Rightarrow> int \<Rightarrow> 's guard \<Rightarrow> (rt_error + forget_answer) result \<times> 's guard" where
  "forget_ban rt ip now g =
     (let checked = py_strip ip in
      if checked = [] then (Inl (ValueError ''an address is required''), g)
      else
        let held = (case map_of (scheduled_bans (db g)) checked of None \<Rightarrow> 0 | Some u \<Rightarrow> u);
            d = clear_ban checked (db g)
        in case forget_manual_ban checked d of
          (manual, d') \<Rightarrow> (case lift_and_release rt checked (g\<lparr>db := d'\<rparr>) of
            (Inl e, g1) \<Rightarrow> (Inr (Inl e), g1)
          | (Inr (refused, lifted, released), g1) \<Rightarrow>
              (Inr (Inr \<lparr>f_refused = refused, f_ip = checked, f_was_scheduled = (held \<noteq> 0), f_lifted = (lifted \<or> released)\<rparr>),
               record_forgotten checked now held manual refused lifted g1)))"

section \<open>Across a restart of HAProxy\<close>

definition is_manual :: "ban_row \<Rightarrow> bool" where
  "is_manual f = (gpc0 f > 0 \<and> gpt0 f = MANUAL_BAN_CODE)"

definition note_seen :: "int \<Rightarrow> (string \<times> manual_row) list \<Rightarrow> string \<times> ban_row \<Rightarrow> 's guard \<Rightarrow> 's guard" where
  "note_seen now known x g =
     (case x of (ip, f) \<Rightarrow>
       if \<not> is_manual f then g
       else let until = now + max 0 (exp_ms f div 1000); g1 = change_db (note_manual_ban ip now until) g
         in if map_of known ip = None then note_decision ip now ''applied'' ''operator'' ''applied'' MANUAL_BAN_CODE until g1
            else g1)"

text \<open>One remembered ban; \<open>started\<close> is HAProxy's start time once it has been asked for.\<close>

definition keep_one :: "'s runtime \<Rightarrow> (string \<times> ban_row) list \<Rightarrow> int \<Rightarrow> string \<times> manual_row \<Rightarrow> int option \<times> nat \<Rightarrow>
    ('s, int option \<times> nat) act" where
  "keep_one rt bans now x acc =
     (case x of (ip, r) \<Rightarrow> case acc of (started, restored) \<Rightarrow>
       let held = (case map_of bans ip of None \<Rightarrow> False | Some f \<Rightarrow> gpc0 f > 0);
           code = (case map_of bans ip of None \<Rightarrow> 0 | Some f \<Rightarrow> gpt0 f)
       in if expires_at r \<le> now then
            gbind (if reasserted r \<and> held \<and> code = MANUAL_BAN_CODE then lift_code rt ip MANUAL_BAN_CODE else gret False) (\<lambda>_.
            gbind (gmodify (change_db (\<lambda>d. snd (forget_manual_ban ip d)))) (\<lambda>_. gret acc))
          else if held then gret acc
          else if seen_at r \<ge> now then gret acc
          else gbind (case started of None \<Rightarrow> started_at rt | Some t \<Rightarrow> gret t) (\<lambda>t.
            if t = 0 then gret (Some t, restored)
            else if t > seen_at r then
              gbind (restore rt ip MANUAL_BAN_CODE) (\<lambda>back.
                if back then gbind (gmodify (\<lambda>g. note_decision ip now ''restored'' ''restart'' ''applied'' MANUAL_BAN_CODE
                      (expires_at r) (change_db (mark_manual_reasserted ip) g))) (\<lambda>_. gret (Some t, restored + 1))
                else gret (Some t, restored))
            else gbind (gmodify (change_db (\<lambda>d. snd (forget_manual_ban ip d)))) (\<lambda>_. gret (Some t, restored))))"

definition keep_manual_bans :: "'s runtime \<Rightarrow> (string \<times> ban_row) list \<Rightarrow> int \<Rightarrow> ('s, nat) act" where
  "keep_manual_bans rt bans now g =
     (let g1 = fold (note_seen now (manual_bans (db g))) bans g
      in gbind (gfor (keep_one rt bans now) (sort_key fst (manual_bans (db g1))) (None, 0)) (\<lambda>(_, restored) g2.
           (Inr restored, g2\<lparr>manual_restored := manual_restored g2 + restored\<rparr>)) g1)"

end
