(* ===== verification/Guard_Score_Facts.thy ===== *)
theory Guard_Score_Facts
  imports Guard_Score
begin

text \<open>
  Facts about scoring and the ladder: what a tally adds up to, the cap per category, rounding, and what
  an accepted ladder of ban durations looks like.
\<close>

section \<open>Rounding\<close>

lemma py_round_le:
  assumes "x \<le> of_int n"
  shows "py_round x \<le> n"
proof (cases "\<lfloor>x\<rfloor> < n")
  case True
  then show ?thesis by (auto simp: py_round_def Let_def)
next
  case False
  then have "\<lfloor>x\<rfloor> = n" using assms by (metis floor_le_iff floor_mono floor_of_int order_antisym not_le)
  moreover from this have "x = of_int n" using assms by (metis of_int_floor_le order_antisym)
  ultimately show ?thesis by (simp add: py_round_def)
qed

lemma py_round_nonneg: "0 \<le> x \<Longrightarrow> 0 \<le> py_round x"
proof -
  assume "0 \<le> x"
  then have "0 \<le> \<lfloor>x\<rfloor>" by simp
  then show ?thesis by (auto simp: py_round_def Let_def)
qed

section \<open>Tallies\<close>

definition tally_ok :: "string set \<Rightarrow> rat \<Rightarrow> tally \<Rightarrow> bool" where
  "tally_ok C b t = (distinct (map fst (per_category t)) \<and> fst ` set (per_category t) \<subseteq> C
     \<and> (\<forall>v \<in> snd ` set (per_category t). 0 \<le> v \<and> v \<le> b) \<and> total t = sum_list (map snd (per_category t)))"

lemma sum_list_jput:
  fixes v :: rat
  assumes "distinct (map fst xs)"
  shows "sum_list (map snd (jput k v xs)) = sum_list (map snd xs) - (case map_of xs k of None \<Rightarrow> 0 | Some u \<Rightarrow> u) + v"
  using assms
proof (induction xs)
  case (Cons x xs)
  then show ?case by (cases "fst x = k") (auto simp: map_of_eq_None_iff split: option.splits)
qed simp

lemma snd_set_jput: "snd ` set (jput k v xs) \<subseteq> insert v (snd ` set xs)"
  by (induction xs) auto

lemma fst_set_jput: "fst ` set (jput k v xs) = insert k (fst ` set xs)"
  by (induction xs) auto

lemma grant_points_ok:
  assumes "tally_ok C b t" "finding_category e \<in> C" "0 < points" "of_int (max (category_cap policy) base) \<le> b" "0 \<le> b"
  shows "tally_ok C b (grant_points policy e base points t)"
proof -
  define c where "c = finding_category e"
  define used where "used = (case map_of (per_category t) c of None \<Rightarrow> 0 | Some u \<Rightarrow> u)"
  define granted where "granted = min points (max 0 (of_int (max (category_cap policy) base) - used))"
  have t: "distinct (map fst (per_category t))" "fst ` set (per_category t) \<subseteq> C"
    "\<And>v. v \<in> snd ` set (per_category t) \<Longrightarrow> 0 \<le> v \<and> v \<le> b" "total t = sum_list (map snd (per_category t))"
    using assms(1) by (auto simp: tally_ok_def)
  have u: "0 \<le> used \<and> used \<le> b"
    using t(3) assms(5) by (auto simp: used_def split: option.splits dest!: map_of_SomeD) force+
  then have v: "0 \<le> used + granted \<and> used + granted \<le> b"
    using assms(3,4) by (auto simp: granted_def min_def max_def)
  have g: "per_category (grant_points policy e base points t) = jput c (used + granted) (per_category t)"
    "total (grant_points policy e base points t) = total t + granted"
    unfolding grant_points_def Let_def c_def used_def granted_def by simp_all
  have "sum_list (map snd (jput c (used + granted) (per_category t))) = total t + granted"
    unfolding sum_list_jput [OF t(1)] t(4) by (simp add: used_def)
  moreover have "0 \<le> x \<and> x \<le> b" if "x \<in> snd ` set (jput c (used + granted) (per_category t))" for x
    using subsetD [OF snd_set_jput that] t(3) v by blast
  ultimately show ?thesis
    using t(1,2) assms(2) unfolding tally_ok_def g fst_set_jput by (simp add: distinct_update c_def)
qed

lemma score_event_ok:
  assumes "tally_ok C b t" "finding_category e \<in> C" "0 \<le> b"
    "of_int (max (category_cap policy) (event_weight policy (ev_type e))) \<le> b"
  shows "tally_ok C b (score_event now policy e t)"
proof -
  have "tally_ok C b (t\<lparr>contributions := cs\<rparr>)" for cs using assms(1) by (simp add: tally_ok_def)
  then show ?thesis using assms(1) grant_points_ok [OF assms(1,2) _ assms(4,3)] by (simp add: score_event_def Let_def)
qed

lemma tally_events_ok:
  assumes "\<And>e. e \<in> set evs \<Longrightarrow> event_weight policy (ev_type e) \<le> w" "0 \<le> w" "finding_category ` set evs \<subseteq> C"
  shows "tally_ok C (of_int (max (category_cap policy) w)) (tally_events evs now policy)"
proof -
  have b: "(0::rat) \<le> of_int (max (category_cap policy) w)" using assms(2) by simp
  have "tally_ok C (of_int (max (category_cap policy) w)) (fold (score_event now policy) evs t)"
    if "tally_ok C (of_int (max (category_cap policy) w)) t" for t
    using that assms(1,3)
  proof (induction evs arbitrary: t)
    case (Cons e evs)
    have "event_weight policy (ev_type e) \<le> w" using Cons.prems(2) by simp
    then have "(of_int (max (category_cap policy) (event_weight policy (ev_type e))) :: rat) \<le> of_int (max (category_cap policy) w)"
      unfolding of_int_le_iff by simp
    then have "tally_ok C (of_int (max (category_cap policy) w)) (score_event now policy e t)"
      using Cons.prems b by (intro score_event_ok) simp_all
    then show ?case using Cons by simp
  qed simp
  from this [of "\<lparr>total = 0, per_category = [], contributions = [], counted = 0\<rparr>"]
  show ?thesis unfolding tally_events_def by (simp add: tally_ok_def)
qed

lemma tally_total:
  assumes "tally_ok C (of_int b) t" "finite C" "0 \<le> b"
  shows "0 \<le> total t" "total t \<le> of_int (int (card C) * b)"
proof -
  have t: "distinct (map fst (per_category t))" "fst ` set (per_category t) \<subseteq> C"
    "\<And>v. v \<in> set (map snd (per_category t)) \<Longrightarrow> 0 \<le> v \<and> v \<le> of_int b" "total t = sum_list (map snd (per_category t))"
    using assms(1) by (auto simp: tally_ok_def)
  show "0 \<le> total t" unfolding t(4) using t(3) by (intro sum_list_nonneg) auto
  have l: "sum_list xs \<le> of_nat (length xs) * of_int b" if "\<And>v. v \<in> set xs \<Longrightarrow> v \<le> of_int b" for xs :: "rat list"
    using that by (induction xs) (auto simp: algebra_simps intro: add_mono)
  have "length (per_category t) \<le> card C"
    using t(1,2) assms(2) by (metis card_mono distinct_card length_map set_map)
  then have "int (length (per_category t)) * b \<le> int (card C) * b" using assms(3) by (intro mult_right_mono) auto
  then have "(of_int (int (length (per_category t)) * b) :: rat) \<le> of_int (int (card C) * b)" by (simp only: of_int_le_iff)
  moreover have "total t \<le> of_nat (length (per_category t)) * of_int b" unfolding t(4) using l [of "map snd (per_category t)"] t(3) by simp
  ultimately show "total t \<le> of_int (int (card C) * b)" by simp
qed

section \<open>Ladders\<close>

lemma pairwise_ok_sorted: "pairwise_ok xs = sorted xs"
  by (induction xs rule: pairwise_ok.induct) (auto simp: not_less intro: order_trans)

lemma validated_ladder:
  assumes "validate_ban_durations data = Inr ladder"
  shows "ladder \<noteq> []" "sorted ladder" "length ladder \<le> 6" "n \<in> set ladder \<Longrightarrow> 60 \<le> n \<and> n \<le> 365 * 86400"
proof -
  obtain x xs where d: "length (x # xs) \<le> 6" "emap ban_step (x # xs) = Inr ladder" "pairwise_ok ladder"
    using assms
    by (auto simp: validate_ban_durations_def MAX_BAN_STEPS_def not_less simp del: emap.simps
        split: json.splits list.splits if_splits)
  have a: "list_all2 (\<lambda>x y. ban_step x = Inr y) (x # xs) ladder" using d(2) unfolding emap_Inr_iff .
  show "ladder \<noteq> []" using a by auto
  show "sorted ladder" using d(3) by (simp add: pairwise_ok_sorted)
  show "length ladder \<le> 6" using list_all2_lengthD [OF a] d(1) by simp
  show "60 \<le> n \<and> n \<le> 365 * 86400" if n: "n \<in> set ladder"
  proof -
    obtain i where "i < length ladder" "ladder ! i = n" using n by (auto simp: in_set_conv_nth)
    then obtain y where "ban_step y = Inr n" using list_all2_nthD2 [OF a] by blast
    then show ?thesis by (cases y) (simp_all add: ban_step_def MIN_BAN_SECONDS_def MAX_BAN_SECONDS_def split: if_splits)
  qed
qed

end
