(* ===== verification/Guard_Facts.thy ===== *)
theory Guard_Facts
  imports Guard_Manual Guard_Score_Facts
begin

text \<open>
  Reasoning about the engine's actions: a small Hoare logic over the state and exception type of
  \<open>Guard_Engine\<close>, the behaviour of HAProxy the daemon relies on, and what each step of the
  enforcement cycle keeps.
\<close>

section \<open>Triples\<close>

text \<open>From a state with \<open>P\<close>, a result comes with \<open>Q\<close> and an exception with \<open>E\<close>.\<close>

definition valid :: "('s guard \<Rightarrow> bool) \<Rightarrow> ('s, 'a) act \<Rightarrow> ('a \<Rightarrow> 's guard \<Rightarrow> bool) \<Rightarrow> ('s guard \<Rightarrow> bool) \<Rightarrow> bool" where
  "valid P m Q E = (\<forall>g. P g \<longrightarrow> (case m g of (Inl e, g') \<Rightarrow> E g' | (Inr x, g') \<Rightarrow> Q x g'))"

lemma validI: "(\<And>g. P g \<Longrightarrow> case m g of (Inl e, g') \<Rightarrow> E g' | (Inr x, g') \<Rightarrow> Q x g') \<Longrightarrow> valid P m Q E"
  by (simp add: valid_def)

lemma validD: "valid P m Q E \<Longrightarrow> P g \<Longrightarrow> m g = (Inr x, g') \<Longrightarrow> Q x g'"
  by (force simp: valid_def)

lemma validE: "valid P m Q E \<Longrightarrow> P g \<Longrightarrow> m g = (Inl e, g') \<Longrightarrow> E g'"
  by (force simp: valid_def)

lemma valid_total: "valid P m Q (\<lambda>_. False) \<Longrightarrow> P g \<Longrightarrow> \<exists>x g'. m g = (Inr x, g') \<and> Q x g'"
  by (cases "m g"; cases "fst (m g)") (auto simp: valid_def)

lemma valid_conseq:
  "valid P m Q E \<Longrightarrow> (\<And>g. P' g \<Longrightarrow> P g) \<Longrightarrow> (\<And>x g. Q x g \<Longrightarrow> Q' x g) \<Longrightarrow> (\<And>g. E g \<Longrightarrow> E' g) \<Longrightarrow> valid P' m Q' E'"
  by (fastforce simp: valid_def split: prod.splits sum.splits)

lemma valid_gret: "(\<And>g. P g \<Longrightarrow> Q x g) \<Longrightarrow> valid P (gret x) Q E"
  by (simp add: valid_def gret_def)

lemma valid_gbind: "valid P m R E \<Longrightarrow> (\<And>x. valid (R x) (k x) Q E) \<Longrightarrow> valid P (gbind m k) Q E"
  by (fastforce simp: valid_def gbind_def split: prod.splits sum.splits)

lemma valid_gmodify: "(\<And>g. P g \<Longrightarrow> Q () (f g)) \<Longrightarrow> valid P (gmodify f) Q E"
  by (simp add: valid_def gmodify_def)

lemma valid_catch:
  "valid P m Q F \<Longrightarrow> (\<And>e. valid F (h e) Q E) \<Longrightarrow> (\<And>g. F g \<Longrightarrow> E g) \<Longrightarrow> valid P (catch_unsure m h) Q E"
  by (fastforce simp: valid_def catch_unsure_def split: prod.splits sum.splits)

lemma valid_gfor:
  assumes "\<And>x acc. x \<in> set xs \<Longrightarrow> valid (I acc) (f x acc) I E"
  shows "valid (I acc) (gfor f xs acc) I E"
  using assms
proof (induction xs arbitrary: acc)
  case Nil
  then show ?case by (simp add: valid_gret)
next
  case (Cons x xs)
  show ?case unfolding gfor.simps by (rule valid_gbind [where R = I]) (use Cons in auto)
qed

text \<open>A loop that settles each of its elements, and keeps what earlier ones settled.\<close>

lemma valid_gfor_each:
  assumes "\<And>x acc. x \<in> set xs \<Longrightarrow> valid I (f x acc) (\<lambda>_ g. I g \<and> C x g) E"
    and "\<And>x y acc. x \<in> set xs \<Longrightarrow> valid (\<lambda>g. I g \<and> C y g) (f x acc) (\<lambda>_ g. C y g) E"
  shows "valid I (gfor f xs acc) (\<lambda>_ g. I g \<and> (\<forall>x \<in> set xs. C x g)) E"
  using assms
proof (induction xs arbitrary: acc)
  case Nil
  then show ?case by (simp add: valid_gret)
next
  case (Cons x xs)
  have k: "valid (\<lambda>g. I g \<and> C y g) (gfor f ys acc) (\<lambda>_ g. I g \<and> C y g) E" if "set ys \<subseteq> set (x # xs)" for y ys acc
    using that
  proof (induction ys arbitrary: acc)
    case Nil
    then show ?case by (simp add: valid_gret)
  next
    case (Cons z zs)
    have "valid (\<lambda>g. I g \<and> C y g) (f z acc) (\<lambda>_ g. I g \<and> C y g) E" for acc
      using Cons.prems \<open>\<And>x acc. x \<in> set (_ # _) \<Longrightarrow> valid I (f x acc) (\<lambda>_ g. I g \<and> C x g) E\<close> [of z acc]
        \<open>\<And>x y acc. x \<in> set (_ # _) \<Longrightarrow> valid (\<lambda>g. I g \<and> C y g) (f x acc) (\<lambda>_ g. C y g) E\<close> [of z y acc]
      by (fastforce simp: valid_def split: prod.splits sum.splits)
    then show ?case using Cons unfolding gfor.simps by (intro valid_gbind) auto
  qed
  have "valid (\<lambda>g. I g \<and> C x g) (gfor f xs acc) (\<lambda>_ g. I g \<and> (\<forall>y \<in> set (x # xs). C y g)) E" for acc
    using k [of xs x acc] Cons.IH [of acc] Cons.prems
    by (fastforce simp: valid_def split: prod.splits sum.splits)
  then show ?case unfolding gfor.simps using Cons.prems(1) by (intro valid_gbind) auto
qed

section \<open>HAProxy\<close>

text \<open>
  What the daemon relies on of the runtime interface, as HAProxy documents it: reading changes
  nothing and a table that is returned is the table; \<open>set table\<close> and \<open>clear table\<close> touch one key; an
  empty answer means done, text means refused.  A lost answer says nothing about the key.
\<close>

type_synonym 's table_of = "'s \<Rightarrow> string \<Rightarrow> ban_row option"

definition show_law :: "'s runtime \<Rightarrow> 's table_of \<Rightarrow> bool" where
  "show_law rt tbl = (\<forall>k s. tbl (snd (show_table rt k s)) = tbl s \<and>
     (\<forall>rows. fst (show_table rt k s) = Inr rows \<longrightarrow>
       (case k of None \<Rightarrow> map_of rows = tbl s | Some ip \<Rightarrow> map_of rows ip = tbl s ip)))"

definition set_law :: "'s runtime \<Rightarrow> 's table_of \<Rightarrow> bool" where
  "set_law rt tbl = (\<forall>ip flag code s. (\<forall>x. x \<noteq> ip \<longrightarrow> tbl (snd (set_table rt ip flag code s)) x = tbl s x) \<and>
     (\<forall>answer. fst (set_table rt ip flag code s) = Inr answer \<longrightarrow>
       (if py_strip answer = [] then \<exists>f. tbl (snd (set_table rt ip flag code s)) ip = Some f \<and> gpc0 f = flag \<and> gpt0 f = code
        else tbl (snd (set_table rt ip flag code s)) = tbl s)))"

definition clear_law :: "'s runtime \<Rightarrow> 's table_of \<Rightarrow> bool" where
  "clear_law rt tbl = (\<forall>ip s. (\<forall>x. x \<noteq> ip \<longrightarrow> tbl (snd (clear_table rt ip s)) x = tbl s x) \<and>
     (\<forall>answer. fst (clear_table rt ip s) = Inr answer \<longrightarrow>
       (if py_strip answer = [] then tbl (snd (clear_table rt ip s)) ip = None
        else tbl (snd (clear_table rt ip s)) = tbl s)))"

definition haproxy_laws :: "'s runtime \<Rightarrow> 's table_of \<Rightarrow> bool" where
  "haproxy_laws rt tbl = (show_law rt tbl \<and> set_law rt tbl \<and> clear_law rt tbl
     \<and> (\<forall>s. tbl (snd (start_time rt s)) = tbl s))"

text \<open>A ban that is not this daemon's: an operator's, or one of HAProxy's own rules.\<close>

definition foreign_ban :: "ban_row \<Rightarrow> bool" where
  "foreign_ban f = (gpc0 f > 0 \<and> gpt0 f \<noteq> ADAPTIVE_BAN_CODE)"

definition entry_is :: "'s table_of \<Rightarrow> string \<Rightarrow> ban_row option \<Rightarrow> 's guard \<Rightarrow> bool" where
  "entry_is tbl ip f g = (tbl (hap g) ip = f)"

section \<open>Entries the enforcer keeps\<close>

lemma show_lawD:
  assumes "haproxy_laws rt tbl" "show_table rt k s = (r, s')"
  shows "tbl s' = tbl s" "r = Inr rows \<Longrightarrow> k = None \<Longrightarrow> map_of rows = tbl s" "r = Inr rows \<Longrightarrow> k = Some ip \<Longrightarrow> map_of rows ip = tbl s ip"
  using assms(1) [unfolded haproxy_laws_def show_law_def, THEN conjunct1, THEN spec, THEN spec, of k s] assms(2)
  by (auto split: option.splits)

lemma valid_read_bans:
  assumes "haproxy_laws rt tbl"
  shows "valid (entry_is tbl ip f) (read_bans rt k) (\<lambda>rows g. entry_is tbl ip f g \<and> (k = None \<or> k = Some ip \<longrightarrow> map_of rows ip = f))
     (entry_is tbl ip f)"
proof (rule validI)
  fix g assume g: "entry_is tbl ip f g"
  obtain r s where rs: "show_table rt k (hap g) = (r, s)" by (cases "show_table rt k (hap g)")
  show "case read_bans rt k g of (Inl e, g') \<Rightarrow> entry_is tbl ip f g' | (Inr rows, g') \<Rightarrow>
      entry_is tbl ip f g' \<and> (k = None \<or> k = Some ip \<longrightarrow> map_of rows ip = f)"
    using g show_lawD [OF assms rs] rs by (cases r) (auto simp: read_bans_def entry_is_def)
qed

lemma valid_write_other:
  assumes "haproxy_laws rt tbl" "ip \<noteq> a"
  shows "valid (entry_is tbl ip f) (write_ban rt a flag code) (\<lambda>_. entry_is tbl ip f) (entry_is tbl ip f)"
proof (rule validI)
  fix g assume g: "entry_is tbl ip f g"
  have "tbl (snd (set_table rt a flag code (hap g))) ip = f"
    using assms g unfolding haproxy_laws_def set_law_def entry_is_def by metis
  then show "case write_ban rt a flag code g of (Inl e, g') \<Rightarrow> entry_is tbl ip f g' | (Inr x, g') \<Rightarrow> entry_is tbl ip f g'"
    by (auto simp: write_ban_def entry_is_def split: prod.splits sum.splits)
qed

lemma valid_clear_other:
  assumes "haproxy_laws rt tbl" "ip \<noteq> a"
  shows "valid (entry_is tbl ip f) (clear_entry rt a) (\<lambda>_. entry_is tbl ip f) (entry_is tbl ip f)"
proof (rule validI)
  fix g assume g: "entry_is tbl ip f g"
  have "tbl (snd (clear_table rt a (hap g))) ip = f"
    using assms g unfolding haproxy_laws_def clear_law_def entry_is_def by metis
  then show "case clear_entry rt a g of (Inl e, g') \<Rightarrow> entry_is tbl ip f g' | (Inr x, g') \<Rightarrow> entry_is tbl ip f g'"
    by (auto simp: clear_entry_def entry_is_def split: prod.splits sum.splits)
qed

text \<open>Lifting removes only what carries the daemon's own code.\<close>

lemma valid_lift:
  assumes "haproxy_laws rt tbl" "\<And>f. e = Some f \<Longrightarrow> gpt0 f \<noteq> ADAPTIVE_BAN_CODE"
  shows "valid (entry_is tbl ip e) (lift rt a) (\<lambda>_. entry_is tbl ip e) (entry_is tbl ip e)"
  unfolding lift_def
proof (rule valid_gbind [OF valid_read_bans [OF assms(1), of ip e "Some a"]])
  fix rows
  show "valid (\<lambda>g. entry_is tbl ip e g \<and> (Some a = None \<or> Some a = Some ip \<longrightarrow> map_of rows ip = e))
     (case map_of rows a of None \<Rightarrow> gret False | Some f \<Rightarrow> if gpt0 f \<noteq> ADAPTIVE_BAN_CODE then gret False
         else gbind (clear_entry rt a) (\<lambda>_ g. (Inr True, g\<lparr>n_lifted := n_lifted g + 1\<rparr>)))
     (\<lambda>_. entry_is tbl ip e) (entry_is tbl ip e)"
  proof (cases "a = ip")
    case True
    then show ?thesis using assms(2) by (auto simp: valid_def gret_def split: option.splits)
  next
    case False
    then have "valid (entry_is tbl ip e) (gbind (clear_entry rt a) (\<lambda>_ g. (Inr True, g\<lparr>n_lifted := n_lifted g + 1\<rparr>)))
        (\<lambda>_. entry_is tbl ip e) (entry_is tbl ip e)"
      by (intro valid_gbind [OF valid_clear_other [OF assms(1)]]) (auto simp: valid_def entry_is_def)
    then show ?thesis by (auto simp: valid_def gret_def split: option.splits)
  qed
qed

lemma valid_ban_other:
  assumes "haproxy_laws rt tbl" "ip \<noteq> a"
  shows "valid (entry_is tbl ip f) (ban rt a) (\<lambda>_. entry_is tbl ip f) (entry_is tbl ip f)"
proof -
  have "valid (entry_is tbl ip f) (gbind (write_ban rt a 1 ADAPTIVE_BAN_CODE) (\<lambda>answer g'.
        if py_strip answer \<noteq> [] then (Inr False, g'\<lparr>n_failed := n_failed g' + 1\<rparr>)
        else (Inr True, g'\<lparr>n_applied := n_applied g' + 1\<rparr>))) (\<lambda>_. entry_is tbl ip f) (entry_is tbl ip f)"
    by (intro valid_gbind [OF valid_write_other [OF assms]]) (auto simp: valid_def entry_is_def)
  then show ?thesis by (auto simp: valid_def ban_def entry_is_def)
qed

section \<open>Entries a cycle keeps\<close>

lemma hap_simps [simp]:
  "hap (change_db h g) = hap g" "hap (note_decision ip now a src out c u g) = hap g" "hap (observe_alert r k g) = hap g"
  "hap (queue_enforcement_check ip t b g) = hap g"
  by (simp_all add: change_db_def note_decision_def observe_alert_def queue_enforcement_check_def split: option.splits)

lemma hap_emit [simp]: "hap (snd (emit e fp g)) = hap g"
  by (cases "cooldown_passed (if fp = [] then ev_ip e @ ''|'' @ ev_type e else fp) (ev_ts e)
        (case map_of COOLDOWN_SECONDS (ev_type e) of None \<Rightarrow> 60 | Some w \<Rightarrow> w) (db g)"; cases "fst (cooldown_passed
        (if fp = [] then ev_ip e @ ''|'' @ ev_type e else fp) (ev_ts e)
        (case map_of COOLDOWN_SECONDS (ev_type e) of None \<Rightarrow> 60 | Some w \<Rightarrow> w) (db g))")
     (simp_all add: emit_def Let_def)

lemma hap_burst [simp]: "hap (check_burst n now g) = hap g"
  by (simp add: check_burst_def Let_def)

lemma hap_after_lift [simp]: "hap (after_lift now enforcing ip until b g) = hap g"
  by (simp add: after_lift_def Let_def)

abbreviation keeps :: "'s table_of \<Rightarrow> string \<Rightarrow> ban_row option \<Rightarrow> ('s, 'a) act \<Rightarrow> bool" where
  "keeps tbl ip f m \<equiv> valid (entry_is tbl ip f) m (\<lambda>_. entry_is tbl ip f) (entry_is tbl ip f)"

lemma keeps_gret: "keeps tbl ip f (gret x)"
  by (rule valid_gret)

lemma keeps_gmodify: "(\<And>g. hap (h g) = hap g) \<Longrightarrow> keeps tbl ip f (gmodify h)"
  by (rule valid_gmodify) (simp add: entry_is_def)

lemma keeps_gbind: "keeps tbl ip f m \<Longrightarrow> (\<And>x. keeps tbl ip f (k x)) \<Longrightarrow> keeps tbl ip f (gbind m k)"
  by (rule valid_gbind)

lemma keeps_catch: "keeps tbl ip f m \<Longrightarrow> (\<And>e. keeps tbl ip f (h e)) \<Longrightarrow> keeps tbl ip f (catch_unsure m h)"
  by (rule valid_catch)

lemma keeps_gfor: "(\<And>x acc. x \<in> set xs \<Longrightarrow> keeps tbl ip f (k x acc)) \<Longrightarrow> keeps tbl ip f (gfor k xs acc)"
  by (rule valid_gfor)

lemma keeps_result: "(\<And>g. hap (h g) = hap g) \<Longrightarrow> keeps tbl ip f (\<lambda>g. (Inr (x g), h g))"
  by (simp add: valid_def entry_is_def)

lemma keeps_active_bans:
  assumes "haproxy_laws rt tbl"
  shows "valid (entry_is tbl ip (Some f)) (active_bans rt)
     (\<lambda>standing g. entry_is tbl ip (Some f) g \<and> (gpc0 f > 0 \<longrightarrow> map_of standing ip = Some (gpt0 f))) (entry_is tbl ip (Some f))"
proof -
  have m: "map_of (map (\<lambda>(ip, f). (ip, gpt0 f)) (filter (\<lambda>(ip, f). gpc0 f > 0) rows)) ip = Some (gpt0 f)"
    if "map_of rows ip = Some f" "gpc0 f > 0" for rows
    using that by (induction rows) (auto split: if_splits)
  show ?thesis
    unfolding active_bans_def
    by (rule valid_gbind [OF valid_read_bans [OF assms, of ip "Some f" None]], rule valid_gret) (simp add: m)
qed

lemma keeps_active: "haproxy_laws rt tbl \<Longrightarrow> keeps tbl ip (Some f) (active_bans rt)"
  by (rule valid_conseq [OF keeps_active_bans]) auto

lemma keeps_adaptive_bans: "haproxy_laws rt tbl \<Longrightarrow> keeps tbl ip f (adaptive_bans rt)"
  unfolding adaptive_bans_def
  by (rule valid_gbind, rule valid_read_bans) (auto simp: valid_def gret_def)

lemmas foreign_lift = valid_lift [where e = "Some f" for f]

lemma keeps_settle:
  assumes "haproxy_laws rt tbl" "foreign_ban f"
  shows "keeps tbl ip (Some f) (settle_pending_decisions rt now)"
proof -
  have l: "keeps tbl ip (Some f) (lift rt a)" for a
    using assms by (intro valid_lift) (auto simp: foreign_ban_def)
  have one: "keeps tbl ip (Some f) (settle_one rt now standing scheduled d u)" for standing scheduled d u
    unfolding settle_one_def Let_def
    by (auto intro!: keeps_gbind keeps_catch keeps_gret keeps_gmodify l split: if_splits)
  have loop: "keeps tbl ip (Some f) (gfor (settle_one rt now standing scheduled) ds ())" for standing scheduled ds
    by (rule keeps_gfor) (rule one)
  show ?thesis
  proof (rule validI)
    fix g assume g: "entry_is tbl ip (Some f) g"
    obtain r g1 where r: "active_bans rt g = (r, g1)" by (cases "active_bans rt g")
    have g1: "entry_is tbl ip (Some f) g1"
      using validD [OF keeps_active [OF assms(1)] g] validE [OF keeps_active [OF assms(1)] g] r by (cases r) auto
    show "case settle_pending_decisions rt now g of (Inl e, g') \<Rightarrow> entry_is tbl ip (Some f) g' | (Inr x, g') \<Rightarrow> entry_is tbl ip (Some f) g'"
    proof (cases r)
      case (Inl e)
      then show ?thesis using g g1 by (simp add: settle_pending_decisions_def r Let_def)
    next
      case (Inr standing)
      then show ?thesis using g g1 loop by (simp add: settle_pending_decisions_def r Let_def valid_def)
    qed
  qed
qed

lemma keeps_lift_scheduled:
  assumes "haproxy_laws rt tbl" "foreign_ban f"
  shows "keeps tbl ip (Some f) (lift_scheduled rt now enforcing x lifted)"
proof -
  have l: "keeps tbl ip (Some f) (lift rt a)" for a
    using assms by (intro valid_lift) (auto simp: foreign_ban_def)
  show ?thesis
    unfolding lift_scheduled_def
    by (cases x) (auto intro!: keeps_gbind keeps_catch keeps_gret keeps_result l split: option.splits)
qed

lemma keeps_sweep_one:
  assumes "haproxy_laws rt tbl" "foreign_ban f"
  shows "keeps tbl ip (Some f) (sweep_one rt scheduled a lifted)"
proof -
  have l: "keeps tbl ip (Some f) (lift rt a)" for a
    using assms by (intro valid_lift) (auto simp: foreign_ban_def)
  show ?thesis unfolding sweep_one_def by (auto intro!: keeps_gbind keeps_catch keeps_gret l)
qed

lemma keeps_reassert:
  assumes "haproxy_laws rt tbl" "map_of standing ip \<noteq> None"
  shows "keeps tbl ip f (reassert_one rt now standing x u)"
proof (cases x)
  case (Pair a until)
  show ?thesis using assms valid_ban_other [OF assms(1), of ip a f]
    by (cases "a = ip") (auto simp: Pair reassert_one_def intro!: keeps_gbind keeps_gret)
qed

lemma keeps_consider:
  assumes "haproxy_laws rt tbl" "foreign_ban f" "map_of standing ip = Some (gpt0 f)"
  shows "keeps tbl ip (Some f) (consider_row rt now scheduled standing a applied)"
proof (rule validI)
  fix g assume g: "entry_is tbl ip (Some f) g"
  let ?P = "\<lambda>r. case r of (Inl e, g') \<Rightarrow> entry_is tbl ip (Some f) g' | (Inr x, g') \<Rightarrow> entry_is tbl ip (Some f) g'"
  have ab: "?P (apply_ban rt now row applied g0)" if "r_ip row \<noteq> ip" "hap g0 = hap g" for row g0
  proof -
    obtain i d where rd: "record_decision (r_ip row) now ''applied'' ''adaptive'' ''pending'' ADAPTIVE_BAN_CODE (now + ban_duration (r_ip row) now g0)
          (int (strike_level (r_ip row) now g0) + 1) (r_score row) (ban_policy g0) (db g0) = (i, d)"
      by (cases "record_decision (r_ip row) now ''applied'' ''adaptive'' ''pending'' ADAPTIVE_BAN_CODE (now + ban_duration (r_ip row) now g0)
          (int (strike_level (r_ip row) now g0) + 1) (r_score row) (ban_policy g0) (db g0)")
    obtain b g1 where b: "ban rt (r_ip row) (g0\<lparr>db := d\<rparr>) = (b, g1)" by (cases "ban rt (r_ip row) (g0\<lparr>db := d\<rparr>)")
    have g0: "entry_is tbl ip (Some f) (g0\<lparr>db := d\<rparr>)" using g that(2) by (simp add: entry_is_def)
    have "entry_is tbl ip (Some f) g1"
      using validD [OF valid_ban_other [OF assms(1) that(1) [symmetric]] g0] validE [OF valid_ban_other [OF assms(1) that(1) [symmetric]] g0] b
      by (cases b) auto
    then show ?thesis using rd b by (cases b) (simp_all add: apply_ban_def gbind_def Let_def entry_is_def)
  qed
  have w: "r_ip row \<noteq> ip" if "wants_ban now scheduled standing row g0" for row g0
    using assms(2,3) that by (auto simp: wants_ban_def foreign_ban_def Let_def)
  show "?P (consider_row rt now scheduled standing a applied g)"
  proof (cases "wants_ban now scheduled standing (reputation_of a now (scoring_policy_of g) scheduled g)
      (g\<lparr>enforcement_checked := enforcement_checked g + 1\<rparr>)")
    case True
    then show ?thesis using ab [OF w [OF True], of "g\<lparr>enforcement_checked := enforcement_checked g + 1\<rparr>"]
      by (simp add: consider_row_def Let_def)
  next
    case False
    then show ?thesis using g by (simp add: consider_row_def Let_def entry_is_def)
  qed
qed

lemma keeps_rows:
  assumes "haproxy_laws rt tbl" "foreign_ban f" "map_of standing ip = Some (gpt0 f)"
  shows "keeps tbl ip (Some f) (enforcement_rows rt now scheduled standing applied)"
proof (rule validI)
  fix g assume g: "entry_is tbl ip (Some f) g"
  note c = keeps_consider [OF assms]
  have p: "keeps tbl ip (Some f) (pending_row rt now scheduled standing x acc)" for x acc
    unfolding pending_row_def by (cases x) (auto intro!: keeps_gbind keeps_result c)
  have s: "keeps tbl ip (Some f) (sweep_address rt now scheduled standing seen x acc)" for seen x acc
    unfolding sweep_address_def by (cases x) (auto intro!: keeps_gbind keeps_result keeps_gret c)
  have page: "hap (snd (sweep_page now n g')) = hap g'" for n g' by (simp add: sweep_page_def Let_def)
  have "keeps tbl ip (Some f) (\<lambda>g1. case sweep_page now n g1 of (page, g2) \<Rightarrow>
             gbind (gfor (sweep_address rt now scheduled standing seen) page acc) (\<lambda>acc' g3.
               (Inr acc', if length page < n then g3\<lparr>scan_after := (0, []), scan_before := 0\<rparr> else g3)) g2)" for n seen acc
  proof (rule validI)
    fix g1 assume g1: "entry_is tbl ip (Some f) g1"
    obtain pg g2 where sp: "sweep_page now n g1 = (pg, g2)" by (cases "sweep_page now n g1")
    have "entry_is tbl ip (Some f) g2" using g1 page [of n g1] sp by (simp add: entry_is_def)
    moreover have "keeps tbl ip (Some f) (gbind (gfor (sweep_address rt now scheduled standing seen) pg acc) (\<lambda>acc' g3.
               (Inr acc', if length pg < n then g3\<lparr>scan_after := (0, []), scan_before := 0\<rparr> else g3)))"
      by (intro keeps_gbind keeps_gfor keeps_result s) simp
    ultimately show "case (case sweep_page now n g1 of (page, g2) \<Rightarrow>
             gbind (gfor (sweep_address rt now scheduled standing seen) page acc) (\<lambda>acc' g3.
               (Inr acc', if length page < n then g3\<lparr>scan_after := (0, []), scan_before := 0\<rparr> else g3)) g2) of
         (Inl e, g') \<Rightarrow> entry_is tbl ip (Some f) g' | (Inr x, g') \<Rightarrow> entry_is tbl ip (Some f) g'"
      unfolding sp by (simp add: valid_def)
  qed
  then have "keeps tbl ip (Some f) (gbind (gfor (pending_row rt now scheduled standing) pending acc) (\<lambda>acc' g1.
         case sweep_page now n g1 of (page, g2) \<Rightarrow>
             gbind (gfor (sweep_address rt now scheduled standing seen) page acc') (\<lambda>acc' g3.
               (Inr acc', if length page < n then g3\<lparr>scan_after := (0, []), scan_before := 0\<rparr> else g3)) g2))" for n seen acc pending
    by (intro keeps_gbind keeps_gfor p)
  then show "case enforcement_rows rt now scheduled standing applied g of
         (Inl e, g') \<Rightarrow> entry_is tbl ip (Some f) g' | (Inr x, g') \<Rightarrow> entry_is tbl ip (Some f) g'"
    using g unfolding enforcement_rows_def Let_def by (simp add: valid_def entry_is_def)
qed

text \<open>The two halves of a cycle after the schedule has been dealt with.\<close>

definition paused_half :: "'s runtime \<Rightarrow> (string \<times> int) list \<Rightarrow> string list \<Rightarrow> ('s, enforcement_result) act" where
  "paused_half rt scheduled lifted =
     gbind (adaptive_bans rt) (\<lambda>ours.
     gbind (gfor (sweep_one rt scheduled) ours lifted) (\<lambda>lifted'.
       gret \<lparr>e_applied = [], e_lifted = lifted', e_enforcing = False\<rparr>))"

definition enforcing_half :: "'s runtime \<Rightarrow> int \<Rightarrow> (string \<times> int) list \<Rightarrow> string list \<Rightarrow> ('s, enforcement_result) act" where
  "enforcing_half rt now scheduled lifted =
     gbind (active_bans rt) (\<lambda>standing.
     gbind (gfor (reassert_one rt now standing) scheduled ()) (\<lambda>_.
     gbind (enforcement_rows rt now scheduled standing []) (\<lambda>applied g'.
       (Inr \<lparr>e_applied = applied, e_lifted = lifted, e_enforcing = True\<rparr>,
        if applied \<noteq> [] then check_burst (length applied) now g' else g'))))"

definition cycle_from :: "'s runtime \<Rightarrow> int \<Rightarrow> (string \<times> int) list \<Rightarrow> bool \<Rightarrow> ('s, enforcement_result) act" where
  "cycle_from rt now scheduled enforcing =
     gbind (gfor (lift_scheduled rt now enforcing) scheduled []) (\<lambda>lifted.
       if \<not> enforcing then paused_half rt scheduled lifted else enforcing_half rt now scheduled lifted)"

lemma apply_enforcement_cycle:
  "apply_enforcement rt now =
     gbind (gmodify (\<lambda>g. g\<lparr>enforcement_checked := 0\<rparr>)) (\<lambda>_.
     gbind (settle_pending_decisions rt now) (\<lambda>_ g. cycle_from rt now (scheduled_bans (db g)) (mode g = ''enforce'') g))"
  unfolding apply_enforcement_def cycle_from_def paused_half_def enforcing_half_def Let_def ..

lemma keeps_state: "(\<And>g0. keeps tbl ip f (k g0)) \<Longrightarrow> keeps tbl ip f (\<lambda>g. k g g)"
  by (auto simp: valid_def)

lemma keeps_cycle:
  assumes "haproxy_laws rt tbl" "foreign_ban f"
  shows "keeps tbl ip (Some f) (apply_enforcement rt now)"
proof -
  have p: "keeps tbl ip (Some f) (paused_half rt scheduled lifted)" for scheduled lifted
    unfolding paused_half_def
    by (intro keeps_gbind keeps_gfor keeps_gret keeps_adaptive_bans keeps_sweep_one assms)
  have e: "keeps tbl ip (Some f) (enforcing_half rt now scheduled lifted)" for scheduled lifted
    unfolding enforcing_half_def
  proof (rule valid_gbind [OF keeps_active_bans [OF assms(1)]])
    fix standing
    let ?k = "gbind (gfor (reassert_one rt now standing) scheduled ()) (\<lambda>_.
     gbind (enforcement_rows rt now scheduled standing []) (\<lambda>applied g'.
       (Inr \<lparr>e_applied = applied, e_lifted = lifted, e_enforcing = True\<rparr>,
        if applied \<noteq> [] then check_burst (length applied) now g' else g')))"
    have "keeps tbl ip (Some f) ?k" if "map_of standing ip = Some (gpt0 f)"
      using that by (intro keeps_gbind keeps_gfor keeps_reassert keeps_rows keeps_result assms) auto
    then show "valid (\<lambda>g. entry_is tbl ip (Some f) g \<and> (gpc0 f > 0 \<longrightarrow> map_of standing ip = Some (gpt0 f))) ?k
       (\<lambda>_. entry_is tbl ip (Some f)) (entry_is tbl ip (Some f))"
      using assms(2) by (auto simp: valid_def foreign_ban_def)
  qed
  have c: "keeps tbl ip (Some f) (cycle_from rt now scheduled enforcing)" for scheduled enforcing
    unfolding cycle_from_def using p e by (intro keeps_gbind keeps_gfor keeps_lift_scheduled assms) auto
  show ?thesis
    unfolding apply_enforcement_cycle
    by (intro keeps_gbind keeps_settle keeps_gmodify keeps_state [of _ _ _ "\<lambda>g0. cycle_from rt now (scheduled_bans (db g0)) (mode g0 = ''enforce'')"] c assms) simp
qed

end
