(* ===== verification/Guard_Schedule.thy ===== *)
theory Guard_Schedule
  imports Guard_Facts
begin

text \<open>
  What a cycle leaves alone: the mode, the exclusions and who signed in; and the end of every ban that is
  still being served.  \<open>same h m\<close> says that the action \<open>m\<close> never changes the reading \<open>h\<close>.
\<close>

section \<open>Readings an action keeps\<close>

definition same :: "('s guard \<Rightarrow> 'b) \<Rightarrow> ('s, 'a) act \<Rightarrow> bool" where
  "same h m = (\<forall>g. h (snd (m g)) = h g)"

lemma sameD: "same h m \<Longrightarrow> m g = (r, g') \<Longrightarrow> h g' = h g"
  by (metis same_def snd_conv)

lemma same_gret: "same h (gret x)"
  by (simp add: same_def gret_def)

lemma same_gmodify: "(\<And>g. h (f g) = h g) \<Longrightarrow> same h (gmodify f)"
  by (simp add: same_def gmodify_def)

lemma same_result: "(\<And>g. h (f g) = h g) \<Longrightarrow> same h (\<lambda>g. (Inr (x g), f g))"
  by (simp add: same_def)

lemma same_gbind: "same h m \<Longrightarrow> (\<And>x. same h (k x)) \<Longrightarrow> same h (gbind m k)"
  by (auto simp: same_def gbind_def split: prod.splits sum.splits) (metis snd_conv)+

lemma same_catch: "same h m \<Longrightarrow> (\<And>e. same h (k e)) \<Longrightarrow> same h (catch_unsure m k)"
  by (auto simp: same_def catch_unsure_def split: prod.splits sum.splits) (metis snd_conv)+

lemma same_gfor: "(\<And>x acc. x \<in> set xs \<Longrightarrow> same h (k x acc)) \<Longrightarrow> same h (gfor k xs acc)"
  by (induction xs arbitrary: acc) (auto intro: same_gbind same_gret)

lemmas same_rules = same_gret same_gmodify same_result same_gbind same_catch same_gfor

text \<open>Readings that the enforcer's own bookkeeping does not touch.\<close>

definition engine_reading :: "('s guard \<Rightarrow> 'b) \<Rightarrow> bool" where
  "engine_reading h = (\<forall>g s n. h (g\<lparr>hap := s\<rparr>) = h g \<and> h (g\<lparr>n_refused := n\<rparr>) = h g \<and> h (g\<lparr>n_applied := n\<rparr>) = h g
     \<and> h (g\<lparr>n_failed := n\<rparr>) = h g \<and> h (g\<lparr>n_lifted := n\<rparr>) = h g)"

lemma same_read: "engine_reading h \<Longrightarrow> same h (read_bans rt k)" "engine_reading h \<Longrightarrow> same h (write_ban rt a flag code)"
  by (auto simp: same_def read_bans_def write_ban_def engine_reading_def split: prod.splits)

lemma same_clear:
  assumes "engine_reading h"
  shows "same h (clear_entry rt a)"
proof -
  have "h (g\<lparr>hap := s, n_failed := n\<rparr>) = h (g\<lparr>hap := s\<rparr>)" for g s n using assms unfolding engine_reading_def by metis
  moreover have "h (g\<lparr>hap := s\<rparr>) = h g" for g s using assms unfolding engine_reading_def by metis
  ultimately show ?thesis by (auto simp: same_def clear_entry_def split: prod.splits sum.splits)
qed

lemma same_enforcer:
  assumes "engine_reading h"
  shows "same h (active_bans rt)" "same h (adaptive_bans rt)" "same h (lift rt a)" "same h (ban rt a)"
proof -
  have u: "h (g\<lparr>n_refused := n\<rparr>) = h g" "h (g\<lparr>n_applied := n\<rparr>) = h g" "h (g\<lparr>n_failed := n\<rparr>) = h g" "h (g\<lparr>n_lifted := n\<rparr>) = h g" for g n
    using assms unfolding engine_reading_def by metis+
  show "same h (active_bans rt)" "same h (adaptive_bans rt)"
    unfolding active_bans_def adaptive_bans_def by (intro same_rules same_read assms)+
  show "same h (lift rt a)"
    unfolding lift_def
    by (rule same_gbind [OF same_read(1) [OF assms]])
       (auto intro!: same_rules same_clear assms simp: u split: option.splits)
  have "same h (gbind (write_ban rt a 1 ADAPTIVE_BAN_CODE) (\<lambda>answer g'.
        if py_strip answer \<noteq> [] then (Inr False, g'\<lparr>n_failed := n_failed g' + 1\<rparr>)
        else (Inr True, g'\<lparr>n_applied := n_applied g' + 1\<rparr>)))"
    by (rule same_gbind [OF same_read(2) [OF assms]]) (simp add: same_def u)
  then show "same h (ban rt a)" by (simp add: same_def ban_def u)
qed

section \<open>What the database keeps\<close>

definition ban_end :: "string \<Rightarrow> guard_db \<Rightarrow> int" where
  "ban_end ip d = (case map_of (ip_state d) ip of None \<Rightarrow> 0 | Some row \<Rightarrow> banned_until row)"

definition signed_in_at :: "string \<Rightarrow> guard_db \<Rightarrow> int" where
  "signed_in_at ip d = (case map_of (ip_state d) ip of None \<Rightarrow> 0 | Some row \<Rightarrow> authenticated_at row)"

lemma distinct_jput: "distinct (map fst (jput k v xs)) = distinct (map fst xs)"
  by (induction xs) (auto simp: fst_set_jput)

lemma reads_observe:
  "ban_end ip (observe_ip a ts v d) = ban_end ip d" "signed_in_at ip (observe_ip a ts v d) = signed_in_at ip d"
  "distinct (map fst (ip_state (observe_ip a ts v d))) = distinct (map fst (ip_state d))"
  by (auto simp: observe_ip_def ban_end_def signed_in_at_def distinct_jput split: option.splits)

lemma reads_update:
  "a \<noteq> ip \<Longrightarrow> ban_end ip (update_ip a f d) = ban_end ip d"
  "(\<And>r. authenticated_at (f r) = authenticated_at r) \<Longrightarrow> signed_in_at ip (update_ip a f d) = signed_in_at ip d"
  "distinct (map fst (ip_state (update_ip a f d))) = distinct (map fst (ip_state d))"
  by (auto simp: update_ip_def ban_end_def signed_in_at_def distinct_jput split: option.splits)

lemma ip_state_simps [simp]:
  "ip_state (record_events es d) = ip_state d" "ip_state (settle_decision i out d) = ip_state d"
  "ip_state (snd (record_decision ip ts a src out c u st sc p d)) = ip_state d" "ip_state (snd (cooldown_passed fp ts w d)) = ip_state d"
  by (auto simp: record_events_def settle_decision_def record_decision_def cooldown_passed_def split: option.splits)

text \<open>The three readings of this section, of the engine's database.\<close>

definition db_reading :: "(guard_db \<Rightarrow> 'b) \<Rightarrow> bool" where
  "db_reading r = ((\<forall>d d'. ip_state d = ip_state d' \<longrightarrow> r d = r d') \<and> (\<forall>a ts v d. r (observe_ip a ts v d) = r d))"

lemma db_readings:
  "db_reading (ban_end ip)" "db_reading (signed_in_at ip)" "db_reading (\<lambda>d. distinct (map fst (ip_state d)))"
  unfolding db_reading_def by (simp_all add: reads_observe) (simp_all add: ban_end_def signed_in_at_def)

lemma db_reading_eq: "db_reading r \<Longrightarrow> ip_state d = ip_state d' \<Longrightarrow> r d = r d'"
  unfolding db_reading_def by blast

lemma db_reading_ops:
  assumes "db_reading r"
  shows "r (record_events es d) = r d" "r (settle_decision i out d) = r d"
    "r (snd (record_decision ip ts a src out c u st sc p d)) = r d" "r (snd (cooldown_passed fp ts w d)) = r d"
    "r (observe_ip a' ts' v d) = r d"
proof -
  show "r (observe_ip a' ts' v d) = r d" using assms unfolding db_reading_def by blast
qed (rule db_reading_eq [OF assms], simp)+

lemma emit_db:
  "\<exists>d. ip_state d = ip_state (db g) \<and> (db (snd (emit e fp g)) = d \<or>
     db (snd (emit e fp g)) = record_events [e] (observe_ip (ev_ip e) (ev_ts e) (verdict_for (excl g) (ev_ip e)) d))"
proof -
  define key where "key = (if fp = [] then ev_ip e @ ''|'' @ ev_type e else fp)"
  define w where "w = (case map_of COOLDOWN_SECONDS (ev_type e) of None \<Rightarrow> 60 | Some w \<Rightarrow> w)"
  obtain b d where c: "cooldown_passed key (ev_ts e) w (db g) = (b, d)" by (cases "cooldown_passed key (ev_ts e) w (db g)")
  have "ip_state d = ip_state (db g)" using ip_state_simps(4) [of key "ev_ts e" w "db g"] c by simp
  moreover have "db (snd (emit e fp g)) = d \<or>
     db (snd (emit e fp g)) = record_events [e] (observe_ip (ev_ip e) (ev_ts e) (verdict_for (excl g) (ev_ip e)) d)"
    unfolding emit_def Let_def key_def [symmetric] w_def [symmetric] c
    by (cases b) (simp_all add: queue_enforcement_check_def)
  ultimately show ?thesis by blast
qed

lemma db_simps:
  "db (observe_alert rule k g) = db g" "db (check_burst n now g) = db g"
  by (simp_all add: observe_alert_def check_burst_def Let_def split: option.splits)

lemma same_db_steps:
  assumes "db_reading r"
  shows "r (db (snd (emit e fp g))) = r (db g)" "r (db (note_decision ip now a src out c u g)) = r (db g)"
    "r (db (observe_alert rule k g)) = r (db g)" "r (db (check_burst n now g)) = r (db g)"
proof -
  obtain d where d: "ip_state d = ip_state (db g)" "db (snd (emit e fp g)) = d \<or>
     db (snd (emit e fp g)) = record_events [e] (observe_ip (ev_ip e) (ev_ts e) (verdict_for (excl g) (ev_ip e)) d)"
    using emit_db by blast
  have "r d = r (db g)" using assms d(1) by (rule db_reading_eq)
  then show "r (db (snd (emit e fp g))) = r (db g)" using d(2) db_reading_ops(1,5) [OF assms] by auto
  show "r (db (note_decision ip now a src out c u g)) = r (db g)" by (simp add: note_decision_def db_reading_ops(3) [OF assms])
qed (simp_all add: db_simps)

text \<open>Addresses whose ban may change without changing the reading.\<close>

definition harmless :: "(guard_db \<Rightarrow> 'b) \<Rightarrow> string \<Rightarrow> bool" where
  "harmless r a = (\<forall>f d. (\<forall>x. authenticated_at (f x) = authenticated_at x) \<longrightarrow> r (update_ip a f d) = r d)"

lemma harmless_facts:
  "a \<noteq> ip \<Longrightarrow> harmless (ban_end ip) a" "harmless (signed_in_at ip) a" "harmless (\<lambda>d. distinct (map fst (ip_state d))) a"
  unfolding harmless_def by (simp_all add: reads_update)

lemma harmless_ops:
  assumes "db_reading r" "harmless r a"
  shows "r (clear_ban a d) = r d" "r (commit_ban i a until code now detail d) = r d"
  using assms(2) unfolding clear_ban_def commit_ban_def db_reading_ops [OF assms(1)] harmless_def by simp_all

lemma same_after_lift:
  assumes "db_reading r" "until \<le> now \<Longrightarrow> harmless r a"
  shows "r (db (after_lift now enforcing a until b g)) = r (db g)"
  using assms(2) by (simp add: after_lift_def Let_def change_db_def harmless_ops(1) [OF assms(1)] same_db_steps [OF assms(1)])

section \<open>A cycle\<close>

lemma engine_db: "engine_reading (\<lambda>g. r (db g))"
  by (simp add: engine_reading_def)

lemma same_lift_scheduled:
  assumes "db_reading r" "snd x \<le> now \<Longrightarrow> harmless r (fst x)"
  shows "same (\<lambda>g. r (db g)) (lift_scheduled rt now enforcing x lifted)"
  using assms(2) unfolding lift_scheduled_def
  by (cases x) (auto intro!: same_rules same_enforcer engine_db same_after_lift assms(1) split: option.splits)

lemma same_settle_one:
  assumes "db_reading r" "map_of scheduled (d_ip d) = None \<Longrightarrow> harmless r (d_ip d)"
  shows "same (\<lambda>g. r (db g)) (settle_one rt now standing scheduled d u)"
  using assms(2) unfolding settle_one_def Let_def
  by (auto intro!: same_rules same_enforcer engine_db simp: change_db_def harmless_ops [OF assms(1)] db_reading_ops [OF assms(1)])

lemma same_settle:
  assumes "db_reading r" "\<And>a. map_of (scheduled_bans (db g)) a = None \<Longrightarrow> harmless r a"
  shows "r (db (snd (settle_pending_decisions rt now g))) = r (db g)"
proof -
  obtain x g1 where a: "active_bans rt g = (x, g1)" by (cases "active_bans rt g")
  have d: "db g1 = db g" using sameD [OF same_enforcer(1) [OF engine_db [of "\<lambda>d. d"]] a] .
  have "same (\<lambda>g. r (db g)) (gfor (settle_one rt now standing (scheduled_bans (db g))) ds ())" for standing ds
    using assms by (intro same_rules same_settle_one) auto
  then show ?thesis using a d by (cases x) (simp_all add: settle_pending_decisions_def Let_def same_def)
qed

lemma same_apply_ban:
  fixes rt :: "'s runtime"
  assumes "db_reading r" "harmless r (r_ip row)"
  shows "same (\<lambda>g. r (db g)) (apply_ban rt now row applied)"
  unfolding same_def
proof
  fix g :: "'s guard"
  define d where "d = snd (record_decision (r_ip row) now ''applied'' ''adaptive'' ''pending'' ADAPTIVE_BAN_CODE (now + ban_duration (r_ip row) now g)
          (int (strike_level (r_ip row) now g) + 1) (r_score row) (ban_policy g) (db g))"
  obtain b g1 where b: "ban rt (r_ip row) (g\<lparr>db := d\<rparr>) = (b, g1)" by (cases "ban rt (r_ip row) (g\<lparr>db := d\<rparr>)")
  have "r (db g1) = r d" using sameD [OF same_enforcer(4) [OF engine_db [of r]] b] by simp
  moreover have "r d = r (db g)" unfolding d_def by (rule db_reading_ops(3) [OF assms(1)])
  ultimately show "r (db (snd (apply_ban rt now row applied g))) = r (db g)"
    using b harmless_ops(2) [OF assms] db_reading_ops(2) [OF assms(1)]
    by (cases b) (simp_all add: apply_ban_def Let_def case_prod_beta d_def [symmetric] gbind_def change_db_def db_simps)
qed

lemma r_ip_reputation [simp]: "r_ip (reputation_of a now policy scheduled g) = a"
  by (simp add: reputation_of_def Let_def)

lemma same_consider:
  fixes rt :: "'s runtime"
  assumes "db_reading r" "\<And>u. map_of scheduled a = Some u \<Longrightarrow> u \<le> now \<Longrightarrow> harmless r a" "map_of scheduled a = None \<Longrightarrow> harmless r a"
  shows "same (\<lambda>g. r (db g)) (consider_row rt now scheduled standing a applied)"
  unfolding same_def
proof
  fix g :: "'s guard"
  let ?row = "reputation_of a now (scoring_policy_of g) scheduled g" and ?g1 = "g\<lparr>enforcement_checked := enforcement_checked g + 1\<rparr>"
  show "r (db (snd (consider_row rt now scheduled standing a applied g))) = r (db g)"
  proof (cases "wants_ban now scheduled standing ?row ?g1")
    case True
    then have "harmless r a" using assms(2,3) by (auto simp: wants_ban_def Let_def not_less split: option.splits)
    then have "r (db (snd (apply_ban rt now ?row applied ?g1))) = r (db ?g1)"
      using same_apply_ban [OF assms(1), of ?row rt now applied] by (simp add: same_def)
    then show ?thesis using True by (simp add: consider_row_def Let_def)
  next
    case False
    then show ?thesis by (simp add: consider_row_def Let_def)
  qed
qed

lemma same_rows:
  fixes rt :: "'s runtime"
  assumes "db_reading r" "\<And>a u. map_of scheduled a = Some u \<Longrightarrow> u \<le> now \<Longrightarrow> harmless r a"
    "\<And>a. map_of scheduled a = None \<Longrightarrow> harmless r a"
  shows "same (\<lambda>g. r (db g)) (enforcement_rows rt now scheduled standing applied)"
proof -
  note c = same_consider [OF assms(1), of scheduled _ now rt standing, OF assms(2,3)]
  have p: "same (\<lambda>g. r (db g)) (pending_row rt now scheduled standing x acc)" for x acc
    unfolding pending_row_def by (cases x) (auto intro!: same_rules c)
  have s: "same (\<lambda>g. r (db g)) (sweep_address rt now scheduled standing seen x acc)" for seen x acc
    unfolding sweep_address_def by (cases x) (auto intro!: same_rules c)
  have page: "db (snd (sweep_page now n g')) = db g'" for n and g' :: "'s guard" by (simp add: sweep_page_def Let_def)
  have "same (\<lambda>g. r (db g)) (\<lambda>g1. case sweep_page now n g1 of (page, g2) \<Rightarrow>
             gbind (gfor (sweep_address rt now scheduled standing seen) page acc) (\<lambda>acc' g3.
               (Inr acc', if length page < n then g3\<lparr>scan_after := (0, []), scan_before := 0\<rparr> else g3)) g2)" for n seen acc
    unfolding same_def
  proof
    fix g1 :: "'s guard"
    obtain pg g2 where sp: "sweep_page now n g1 = (pg, g2)" by (cases "sweep_page now n g1")
    have "same (\<lambda>g. r (db g)) (gbind (gfor (sweep_address rt now scheduled standing seen) pg acc) (\<lambda>acc' g3.
               (Inr acc', if length pg < n then g3\<lparr>scan_after := (0, []), scan_before := 0\<rparr> else g3)))"
      by (intro same_rules s) simp
    then show "r (db (snd (case sweep_page now n g1 of (page, g2) \<Rightarrow>
             gbind (gfor (sweep_address rt now scheduled standing seen) page acc) (\<lambda>acc' g3.
               (Inr acc', if length page < n then g3\<lparr>scan_after := (0, []), scan_before := 0\<rparr> else g3)) g2))) = r (db g1)"
      using page [of n g1] by (simp add: sp same_def)
  qed
  then have "same (\<lambda>g. r (db g)) (gbind (gfor (pending_row rt now scheduled standing) pending acc) (\<lambda>acc' g1.
         case sweep_page now n g1 of (page, g2) \<Rightarrow>
             gbind (gfor (sweep_address rt now scheduled standing seen) page acc') (\<lambda>acc' g3.
               (Inr acc', if length page < n then g3\<lparr>scan_after := (0, []), scan_before := 0\<rparr> else g3)) g2))" for n seen acc pending
    by (intro same_rules p)
  then show ?thesis unfolding enforcement_rows_def Let_def by (simp add: same_def)
qed

lemma same_cycle_from:
  fixes rt :: "'s runtime"
  assumes "db_reading r" "\<And>a u. (a, u) \<in> set scheduled \<Longrightarrow> u \<le> now \<Longrightarrow> harmless r a" "\<And>a. map_of scheduled a = None \<Longrightarrow> harmless r a"
  shows "same (\<lambda>g. r (db g)) (cycle_from rt now scheduled enforcing)"
proof -
  have s: "same (\<lambda>g. r (db g)) (gfor (lift_scheduled rt now enforcing) scheduled [])"
    using assms(2) by (intro same_rules same_lift_scheduled assms(1)) auto
  have p: "same (\<lambda>g. r (db g)) (paused_half rt scheduled lifted)" for lifted
    unfolding paused_half_def sweep_one_def
    by (auto intro!: same_rules same_enforcer engine_db)
  have re: "same (\<lambda>g. r (db g)) (reassert_one rt now standing x u)" for standing x u
    unfolding reassert_one_def by (cases x) (auto intro!: same_rules same_enforcer engine_db)
  have e: "same (\<lambda>g. r (db g)) (enforcing_half rt now scheduled lifted)" for lifted
    unfolding enforcing_half_def
    using assms(2,3) by (intro same_rules same_enforcer engine_db re same_rows assms(1)) (auto simp: db_simps dest: map_of_SomeD)
  show ?thesis unfolding cycle_from_def using p e by (intro same_gbind s) simp
qed

text \<open>The end of a ban that is still being served is not touched by a cycle, in any mode.\<close>

lemma scheduled_bans_facts:
  assumes "distinct (map fst (ip_state d))"
  shows "0 < ban_end ip d \<Longrightarrow> map_of (scheduled_bans d) ip = Some (ban_end ip d)" "(ip, u) \<in> set (scheduled_bans d) \<Longrightarrow> u = ban_end ip d"
proof -
  have m: "map_of (scheduled_bans d) ip = (if 0 < ban_end ip d then Some (ban_end ip d) else None)"
  proof -
    have "map_of (map (\<lambda>(ip, row). (ip, banned_until row)) (filter (\<lambda>(ip, row). banned_until row > 0) xs)) ip =
       (case map_of xs ip of None \<Rightarrow> None | Some row \<Rightarrow> if 0 < banned_until row then Some (banned_until row) else None)"
      if "distinct (map fst xs)" for xs
      using that
    proof (induction xs)
      case (Cons x xs)
      obtain a row where x: "x = (a, row)" by (cases x)
      have "map_of xs a = None" using Cons.prems by (simp add: x map_of_eq_None_iff)
      then show ?case using Cons by (auto simp: x)
    qed simp
    from this [OF assms] show ?thesis by (simp add: scheduled_bans_def ban_end_def split: option.splits)
  qed
  then show "0 < ban_end ip d \<Longrightarrow> map_of (scheduled_bans d) ip = Some (ban_end ip d)" by simp
  have "distinct (map fst (scheduled_bans d))"
    using assms by (auto simp: scheduled_bans_def distinct_map inj_on_def comp_def case_prod_beta)
  then show "(ip, u) \<in> set (scheduled_bans d) \<Longrightarrow> u = ban_end ip d"
    using m by (metis map_of_is_SomeI option.distinct(1) option.inject)
qed

lemma cycle_keeps_ban_end:
  assumes "distinct (map fst (ip_state (db g)))" "0 \<le> now" "now < ban_end ip (db g)"
  shows "ban_end ip (db (snd (apply_enforcement rt now g))) = ban_end ip (db g)"
proof -
  let ?g0 = "g\<lparr>enforcement_checked := 0\<rparr>"
  obtain x g1 where s: "settle_pending_decisions rt now ?g0 = (x, g1)" by (cases "settle_pending_decisions rt now ?g0")
  have "harmless (ban_end ip) a" if "map_of (scheduled_bans (db ?g0)) a = None" for a
    using that scheduled_bans_facts(1) [OF assms(1), of ip] assms(2,3) by (intro harmless_facts) auto
  from same_settle [where rt = rt and now = now and g = ?g0, OF db_readings(1) this] have b: "ban_end ip (db g1) = ban_end ip (db g)" using s by simp
  from same_settle [where rt = rt and now = now and g = ?g0, OF db_readings(3) harmless_facts(3)] have d: "distinct (map fst (ip_state (db g1)))"
    using s assms(1) by simp
  have "same (\<lambda>g. ban_end ip (db g)) (cycle_from rt now (scheduled_bans (db g1)) enforcing)" for enforcing
  proof (rule same_cycle_from [OF db_readings(1)])
    show "harmless (ban_end ip) a" if "(a, u) \<in> set (scheduled_bans (db g1))" "u \<le> now" for a u
      using that scheduled_bans_facts(2) [OF d] b assms(3) by (intro harmless_facts) auto
    show "harmless (ban_end ip) a" if "map_of (scheduled_bans (db g1)) a = None" for a
      using that scheduled_bans_facts(1) [OF d, of ip] b assms(2,3) by (intro harmless_facts) auto
  qed
  then show ?thesis
    using b by (cases x) (simp_all add: apply_enforcement_cycle gbind_def gmodify_def s same_def)
qed

section \<open>The mode\<close>

lemma mode_settle: "mode (snd (settle_pending_decisions rt now g)) = mode g"
proof -
  have r: "engine_reading mode" by (simp add: engine_reading_def)
  have one: "same mode (settle_one rt now standing scheduled d u)" for standing scheduled d u
    unfolding settle_one_def Let_def
    by (auto intro!: same_rules same_enforcer r simp: change_db_def)
  obtain x g1 where a: "active_bans rt g = (x, g1)" by (cases "active_bans rt g")
  have "mode g1 = mode g" using sameD [OF same_enforcer(1) [OF r] a] .
  moreover have "same mode (gfor (settle_one rt now standing scheduled) ds ())" for standing scheduled ds
    by (intro same_rules one)
  ultimately show ?thesis by (cases x) (simp_all add: settle_pending_decisions_def Let_def a same_def)
qed

lemma same_mode_steps:
  "mode (change_db h g) = mode g" "mode (note_decision ip now a src out c u g) = mode g" "mode (snd (emit e fp g)) = mode g"
  "mode (after_lift now enforcing ip until b g) = mode g" "mode (observe_alert rule k g) = mode g" "mode (check_burst n now g) = mode g"
proof -
  show c: "mode (change_db h g) = mode g" "mode (note_decision ip now a src out c u g) = mode g" for h g ip now a src out c u
    by (simp_all add: change_db_def note_decision_def)
  show e: "mode (snd (emit e fp g)) = mode g" for e fp g
    by (auto simp: emit_def Let_def queue_enforcement_check_def split: prod.splits bool.splits)
  show "mode (after_lift now enforcing ip until b g) = mode g" by (simp add: after_lift_def Let_def c e)
  show o: "mode (observe_alert rule k g) = mode g" for rule k g by (simp add: observe_alert_def split: option.splits)
  show "mode (check_burst n now g) = mode g" by (simp add: check_burst_def Let_def o)
qed

text \<open>A cycle outside \<open>enforce\<close> keeps the mode.\<close>

lemma mode_cycle:
  assumes "mode g \<noteq> ''enforce''"
  shows "mode (snd (apply_enforcement rt now g)) = mode g"
proof -
  have r: "engine_reading mode" by (simp add: engine_reading_def)
  have l: "same mode (lift_scheduled rt now enforcing x lifted)" for enforcing x lifted
    unfolding lift_scheduled_def
    by (cases x) (auto intro!: same_rules same_enforcer r simp: same_mode_steps split: option.splits)
  have p: "same mode (paused_half rt scheduled lifted)" for scheduled lifted
    unfolding paused_half_def sweep_one_def by (auto intro!: same_rules same_enforcer r)
  have c: "same mode (cycle_from rt now scheduled False)" for scheduled
    unfolding cycle_from_def using p by (intro same_gbind same_gfor l) simp
  obtain x g1 where s: "settle_pending_decisions rt now (g\<lparr>enforcement_checked := 0\<rparr>) = (x, g1)"
    by (cases "settle_pending_decisions rt now (g\<lparr>enforcement_checked := 0\<rparr>)")
  have "mode g1 = mode g" using mode_settle [of rt now "g\<lparr>enforcement_checked := 0\<rparr>"] s by simp
  then show ?thesis using c [of "scheduled_bans (db g1)"] s assms
    by (cases x) (simp_all add: apply_enforcement_cycle gbind_def gmodify_def same_def)
qed

end
