(* ===== verification/Guard_Offenders.thy ===== *)
theory Guard_Offenders
  imports Guard_Schedule
begin

text \<open>
  Who gets banned: every address a cycle bans may be banned by the rules that are not tunable, and the
  decision with its score is on record.
\<close>

section \<open>Justified and recorded bans\<close>

definition may_be_banned :: "int \<Rightarrow> exclusions \<Rightarrow> string \<Rightarrow> (string \<Rightarrow> int) \<Rightarrow> string \<Rightarrow> bool" where
  "may_be_banned now ex pol signed a =
     (enforceable a \<and> \<not> v_excluded (verdict_for ex a) \<and>
      (signed a = 0 \<or> pol = ''u02'' \<and> signed a < now - 7 * 86400))"

definition ban_recorded :: "int \<Rightarrow> guard_db \<Rightarrow> string \<Rightarrow> bool" where
  "ban_recorded now d a = (\<exists>x \<in> set (decisions d). d_ip x = a \<and> d_ts x = now \<and> d_action x = ''applied'' \<and>
     d_source x = ''adaptive'' \<and> d_outcome x = ''applied'' \<and> d_score x \<ge> 60)"

lemma wants_ban_justified:
  assumes "wants_ban now scheduled standing (reputation_of a now policy scheduled g) g'" "ban_policy g' = ban_policy g"
  shows "may_be_banned now (excl g) (ban_policy g) (\<lambda>a. signed_in_at a (db g)) a"
    "60 \<le> r_score (reputation_of a now policy scheduled g)"
proof -
  let ?r = "reputation_of a now policy scheduled g"
  have b: "ban_blockers (ban_policy g) now ?r = []" and s: "WOULD_BAN_SCORE \<le> r_score ?r"
    using assms by (auto simp: wants_ban_def Let_def)
  have "\<not> r_excluded ?r" "r_enforceable ?r" "r_authenticated_at ?r = 0 \<or> ban_policy g = ''u02'' \<and> r_authenticated_at ?r < now - 7 * 86400"
    using b by (auto simp: ban_blockers_def TRUST_AFTER_SIGN_IN_SECONDS_def split: if_splits)
  then show "may_be_banned now (excl g) (ban_policy g) (\<lambda>a. signed_in_at a (db g)) a"
    by (simp add: may_be_banned_def reputation_of_def Let_def signed_in_at_def)
  show "60 \<le> r_score ?r" using s by (simp add: WOULD_BAN_SCORE_def)
qed

lemma recorded_ops:
  "ban_recorded now d a \<Longrightarrow> ban_recorded now (snd (record_decision ip ts act src out c u st sc p d)) a"
  "ban_recorded now d a \<Longrightarrow> ban_recorded now (settle_decision i out d) a"
  "ban_recorded now d a \<Longrightarrow> ban_recorded now (commit_ban i ip until code t detail d) a"
proof -
  show s: "ban_recorded now d a \<Longrightarrow> ban_recorded now (settle_decision i out d) a" for i out d
    unfolding ban_recorded_def settle_decision_def by fastforce
  show "ban_recorded now d a \<Longrightarrow> ban_recorded now (snd (record_decision ip ts act src out c u st sc p d)) a"
    by (auto simp: ban_recorded_def record_decision_def)
  have "decisions (record_events es (update_ip ip f d)) = decisions d" for es f
    by (simp add: record_events_def update_ip_def split: option.splits)
  then have "ban_recorded now (record_events es (update_ip ip f d)) a = ban_recorded now d a" for es f
    by (simp add: ban_recorded_def)
  then show "ban_recorded now d a \<Longrightarrow> ban_recorded now (commit_ban i ip until code t detail d) a"
    unfolding commit_ban_def by (simp add: s)
qed

lemma commit_records:
  assumes "record_decision a now ''applied'' ''adaptive'' ''pending'' code u st score p d = (i, d')" "60 \<le> score"
  shows "ban_recorded now (commit_ban i a until code' t detail d') a"
proof -
  have "decisions (record_events es (update_ip a f d')) = decisions d'" for es f
    by (simp add: record_events_def update_ip_def split: option.splits)
  then show ?thesis using assms by (auto simp: record_decision_def commit_ban_def settle_decision_def ban_recorded_def)
qed

section \<open>The loops\<close>

definition good_bans :: "int \<Rightarrow> exclusions \<Rightarrow> string \<Rightarrow> (string \<Rightarrow> int) \<Rightarrow> string list \<Rightarrow> 's guard \<Rightarrow> bool" where
  "good_bans now ex pol signed applied g =
     (excl g = ex \<and> ban_policy g = pol \<and> (\<lambda>a. signed_in_at a (db g)) = signed \<and>
      (\<forall>a \<in> set applied. may_be_banned now ex pol signed a \<and> ban_recorded now (db g) a))"

lemma good_apply_ban:
  fixes rt :: "'s runtime"
  assumes "good_bans now ex pol signed applied g" "may_be_banned now ex pol signed (r_ip row)" "60 \<le> r_score row"
    "apply_ban rt now row applied g = (Inr applied', g')"
  shows "good_bans now ex pol signed applied' g'"
proof -
  let ?dur = "ban_duration (r_ip row) now g"
  obtain i d where rd: "record_decision (r_ip row) now ''applied'' ''adaptive'' ''pending'' ADAPTIVE_BAN_CODE (now + ?dur)
      (int (strike_level (r_ip row) now g) + 1) (r_score row) (ban_policy g) (db g) = (i, d)"
    by (cases "record_decision (r_ip row) now ''applied'' ''adaptive'' ''pending'' ADAPTIVE_BAN_CODE (now + ?dur)
      (int (strike_level (r_ip row) now g) + 1) (r_score row) (ban_policy g) (db g)")
  obtain b g1 where b: "ban rt (r_ip row) (g\<lparr>db := d\<rparr>) = (b, g1)" by (cases "ban rt (r_ip row) (g\<lparr>db := d\<rparr>)")
  have k: "excl g1 = excl g" "ban_policy g1 = ban_policy g" "db g1 = d"
    using sameD [OF same_enforcer(4) [of excl] b] sameD [OF same_enforcer(4) [of ban_policy] b] sameD [OF same_enforcer(4) [of db] b]
    by (simp_all add: engine_reading_def)
  have d: "signed_in_at a d = signed_in_at a (db g)" "ban_recorded now (db g) a \<Longrightarrow> ban_recorded now d a" for a
    using db_reading_ops(3) [OF db_readings(2)] recorded_ops(1) rd by (metis snd_conv)+
  have sg: "signed_in_at a (settle_decision i out d) = signed_in_at a (db g)"
    "signed_in_at a (commit_ban i (r_ip row) until code now detail d) = signed_in_at a (db g)" for a out until code detail
    using db_reading_ops(2) [OF db_readings(2)] harmless_ops(2) [OF db_readings(2) harmless_facts(2)] d(1) by simp_all
  note new = commit_records [OF rd assms(3)]
  show ?thesis
  proof (cases b)
    case (Inl e)
    then show ?thesis using assms(4) rd b by (simp add: apply_ban_def Let_def gbind_def)
  next
    case (Inr ok)
    have "ban_recorded now (settle_decision i out d) a" "ban_recorded now (commit_ban i (r_ip row) until code now detail d) a"
      if "a \<in> set applied" for a out until code detail
      using that assms(1) d(2) recorded_ops(2,3) by (auto simp: good_bans_def)
    then show ?thesis
      using assms(1,2,4) rd b Inr k sg new
      by (cases ok) (auto simp: apply_ban_def Let_def gbind_def good_bans_def change_db_def db_simps observe_alert_def split: option.splits)
  qed
qed

lemma good_update: "good_bans now ex pol signed applied g \<Longrightarrow> excl g' = excl g \<Longrightarrow> ban_policy g' = ban_policy g \<Longrightarrow> db g' = db g \<Longrightarrow>
    good_bans now ex pol signed applied g'"
  by (simp add: good_bans_def)

lemma good_consider:
  fixes rt :: "'s runtime"
  shows "valid (good_bans now ex pol signed applied) (consider_row rt now scheduled standing a applied) (good_bans now ex pol signed) (\<lambda>_. True)"
proof (rule validI)
  fix g :: "'s guard" assume g: "good_bans now ex pol signed applied g"
  let ?row = "reputation_of a now (scoring_policy_of g) scheduled g" and ?g1 = "g\<lparr>enforcement_checked := enforcement_checked g + 1\<rparr>"
  have g1: "good_bans now ex pol signed applied ?g1" using g by (rule good_update) simp_all
  show "case consider_row rt now scheduled standing a applied g of (Inl e, g') \<Rightarrow> True | (Inr x, g') \<Rightarrow> good_bans now ex pol signed x g'"
  proof (cases "wants_ban now scheduled standing ?row ?g1")
    case True
    have j: "may_be_banned now ex pol signed a" "60 \<le> r_score ?row"
      using wants_ban_justified [OF True] g by (auto simp: good_bans_def)
    obtain x g' where x: "apply_ban rt now ?row applied ?g1 = (x, g')" by (cases "apply_ban rt now ?row applied ?g1")
    show ?thesis using good_apply_ban [OF g1, of ?row rt] j x True
      by (cases x) (simp_all add: consider_row_def Let_def)
  next
    case False
    then show ?thesis using g1 by (simp add: consider_row_def Let_def)
  qed
qed

lemma good_result: "(\<And>g. excl (h g) = excl g \<and> ban_policy (h g) = ban_policy g \<and> db (h g) = db g) \<Longrightarrow>
    valid (good_bans now ex pol signed acc) (\<lambda>g. (Inr acc, h g)) (good_bans now ex pol signed) E"
  by (auto simp: valid_def intro: good_update)

lemma good_rows:
  fixes rt :: "'s runtime"
  shows "valid (good_bans now ex pol signed applied) (enforcement_rows rt now scheduled standing applied) (good_bans now ex pol signed) (\<lambda>_. True)"
proof -
  let ?G = "good_bans now ex pol signed :: string list \<Rightarrow> 's guard \<Rightarrow> bool"
  have p: "valid (?G acc) (pending_row rt now scheduled standing x acc) ?G (\<lambda>_. True)" for x acc
    unfolding pending_row_def by (cases x) (auto intro!: valid_gbind [OF good_consider] good_result)
  have s: "valid (?G acc) (sweep_address rt now scheduled standing seen x acc) ?G (\<lambda>_. True)" for seen x acc
  proof -
    obtain first a where x: "x = (first, a)" by (cases x)
    have "valid (?G acc) (if a \<in> set seen then gret acc else consider_row rt now scheduled standing a acc) ?G (\<lambda>_. True)"
      by (simp add: good_consider valid_gret)
    from valid_gbind [OF this good_result [of "\<lambda>g. g\<lparr>scan_after := x\<rparr>"]] show ?thesis
      unfolding sweep_address_def x by simp
  qed
  have t: "valid (?G acc) (\<lambda>g1. case sweep_page now n g1 of (page, g2) \<Rightarrow>
             gbind (gfor (sweep_address rt now scheduled standing seen) page acc) (\<lambda>acc' g3.
               (Inr acc', if length page < n then g3\<lparr>scan_after := (0, []), scan_before := 0\<rparr> else g3)) g2) ?G (\<lambda>_. True)" for n seen acc
  proof (rule validI)
    fix g1 assume g1: "?G acc g1"
    obtain pg g2 where sp: "sweep_page now n g1 = (pg, g2)" by (cases "sweep_page now n g1")
    have "excl (snd (sweep_page now n g1)) = excl g1" "ban_policy (snd (sweep_page now n g1)) = ban_policy g1" "db (snd (sweep_page now n g1)) = db g1"
      by (simp_all add: sweep_page_def Let_def)
    then have g2: "?G acc g2" using g1 sp by (auto intro: good_update)
    have "valid (?G acc) (gbind (gfor (sweep_address rt now scheduled standing seen) pg acc) (\<lambda>acc' g3.
               (Inr acc', if length pg < n then g3\<lparr>scan_after := (0, []), scan_before := 0\<rparr> else g3))) ?G (\<lambda>_. True)"
      by (rule valid_gbind [OF valid_gfor [where I = ?G, OF s]], rule good_result) simp
    then show "case (case sweep_page now n g1 of (page, g2) \<Rightarrow>
             gbind (gfor (sweep_address rt now scheduled standing seen) page acc) (\<lambda>acc' g3.
               (Inr acc', if length page < n then g3\<lparr>scan_after := (0, []), scan_before := 0\<rparr> else g3)) g2) of
         (Inl e, g') \<Rightarrow> True | (Inr x, g') \<Rightarrow> ?G x g'"
      using g2 unfolding sp by (simp add: valid_def)
  qed
  show ?thesis
  proof (rule validI)
    fix g assume g: "?G applied g"
    have "?G applied (g\<lparr>enforcement_checked := 0\<rparr>)" using g by (rule good_update) simp_all
    moreover have "valid (?G applied) (gbind (gfor (pending_row rt now scheduled standing) pending applied) (\<lambda>acc' g1.
         case sweep_page now n g1 of (page, g2) \<Rightarrow>
             gbind (gfor (sweep_address rt now scheduled standing seen) page acc') (\<lambda>acc' g3.
               (Inr acc', if length page < n then g3\<lparr>scan_after := (0, []), scan_before := 0\<rparr> else g3)) g2)) ?G (\<lambda>_. True)" for n seen pending
      by (rule valid_gbind [OF valid_gfor [where I = ?G, OF p] t])
    ultimately show "case enforcement_rows rt now scheduled standing applied g of (Inl e, g') \<Rightarrow> True | (Inr x, g') \<Rightarrow> ?G x g'"
      unfolding enforcement_rows_def Let_def by (simp add: valid_def)
  qed
qed

section \<open>A cycle\<close>

text \<open>The exclusions and the ban policy in force.\<close>

definition conf :: "'s guard \<Rightarrow> exclusions \<times> string" where
  "conf g = (excl g, ban_policy g)"

lemma conf_simps [simp]:
  "conf (change_db h g) = conf g" "conf (note_decision ip now a src out c u g) = conf g" "conf (snd (emit e fp g)) = conf g"
  "conf (after_lift now enforcing ip until b g) = conf g" "conf (g\<lparr>enforcement_checked := n\<rparr>) = conf g"
proof -
  show c: "conf (change_db h g) = conf g" "conf (note_decision ip now a src out c u g) = conf g" for h g ip now a src out c u
    by (simp_all add: conf_def change_db_def note_decision_def)
  show e: "conf (snd (emit e fp g)) = conf g" for e fp g
    by (auto simp: conf_def emit_def Let_def queue_enforcement_check_def split: prod.splits bool.splits)
  show "conf (after_lift now enforcing ip until b g) = conf g" by (simp add: after_lift_def Let_def c e)
qed (simp add: conf_def)

lemma engine_conf: "engine_reading conf"
  by (simp add: engine_reading_def conf_def)

lemma same_conf:
  "same conf (lift_scheduled rt now enforcing x lifted)" "same conf (settle_one rt now standing scheduled d u)"
  "same conf (reassert_one rt now standing x v)"
  unfolding lift_scheduled_def settle_one_def reassert_one_def Let_def
  by (cases x; auto intro!: same_rules same_enforcer engine_conf split: option.splits)
     (auto intro!: same_rules same_enforcer engine_conf, cases x, auto intro!: same_rules same_enforcer engine_conf)

lemma conf_settle: "conf (snd (settle_pending_decisions rt now g)) = conf g"
proof -
  obtain x g1 where a: "active_bans rt g = (x, g1)" by (cases "active_bans rt g")
  have "conf g1 = conf g" using sameD [OF same_enforcer(1) [OF engine_conf] a] .
  moreover have "same conf (gfor (settle_one rt now standing scheduled) ds ())" for standing scheduled ds
    by (intro same_rules same_conf(2))
  ultimately show ?thesis by (cases x) (simp_all add: settle_pending_decisions_def Let_def a same_def)
qed

lemma signed_reading: "db_reading (\<lambda>d a. signed_in_at a d)" "harmless (\<lambda>d a. signed_in_at a d) b"
  using db_readings(2) harmless_facts(2) unfolding db_reading_def harmless_def fun_eq_iff by (blast, blast)

lemma cycle_bans_offenders:
  fixes rt :: "'s runtime"
  assumes "apply_enforcement rt now g = (Inr res, g')" "a \<in> set (e_applied res)"
  shows "mode g = ''enforce''" "may_be_banned now (excl g) (ban_policy g) (\<lambda>a. signed_in_at a (db g)) a" "ban_recorded now (db g') a"
proof -
  let ?g0 = "g\<lparr>enforcement_checked := 0\<rparr>" and ?signed = "\<lambda>a. signed_in_at a (db g)"
  let ?G = "good_bans now (excl g) (ban_policy g) ?signed :: string list \<Rightarrow> 's guard \<Rightarrow> bool"
  obtain g1 where s: "settle_pending_decisions rt now ?g0 = (Inr (), g1)" "cycle_from rt now (scheduled_bans (db g1)) (mode g1 = ''enforce'') g1 = (Inr res, g')"
    using assms(1) by (auto simp: apply_enforcement_cycle gbind_def gmodify_def split: prod.splits sum.splits)
  let ?sch = "scheduled_bans (db g1)"
  have m: "mode g1 = mode g" using mode_settle [of rt now ?g0] s(1) by simp
  have "conf g1 = conf g" using conf_settle [of rt now ?g0] s(1) by simp
  moreover have "(\<lambda>a. signed_in_at a (db g1)) = ?signed"
    using same_settle [where rt = rt and now = now and g = ?g0, OF signed_reading(1) signed_reading(2)] s(1) by simp
  ultimately have G1: "?G [] g1" by (simp add: good_bans_def conf_def)
  have G: "valid (?G []) k (\<lambda>_. ?G []) (\<lambda>_. True)" if "same conf k" "same (\<lambda>g a. signed_in_at a (db g)) k" for k :: "('s, 'x) act"
    using that unfolding valid_def same_def good_bans_def conf_def
    by (auto split: prod.splits sum.splits) (metis prod.inject snd_conv)+
  have lift: "valid (?G []) (gfor (lift_scheduled rt now e) ?sch []) (\<lambda>_. ?G []) (\<lambda>_. True)" for e
    by (rule G) (intro same_rules same_conf same_lift_scheduled signed_reading)+
  obtain lifted g2 where l: "gfor (lift_scheduled rt now (mode g1 = ''enforce'')) ?sch [] g1 = (Inr lifted, g2)"
    "(if \<not> mode g1 = ''enforce'' then paused_half rt ?sch lifted else enforcing_half rt now ?sch lifted) g2 = (Inr res, g')"
    using s(2) by (auto simp: cycle_from_def gbind_def split: prod.splits sum.splits)
  have G2: "?G [] g2" by (rule validD [OF lift G1 l(1)])
  show "mode g = ''enforce''"
  proof (rule ccontr)
    assume "mode g \<noteq> ''enforce''"
    then have "e_applied res = []" using l(2) m by (auto simp: paused_half_def gbind_def gret_def split: prod.splits sum.splits)
    then show False using assms(2) by simp
  qed
  then have e: "enforcing_half rt now ?sch lifted g2 = (Inr res, g')" using l(2) m by simp
  have "valid (?G []) (enforcing_half rt now ?sch lifted) (\<lambda>res g. ?G (e_applied res) g) (\<lambda>_. True)"
    unfolding enforcing_half_def
  proof (intro valid_gbind)
    show "valid (?G []) (active_bans rt) (\<lambda>_. ?G []) (\<lambda>_. True)"
      by (rule G) (intro same_enforcer engine_conf engine_db)+
    show "valid (?G []) (gfor (reassert_one rt now standing) ?sch ()) (\<lambda>_. ?G []) (\<lambda>_. True)" for standing
      by (rule G) (auto intro!: same_rules same_conf same_enforcer engine_db simp: reassert_one_def split: prod.splits)
    show "valid (?G []) (enforcement_rows rt now ?sch standing []) ?G (\<lambda>_. True)" for standing by (rule good_rows)
    show "valid (?G applied) (\<lambda>g'. (Inr \<lparr>e_applied = applied, e_lifted = lifted, e_enforcing = True\<rparr>,
        if applied \<noteq> [] then check_burst (length applied) now g' else g')) (\<lambda>res. ?G (e_applied res)) (\<lambda>_. True)" for applied
      by (simp add: valid_def good_bans_def db_simps check_burst_def observe_alert_def Let_def split: option.splits)
  qed
  from validD [OF this G2 e] assms(2)
  show "may_be_banned now (excl g) (ban_policy g) (\<lambda>a. signed_in_at a (db g)) a" "ban_recorded now (db g') a"
    by (auto simp: good_bans_def)
qed

end
