(* ===== verification/Guard_Sweep.thy ===== *)
theory Guard_Sweep
  imports Guard_Offenders
begin

text \<open>
  The sweep over quiet addresses and the bans placed by hand: pages of the sweep follow on each other
  until every address has had its turn, and a manual ban that did not happen leaves no trace.
\<close>

section \<open>Pages\<close>

text \<open>The addresses read by successive turns with the given allowances, the cursor moving to the last one read.\<close>

primrec visited :: "nat list \<Rightarrow> int \<times> string \<Rightarrow> int \<Rightarrow> guard_db \<Rightarrow> (int \<times> string) list" where
  "visited [] after before d = []"
| "visited (l # ls) after before d =
     (let page = enforcement_addresses after before l d
      in if page = [] then [] else page @ visited ls (last page) before d)"

definition ahead :: "int \<times> string \<Rightarrow> int \<Rightarrow> guard_db \<Rightarrow> (int \<times> string) list" where
  "ahead after before d = sort (filter (\<lambda>k. k > after \<and> fst k \<le> before) (map (\<lambda>(ip, row). (first_seen row, ip)) (ip_state d)))"

lemma page_ahead: "enforcement_addresses after before l d = take l (ahead after before d)"
  by (simp add: enforcement_addresses_def ahead_def)

lemma sort_filter: "sort (filter P xs) = filter P (sort xs)"
  by (simp add: filter_sort)

lemma filter_beyond:
  assumes "sorted (xs @ x # ys)" "distinct (xs @ x # ys)"
  shows "filter (\<lambda>k. k > x) (xs @ x # ys) = (ys :: 'a::linorder list)"
proof -
  have "filter (\<lambda>k. k > x) xs = []" using assms(1) by (auto simp: sorted_append filter_empty_conv not_less)
  moreover have "filter (\<lambda>k. k > x) ys = ys" using assms by (intro filter_True) (auto simp: sorted_append order_less_le)
  ultimately show ?thesis by simp
qed

lemma distinct_ahead:
  assumes "distinct (map fst (ip_state d))"
  shows "distinct (ahead after before d)" "sorted (ahead after before d)"
proof -
  have "distinct (map (\<lambda>(ip, row). (first_seen row, ip)) (ip_state d))"
    using assms by (fastforce simp: distinct_map inj_on_def)
  then show "distinct (ahead after before d)" unfolding ahead_def distinct_sort by (rule distinct_filter)
qed (simp add: ahead_def)

lemma ahead_of_page:
  assumes "distinct (map fst (ip_state d))" "take l (ahead after before d) \<noteq> []"
  shows "ahead (last (take l (ahead after before d))) before d = drop l (ahead after before d)"
proof -
  let ?A = "ahead after before d" and ?K = "map (\<lambda>(ip, row). (first_seen row, ip)) (ip_state d)"
  define x where "x = last (take l ?A)"
  define xs where "xs = butlast (take l ?A)"
  have A: "?A = xs @ x # drop l ?A"
    using append_butlast_last_id [OF assms(2)] append_take_drop_id [of l ?A] unfolding x_def xs_def by (metis append.assoc append_Cons append_Nil)
  have "x \<in> set ?A" by (subst A) simp
  then have x: "x > after" by (simp add: ahead_def)
  have "ahead x before d = filter (\<lambda>k. k > x) ?A"
    unfolding ahead_def sort_filter filter_filter using x by (intro filter_cong) auto
  also have "\<dots> = drop l ?A"
    using filter_beyond [of xs x "drop l ?A"] distinct_ahead [OF assms(1), of after before] A by metis
  finally show ?thesis by (simp add: x_def)
qed

lemma visited_ahead:
  assumes "distinct (map fst (ip_state d))" "\<And>l. l \<in> set ls \<Longrightarrow> 0 < l"
  shows "visited ls after before d = take (sum_list ls) (ahead after before d)"
  using assms(2)
proof (induction ls arbitrary: after)
  case (Cons l ls)
  let ?A = "ahead after before d"
  show ?case
  proof (cases "take l ?A = []")
    case True
    then have "?A = []" using Cons.prems [of l] by auto
    then show ?thesis by (simp add: page_ahead)
  next
    case False
    then have "visited (l # ls) after before d = take l ?A @ take (sum_list ls) (drop l ?A)"
      using Cons by (simp only: visited.simps page_ahead Let_def if_False False) (simp add: ahead_of_page [OF assms(1) False])
    also have "\<dots> = take (l + sum_list ls) ?A" by (simp add: take_add)
    finally show ?thesis by simp
  qed
qed simp

lemma sweep_cursor:
  fixes rt :: "'s runtime"
  assumes "gfor (sweep_address rt now scheduled standing seen) page acc g = (Inr acc', g')"
  shows "scan_after g' = (if page = [] then scan_after g else last page)"
  using assms
proof (induction page arbitrary: acc g)
  case Nil
  then show ?case by (simp add: gret_def)
next
  case (Cons x page)
  then obtain acc1 g1 where "sweep_address rt now scheduled standing seen x acc g = (Inr acc1, g1)"
    "gfor (sweep_address rt now scheduled standing seen) page acc1 g1 = (Inr acc', g')"
    by (auto simp: gbind_def split: prod.splits sum.splits)
  moreover from this(1) have "scan_after g1 = x"
    by (cases x) (auto simp: sweep_address_def gbind_def split: prod.splits sum.splits)
  ultimately show ?case using Cons.IH by simp
qed

section \<open>Bans placed by hand\<close>

lemma manual_of_restore: "same (\<lambda>g. db g) (restore rt a code)"
  unfolding restore_def by (auto intro!: same_rules same_read engine_db [of "\<lambda>d. d"])

lemma restore_entry:
  assumes "haproxy_laws rt tbl" "restore rt a code g = (Inr True, g')"
  shows "\<exists>f. tbl (hap g') a = Some f \<and> gpc0 f = 1 \<and> gpt0 f = code"
proof -
  note l = assms(1) [unfolded haproxy_laws_def set_law_def, THEN conjunct2, THEN conjunct1, THEN spec, THEN spec, THEN spec, THEN spec, of a 1 code "hap g"]
  show ?thesis using assms(2) l
    by (auto simp: restore_def gbind_def write_ban_def gret_def split: if_splits prod.splits sum.splits)
qed

lemma table_until_effect:
  assumes "haproxy_laws rt tbl" "table_until rt a now g = (until, g')"
  shows "tbl (hap g') = tbl (hap g)" "db g' = db g"
proof -
  obtain r s where rs: "show_table rt (Some a) (hap g) = (r, s)" by (cases "show_table rt (Some a) (hap g)")
  show "tbl (hap g') = tbl (hap g)" "db g' = db g"
    using assms(2) show_lawD(1) [OF assms(1) rs] rs
    by (cases r; auto simp: table_until_def read_bans_def Let_def)+
qed

end
