(* ===== verification/Guard_Pause.thy ===== *)
theory Guard_Pause
  imports Guard_Schedule
begin

text \<open>
  The kill switch: when HAProxy answers, a cycle outside \<open>enforce\<close> takes every adaptive ban off the
  table, and nothing else.
\<close>

section \<open>A table with nothing of ours\<close>

definition responsive :: "'s runtime \<Rightarrow> bool" where
  "responsive rt = ((\<forall>k s. \<exists>rows. fst (show_table rt k s) = Inr rows) \<and>
     (\<forall>ip a b s. \<exists>answer. fst (set_table rt ip a b s) = Inr answer \<and> py_strip answer = []) \<and>
     (\<forall>ip s. \<exists>answer. fst (clear_table rt ip s) = Inr answer \<and> py_strip answer = []))"

definition only_lifted :: "'s table_of \<Rightarrow> (string \<Rightarrow> ban_row option) \<Rightarrow> 's guard \<Rightarrow> bool" where
  "only_lifted tbl t0 g = (\<forall>ip. tbl (hap g) ip = t0 ip \<or>
     (tbl (hap g) ip = None \<and> (\<exists>f. t0 ip = Some f \<and> gpt0 f = ADAPTIVE_BAN_CODE)))"

definition not_ours :: "'s table_of \<Rightarrow> string \<Rightarrow> 's guard \<Rightarrow> bool" where
  "not_ours tbl ip g = (\<forall>f. tbl (hap g) ip = Some f \<longrightarrow> gpt0 f \<noteq> ADAPTIVE_BAN_CODE)"

lemma lift_effect:
  assumes "haproxy_laws rt tbl" "responsive rt"
  shows "\<exists>b g'. lift rt a g = (Inr b, g') \<and> (\<forall>x. x \<noteq> a \<longrightarrow> tbl (hap g') x = tbl (hap g) x) \<and> not_ours tbl a g' \<and>
     (tbl (hap g') a = tbl (hap g) a \<or> (tbl (hap g') a = None \<and> (\<exists>f. tbl (hap g) a = Some f \<and> gpt0 f = ADAPTIVE_BAN_CODE)))"
proof -
  obtain rows where "fst (show_table rt (Some a) (hap g)) = Inr rows" using assms(2) unfolding responsive_def by blast
  then obtain s where s: "show_table rt (Some a) (hap g) = (Inr rows, s)" by (cases "show_table rt (Some a) (hap g)") auto
  have r: "read_bans rt (Some a) g = (Inr rows, g\<lparr>hap := s\<rparr>)" by (simp add: read_bans_def s)
  have t: "tbl s = tbl (hap g)" "map_of rows a = tbl (hap g) a" using show_lawD [OF assms(1) s] by auto
  show ?thesis
  proof (cases "\<exists>f. tbl (hap g) a = Some f \<and> gpt0 f = ADAPTIVE_BAN_CODE")
    case True
    then obtain f where f: "tbl (hap g) a = Some f" "gpt0 f = ADAPTIVE_BAN_CODE" by blast
    obtain answer where "fst (clear_table rt a s) = Inr answer" "py_strip answer = []"
      using assms(2) unfolding responsive_def by blast
    then obtain s' where c: "clear_table rt a s = (Inr answer, s')" "py_strip answer = []" by (cases "clear_table rt a s") auto
    note cl = assms(1) [unfolded haproxy_laws_def clear_law_def, THEN conjunct2, THEN conjunct2, THEN conjunct1, THEN spec, THEN spec, of a s]
    have l: "tbl s' a = None" "\<And>x. x \<noteq> a \<Longrightarrow> tbl s' x = tbl s x" using cl c by simp_all
    have "lift rt a g = (Inr True, g\<lparr>hap := s', n_lifted := n_lifted g + 1\<rparr>)"
      using f c t by (simp add: lift_def gbind_def r clear_entry_def)
    then show ?thesis using l t f by (auto simp: not_ours_def)
  next
    case False
    then have "lift rt a g = (Inr False, g\<lparr>hap := s\<rparr>)"
      using t by (auto simp: lift_def gbind_def r gret_def split: option.splits)
    then show ?thesis using t False by (auto simp: not_ours_def)
  qed
qed

lemma valid_lift_total:
  assumes "haproxy_laws rt tbl" "responsive rt"
  shows "valid (only_lifted tbl t0) (lift rt a) (\<lambda>_ g. only_lifted tbl t0 g \<and> not_ours tbl a g) (\<lambda>_. False)"
    and "valid (not_ours tbl y) (lift rt a) (\<lambda>_. not_ours tbl y) (\<lambda>_. False)"
proof -
  show "valid (only_lifted tbl t0) (lift rt a) (\<lambda>_ g. only_lifted tbl t0 g \<and> not_ours tbl a g) (\<lambda>_. False)"
  proof (rule validI)
    fix g assume g: "only_lifted tbl t0 g"
    obtain b g' where l: "lift rt a g = (Inr b, g')" "\<And>x. x \<noteq> a \<Longrightarrow> tbl (hap g') x = tbl (hap g) x" "not_ours tbl a g'"
      "tbl (hap g') a = tbl (hap g) a \<or> (tbl (hap g') a = None \<and> (\<exists>f. tbl (hap g) a = Some f \<and> gpt0 f = ADAPTIVE_BAN_CODE))"
      using lift_effect [OF assms, of a g] by blast
    have "only_lifted tbl t0 g'"
      unfolding only_lifted_def
    proof
      fix ip
      note g [unfolded only_lifted_def, THEN spec, of ip]
      then show "tbl (hap g') ip = t0 ip \<or> tbl (hap g') ip = None \<and> (\<exists>f. t0 ip = Some f \<and> gpt0 f = ADAPTIVE_BAN_CODE)"
        using l(2) [of ip] l(4) by (cases "ip = a") (auto dest: sym)
    qed
    then show "case lift rt a g of (Inl e, g') \<Rightarrow> False | (Inr x, g') \<Rightarrow> only_lifted tbl t0 g' \<and> not_ours tbl a g'"
      using l(1,3) by simp
  qed
  show "valid (not_ours tbl y) (lift rt a) (\<lambda>_. not_ours tbl y) (\<lambda>_. False)"
  proof (rule validI)
    fix g assume g: "not_ours tbl y g"
    obtain b g' where l: "lift rt a g = (Inr b, g')" "\<And>x. x \<noteq> a \<Longrightarrow> tbl (hap g') x = tbl (hap g) x" "not_ours tbl a g'"
      using lift_effect [OF assms, of a g] by blast
    then show "case lift rt a g of (Inl e, g') \<Rightarrow> False | (Inr x, g') \<Rightarrow> not_ours tbl y g'"
      using g by (cases "y = a") (auto simp: not_ours_def)
  qed
qed

section \<open>A paused cycle\<close>

text \<open>What only the ban table decides is not changed by what leaves the table alone.\<close>

definition table_only :: "('s guard \<Rightarrow> bool) \<Rightarrow> bool" where
  "table_only P = (\<forall>g g'. hap g' = hap g \<and> P g \<longrightarrow> P g')"

lemma table_onlyD: "table_only P \<Longrightarrow> P g \<Longrightarrow> hap g' = hap g \<Longrightarrow> P g'"
  by (auto simp: table_only_def)

lemma table_only_facts:
  "table_only (only_lifted tbl t0)" "table_only (not_ours tbl ip)" "table_only P \<Longrightarrow> table_only R \<Longrightarrow> table_only (\<lambda>g. P g \<and> R g)"
  unfolding table_only_def only_lifted_def not_ours_def by (metis, metis, blast)

lemma valid_catch_total:
  "valid P m Q (\<lambda>_. False) \<Longrightarrow> valid P (catch_unsure m h) Q (\<lambda>_. False)"
  by (rule valid_catch) (auto simp: valid_def)

lemma valid_quiet: "table_only P \<Longrightarrow> (\<And>g. hap (h g) = hap g) \<Longrightarrow> valid P (\<lambda>g. (Inr (x g), h g)) (\<lambda>_. P) E"
  by (auto simp: valid_def intro: table_onlyD)

lemma valid_quiet_gmodify: "table_only P \<Longrightarrow> (\<And>g. hap (h g) = hap g) \<Longrightarrow> valid P (gmodify h) (\<lambda>_. P) E"
  by (auto simp: valid_def gmodify_def intro: table_onlyD)

text \<open>A step of the schedule loop, after a lift with some effect \<open>Q\<close> on the table.\<close>

lemma valid_lift_scheduled:
  assumes "valid P (lift rt (fst x)) (\<lambda>_. Q) (\<lambda>_. False)" "table_only Q"
  shows "valid P (lift_scheduled rt now False x lifted) (\<lambda>_. Q) (\<lambda>_. False)"
proof -
  have c: "valid P (catch_unsure (gbind (lift rt (fst x)) (\<lambda>b. gret (Some b))) (\<lambda>_. gret None)) (\<lambda>_. Q) (\<lambda>_. False)"
    by (rule valid_catch_total, rule valid_gbind [OF assms(1)]) (simp add: valid_gret)
  obtain a until where x: "x = (a, until)" by (cases x)
  have k: "valid Q (case taken of None \<Rightarrow> gret lifted
         | Some taken_off \<Rightarrow> (\<lambda>g. (Inr (if taken_off then lifted @ [a] else lifted), after_lift now False a until taken_off g)))
       (\<lambda>_. Q) (\<lambda>_. False)" for taken
    by (cases taken) (auto intro!: valid_gret valid_quiet assms(2))
  show ?thesis
    using valid_gbind [OF c k] by (simp add: lift_scheduled_def x)
qed

lemma valid_sweep_one:
  assumes "valid P (lift rt a) (\<lambda>_. Q) (\<lambda>_. False)" "map_of scheduled a = None"
  shows "valid P (sweep_one rt scheduled a lifted) (\<lambda>_. Q) (\<lambda>_. False)"
proof -
  have "valid P (catch_unsure (gbind (lift rt a) (\<lambda>b. gret (if b then lifted @ [a] else lifted))) (\<lambda>_. gret lifted)) (\<lambda>_. Q) (\<lambda>_. False)"
    by (rule valid_catch_total, rule valid_gbind [OF assms(1)]) (simp add: valid_gret)
  then show ?thesis using assms(2) by (simp add: sweep_one_def)
qed

lemma valid_active_total:
  assumes "haproxy_laws rt tbl" "responsive rt" "table_only P" "\<And>g s. P g \<Longrightarrow> tbl s = tbl (hap g) \<Longrightarrow> P (g\<lparr>hap := s\<rparr>)"
  shows "valid P (read_bans rt k) (\<lambda>_. P) (\<lambda>_. False)"
proof (rule validI)
  fix g assume g: "P g"
  obtain rows where "fst (show_table rt k (hap g)) = Inr rows" using assms(2) unfolding responsive_def by blast
  then obtain s where s: "show_table rt k (hap g) = (Inr rows, s)" by (cases "show_table rt k (hap g)") auto
  show "case read_bans rt k g of (Inl e, g') \<Rightarrow> False | (Inr x, g') \<Rightarrow> P g'"
    using assms(4) [OF g] show_lawD(1) [OF assms(1) s] by (simp add: read_bans_def s)
qed

lemma only_lifted_read: "only_lifted tbl t0 g \<Longrightarrow> tbl s = tbl (hap g) \<Longrightarrow> only_lifted tbl t0 (g\<lparr>hap := s\<rparr>)"
  by (simp add: only_lifted_def)

lemma only_lifted_trans: "only_lifted tbl t0 g \<Longrightarrow> only_lifted tbl (tbl (hap g)) g' \<Longrightarrow> only_lifted tbl t0 g'"
  unfolding only_lifted_def by metis

lemma valid_weaken: "valid P m Q E \<Longrightarrow> (\<And>x g. Q x g \<Longrightarrow> Q' x g) \<Longrightarrow> valid P m Q' E"
  by (erule valid_conseq) auto

lemma valid_conj: "valid P m Q E \<Longrightarrow> valid P m R E \<Longrightarrow> valid P m (\<lambda>x g. Q x g \<and> R x g) E"
  by (fastforce simp: valid_def split: prod.splits sum.splits)

lemma valid_ball:
  "valid P m (\<lambda>_ _. True) E \<Longrightarrow> (\<And>i. i \<in> S \<Longrightarrow> valid P m (Q i) E) \<Longrightarrow> valid P m (\<lambda>x g. \<forall>i \<in> S. Q i x g) E"
  by (fastforce simp: valid_def split: prod.splits sum.splits)

lemma valid_settle_total:
  assumes "haproxy_laws rt tbl" "responsive rt"
  shows "valid (only_lifted tbl t0) (settle_pending_decisions rt now) (\<lambda>_. only_lifted tbl t0) (\<lambda>_. False)"
proof -
  let ?I = "only_lifted tbl t0"
  have l: "valid ?I (lift rt a) (\<lambda>_. ?I) (\<lambda>_. False)" for a
    by (rule valid_weaken [OF valid_lift_total(1) [OF assms]]) simp
  have c: "valid ?I (catch_unsure (gbind (lift rt a) (\<lambda>_. gret True)) (\<lambda>_. gret False)) (\<lambda>_. ?I) (\<lambda>_. False)" for a
    by (rule valid_catch_total, rule valid_gbind [OF l]) (simp add: valid_gret)
  have m: "valid ?I (gmodify (change_db h)) (\<lambda>_. ?I) (\<lambda>_. False)" for h
    by (rule valid_quiet_gmodify [OF table_only_facts(1)]) simp
  have one: "valid ?I (settle_one rt now standing scheduled d u) (\<lambda>_. ?I) (\<lambda>_. False)" for standing scheduled d u
    unfolding settle_one_def Let_def
    by (auto intro!: valid_gbind [OF c] m valid_gret split: if_splits)
  have loop: "valid ?I (gfor (settle_one rt now standing scheduled) ds ()) (\<lambda>_. ?I) (\<lambda>_. False)" for standing scheduled ds
    by (rule valid_gfor [where I = "\<lambda>_. ?I"]) (rule one)
  have a: "valid ?I (active_bans rt) (\<lambda>_. ?I) (\<lambda>_. False)"
    unfolding active_bans_def
    by (rule valid_gbind [OF valid_active_total [OF assms table_only_facts(1) only_lifted_read]]) (auto simp: valid_gret)
  show ?thesis
  proof (rule validI)
    fix g assume g: "?I g"
    obtain standing g1 where r: "active_bans rt g = (Inr standing, g1)" "?I g1" using valid_total [OF a g] by blast
    show "case settle_pending_decisions rt now g of (Inl e, g') \<Rightarrow> False | (Inr x, g') \<Rightarrow> ?I g'"
      using g r loop by (simp add: settle_pending_decisions_def Let_def valid_def)
  qed
qed

lemma adaptive_bans_effect:
  assumes "haproxy_laws rt tbl" "responsive rt"
  shows "\<exists>ours g'. adaptive_bans rt g = (Inr ours, g') \<and> tbl (hap g') = tbl (hap g) \<and>
     (\<forall>ip f. tbl (hap g) ip = Some f \<and> gpt0 f = ADAPTIVE_BAN_CODE \<and> gpc0 f > 0 \<longrightarrow> ip \<in> set ours)"
proof -
  obtain rows where "fst (show_table rt None (hap g)) = Inr rows" using assms(2) unfolding responsive_def by blast
  then obtain s where s: "show_table rt None (hap g) = (Inr rows, s)" by (cases "show_table rt None (hap g)") auto
  have t: "tbl s = tbl (hap g)" "map_of rows = tbl (hap g)" using show_lawD [OF assms(1) s] by auto
  have "adaptive_bans rt g = (Inr (map fst (filter (\<lambda>(ip, f). gpt0 f = ADAPTIVE_BAN_CODE \<and> gpc0 f > 0) rows)), g\<lparr>hap := s\<rparr>)"
    by (simp add: adaptive_bans_def gbind_def read_bans_def s gret_def)
  then show ?thesis using t(1) t(2) [symmetric] by (force dest: map_of_SomeD)
qed

lemma paused_half_clears:
  assumes "haproxy_laws rt tbl" "responsive rt"
  shows "valid (\<lambda>g. only_lifted tbl t0 g \<and> (\<forall>x \<in> set scheduled. not_ours tbl (fst x) g)) (paused_half rt scheduled lifted)
     (\<lambda>_ g. only_lifted tbl t0 g \<and> (\<forall>ip f. tbl (hap g) ip = Some f \<longrightarrow> \<not> (gpt0 f = ADAPTIVE_BAN_CODE \<and> gpc0 f > 0))) (\<lambda>_. False)"
proof (rule validI)
  fix g assume g: "only_lifted tbl t0 g \<and> (\<forall>x \<in> set scheduled. not_ours tbl (fst x) g)"
  obtain ours g1 where a: "adaptive_bans rt g = (Inr ours, g1)" "tbl (hap g1) = tbl (hap g)"
    and cover: "\<And>ip f. tbl (hap g) ip = Some f \<Longrightarrow> gpt0 f = ADAPTIVE_BAN_CODE \<Longrightarrow> gpc0 f > 0 \<Longrightarrow> ip \<in> set ours"
    using adaptive_bans_effect [OF assms, of g] by blast
  let ?P = "\<lambda>g'. only_lifted tbl (tbl (hap g)) g' \<and> (\<forall>x \<in> set scheduled. not_ours tbl (fst x) g')"
  have P1: "?P g1" using g a(2) by (simp add: only_lifted_def not_ours_def)
  have sched: "valid ?P (lift rt a) (\<lambda>_ g. ?P g \<and> not_ours tbl a g) (\<lambda>_. False)" for a
  proof -
    have o: "valid ?P (lift rt a) (\<lambda>_ g'. only_lifted tbl (tbl (hap g)) g' \<and> not_ours tbl a g') (\<lambda>_. False)"
      by (rule valid_conseq [OF valid_lift_total(1) [OF assms]]) auto
    have "valid ?P (lift rt a) (\<lambda>_ g'. \<forall>x \<in> set scheduled. not_ours tbl (fst x) g') (\<lambda>_. False)"
    proof (rule valid_ball)
      show "valid ?P (lift rt a) (\<lambda>_. not_ours tbl (fst x)) (\<lambda>_. False)" if "x \<in> set scheduled" for x
        by (rule valid_conseq [OF valid_lift_total(2) [OF assms]]) (use that in auto)
    qed (rule valid_weaken [OF o], simp)
    from valid_conj [OF o this] show ?thesis by (rule valid_weaken) simp
  qed
  have step: "valid ?P (sweep_one rt scheduled a acc) (\<lambda>_ g. ?P g \<and> not_ours tbl a g) (\<lambda>_. False)" for a acc
  proof (cases "map_of scheduled a")
    case None
    then show ?thesis using valid_sweep_one [OF sched None] by simp
  next
    case (Some u)
    then have "(a, u) \<in> set scheduled" by (rule map_of_SomeD)
    then show ?thesis using Some by (auto simp: sweep_one_def intro!: valid_gret dest: bspec)
  qed
  have step': "valid (\<lambda>g. ?P g \<and> not_ours tbl y g) (sweep_one rt scheduled a acc) (\<lambda>_ g. not_ours tbl y g) (\<lambda>_. False)" for a y acc
  proof (cases "map_of scheduled a")
    case None
    show ?thesis by (rule valid_sweep_one [OF _ None], rule valid_conseq [OF valid_lift_total(2) [OF assms, of y a]]) auto
  next
    case (Some u)
    then show ?thesis unfolding sweep_one_def by (simp, intro valid_gret) simp
  qed
  obtain lifted' g2 where s: "gfor (sweep_one rt scheduled) ours lifted g1 = (Inr lifted', g2)" "?P g2" "\<forall>a \<in> set ours. not_ours tbl a g2"
    using valid_total [OF valid_gfor_each [where C = "not_ours tbl" and f = "sweep_one rt scheduled" and xs = ours and acc = lifted, OF step step'] P1]
    by blast
  have "\<not> (gpt0 f = ADAPTIVE_BAN_CODE \<and> gpc0 f > 0)" if f: "tbl (hap g2) ip = Some f" for ip f
  proof
    assume o: "gpt0 f = ADAPTIVE_BAN_CODE \<and> gpc0 f > 0"
    have "tbl (hap g) ip = Some f" using s(2) f unfolding only_lifted_def by (metis option.distinct(1))
    then show False using cover o s(3) f by (auto simp: not_ours_def)
  qed
  moreover have "only_lifted tbl t0 g2" using g s(2) by (auto intro: only_lifted_trans)
  ultimately show "case paused_half rt scheduled lifted g of (Inl e, g') \<Rightarrow> False | (Inr x, g') \<Rightarrow>
      only_lifted tbl t0 g' \<and> (\<forall>ip f. tbl (hap g') ip = Some f \<longrightarrow> \<not> (gpt0 f = ADAPTIVE_BAN_CODE \<and> gpc0 f > 0))"
    by (simp add: paused_half_def gbind_def a(1) s(1) gret_def)
qed

lemma cycle_from_paused: "cycle_from rt now scheduled False = gbind (gfor (lift_scheduled rt now False) scheduled []) (paused_half rt scheduled)"
  unfolding cycle_from_def by simp

lemma paused_cycle:
  assumes "haproxy_laws rt tbl" "responsive rt" "mode g \<noteq> ''enforce''"
  shows "\<exists>r g'. apply_enforcement rt now g = (Inr r, g') \<and> only_lifted tbl (tbl (hap g)) g' \<and>
     (\<forall>ip f. tbl (hap g') ip = Some f \<longrightarrow> \<not> (gpt0 f = ADAPTIVE_BAN_CODE \<and> gpc0 f > 0))"
proof -
  let ?t0 = "tbl (hap g)" and ?g0 = "g\<lparr>enforcement_checked := 0\<rparr>"
  have I0: "only_lifted tbl ?t0 ?g0" by (simp add: only_lifted_def)
  obtain g1 where s: "settle_pending_decisions rt now ?g0 = (Inr (), g1)" "only_lifted tbl ?t0 g1"
    using valid_total [OF valid_settle_total [OF assms(1,2)] I0] by auto
  have m: "mode g1 \<noteq> ''enforce''" using mode_settle [of rt now ?g0] s(1) assms(3) by simp
  let ?sch = "scheduled_bans (db g1)"
  have "valid (only_lifted tbl ?t0) (gfor (lift_scheduled rt now False) ?sch [])
      (\<lambda>_ g. only_lifted tbl ?t0 g \<and> (\<forall>x \<in> set ?sch. not_ours tbl (fst x) g)) (\<lambda>_. False)"
  proof (rule valid_gfor_each [where C = "\<lambda>x. not_ours tbl (fst x)"])
    show "valid (only_lifted tbl ?t0) (lift_scheduled rt now False x acc) (\<lambda>_ g. only_lifted tbl ?t0 g \<and> not_ours tbl (fst x) g) (\<lambda>_. False)" for x acc
      by (rule valid_lift_scheduled [OF valid_lift_total(1) [OF assms(1,2)] table_only_facts(3) [OF table_only_facts(1,2)]])
    show "valid (\<lambda>g. only_lifted tbl ?t0 g \<and> not_ours tbl (fst y) g) (lift_scheduled rt now False x acc) (\<lambda>_ g. not_ours tbl (fst y) g) (\<lambda>_. False)" for x y acc
      by (rule valid_lift_scheduled [OF _ table_only_facts(2)], rule valid_conseq [OF valid_lift_total(2) [OF assms(1,2)]]) auto
  qed
  from valid_total [OF valid_gbind [where k = "paused_half rt ?sch", OF this paused_half_clears [OF assms(1,2)]] s(2)]
  obtain r g' where r: "gbind (gfor (lift_scheduled rt now False) ?sch []) (paused_half rt ?sch) g1 = (Inr r, g')"
    "only_lifted tbl ?t0 g'" "\<forall>ip f. tbl (hap g') ip = Some f \<longrightarrow> \<not> (gpt0 f = ADAPTIVE_BAN_CODE \<and> gpc0 f > 0)"
    by blast
  have "apply_enforcement rt now g = (Inr r, g')"
    using r(1) m cycle_from_paused [of rt now ?sch]
    by (simp add: apply_enforcement_cycle gbind_def [of "gmodify _"] gbind_def [of "settle_pending_decisions _ _"] gmodify_def s(1))
  then show ?thesis using r(2,3) by blast
qed

end
