(* ===== verification/Guard_Properties.thy ===== *)
theory Guard_Properties
  imports Guard_Sweep Guard_Pause
begin

text \<open>
  The properties of the adaptive protection daemon.  The witnesses run on a small gateway: one address
  caught asking for a repository, an operator's ban and a left-over adaptive ban in the table, and
  a runtime that keeps the table as a list and accepts every command.
\<close>

section \<open>A small gateway\<close>

definition sample_runtime :: "(string \<times> ban_row) list runtime" where
  "sample_runtime = \<lparr>show_table = (\<lambda>_ s. (Inr s, s)),
     set_table = (\<lambda>ip flag code s. (Inr [], jput ip \<lparr>gpc0 = flag, gpt0 = code, exp_ms = 604800000\<rparr> s)),
     clear_table = (\<lambda>ip s. (Inr [], AList.delete ip s)), start_time = (\<lambda>s. (1, s))\<rparr>"

definition sample_guard :: "(string \<times> ban_row) list guard" where
  "sample_guard = \<lparr>hap = [(''192.0.2.1'', \<lparr>gpc0 = 1, gpt0 = 50, exp_ms = 1000\<rparr>), (''192.0.2.2'', \<lparr>gpc0 = 1, gpt0 = 40, exp_ms = 1000\<rparr>)],
     mode = ''enforce'', n_refused = 0, n_applied = 0, n_failed = 0, n_lifted = 0, ban_durations = [3600, 7200], ban_durations_changed_at = 0,
     ban_policy = ''legacy'',
     base_policy = \<lparr>weights = [(''SCANNER_PATH_DECISIVE'', 60)], category_cap = 25, window_seconds = 86400, decay_seconds = 0\<rparr>,
     excl = \<lparr>authenticated = [], networks = [], geo_trusted = True\<rparr>,
     enforcement_queue = new_queue 10, scan_after = (0, []), scan_before = 0, enforcement_checked = 0, events_recorded = 0,
     manual_restored = 0, legacy_observed = [], burst_bans = [], burst_reported = None, alerts = None,
     db = \<lparr>ip_state = [(''8.8.8.8'', \<lparr>first_seen = 1000, last_seen = 1000, row_excluded = False, exclusion_reason = [],
              banned_until = 0, ban_code = 0, authenticated_at = 0\<rparr>)],
           events = [\<lparr>ev_ts = 1000, ev_ip = ''8.8.8.8'', ev_type = ''SCANNER_PATH_DECISIVE'', ev_source = ''log'', ev_site = [],
              ev_category = ''vcs'', ev_detail = [], ev_handled = False\<rparr>],
           decisions = [], next_decision = 1, manual_bans = [], cooldowns = []\<rparr>\<rparr>"

lemma py_strip_nil [simp]: "py_strip [] = []"
  by (simp add: py_strip_def py_lstrip_def py_rstrip_def)

lemma sample_laws: "haproxy_laws sample_runtime map_of"
  by (auto simp: haproxy_laws_def show_law_def set_law_def clear_law_def sample_runtime_def delete_conv' fun_eq_iff split: option.splits)

lemma sample_responsive: "responsive sample_runtime"
  by (simp add: responsive_def sample_runtime_def)

lemma sample_ip: "ip_address ''8.8.8.8'' = Some (IPv4 134744072)"
  by (simp add: ip_address_def ipv4_of_str_def parse_octet_def is_digit_def digits_val_def digit_val_def)

lemma sample_enforceable: "enforceable ''8.8.8.8''"
  by (simp add: enforceable_def sample_ip)






section \<open>Properties\<close>



text \<open>C5. Bans of others are left alone: whatever HAProxy answers, a flagged entry placed by an operator or by
  HAProxy's own rules is in the table unchanged after a cycle and after a change of mode.\<close>

theorem foreign_bans_untouched:
  assumes "haproxy_laws rt tbl" "tbl (hap g) ip = Some f" "foreign_ban f"
  shows "tbl (hap (snd (apply_enforcement rt now g))) ip = Some f \<and> tbl (hap (snd (set_mode rt m now g))) ip = Some f"
proof -
  have k: "tbl (hap (snd (apply_enforcement rt now g'))) ip = Some f" if "hap g' = hap g" for g'
  proof -
    obtain r g1 where r: "apply_enforcement rt now g' = (r, g1)" by (cases "apply_enforcement rt now g'")
    have "entry_is tbl ip (Some f) g'" using assms(2) that by (simp add: entry_is_def)
    then have "entry_is tbl ip (Some f) g1"
      using validD [OF keeps_cycle [OF assms(1,3)]] validE [OF keeps_cycle [OF assms(1,3)]] r by (cases r) blast+
    then show ?thesis using r by (simp add: entry_is_def)
  qed
  have "hap (g\<lparr>mode := py_lower (py_strip m)\<rparr>) = hap g" by simp
  from k [OF refl] k [OF this] show ?thesis using assms(2) by (simp add: set_mode_def Let_def case_prod_beta)
qed

theorem foreign_bans_untouched_witness:
  "map_of (hap (snd (apply_enforcement sample_runtime 1010 sample_guard))) ''192.0.2.1'' = Some \<lparr>gpc0 = 1, gpt0 = 50, exp_ms = 1000\<rparr>"
  using foreign_bans_untouched [OF sample_laws, of sample_guard "''192.0.2.1''" "\<lparr>gpc0 = 1, gpt0 = 50, exp_ms = 1000\<rparr>" 1010 "''off''"]
  by (simp add: sample_guard_def foreign_ban_def ADAPTIVE_BAN_CODE_def)

text \<open>C6. The kill switch works: when HAProxy answers and accepts, switching to \<open>off\<close> or \<open>monitor\<close>
  returns, after it no flagged entry of the table carries the adaptive code, and an entry that is gone
  carried it.\<close>

theorem kill_switch_lifts_every_adaptive_ban:
  assumes "haproxy_laws rt tbl" "responsive rt" "m = ''off'' \<or> m = ''monitor''"
  shows "\<exists>res g'. set_mode rt m now g = (Inr (Inr res), g') \<and> mode g' = m \<and>
     (\<forall>ip f. tbl (hap g') ip = Some f \<longrightarrow> tbl (hap g) ip = Some f \<and> (gpc0 f \<le> 0 \<or> gpt0 f \<noteq> ADAPTIVE_BAN_CODE)) \<and>
     (\<forall>ip f. tbl (hap g) ip = Some f \<and> gpt0 f \<noteq> ADAPTIVE_BAN_CODE \<longrightarrow> tbl (hap g') ip = Some f)"
proof -
  have m: "py_lower (py_strip m) = m" "m \<in> set SUPPORTED_MODES" "m \<noteq> ''enforce''"
    using assms(3) by (auto simp: py_lower_def py_lower_char_def py_strip_def py_lstrip_def py_rstrip_def py_isspace_def SUPPORTED_MODES_def)
  obtain r g' where r: "apply_enforcement rt now (g\<lparr>mode := m\<rparr>) = (Inr r, g')" "only_lifted tbl (tbl (hap g)) g'"
    "\<forall>ip f. tbl (hap g') ip = Some f \<longrightarrow> \<not> (gpt0 f = ADAPTIVE_BAN_CODE \<and> gpc0 f > 0)"
    using paused_cycle [OF assms(1,2), of "g\<lparr>mode := m\<rparr>" now] m(3) by auto
  have "mode g' = m" using mode_cycle [of "g\<lparr>mode := m\<rparr>" rt now] r(1) m(3) by simp
  moreover have "set_mode rt m now g = (Inr (Inr r), g')" using r(1) m by (simp add: set_mode_def Let_def)
  moreover have "tbl (hap g) ip = Some f \<and> (gpc0 f \<le> 0 \<or> gpt0 f \<noteq> ADAPTIVE_BAN_CODE)" if "tbl (hap g') ip = Some f" for ip f
    using r(2) [unfolded only_lifted_def, THEN spec, of ip] r(3) [THEN spec, THEN spec, of ip f] that by auto
  moreover have "tbl (hap g') ip = Some f" if "tbl (hap g) ip = Some f" "gpt0 f \<noteq> ADAPTIVE_BAN_CODE" for ip f
    using r(2) [unfolded only_lifted_def, THEN spec, of ip] that by auto
  ultimately show ?thesis by blast
qed

theorem kill_switch_lifts_every_adaptive_ban_witness:
  "\<exists>res g'. set_mode sample_runtime ''off'' 1010 sample_guard = (Inr (Inr res), g') \<and> map_of (hap g') ''192.0.2.2'' = None"
proof -
  obtain res g' where k: "set_mode sample_runtime ''off'' 1010 sample_guard = (Inr (Inr res), g')"
    "\<forall>ip f. map_of (hap g') ip = Some f \<longrightarrow> map_of (hap sample_guard) ip = Some f \<and> (gpc0 f \<le> 0 \<or> gpt0 f \<noteq> ADAPTIVE_BAN_CODE)"
    using kill_switch_lifts_every_adaptive_ban [OF sample_laws sample_responsive, of "''off''" 1010 sample_guard] by blast
  have "map_of (hap g') ''192.0.2.2'' = None"
  proof (rule ccontr)
    assume "map_of (hap g') ''192.0.2.2'' \<noteq> None"
    then obtain f where "map_of (hap g') ''192.0.2.2'' = Some f" by blast
    with k(2) show False by (auto simp: sample_guard_def ADAPTIVE_BAN_CODE_def dest!: spec [of _ "''192.0.2.2''"])
  qed
  with k(1) show ?thesis by blast
qed

text \<open>C33. A pause is not an amnesty: no cycle, in any mode and whatever HAProxy answers, changes the end of a
  ban that is still being served.\<close>

theorem served_time_is_not_forgiven:
  assumes "distinct (map fst (ip_state (db g)))" "0 \<le> now" "now < ban_end ip (db g)"
  shows "ban_end ip (db (snd (apply_enforcement rt now g))) = ban_end ip (db g)"
  by (rule cycle_keeps_ban_end [OF assms])

definition banned_guard :: "(string \<times> ban_row) list guard" where
  "banned_guard = sample_guard\<lparr>mode := ''monitor'', db := (db sample_guard)\<lparr>ip_state := [(''192.0.2.2'', \<lparr>first_seen = 1, last_seen = 1,
     row_excluded = False, exclusion_reason = [], banned_until = 5000, ban_code = 40, authenticated_at = 0\<rparr>)]\<rparr>\<rparr>"

theorem served_time_is_not_forgiven_witness:
  "ban_end ''192.0.2.2'' (db (snd (apply_enforcement sample_runtime 1010 banned_guard))) = 5000"
  using served_time_is_not_forgiven [of banned_guard 1010 "''192.0.2.2''" sample_runtime]
  by (simp add: banned_guard_def ban_end_def)

text \<open>Repetition does not add up: a score is between zero and one hundred, and never more than the number
  of different categories the findings fall in times the category cap, or the heaviest weight
  where that is higher.\<close>

theorem score_grows_with_breadth_only:
  assumes "\<And>e. e \<in> set evs \<Longrightarrow> event_weight policy (ev_type e) \<le> w" "0 \<le> w"
  shows "0 \<le> s_score (score_events evs now policy) \<and> s_score (score_events evs now policy) \<le> 100 \<and>
     s_score (score_events evs now policy) \<le> int (card (finding_category ` set evs)) * max (category_cap policy) w"
proof -
  let ?t = "tally_events evs now policy"
  have ok: "tally_ok (finding_category ` set evs) (of_int (max (category_cap policy) w)) ?t"
    by (rule tally_events_ok [OF assms order_refl])
  have t: "0 \<le> total ?t" "total ?t \<le> of_int (int (card (finding_category ` set evs)) * max (category_cap policy) w)"
    using tally_total [OF ok] assms(2) by simp_all
  show ?thesis using py_round_nonneg [OF t(1)] py_round_le [OF t(2)] by (simp add: score_events_def Let_def)
qed

theorem score_grows_with_breadth_only_witness:
  "s_score (score_events (replicate 50 \<lparr>ev_ts = 5, ev_ip = [], ev_type = ''SCANNER_PATH'', ev_source = [], ev_site = [],
     ev_category = ''wordpress'', ev_detail = [], ev_handled = False\<rparr>) 6 default_policy) \<le> 35"
  using score_grows_with_breadth_only [of "replicate 50 \<lparr>ev_ts = 5, ev_ip = [], ev_type = ''SCANNER_PATH'', ev_source = [], ev_site = [],
     ev_category = ''wordpress'', ev_detail = [], ev_handled = False\<rparr>" default_policy 35 6]
  by (simp add: event_weight_def default_policy_def DEFAULT_WEIGHTS_def)

text \<open>No finding is lost to a late acknowledgement, and the queue stays bounded: after any sequence of
  calls the queue holds no address twice and no more than its limit, a batch is as full as it can be
  with at least a quarter left to ordinary findings, and an address marked again after the batch was
  taken stays queued when the batch's entry is acknowledged.\<close>

theorem queue_keeps_fresh_findings:
  assumes "q = eq.run calls (new_queue limit)"
  shows "distinct (map fst (urgent q @ ordinary q)) \<and> length (urgent q) + length (ordinary q) \<le> nat (max 1 limit) \<and>
    length (batch n q) = min n (length (urgent q) + length (ordinary q)) \<and>
    (\<exists>us. batch n q = us @ take (n - min (n - n div 4) (length (urgent q))) (ordinary q)) \<and>
    ((ip, gen) \<in> set (batch n q) \<and> queue_stamp (mark ip u (eq.run later q)) ip \<noteq> None \<longrightarrow>
       queue_stamp (acknowledge ip gen (mark ip u (eq.run later q))) ip \<noteq> None)"
proof -
  have ok: "queue_ok q" unfolding assms by (rule eq.run_ok) (rule queue_ok_new)
  have l: "q_limit q = nat (max 1 limit)" unfolding assms by (simp add: q_limit_run new_queue_def)
  have "queue_stamp (acknowledge ip gen (mark ip u (eq.run later q))) ip \<noteq> None"
    if "(ip, gen) \<in> set (batch n q)" "queue_stamp (mark ip u (eq.run later q)) ip \<noteq> None"
    using eq.fresh_finding_kept [OF ok batch_stamp [OF ok that(1)] that(2)] by simp
  then show ?thesis using ok l batch_ordinary_share [of n q] by (simp add: queue_ok_def length_batch)
qed

theorem queue_keeps_fresh_findings_witness:
  "queue_stamp (acknowledge ''8.8.8.8'' 1 (mark ''8.8.8.8'' True (mark ''8.8.8.8'' False (new_queue 10)))) ''8.8.8.8'' \<noteq> None"
  using queue_keeps_fresh_findings [of "mark ''8.8.8.8'' False (new_queue 10)" "[Inl (''8.8.8.8'', False)]" 10 4 "''8.8.8.8''" 1 True "[]"]
  by (simp add: mark_def new_queue_def enqueue_def batch_def queue_stamp_def)

text \<open>A new ladder of ban durations is sane and starts everybody over: its steps are in range and do not
  shrink, so a later strike never earns a shorter ban, and an address whose bans all lie before the change
  is at strike zero and gets the first step.\<close>

theorem new_ladder_starts_over:
  assumes "set_ban_durations data now g = (Inr ladder, g')"
  shows "60 \<le> ban_duration ip t g' \<and> ban_duration ip t g' \<le> 365 * 86400 \<and> sorted (ban_durations g') \<and>
    ((\<forall>e \<in> set (events (db g)). ev_ip e = ip \<and> ev_type e = ''BAN_APPLIED'' \<longrightarrow> ev_ts e < now) \<longrightarrow>
       strike_level ip t g' = 0 \<and> ban_duration ip t g' = hd ladder)"
proof -
  have v: "validate_ban_durations data = Inr ladder" and g': "g' = g\<lparr>ban_durations := ladder, ban_durations_changed_at := now\<rparr>"
    using assms by (auto simp: set_ban_durations_def split: sum.splits)
  note l = validated_ladder [OF v]
  have "ladder ! min k (length ladder - 1) \<in> set ladder" for k
    using l(1) by (intro nth_mem) (cases ladder, auto simp: min_def)
  then have "ban_duration ip t g' \<in> set ladder" by (simp add: ban_duration_def g')
  moreover have "strike_level ip t g' = 0" if "\<forall>e \<in> set (events (db g)). ev_ip e = ip \<and> ev_type e = ''BAN_APPLIED'' \<longrightarrow> ev_ts e < now"
  proof -
    have "filter (\<lambda>ts. ts \<ge> now) (ban_timestamps ip (db g)) = []"
      using that in_set_takeD by (fastforce simp: ban_timestamps_def filter_empty_conv)
    then show ?thesis by (simp add: strike_level_def g')
  qed
  ultimately show ?thesis using l(1,2) l(4) [of "ban_duration ip t g'"]
    by (auto simp: ban_duration_def g' hd_conv_nth)
qed

theorem new_ladder_starts_over_witness:
  "ban_duration ''8.8.8.8'' 3000 (snd (set_ban_durations (JList [JInt 120, JInt 240]) 2000 sample_guard)) = 120"
proof -
  have s: "set_ban_durations (JList [JInt 120, JInt 240]) 2000 sample_guard =
      (Inr [120, 240], sample_guard\<lparr>ban_durations := [120, 240], ban_durations_changed_at := 2000\<rparr>)"
    by (simp add: set_ban_durations_def validate_ban_durations_def ban_step_def MIN_BAN_SECONDS_def MAX_BAN_SECONDS_def MAX_BAN_STEPS_def)
  show ?thesis using new_ladder_starts_over [OF s, of "''8.8.8.8''" 3000] unfolding s by (simp add: sample_guard_def)
qed

text \<open>A ban placed by hand leaves exactly what happened: when it is refused or its answer is lost, the
  record of manual bans is as it was; when it is answered as remembered, the record holds it with the
  end that was answered, and HAProxy's table holds the address with the operator's code.\<close>

theorem manual_ban_records_what_happened:
  assumes "haproxy_laws rt tbl" "place_manual_ban rt fl ip now g = (r, g')"
  shows "(case r of
      Inl _ \<Rightarrow> put_back_fails fl \<or> map_of (manual_bans (db g')) = map_of (manual_bans (db g))
    | Inr a \<Rightarrow> m_ip a = py_strip ip \<and> (\<exists>f. tbl (hap g') (m_ip a) = Some f \<and> gpc0 f = 1 \<and> gpt0 f = MANUAL_BAN_CODE) \<and>
        (m_remembered a \<longrightarrow> map_of (manual_bans (db g')) (m_ip a) = Some (fresh_row now (m_until a))))"
proof (cases "enforceable (py_strip ip)")
  case False
  then show ?thesis using assms(2) by (auto simp: place_manual_ban_def Let_def)
next
  case True
  let ?ip = "py_strip ip"
  define g1 where "g1 = (if remember_fails fl then g else change_db (write_manual_ban ?ip (fresh_row now (now + MANUAL_BAN_DEFAULT_SECONDS))) g)"
  obtain x g2 where x: "restore rt ?ip MANUAL_BAN_CODE g1 = (x, g2)" by (cases "restore rt ?ip MANUAL_BAN_CODE g1")
  have d2: "db g2 = db g1" using sameD [OF manual_of_restore x] .
  have pb: "map_of (manual_bans (db (put_back fl ?ip (map_of (manual_bans (db g)) ?ip) g2))) = map_of (manual_bans (db g))" if "\<not> put_back_fails fl"
    using that d2 by (auto simp: put_back_def g1_def change_db_def write_manual_ban_def forget_manual_ban_def delete_conv' fun_eq_iff split: option.splits)
  show ?thesis
  proof (cases "x = Inr True")
    case ok: True
    obtain until g3 where u: "table_until rt ?ip now g2 = (until, g3)" by (cases "table_until rt ?ip now g2")
    obtain b g4 where rec: "record_manual fl ?ip now until g3 = (b, g4)" by (cases "record_manual fl ?ip now until g3")
    obtain f where f: "tbl (hap g2) ?ip = Some f" "gpc0 f = 1" "gpt0 f = MANUAL_BAN_CODE"
      using restore_entry [OF assms(1)] x ok by blast
    have h: "hap g4 = hap g3" "b \<Longrightarrow> map_of (manual_bans (db g4)) ?ip = Some (fresh_row now until)"
      using rec by (auto simp: record_manual_def note_decision_def record_decision_def change_db_def write_manual_ban_def Let_def split: if_splits)
    have "tbl (hap g4) = tbl (hap g2)" using h(1) table_until_effect(1) [OF assms(1) u] by simp
    moreover have "r = Inr \<lparr>m_ip = ?ip, m_until = until, m_remembered = b\<rparr>" "g' = g4"
      using assms(2) x ok u rec True by (auto simp: place_manual_ban_def Let_def g1_def [symmetric])
    ultimately show ?thesis using f h(2) by simp
  next
    case False
    then have "g' = put_back fl ?ip (map_of (manual_bans (db g)) ?ip) g2" "\<exists>e. r = Inl e"
      using assms(2) x True by (cases x; auto simp: place_manual_ban_def Let_def g1_def [symmetric])+
    then show ?thesis using pb by (cases "put_back_fails fl") auto
  qed
qed

theorem manual_ban_records_what_happened_witness:
  "\<exists>a. fst (place_manual_ban sample_runtime \<lparr>remember_fails = False, put_back_fails = False, rewrite_fails = False, decision_fails = False\<rparr>
       ''8.8.8.8'' 2000 sample_guard) = Inr a \<and> m_until a = 606800 \<and>
     map_of (manual_bans (db (snd (place_manual_ban sample_runtime \<lparr>remember_fails = False, put_back_fails = False, rewrite_fails = False,
       decision_fails = False\<rparr> ''8.8.8.8'' 2000 sample_guard)))) ''8.8.8.8'' = Some (fresh_row 2000 606800)"
proof -
  let ?fl = "\<lparr>remember_fails = False, put_back_fails = False, rewrite_fails = False, decision_fails = False\<rparr>"
  have st: "py_strip ''8.8.8.8'' = ''8.8.8.8''" by (simp add: py_strip_def py_lstrip_def py_rstrip_def py_isspace_def)
  have p: "fst (place_manual_ban sample_runtime ?fl ''8.8.8.8'' 2000 sample_guard) =
      Inr \<lparr>m_ip = ''8.8.8.8'', m_until = 606800, m_remembered = True\<rparr>"
    by (simp add: place_manual_ban_def st sample_enforceable restore_def gbind_def write_ban_def sample_runtime_def gret_def
        table_until_def read_bans_def record_manual_def Let_def)
  show ?thesis
    using manual_ban_records_what_happened [OF sample_laws surjective_pairing, where g = sample_guard and now = 2000 and fl = ?fl and ip = "''8.8.8.8''"]
    by (simp add: p)
qed



end
