(* ===== verification/Guard_Signatures.thy ===== *)
theory Guard_Signatures
  imports Py_Regex Py_Json
begin

text \<open>
  What a request looks like to the adaptive protection daemon
  (\<open>src/ansible/roles/haproxy-admin/files/easy-ha-proxy-guardd.py\<close>): the scanner signatures, the file and
  the operator's rules they come from, and the classification of a path and a user agent.

  The module-level tables are the fields of \<open>signatures\<close>.  A signature file is its parsed document, \<open>None\<close>
  when it cannot be opened or parsed; whether a text compiles as a regular expression is the argument
  \<open>regex_ok\<close>, and of the query rules only the names are kept.
\<close>

section \<open>Built-in tables\<close>

definition BUILTIN_SEGMENTS :: "(string \<times> string) list" where
  "BUILTIN_SEGMENTS =
    [(''.env'', ''secrets''),
     (''.env*'', ''secrets''),
     (''.git'', ''vcs''),
     (''.svn'', ''vcs''),
     (''.hg'', ''vcs''),
     (''.aws'', ''secrets''),
     (''.ssh'', ''secrets''),
     (''.DS_Store'', ''secrets''),
     (''phpmyadmin'', ''database-admin''),
     (''pma'', ''database-admin''),
     (''myadmin'', ''database-admin''),
     (''adminer.php'', ''database-admin''),
     (''wp-login.php'', ''wordpress''),
     (''wp-admin'', ''wordpress''),
     (''wp-content'', ''wordpress''),
     (''wp-includes'', ''wordpress''),
     (''xmlrpc.php'', ''wordpress''),
     (''server-status'', ''server-info''),
     (''server-info'', ''server-info''),
     (''phpinfo.php'', ''server-info''),
     (''actuator'', ''app-framework''),
     (''solr'', ''app-framework''),
     (''jenkins'', ''app-framework''),
     (''struts'', ''app-framework''),
     (''cgi-bin'', ''legacy-cgi''),
     (''vendor'', ''dependency''),
     (''backup.zip'', ''backup''),
     (''backup.sql'', ''backup''),
     (''backup.tar.gz'', ''backup''),
     (''database.sql'', ''backup''),
     (''dump.sql'', ''backup''),
     (''config.php'', ''config''),
     (''configuration.php'', ''config''),
     (''web.config'', ''config''),
     (''docker-compose.yml'', ''config''),
     (''id_rsa'', ''secrets'')]"

definition BUILTIN_PATHS :: "(string \<times> string) list" where
  "BUILTIN_PATHS =
    [(''/.env'', ''secrets''),
     (''/.git/config'', ''vcs''),
     (''/.aws/credentials'', ''secrets''),
     (''/.ssh/id_rsa'', ''secrets'')]"

definition BUILTIN_DECISIVE :: "string list" where
  "BUILTIN_DECISIVE = [''secrets'', ''vcs'', ''backup'', ''scanner-tool'']"

definition QUERY_RULE_NAMES :: "string list" where
  "QUERY_RULE_NAMES = [''fetch-and-run'', ''traversal'', ''shell-chaining'', ''substitution'', ''absolute-binary'']"

definition DEFAULT_USER_AGENTS :: "(string \<times> string) list" where
  "DEFAULT_USER_AGENTS =
    [(''sqlmap'', ''scanner-tool''),
     (''nikto'', ''scanner-tool''),
     (''nuclei'', ''scanner-tool''),
     (''wpscan'', ''scanner-tool''),
     (''gobuster'', ''scanner-tool''),
     (''dirbuster'', ''scanner-tool''),
     (''feroxbuster'', ''scanner-tool''),
     (''dirsearch'', ''scanner-tool''),
     (''fuzz faster u fool'', ''scanner-tool''),
     (''wfuzz'', ''scanner-tool''),
     (''acunetix'', ''scanner-tool''),
     (''netsparker'', ''scanner-tool''),
     (''openvas'', ''scanner-tool''),
     (''w3af'', ''scanner-tool''),
     (''nmap scripting engine'', ''scanner-tool''),
     (''jorgee'', ''scanner-tool''),
     (''zgrab'', ''survey''),
     (''masscan'', ''survey''),
     (''censysinspect'', ''survey''),
     (''expanse, a palo alto'', ''survey''),
     (''internet-measurement'', ''survey''),
     (''leakix'', ''survey''),
     (''l9explore'', ''survey'')]"

definition ASSET_SUFFIXES :: "string list" where
  "ASSET_SUFFIXES =
    [''.css'', ''.js'', ''.mjs'', ''.map'', ''.json'', ''.xml'', ''.txt'', ''.png'', ''.jpg'',
     ''.jpeg'', ''.gif'', ''.svg'', ''.ico'', ''.webp'', ''.avif'', ''.bmp'', ''.woff'', ''.woff2'',
     ''.ttf'', ''.eot'', ''.otf'', ''.mp4'', ''.webm'', ''.mp3'', ''.wav'', ''.pdf'']"

definition AUTHENTICATION_PATHS :: "string list" where
  "AUTHENTICATION_PATHS =
    [''/api/firstfactor'', ''/api/secondfactor/'', ''/api/user/info'', ''/api/state'', ''/api/verify'',
     ''/api/logout'', ''/api/reset-password/'', ''/api/checks/'']"

section \<open>User agents\<close>

definition MAX_USER_AGENT_RULES :: nat where "MAX_USER_AGENT_RULES = 200"
definition MIN_USER_AGENT_TOKEN :: nat where "MIN_USER_AGENT_TOKEN = 4"

definition ua_safe :: "char \<Rightarrow> bool" where
  "ua_safe c = (is_digit c \<or> (97 \<le> ord c \<and> ord c \<le> 122) \<or> c \<in> set ''./;:_-'')"

definition user_agent_token :: "string \<Rightarrow> string" where
  "user_agent_token text = map (\<lambda>c. if ua_safe c then c else CHR ''_'') (py_lower text)"

text \<open>\<open>text.strip(chars)\<close>\<close>

definition strip_chars :: "string \<Rightarrow> string \<Rightarrow> string" where
  "strip_chars chars s = rev (dropWhile (\<lambda>c. c \<in> set chars) (rev (dropWhile (\<lambda>c. c \<in> set chars) s)))"

definition compile_user_agents :: "(string \<times> string) list \<Rightarrow> (string \<times> string \<times> string) list" where
  "compile_user_agents table =
     fold (\<lambda>(written, category) compiled.
         let token = user_agent_token written in
         if length (strip_chars ''_'' token) \<ge> MIN_USER_AGENT_TOKEN \<and> category \<noteq> []
         then jput token (written, category) compiled else compiled)
       (take MAX_USER_AGENT_RULES table) []"

section \<open>The tables in force\<close>

record overrides =
  o_added :: "(string \<times> string) list"
  o_disabled :: "string list"

record signatures =
  scanner_segments :: "(string \<times> string) list"
  scanner_paths :: "(string \<times> string) list"
  scanner_prefixes :: "(string \<times> string) list"
  decisive_categories :: "string list"
  query_rules :: "string list"
  user_agents :: "(string \<times> string \<times> string) list"
  shipped_segments :: "(string \<times> string) list"
  shipped_paths :: "(string \<times> string) list"
  sig_version :: string
  sig_overrides :: overrides

definition prefixes_of :: "(string \<times> string) list \<Rightarrow> (string \<times> string) list" where
  "prefixes_of segments =
     map (\<lambda>(token, category). (py_lower (butlast token), category))
       (filter (\<lambda>(token, _). token \<noteq> [] \<and> last token = CHR ''*'' \<and> length token > 1) segments)"

definition publish_signatures :: "signatures \<Rightarrow> signatures" where
  "publish_signatures s =
     (let segments = fold AList.delete (o_disabled (sig_overrides s)) (shipped_segments s);
          paths = fold AList.delete (o_disabled (sig_overrides s)) (shipped_paths s);
          (segments, paths) = fold (\<lambda>(token, category) (segments, paths).
              if py_startswith token ''/'' then (segments, jput token category paths)
              else (jput token category segments, paths)) (o_added (sig_overrides s)) (segments, paths)
      in s\<lparr>scanner_segments := segments, scanner_paths := paths, scanner_prefixes := prefixes_of segments\<rparr>)"

definition apply_overrides :: "overrides option \<Rightarrow> signatures \<Rightarrow> signatures" where
  "apply_overrides o' s = publish_signatures (case o' of None \<Rightarrow> s | Some x \<Rightarrow> s\<lparr>sig_overrides := x\<rparr>)"

section \<open>The signature file\<close>

text \<open>\<open>dict(x)\<close> of a JSON value: of an object, or of a list of pairs.\<close>

definition pair_of :: "json \<Rightarrow> (string \<times> json) option" where
  "pair_of j = (case j of JList [k, v] \<Rightarrow> Some (py_str k, v) | JStr [k, v] \<Rightarrow> Some ([k], JStr [v]) | _ \<Rightarrow> None)"

fun dict_of :: "json \<Rightarrow> (string \<times> string) list option" where
  "dict_of (JObj m) = Some (map (\<lambda>(k, v). (k, py_str v)) m)"
| "dict_of (JList xs) =
     (if list_all (\<lambda>x. pair_of x \<noteq> None) xs
      then Some (fold (\<lambda>x m. case pair_of x of None \<Rightarrow> m | Some (k, v) \<Rightarrow> jput k (py_str v) m) xs []) else None)"
| "dict_of _ = None"

text \<open>The items of \<open>for x in value\<close>.\<close>

fun iter_strs :: "json \<Rightarrow> string list option" where
  "iter_strs (JList xs) = Some (map py_str xs)"
| "iter_strs (JObj m) = Some (map fst m)"
| "iter_strs (JStr s) = Some (map (\<lambda>c. [c]) s)"
| "iter_strs _ = None"

text \<open>A key that is missing raises; a key that is there with another shape raises too.\<close>

definition file_tables :: "json option \<Rightarrow> (jobj \<times> (string \<times> string) list \<times> (string \<times> string) list \<times> string list) option" where
  "file_tables doc =
     (case doc of
        Some (JObj data) \<Rightarrow>
          (case (map_of data ''segments'', map_of data ''paths'', map_of data ''decisive'') of
             (Some sg, Some pt, Some dc) \<Rightarrow>
               (case (dict_of sg, dict_of pt, iter_strs dc) of
                  (Some segments, Some paths, Some decisive) \<Rightarrow> Some (data, segments, paths, decisive)
                | _ \<Rightarrow> None)
           | _ \<Rightarrow> None)
      | _ \<Rightarrow> None)"

definition file_queries :: "(string \<Rightarrow> bool) \<Rightarrow> jobj \<Rightarrow> string list \<Rightarrow> string list" where
  "file_queries regex_ok data current =
     (case jget ''queries'' data of
        JObj qs \<Rightarrow> if qs \<noteq> [] \<and> list_all (\<lambda>(_, p). regex_ok (py_str p)) qs then map fst qs else current
      | _ \<Rightarrow> current)"

definition file_agents :: "jobj \<Rightarrow> (string \<times> string \<times> string) list \<Rightarrow> (string \<times> string \<times> string) list" where
  "file_agents data current =
     (case jget ''user_agents'' data of
        JObj uas \<Rightarrow> (let agents = compile_user_agents (map (\<lambda>(k, v). (k, py_str v)) uas) in
          if agents \<noteq> [] then agents else current)
      | _ \<Rightarrow> current)"

definition load_signatures :: "(string \<Rightarrow> bool) \<Rightarrow> json option \<Rightarrow> signatures \<Rightarrow> bool result \<times> signatures" where
  "load_signatures regex_ok doc s =
     (case file_tables doc of
        None \<Rightarrow> (Inr False, s)
      | Some (data, segments, paths, decisive) \<Rightarrow>
          if segments = [] \<or> paths = [] then (Inr False, s)
          else case iter_strs (jor (jget ''traps'' data) (JList [])) of
              None \<Rightarrow> (Inl (TypeError ''object is not iterable''), s)
            | Some traps \<Rightarrow>
                (Inr True, (publish_signatures (s\<lparr>query_rules := file_queries regex_ok data (query_rules s),
                   user_agents := file_agents data (user_agents s), shipped_segments := segments,
                   shipped_paths := fold (\<lambda>trap m. jput trap ''trap'' m) traps paths, decisive_categories := decisive\<rparr>))
                 \<lparr>sig_version := str_or (jget ''version'' data) ''unversioned''\<rparr>))"

section \<open>The operator's rules\<close>

definition CUSTOM_CATEGORY :: string where "CUSTOM_CATEGORY = ''custom''"
definition MAX_CUSTOM_RULES :: nat where "MAX_CUSTOM_RULES = 200"
definition MAX_TOKEN_LENGTH :: nat where "MAX_TOKEN_LENGTH = 120"

text \<open>\<open>re.match\<close> with a pattern that ends in \<open>$\<close>: a line feed may follow.\<close>

definition match_line :: "rex \<Rightarrow> string \<Rightarrow> bool" where
  "match_line r s = (rex_match r s \<or> (s \<noteq> [] \<and> last s = CHR 0x0A \<and> rex_match r (butlast s)))"

definition TOKEN_OK :: rex where
  "TOKEN_OK = RRep 1 120 (rng [(65, 90), (97, 122), (48, 57)] ''._~/@:+-'')"

definition CATEGORY_NAME :: rex where
  "CATEGORY_NAME = RRep 1 32 (rng [(97, 122), (48, 57)] ''-'')"

definition validate_token :: "string \<Rightarrow> string result" where
  "validate_token token =
     (let text = py_strip token;
          starred = (text \<noteq> [] \<and> last text = CHR ''*'');
          base = (if starred then butlast text else text)
      in if text = [] then Inl (ValueError ''empty signature'')
         else if length text > MAX_TOKEN_LENGTH then Inl (ValueError ''longer than 120 characters'')
         else if starred \<and> py_startswith text ''/'' then
           Inl (ValueError ''a prefix (*) works on a path segment, not on a whole path'')
         else if starred \<and> length base < 3 then Inl (ValueError ''a prefix needs at least three characters before *'')
         else if \<not> match_line TOKEN_OK base then
           Inl (ValueError (''a signature may hold letters, digits and . _ ~ / @ : + - only, ''
             @ ''with an optional * at the end of a segment''))
         else if py_startswith text ''/'' \<and> strip_chars ''/'' text = [] then
           Inl (ValueError ''a signature of / would match everything'')
         else Inr text)"

definition category_name :: "json \<Rightarrow> string" where
  "category_name category =
     (let name = py_strip (str_or category CUSTOM_CATEGORY) in if name = [] then CUSTOM_CATEGORY else name)"

fun added_rules :: "jobj \<Rightarrow> (string \<times> string) list \<Rightarrow> (string \<times> string) list result" where
  "added_rules [] added = Inr added"
| "added_rules ((token, category) # rest) added =
     (let name = category_name category in
      if \<not> match_line CATEGORY_NAME name then Inl (ValueError (name @ '' is not a usable category name''))
      else ebind (validate_token token) (\<lambda>t. added_rules rest (jput t name added)))"

definition validate_overrides :: "json \<Rightarrow> overrides result" where
  "validate_overrides data =
     (case data of
        JObj d \<Rightarrow>
          (case (jor (jget ''added'' d) (JObj []), jor (jget ''disabled'' d) (JList [])) of
             (JObj added_raw, JList disabled_raw) \<Rightarrow>
               if length added_raw > MAX_CUSTOM_RULES \<or> length disabled_raw > MAX_CUSTOM_RULES then
                 Inl (ValueError ''at most 200 rules'')
               else ebind (added_rules added_raw []) (\<lambda>added.
                 ebind (emap (\<lambda>t. validate_token (py_str t)) disabled_raw) (\<lambda>ts.
                   Inr \<lparr>o_added = added, o_disabled = sort (remdups ts)\<rparr>))
           | _ \<Rightarrow> Inl (ValueError ''expected added to be an object and disabled a list''))
      | _ \<Rightarrow> Inl (ValueError ''expected an object''))"

text \<open>\<open>store_overrides\<close> persists the checked rules, reads the shipped file again and swaps both in; the stored
  document is the second component.\<close>

definition store_overrides :: "(string \<Rightarrow> bool) \<Rightarrow> json option \<Rightarrow> json \<Rightarrow> overrides option \<times> signatures
    \<Rightarrow> overrides result \<times> overrides option \<times> signatures" where
  "store_overrides regex_ok doc data st =
     (case st of (stored, s) \<Rightarrow>
       (case validate_overrides data of
          Inl e \<Rightarrow> (Inl e, stored, s)
        | Inr checked \<Rightarrow>
            (case load_signatures regex_ok doc s of
               (Inl e, s1) \<Rightarrow> (Inl e, Some checked, s1)
             | (Inr _, s1) \<Rightarrow> (Inr checked, Some checked, apply_overrides (Some checked) s1))))"

section \<open>Classification\<close>

definition category_is_decisive :: "signatures \<Rightarrow> string \<Rightarrow> bool" where
  "category_is_decisive s category = (category \<in> set (decisive_categories s))"

definition is_served :: "int \<Rightarrow> bool" where
  "is_served status = (200 \<le> status \<and> status < 300)"

definition is_asset :: "string \<Rightarrow> bool" where
  "is_asset path = list_ex (py_endswith (py_lower path)) ASSET_SUFFIXES"

definition is_authentication_endpoint :: "string \<Rightarrow> bool" where
  "is_authentication_endpoint path =
     list_ex (\<lambda>p. let prefix = rev (dropWhile (\<lambda>c. c = CHR ''/'') (rev p)) in
       py_lower path = prefix \<or> py_startswith (py_lower path) (prefix @ ''/'')) AUTHENTICATION_PATHS"

definition prefix_category :: "signatures \<Rightarrow> string \<Rightarrow> string" where
  "prefix_category s segment =
     (case find (\<lambda>(prefix, _). py_startswith (py_lower segment) prefix) (scanner_prefixes s) of
        None \<Rightarrow> [] | Some (_, category) \<Rightarrow> category)"

definition MAX_MATCHED_SEGMENTS :: nat where "MAX_MATCHED_SEGMENTS = 12"

text \<open>\<open>text.split(sep, n)\<close>: at most \<open>n\<close> separators, the rest of the text last.\<close>

fun py_split_max :: "char \<Rightarrow> nat \<Rightarrow> string \<Rightarrow> string list" where
  "py_split_max sep n [] = [[]]"
| "py_split_max sep n (c # s) =
     (if c = sep \<and> n > 0 then [] # py_split_max sep (n - 1) s
      else (case py_split_max sep n s of [] \<Rightarrow> [[c]] | p # ps \<Rightarrow> (c # p) # ps))"

definition find_or :: "string \<Rightarrow> (string \<times> string) list \<Rightarrow> string" where
  "find_or k m = (case map_of m k of None \<Rightarrow> [] | Some v \<Rightarrow> v)"

definition segment_category :: "signatures \<Rightarrow> string \<Rightarrow> string" where
  "segment_category s segment =
     (let a = find_or segment (scanner_segments s); b = find_or (py_lower segment) (scanner_segments s) in
      if a \<noteq> [] then a else if b \<noteq> [] then b else prefix_category s segment)"

text \<open>The loop over the segments: a decisive category ends it, the first probable one is kept.\<close>

fun classify_segments :: "signatures \<Rightarrow> string list \<Rightarrow> string \<Rightarrow> string + string" where
  "classify_segments s [] probable = Inr probable"
| "classify_segments s (segment # rest) probable =
     (if segment = [] then classify_segments s rest probable
      else let category = segment_category s segment in
        if category = [] then classify_segments s rest probable
        else if category_is_decisive s category then Inl category
        else classify_segments s rest (if probable = [] then category else probable))"

definition classify_path :: "signatures \<Rightarrow> string \<Rightarrow> string" where
  "classify_path s path =
     (if path = [] \<or> path = ''/'' then []
      else if find_or path (scanner_paths s) \<noteq> [] then find_or path (scanner_paths s)
      else case classify_segments s (tl (py_split_max (CHR ''/'') (MAX_MATCHED_SEGMENTS + 1) path)) [] of
          Inl category \<Rightarrow> category
        | Inr probable \<Rightarrow> if is_asset path \<or> is_authentication_endpoint path then [] else probable)"

definition classify_user_agent :: "signatures \<Rightarrow> string \<Rightarrow> string \<times> string" where
  "classify_user_agent s value =
     (if value = [] \<or> value = ''-'' then ([], [])
      else case find (\<lambda>(token, _). py_contains token (py_lower value)) (user_agents s) of
          None \<Rightarrow> ([], []) | Some (_, found) \<Rightarrow> found)"

definition builtin_signatures :: signatures where
  "builtin_signatures = \<lparr>scanner_segments = BUILTIN_SEGMENTS, scanner_paths = BUILTIN_PATHS,
     scanner_prefixes = prefixes_of BUILTIN_SEGMENTS, decisive_categories = BUILTIN_DECISIVE, query_rules = QUERY_RULE_NAMES,
     user_agents = compile_user_agents DEFAULT_USER_AGENTS, shipped_segments = BUILTIN_SEGMENTS,
     shipped_paths = BUILTIN_PATHS, sig_version = ''built-in'', sig_overrides = \<lparr>o_added = [], o_disabled = []\<rparr>\<rparr>"

end
