(* ===== verification/Guard_Activity.thy ===== *)
theory Guard_Activity
  imports Guard_Score Guard_Signatures
begin

text \<open>
  The working memory of the adaptive protection daemon
  (\<open>src/ansible/roles/haproxy-admin/files/easy-ha-proxy-guardd.py\<close>): one request as the log gives it
  (\<open>ParsedRequest\<close>), what one address has been doing (\<open>IpActivity\<close>), the addresses remembered
  (\<open>IpMemory\<close>), the catch-all pages, the names nobody serves and the paths suggested as signatures.

  An \<open>OrderedDict\<close> is an association list in its order.  \<open>hash(text) & 0xFFFFFFFF\<close> is the argument \<open>digest\<close>
  and \<open>_address_key\<close> (CRC-32) the argument \<open>crc\<close>: which value a text gets is of no consequence here.
\<close>

section \<open>Bounded dictionaries\<close>

text \<open>\<open>while len(d) > limit: d.popitem(last=False)\<close>\<close>

definition drop_oldest :: "nat \<Rightarrow> ('k \<times> 'v) list \<Rightarrow> ('k \<times> 'v) list" where
  "drop_oldest limit m = drop (length m - limit) m"

text \<open>\<open>d[k] = v; d.move_to_end(k)\<close>\<close>

definition put_last :: "'k \<Rightarrow> 'v \<Rightarrow> ('k \<times> 'v) list \<Rightarrow> ('k \<times> 'v) list" where
  "put_last k v m = AList.delete k m @ [(k, v)]"

definition lru_put :: "nat \<Rightarrow> 'k \<Rightarrow> 'v \<Rightarrow> ('k \<times> 'v) list \<Rightarrow> ('k \<times> 'v) list" where
  "lru_put limit k v m = drop_oldest limit (put_last k v m)"

section \<open>One request\<close>

record parsed_request =
  client_ip :: string
  status :: int
  backend :: string
  http_method :: string
  req_path :: string
  req_host :: string
  bad_request :: bool
  query_flag :: string
  path_flag :: string
  observation_flags :: "string list"
  req_ts :: int
  bytes_out :: int
  term_state :: string
  ban_reason :: string
  user_agent :: string

definition IDENTITY_REFUSALS :: "int list" where "IDENTITY_REFUSALS = [401, 403, 451]"

definition no_server :: "parsed_request \<Rightarrow> bool" where
  "no_server r = py_endswith (backend r) ''/<NOSRV>''"

definition denied_by_gateway :: "parsed_request \<Rightarrow> bool" where
  "denied_by_gateway r =
     (if status r \<notin> set IDENTITY_REFUSALS then False
      else if status r = 401 then no_server r else True)"

section \<open>What one address has been doing\<close>

record ip_activity =
  act_first_seen :: int
  act_last_seen :: int
  requests :: int
  errors :: int
  not_found :: int
  gateway_denied :: int
  bad_requests :: int
  reached_backend :: bool
  paths :: "(int \<times> int) list"
  hosts :: "string list"
  categories :: "(string \<times> int) list"
  scanner_hits :: int
  scanner_hits_denied :: int
  missing_paths :: "(int \<times> int) list"
  refused_paths :: "(int \<times> int) list"
  burst_start :: int
  burst_misses :: int
  invalid_host_keys :: "(int \<times> int) list"
  invalid_host_since :: int
  recurring_checked :: int

definition new_activity :: "int \<Rightarrow> ip_activity" where
  "new_activity ts = \<lparr>act_first_seen = ts, act_last_seen = 0, requests = 0, errors = 0, not_found = 0, gateway_denied = 0,
     bad_requests = 0, reached_backend = False, paths = [], hosts = [], categories = [], scanner_hits = 0,
     scanner_hits_denied = 0, missing_paths = [], refused_paths = [], burst_start = 0, burst_misses = 0,
     invalid_host_keys = [], invalid_host_since = 0, recurring_checked = 0\<rparr>"

definition refusal_is_a_shield :: "parsed_request \<Rightarrow> ip_activity \<Rightarrow> bool" where
  "refusal_is_a_shield r a = (denied_by_gateway r \<and> \<not> reached_backend a)"

definition scanning_was_all_refused :: "ip_activity \<Rightarrow> bool" where
  "scanning_was_all_refused a = (scanner_hits a > 0 \<and> scanner_hits_denied a \<ge> scanner_hits a)"

definition note_path :: "int \<Rightarrow> int \<Rightarrow> nat \<Rightarrow> ip_activity \<Rightarrow> ip_activity" where
  "note_path digest ts limit a = a\<lparr>paths := lru_put limit digest ts (paths a)\<rparr>"

definition note_category :: "string \<Rightarrow> int \<Rightarrow> ip_activity \<Rightarrow> ip_activity" where
  "note_category category ts a = a\<lparr>categories := lru_put 16 category ts (categories a)\<rparr>"

definition note_missing :: "int \<Rightarrow> int \<Rightarrow> nat \<Rightarrow> ip_activity \<Rightarrow> bool \<times> ip_activity" where
  "note_missing digest ts limit a =
     (map_of (missing_paths a) digest = None, a\<lparr>missing_paths := lru_put limit digest ts (missing_paths a)\<rparr>)"

definition note_refused :: "int \<Rightarrow> int \<Rightarrow> nat \<Rightarrow> int \<Rightarrow> ip_activity \<Rightarrow> bool \<times> ip_activity" where
  "note_refused digest ts limit window a =
     (let fresh = (map_of (refused_paths a) digest = None);
          a1 = a\<lparr>refused_paths := lru_put limit digest ts (refused_paths a)\<rparr>
      in if \<not> fresh then (False, a1)
         else let a2 = (if ts - burst_start a1 > window then a1\<lparr>burst_start := ts, burst_misses := 0\<rparr> else a1)
              in (True, a2\<lparr>burst_misses := burst_misses a2 + 1\<rparr>))"

definition note_invalid_host :: "int \<Rightarrow> int \<Rightarrow> nat \<Rightarrow> int \<Rightarrow> ip_activity \<Rightarrow> nat option \<times> ip_activity" where
  "note_invalid_host digest ts limit window a =
     (let a1 = (if invalid_host_since a < ts - window then a\<lparr>invalid_host_since := ts, invalid_host_keys := []\<rparr> else a)
      in case map_of (invalid_host_keys a1) digest of
           Some old \<Rightarrow> (None, a1\<lparr>invalid_host_keys := put_last digest old (invalid_host_keys a1)\<rparr>)
         | None \<Rightarrow> let keys = drop_oldest limit (invalid_host_keys a1 @ [(digest, ts)])
             in (Some (length keys), a1\<lparr>invalid_host_keys := keys\<rparr>))"

definition recent_categories :: "int \<Rightarrow> ip_activity \<Rightarrow> string list" where
  "recent_categories since a = map fst (filter (\<lambda>(_, ts). ts \<ge> since) (categories a))"

definition distinct_missing :: "int \<Rightarrow> ip_activity \<Rightarrow> nat" where
  "distinct_missing since a = length (filter (\<lambda>(_, ts). ts \<ge> since) (missing_paths a))"

text \<open>Enough answered requests to look like an ordinary client.\<close>

definition looks_like_client :: "ip_activity \<Rightarrow> bool" where
  "looks_like_client a =
     (requests a \<ge> 20 \<and> (requests a - errors a - not_found a - gateway_denied a - bad_requests a) * 2 \<ge> requests a)"

section \<open>The addresses remembered\<close>

record ip_memory =
  max_ips :: nat
  mem_entries :: "(string \<times> ip_activity) list"
  evictions :: nat

text \<open>The activity returned is the object in the table: \<open>put_activity\<close> writes its changes back.\<close>

definition touch :: "string \<Rightarrow> int \<Rightarrow> ip_memory \<Rightarrow> ip_activity \<times> ip_memory" where
  "touch ip ts m =
     (let a = (case map_of (mem_entries m) ip of None \<Rightarrow> new_activity ts | Some a \<Rightarrow> a)\<lparr>act_last_seen := ts\<rparr>;
          all = put_last ip a (mem_entries m);
          kept = drop_oldest (max_ips m) all
      in (a, m\<lparr>mem_entries := kept, evictions := evictions m + (length all - length kept)\<rparr>))"

definition put_activity :: "string \<Rightarrow> ip_activity \<Rightarrow> ip_memory \<Rightarrow> ip_memory" where
  "put_activity ip a m =
     m\<lparr>mem_entries := map (\<lambda>(k, v). (k, if k = ip then a else v)) (mem_entries m)\<rparr>"

definition prune_memory :: "int \<Rightarrow> ip_memory \<Rightarrow> nat \<times> ip_memory" where
  "prune_memory older_than m =
     (length (filter (\<lambda>(_, a). act_last_seen a < older_than) (mem_entries m)),
      m\<lparr>mem_entries := filter (\<lambda>(_, a). \<not> act_last_seen a < older_than) (mem_entries m)\<rparr>)"

section \<open>Catch-all pages\<close>

definition CATCH_ALL_MIN_PATHS :: nat where "CATCH_ALL_MIN_PATHS = 3"
definition CATCH_ALL_MAX_HOSTS :: nat where "CATCH_ALL_MAX_HOSTS = 256"
definition CATCH_ALL_MAX_SIZES :: nat where "CATCH_ALL_MAX_SIZES = 16"

type_synonym catch_all_pages = "(string \<times> (int \<times> int list) list) list"

definition catch_all_known :: "string \<Rightarrow> int \<Rightarrow> catch_all_pages \<Rightarrow> bool" where
  "catch_all_known host sz c =
     (case map_of c host of None \<Rightarrow> False
      | Some sizes \<Rightarrow> (case map_of sizes sz of None \<Rightarrow> False | Some seen \<Rightarrow> length seen \<ge> CATCH_ALL_MIN_PATHS))"

definition is_catch_all :: "string \<Rightarrow> int \<Rightarrow> int \<Rightarrow> catch_all_pages \<Rightarrow> bool \<times> catch_all_pages" where
  "is_catch_all host sz digest c =
     (let sizes = (case map_of c host of None \<Rightarrow> [] | Some s \<Rightarrow> s);
          seen = (case map_of sizes sz of None \<Rightarrow> [] | Some s \<Rightarrow> s);
          seen' = (if length seen < CATCH_ALL_MIN_PATHS then List.insert digest seen else seen);
          sizes' = lru_put CATCH_ALL_MAX_SIZES sz seen' sizes
      in (length seen' \<ge> CATCH_ALL_MIN_PATHS, lru_put CATCH_ALL_MAX_HOSTS host sizes' c))"

section \<open>Suggested signatures\<close>

definition CANDIDATE_MAX_PATHS :: nat where "CANDIDATE_MAX_PATHS = 20000"
definition CANDIDATE_MAX_ADDRESSES :: nat where "CANDIDATE_MAX_ADDRESSES = 64"
definition CANDIDATE_MAX_SERVED :: nat where "CANDIDATE_MAX_SERVED = 50000"
definition CANDIDATE_MAX_PATH_LENGTH :: nat where "CANDIDATE_MAX_PATH_LENGTH = 200"
definition ENUMERATION_STATUSES :: "int list" where "ENUMERATION_STATUSES = [401, 403, 404, 410]"

record candidate =
  cd_first :: int
  cd_last :: int
  cd_ips :: "int list"
  cd_clients :: "int list"
  cd_status :: "(string \<times> int) list"
  cd_hosts :: "(string \<times> int) list"

record path_candidates =
  cand_paths :: "((string \<times> string) \<times> candidate) list"
  cand_served :: "(int \<times> int) list"

definition count_up :: "string \<Rightarrow> (string \<times> int) list \<Rightarrow> (string \<times> int) list" where
  "count_up k m = jput k ((case map_of m k of None \<Rightarrow> 0 | Some n \<Rightarrow> n) + 1) m"

definition lower_host :: "string \<Rightarrow> string" where
  "lower_host host = rev (dropWhile (\<lambda>c. c = CHR ''.'') (rev (py_lower host)))"

definition add_limited :: "int \<Rightarrow> int list \<Rightarrow> int list" where
  "add_limited k xs = (if length xs < CANDIDATE_MAX_ADDRESSES then List.insert k xs else xs)"

definition candidate_hit :: "int \<Rightarrow> int \<Rightarrow> bool \<Rightarrow> string \<Rightarrow> int \<Rightarrow> candidate \<Rightarrow> candidate" where
  "candidate_hit st key client host ts e =
     e\<lparr>cd_last := ts, cd_ips := add_limited key (cd_ips e),
       cd_clients := (if client then add_limited key (cd_clients e) else cd_clients e),
       cd_status := count_up (int_to_str st) (cd_status e),
       cd_hosts := (if host \<noteq> [] \<and> (map_of (cd_hosts e) host \<noteq> None \<or> length (cd_hosts e) < 5)
                    then count_up host (cd_hosts e) else cd_hosts e)\<rparr>"

definition candidates_note :: "(string \<times> string \<Rightarrow> int) \<Rightarrow> (string \<Rightarrow> int) \<Rightarrow> string \<Rightarrow> string \<Rightarrow> string \<Rightarrow> int \<Rightarrow> bool \<Rightarrow> bool \<Rightarrow> int
    \<Rightarrow> path_candidates \<Rightarrow> path_candidates" where
  "candidates_note pair_hash crc path ip host0 st served client ts c =
     (if length path > CANDIDATE_MAX_PATH_LENGTH then c
      else let host = lower_host host0; key = (host, path); d = pair_hash key in
        if served then c\<lparr>cand_served := lru_put CANDIDATE_MAX_SERVED d ts (cand_served c),
          cand_paths := AList.delete key (cand_paths c)\<rparr>
        else if st \<notin> set ENUMERATION_STATUSES \<or> map_of (cand_served c) d \<noteq> None then c
        else let entry = (case map_of (cand_paths c) key of
                   None \<Rightarrow> \<lparr>cd_first = ts, cd_last = ts, cd_ips = [], cd_clients = [], cd_status = [], cd_hosts = []\<rparr>
                 | Some e \<Rightarrow> e)
             in c\<lparr>cand_paths := lru_put CANDIDATE_MAX_PATHS key (candidate_hit st (crc ip) client host ts entry) (cand_paths c)\<rparr>)"

definition candidates_prune :: "int \<Rightarrow> path_candidates \<Rightarrow> path_candidates" where
  "candidates_prune before c =
     c\<lparr>cand_paths := filter (\<lambda>(_, e). \<not> cd_last e < before) (cand_paths c),
       cand_served := filter (\<lambda>(_, ts). \<not> ts < before) (cand_served c)\<rparr>"

section \<open>Names that serve no site\<close>

definition UNKNOWN_HOSTS_MAX :: nat where "UNKNOWN_HOSTS_MAX = 2000"

record unknown_host =
  uh_first :: int
  uh_last :: int
  uh_requests :: int
  uh_ips :: "int list"
  uh_clients :: "int list"

definition unknown_note :: "(string \<Rightarrow> int) \<Rightarrow> string \<Rightarrow> string \<Rightarrow> bool \<Rightarrow> int \<Rightarrow> (string \<times> unknown_host) list \<Rightarrow> (string \<times> unknown_host) list" where
  "unknown_note crc host ip client ts m =
     (let e = (case map_of m host of
            None \<Rightarrow> \<lparr>uh_first = ts, uh_last = ts, uh_requests = 0, uh_ips = [], uh_clients = []\<rparr> | Some e \<Rightarrow> e);
          e' = e\<lparr>uh_last := ts, uh_requests := uh_requests e + 1, uh_ips := add_limited (crc ip) (uh_ips e),
            uh_clients := (if client then add_limited (crc ip) (uh_clients e) else uh_clients e)\<rparr>
      in lru_put UNKNOWN_HOSTS_MAX host e' m)"

definition unknown_prune :: "int \<Rightarrow> (string \<times> unknown_host) list \<Rightarrow> (string \<times> unknown_host) list" where
  "unknown_prune before m = filter (\<lambda>(_, e). \<not> uh_last e < before) m"

end
