(* ===== verification/Guard_Context.thy ===== *)
theory Guard_Context
  imports Guard_Activity
begin

text \<open>
  The contextual rules of the adaptive protection daemon (\<open>detection_scope\<close>, \<open>validate_detection_config\<close>
  and \<open>DetectionContext\<close> of \<open>easy-ha-proxy-guardd.py\<close>): which rules a request matches, whether a rule
  observes or enforces, the exceptions, the aggregates of what was seen, and slow enumeration.

  The indexes by host that \<open>DetectionSettings\<close> builds are the filters \<open>rules_for\<close> and \<open>exceptions_for\<close>.
  What is saved in the database is the field \<open>dc_saved\<close>; the loading of aggregates saved by an earlier
  process is left out.
\<close>

section \<open>Scopes\<close>

record dscope =
  sc_hosts :: "string list"
  sc_methods :: "string list"
  sc_match :: string
  sc_value :: string
  sc_statuses :: "int list"

definition HOST_NAME :: rex where
  "HOST_NAME = RSeq (rng [(97, 122), (48, 57)] []) (ROpt (RSeq (RRep 0 251 (rng [(97, 122), (48, 57)] ''.-'')) (rng [(97, 122), (48, 57)] [])))"

definition detection_host :: "json \<Rightarrow> string result" where
  "detection_host j =
     (case j of
        JStr v \<Rightarrow> (let host = lower_host v in
          if length v > 253 \<or> \<not> rex_match HOST_NAME host \<or> py_contains ''..'' host
          then Inl (ValueError ''expected a host name without a port'') else Inr host)
      | _ \<Rightarrow> Inl (ValueError ''expected a host name without a port''))"

text \<open>\<open>normalize_path\<close> of a text that starts with a slash and has no percent sign.\<close>

fun resolve_dots :: "string list \<Rightarrow> string list \<Rightarrow> string list" where
  "resolve_dots [] acc = rev acc"
| "resolve_dots (sg # rest) acc =
     (if sg = [] \<or> sg = ''.'' then resolve_dots rest acc
      else if sg = ''..'' then resolve_dots rest (tl acc)
      else resolve_dots rest (sg # acc))"

definition normalize_plain_path :: "string \<Rightarrow> string" where
  "normalize_plain_path v =
     (let text = takeWhile (\<lambda>c. c \<noteq> CHR ''#'') (takeWhile (\<lambda>c. c \<noteq> CHR ''?'') (py_strip v));
          text = filter (\<lambda>c. \<not> (ord c < 32 \<or> ord c = 127)) text
      in take 200 (''/'' @ py_join ''/'' (resolve_dots (py_split (CHR ''/'') text) [])))"

definition all_strs :: "json list \<Rightarrow> string list option" where
  "all_strs js = (if list_all (\<lambda>j. case j of JStr _ \<Rightarrow> True | _ \<Rightarrow> False) js
     then Some (List.map_filter (\<lambda>j. case j of JStr s \<Rightarrow> Some s | _ \<Rightarrow> None) js) else None)"

definition all_ints :: "json list \<Rightarrow> int list option" where
  "all_ints js = (if list_all (\<lambda>j. case j of JInt _ \<Rightarrow> True | _ \<Rightarrow> False) js
     then Some (List.map_filter (\<lambda>j. case j of JInt i \<Rightarrow> Some i | _ \<Rightarrow> None) js) else None)"

definition METHOD_NAME :: rex where "METHOD_NAME = RRep 3 16 (rng [(65, 90)] [])"

definition plain_value :: "string \<Rightarrow> bool" where
  "plain_value v = (1 \<le> length v \<and> length v \<le> 200 \<and> list_all (\<lambda>c. c \<notin> set (''?#%'' @ [CHR 0x5C] @ '' '') \<and> \<not> ord c < 32 \<and> ord c \<noteq> 127) v)"

definition scope_value :: "json \<Rightarrow> json \<Rightarrow> (string \<times> string) result" where
  "scope_value match_j value_j =
     (case match_j of
        JStr mt \<Rightarrow>
          if mt \<notin> {''exact'', ''prefix'', ''segment''} then Inl (ValueError ''match must be exact, prefix or segment'')
          else (case value_j of
             JStr v \<Rightarrow>
               if \<not> plain_value v then Inl (ValueError ''expected a plain path without parameters or escapes'')
               else if mt = ''segment'' \<and> (CHR ''/'' \<in> set v \<or> v = ''.'' \<or> v = ''..'') then
                 Inl (ValueError ''expected one path segment'')
               else if mt \<noteq> ''segment'' \<and> (\<not> py_startswith v ''/'' \<or> normalize_plain_path v \<noteq> v) then
                 Inl (ValueError ''expected a canonical path starting with a slash'')
               else if mt = ''prefix'' \<and> v = ''/'' then Inl (ValueError ''a prefix must name a route'')
               else Inr (mt, v)
           | _ \<Rightarrow> Inl (ValueError ''expected a plain path without parameters or escapes''))
      | _ \<Rightarrow> Inl (ValueError ''match must be exact, prefix or segment''))"

definition scope_methods :: "json \<Rightarrow> string list result" where
  "scope_methods j =
     (case j of
        JList ms \<Rightarrow>
          if length ms > 16 then Inl (ValueError ''expected at most sixteen methods'')
          else (case all_strs ms of
             Some ss \<Rightarrow> if list_all (rex_match METHOD_NAME) ss then Inr (sort (remdups ss))
               else Inl (ValueError ''expected uppercase HTTP methods'')
           | None \<Rightarrow> Inl (ValueError ''expected uppercase HTTP methods''))
      | _ \<Rightarrow> Inl (ValueError ''expected at most sixteen methods''))"

definition scope_statuses :: "json \<Rightarrow> int list result" where
  "scope_statuses j =
     (case j of
        JList ss \<Rightarrow>
          (case all_ints ss of
             Some is \<Rightarrow> if length ss > 16 \<or> \<not> list_all (\<lambda>i. 100 \<le> i \<and> i \<le> 599) is
               then Inl (ValueError ''expected at most sixteen HTTP status codes'') else Inr (sort (remdups is))
           | None \<Rightarrow> Inl (ValueError ''expected at most sixteen HTTP status codes''))
      | _ \<Rightarrow> Inl (ValueError ''expected at most sixteen HTTP status codes''))"

definition rstrip_slashes :: "string \<Rightarrow> string" where
  "rstrip_slashes v = rev (dropWhile (\<lambda>c. c = CHR ''/'') (rev v))"

definition detection_scope :: "jobj \<Rightarrow> dscope result" where
  "detection_scope row =
     (case jget ''hosts'' row of
        JList hs \<Rightarrow>
          if \<not> (1 \<le> length hs \<and> length hs \<le> 8) then Inl (ValueError ''choose one to eight exact host names'')
          else ebind (scope_methods (jget_or ''methods'' (JList []) row)) (\<lambda>methods.
            ebind (scope_statuses (jget_or ''statuses'' (JList []) row)) (\<lambda>statuses.
            ebind (scope_value (jget_or ''match'' (JStr ''exact'') row) (jget ''value'' row)) (\<lambda>(mt, v).
            ebind (emap detection_host hs) (\<lambda>hosts.
              Inr \<lparr>sc_hosts = sort (remdups hosts), sc_methods = methods, sc_match = mt,
                sc_value = (if rstrip_slashes v = [] then ''/'' else rstrip_slashes v), sc_statuses = statuses\<rparr>))))
      | _ \<Rightarrow> Inl (ValueError ''choose one to eight exact host names''))"

definition scope_matches :: "dscope \<Rightarrow> parsed_request \<Rightarrow> bool" where
  "scope_matches sc r =
     (lower_host (req_host r) \<in> set (sc_hosts sc) \<and>
      (sc_methods sc = [] \<or> http_method r \<in> set (sc_methods sc)) \<and>
      (sc_statuses sc = [] \<or> status r \<in> set (sc_statuses sc)) \<and>
      (if sc_match sc = ''exact'' then req_path r = sc_value sc
       else if sc_match sc = ''segment'' then sc_value sc \<in> set (py_split (CHR ''/'') (req_path r))
       else req_path r = sc_value sc \<or> py_startswith (req_path r) (sc_value sc @ ''/'')))"

section \<open>Settings\<close>

record drule =
  dr_id :: string
  dr_scope :: dscope
  dr_category :: string
  dr_mode :: string

record dexception =
  dx_id :: string
  dx_rule :: string
  dx_scope :: dscope
  dx_reason :: string
  dx_expires :: int

record detection_config =
  dc_revision :: int
  dc_rules :: "drule list"
  dc_exceptions :: "dexception list"
  dc_modes :: "(string \<times> string) list"
  dc_profiles :: "(string \<times> string) list"

definition DETECTION_MAX_RULES :: nat where "DETECTION_MAX_RULES = 128"
definition DETECTION_MAX_EXCEPTIONS :: nat where "DETECTION_MAX_EXCEPTIONS = 128"
definition DETECTION_MAX_TRACKED :: nat where "DETECTION_MAX_TRACKED = 256"
definition DETECTION_MAX_STATS :: nat where "DETECTION_MAX_STATS = 128"
definition DETECTION_TTL :: int where "DETECTION_TTL = 24 * 3600"
definition DETECTION_PROFILES :: "string list" where "DETECTION_PROFILES = [''web'', ''api'', ''webdav'', ''1c'', ''docker'']"

definition DETECTION_NEW_RULES :: "string list" where
  "DETECTION_NEW_RULES = [''observe:sql-injection'', ''observe:script-injection'', ''observe:encoded-sensitive-path'',
     ''observe:service-api-probe'', ''behavior:slow-enumeration'']"

definition DETECTION_WARNING_RULES :: "string list" where
  "DETECTION_WARNING_RULES = [''auth:credential-spray'', ''auth:distributed-login'', ''auth:failed-login-burst'']"

definition builtin_detection_ids :: "signatures \<Rightarrow> string list" where
  "builtin_detection_ids s =
     map (\<lambda>(_, c). ''path:'' @ c) (scanner_segments s @ scanner_paths s) @ map (\<lambda>q. ''query:'' @ q) (query_rules s)
     @ map (\<lambda>(_, written, _). ''ua:'' @ written) (user_agents s) @ [''raw:path-traversal'']
     @ DETECTION_NEW_RULES @ DETECTION_WARNING_RULES"

definition RULE_ID :: rex where "RULE_ID = RSeq (lit ''custom:'') (RRep 1 48 (rng [(97, 122), (48, 57)] ''-''))"
definition EXCEPTION_ID :: rex where "EXCEPTION_ID = RSeq (lit ''exception:'') (RRep 1 48 (rng [(97, 122), (48, 57)] ''-''))"

definition DORMANT_ID :: rex where
  "DORMANT_ID = RSeq (words_of [''path'', ''query'', ''ua'', ''raw'', ''observe'', ''behavior'', ''auth''])
     (RSeq (lit '':'') (RRep 1 100 (rng [(65, 90), (97, 122), (48, 57)] ''_. /+:-'')))"

definition row_id :: "json \<Rightarrow> rex \<Rightarrow> (jobj \<times> string) option" where
  "row_id j pat =
     (case j of JObj row \<Rightarrow>
        (case jget_or ''id'' (JStr []) row of JStr name \<Rightarrow> if rex_match pat name then Some (row, name) else None | _ \<Rightarrow> None)
      | _ \<Rightarrow> None)"

fun checked_rules :: "string list \<Rightarrow> json list \<Rightarrow> drule list \<Rightarrow> drule list result" where
  "checked_rules cats [] acc = Inr acc"
| "checked_rules cats (j # js) acc =
     (case row_id j RULE_ID of
        None \<Rightarrow> Inl (ValueError ''expected a stable custom rule identifier'')
      | Some (row, name) \<Rightarrow>
          if name \<in> set (map dr_id acc) then Inl (ValueError ''duplicate rule identifier'')
          else (case jget_or ''category'' (JStr ''custom'') row of
             JStr category \<Rightarrow>
               if category \<notin> set cats \<and> category \<noteq> ''custom'' then Inl (ValueError ''unknown category'')
               else (case jget_or ''mode'' (JStr ''observe'') row of
                  JStr md \<Rightarrow>
                    if md \<noteq> ''observe'' \<and> md \<noteq> ''enforce'' then Inl (ValueError ''mode must be observe or enforce'')
                    else ebind (detection_scope row) (\<lambda>sc. checked_rules cats js
                      (acc @ [\<lparr>dr_id = name, dr_scope = sc, dr_category = category, dr_mode = md\<rparr>]))
                | _ \<Rightarrow> Inl (ValueError ''mode must be observe or enforce''))
           | _ \<Rightarrow> Inl (ValueError ''unknown category'')))"

definition supported_id :: "string list \<Rightarrow> string \<Rightarrow> bool" where
  "supported_id known v = (v \<in> set known \<or> rex_match DORMANT_ID v)"

definition checked_modes :: "string list \<Rightarrow> jobj \<Rightarrow> (string \<times> string) list result" where
  "checked_modes known modes =
     (if list_ex (\<lambda>(k, v). \<not> supported_id known k \<or> (v \<noteq> JStr ''observe'' \<and> v \<noteq> JStr ''enforce'')) modes
      then Inl (ValueError ''unknown rule or mode'')
      else if list_ex (\<lambda>(k, v). v = JStr ''enforce'' \<and> (k \<in> set DETECTION_WARNING_RULES \<or> py_startswith k ''auth:'')) modes
      then Inl (ValueError ''login correlations are warning-only'')
      else Inr (map (\<lambda>(k, v). (k, py_str v)) modes))"

fun checked_exceptions :: "string list \<Rightarrow> json list \<Rightarrow> dexception list \<Rightarrow> dexception list result" where
  "checked_exceptions known [] acc = Inr acc"
| "checked_exceptions known (j # js) acc =
     (case row_id j EXCEPTION_ID of
        None \<Rightarrow> Inl (ValueError ''expected an exception identifier'')
      | Some (row, name) \<Rightarrow>
          (case jget ''rule'' row of
             JStr rule \<Rightarrow>
               if name \<in> set (map dx_id acc) \<or> \<not> supported_id known rule then
                 Inl (ValueError ''duplicate exception or unknown rule'')
               else (case jget ''reason'' row of
                  JStr reason \<Rightarrow>
                    if \<not> (3 \<le> length (py_strip reason) \<and> length (py_strip reason) \<le> 200) then
                      Inl (ValueError ''an exception needs a reason of 3 to 200 characters'')
                    else (case jget_or ''expires'' (JInt 0) row of
                       JInt expires \<Rightarrow>
                         if \<not> (0 \<le> expires \<and> expires \<le> 4102444800) then Inl (ValueError ''expected an expiry timestamp or zero'')
                         else ebind (detection_scope row) (\<lambda>sc. checked_exceptions known js
                           (acc @ [\<lparr>dx_id = name, dx_rule = rule, dx_scope = sc, dx_reason = py_strip reason, dx_expires = expires\<rparr>]))
                     | _ \<Rightarrow> Inl (ValueError ''expected an expiry timestamp or zero''))
                | _ \<Rightarrow> Inl (ValueError ''an exception needs a reason of 3 to 200 characters''))
           | _ \<Rightarrow> Inl (ValueError ''duplicate exception or unknown rule'')))"

fun checked_profiles :: "jobj \<Rightarrow> (string \<times> string) list \<Rightarrow> (string \<times> string) list result" where
  "checked_profiles [] acc = Inr acc"
| "checked_profiles ((k, v) # rest) acc =
     ebind (detection_host (JStr k)) (\<lambda>h. checked_profiles rest (jput h (py_str v) acc))"

definition known_profile :: "json \<Rightarrow> bool" where
  "known_profile v = (case v of JStr s \<Rightarrow> s \<in> set DETECTION_PROFILES | _ \<Rightarrow> False)"

definition finish_config :: "jobj \<Rightarrow> drule list \<Rightarrow> (string \<times> string) list \<Rightarrow> dexception list \<Rightarrow> detection_config result" where
  "finish_config data rules modes exceptions =
     (case jget_or ''profiles'' (JObj []) data of
        JObj ps \<Rightarrow>
          if length ps > 64 \<or> \<not> list_all (\<lambda>(_, v). known_profile v) ps then Inl (ValueError ''unknown site profile or too many sites'')
          else (case jget_or ''revision'' (JInt 0) data of
             JInt n \<Rightarrow>
               if \<not> (0 \<le> n \<and> n < 2 ^ 53) then Inl (ValueError ''invalid settings revision'')
               else ebind (checked_profiles ps []) (\<lambda>profiles.
                 Inr \<lparr>dc_revision = n, dc_rules = rules, dc_exceptions = exceptions, dc_modes = modes, dc_profiles = profiles\<rparr>)
           | _ \<Rightarrow> Inl (ValueError ''invalid settings revision''))
      | _ \<Rightarrow> Inl (ValueError ''unknown site profile or too many sites''))"

definition validate_detection_config :: "signatures \<Rightarrow> json \<Rightarrow> detection_config result" where
  "validate_detection_config s j =
     (case j of
        JObj data \<Rightarrow>
          if jget ''version'' data \<noteq> JInt 1 then Inl (ValueError ''expected detection configuration version 1'')
          else (case jget_or ''rules'' (JList []) data of
             JList rules \<Rightarrow>
               if length rules > DETECTION_MAX_RULES then Inl (ValueError ''too many contextual rules'')
               else (case jget_or ''exceptions'' (JList []) data of
                  JList exceptions \<Rightarrow>
                    if length exceptions > DETECTION_MAX_EXCEPTIONS then Inl (ValueError ''too many exceptions'')
                    else (case jget_or ''modes'' (JObj []) data of
                       JObj modes \<Rightarrow>
                         if length modes > DETECTION_MAX_RULES then Inl (ValueError ''too many rule modes'')
                         else ebind (checked_rules (map snd (scanner_segments s @ scanner_paths s)) rules []) (\<lambda>rs.
                           let known = builtin_detection_ids s @ map dr_id rs in
                           ebind (checked_modes known modes) (\<lambda>ms.
                           ebind (checked_exceptions known exceptions []) (\<lambda>es. finish_config data rs ms es)))
                     | _ \<Rightarrow> Inl (ValueError ''too many rule modes''))
                | _ \<Rightarrow> Inl (ValueError ''too many exceptions''))
           | _ \<Rightarrow> Inl (ValueError ''too many contextual rules''))
      | _ \<Rightarrow> Inl (ValueError ''expected detection configuration version 1''))"

section \<open>Observing\<close>

record dstat =
  ds_first :: int
  ds_last :: int
  ds_hits :: int
  ds_counts :: "(string \<times> int) list"
  ds_ips :: "int list"
  ds_hosts :: "(string \<times> int) list"

text \<open>A bucket of half an hour: missing, total and served requests, and the digests of missing paths.\<close>

record slow_bucket =
  sb_missing :: int
  sb_total :: int
  sb_good :: int
  sb_paths :: "int list"

record slow_entry =
  se_last :: int
  se_buckets :: "(int \<times> slow_bucket) list"

record detection_context =
  dctx_config :: detection_config
  dctx_stats :: "(string \<times> dstat) list"
  dctx_slow :: "((string \<times> string) \<times> slow_entry) list"
  dctx_evictions :: nat
  dctx_last_saved :: int
  dc_saved :: detection_config

definition exceptions_for :: "string \<Rightarrow> string \<Rightarrow> detection_config \<Rightarrow> dexception list" where
  "exceptions_for rule host c = filter (\<lambda>x. dx_rule x = rule \<and> host \<in> set (sc_hosts (dx_scope x))) (dc_exceptions c)"

definition rules_for :: "string \<Rightarrow> detection_config \<Rightarrow> drule list" where
  "rules_for host c = filter (\<lambda>x. host \<in> set (sc_hosts (dr_scope x))) (dc_rules c)"

definition rule_action :: "string \<Rightarrow> parsed_request \<Rightarrow> int \<Rightarrow> detection_config \<Rightarrow> string \<Rightarrow> string" where
  "rule_action rule r now c dflt =
     (case find (\<lambda>x. (dx_expires x = 0 \<or> dx_expires x > now) \<and> scope_matches (dx_scope x) r)
             (exceptions_for rule (lower_host (req_host r)) c) of
        Some x \<Rightarrow> ''excepted''
      | None \<Rightarrow> (case map_of (dc_modes c) rule of Some md \<Rightarrow> md | None \<Rightarrow> dflt))"

definition note_rule :: "(string \<Rightarrow> int) \<Rightarrow> string \<Rightarrow> parsed_request \<Rightarrow> int \<Rightarrow> string \<Rightarrow> detection_context \<Rightarrow> detection_context" where
  "note_rule crc rule r now action c =
     (let fresh = \<lparr>ds_first = now, ds_last = now, ds_hits = 0,
            ds_counts = [(''trusted'', 0), (''excepted'', 0), (''observe'', 0), (''enforce'', 0)], ds_ips = [], ds_hosts = []\<rparr>;
          row = (case map_of (dctx_stats c) rule of None \<Rightarrow> fresh
                 | Some x \<Rightarrow> if now - ds_first x \<ge> DETECTION_TTL then fresh else x);
          row = row\<lparr>ds_last := now, ds_hits := ds_hits row + 1, ds_counts := count_up action (ds_counts row),
            ds_ips := add_limited (crc (client_ip r)) (ds_ips row),
            ds_hosts := (if map_of (ds_hosts row) (req_host r) \<noteq> None \<or> length (ds_hosts row) < 8
              then count_up (take 253 (req_host r)) (ds_hosts row) else ds_hosts row)\<rparr>;
          all = put_last rule row (dctx_stats c);
          kept = drop_oldest DETECTION_MAX_STATS all
      in c\<lparr>dctx_stats := kept, dctx_evictions := dctx_evictions c + (length all - length kept)\<rparr>)"

record rule_match =
  rm_id :: string
  rm_category :: string
  rm_action :: string
  rm_event :: string

definition path_event :: "signatures \<Rightarrow> string \<Rightarrow> string" where
  "path_event s category = (if category_is_decisive s category then ''SCANNER_PATH_DECISIVE'' else ''SCANNER_PATH'')"

definition observation_event :: "string \<Rightarrow> string" where
  "observation_event name =
     (if name = ''observe:service-api-probe'' then ''SCANNER_PATH''
      else if name = ''observe:encoded-sensitive-path'' then ''SCANNER_PATH_DECISIVE'' else ''QUERY_INJECTION'')"

definition after_colon :: "string \<Rightarrow> string" where
  "after_colon name = tl (dropWhile (\<lambda>c. c \<noteq> CHR '':'') name)"

text \<open>Rule, category, default action and event of everything the request matches.\<close>

definition found_rules :: "signatures \<Rightarrow> detection_config \<Rightarrow> parsed_request \<Rightarrow> bool \<Rightarrow> (string \<times> string \<times> string \<times> string) list" where
  "found_rules s c r catch_all =
     (let category = classify_path s (req_path r);
          (agent, agent_category) = classify_user_agent s (user_agent r)
      in (if category \<noteq> [] \<and> (category_is_decisive s category \<or> \<not> is_served (status r) \<or> catch_all)
          then [(''path:'' @ category, category, ''enforce'', path_event s category)] else [])
       @ (if query_flag r \<noteq> [] then [(''query:'' @ query_flag r, query_flag r, ''enforce'', ''QUERY_INJECTION'')] else [])
       @ (if path_flag r \<noteq> [] then [(''raw:path-traversal'', path_flag r, ''enforce'', ''SCANNER_PATH_DECISIVE'')] else [])
       @ (if agent \<noteq> [] then [(''ua:'' @ agent, agent_category, ''enforce'', path_event s agent_category)] else [])
       @ map (\<lambda>name. (name, after_colon name, ''observe'', observation_event name))
           (filter (\<lambda>name. name \<in> set DETECTION_NEW_RULES) (observation_flags r))
       @ map (\<lambda>x. (dr_id x, dr_category x, dr_mode x, path_event s (dr_category x)))
           (filter (\<lambda>x. scope_matches (dr_scope x) r) (rules_for (lower_host (req_host r)) c)))"

definition decide_rule :: "parsed_request \<Rightarrow> int \<Rightarrow> detection_config \<Rightarrow> bool \<Rightarrow> string \<times> string \<times> string \<times> string \<Rightarrow> rule_match" where
  "decide_rule r now c trusted x =
     (case x of (rule, category, dflt, event) \<Rightarrow>
       let md = rule_action rule r now c dflt in
       \<lparr>rm_id = rule, rm_category = category,
        rm_action = (if md = ''excepted'' then md else if trusted then ''trusted'' else md), rm_event = event\<rparr>)"

definition inspect :: "(string \<Rightarrow> int) \<Rightarrow> signatures \<Rightarrow> parsed_request \<Rightarrow> int \<Rightarrow> bool \<Rightarrow> bool \<Rightarrow> detection_context
    \<Rightarrow> rule_match list \<times> detection_context" where
  "inspect crc s r now trusted catch_all c =
     (let results = map (decide_rule r now (dctx_config c) trusted) (found_rules s (dctx_config c) r catch_all)
      in (results, fold (\<lambda>x. note_rule crc (rm_id x) r now (rm_action x)) results c))"

section \<open>Slow enumeration\<close>

definition bucket_hit :: "(string \<Rightarrow> int) \<Rightarrow> parsed_request \<Rightarrow> slow_bucket \<Rightarrow> slow_bucket" where
  "bucket_hit crc r b =
     (let b1 = b\<lparr>sb_total := sb_total b + 1\<rparr> in
      if status r = 404 \<or> status r = 410 then
        b1\<lparr>sb_missing := sb_missing b1 + 1,
           sb_paths := (if length (sb_paths b1) < 32 \<and> crc (req_path r) \<notin> set (sb_paths b1)
             then sb_paths b1 @ [crc (req_path r)] else sb_paths b1)\<rparr>
      else if is_served (status r) then b1\<lparr>sb_good := sb_good b1 + 1\<rparr> else b1)"

definition is_slow_scan :: "(int \<times> slow_bucket) list \<Rightarrow> bool" where
  "is_slow_scan buckets =
     (let missing = sum_list (map (\<lambda>(_, b). sb_missing b) buckets); total = sum_list (map (\<lambda>(_, b). sb_total b) buckets) in
      \<not> (missing < 24 \<or> missing * 10 < total * 9) \<and>
      \<not> (length (remdups (concat (map (\<lambda>(_, b). sb_paths b) buckets))) < 24 \<or>
         length (filter (\<lambda>(_, b). sb_paths b \<noteq> []) buckets) < 3))"

definition slow_entry_of :: "string \<times> string \<Rightarrow> int \<Rightarrow> detection_context \<Rightarrow> slow_entry" where
  "slow_entry_of key now c =
     (let entry = (case map_of (dctx_slow c) key of None \<Rightarrow> \<lparr>se_last = now, se_buckets = []\<rparr> | Some e \<Rightarrow> e)
      in entry\<lparr>se_last := max (se_last entry) now\<rparr>)"

text \<open>The request counts in its bucket; buckets older than six hours go.\<close>

definition slow_hit :: "(string \<Rightarrow> int) \<Rightarrow> parsed_request \<Rightarrow> int \<Rightarrow> slow_entry \<Rightarrow> slow_entry" where
  "slow_hit crc r now entry =
     (let slot = now div 1800; newest_slot = se_last entry div 1800;
          kept = filter (\<lambda>(b, _). \<not> b < newest_slot - 11) (se_buckets entry);
          bucket = (case map_of kept slot of None \<Rightarrow> \<lparr>sb_missing = 0, sb_total = 0, sb_good = 0, sb_paths = []\<rparr> | Some b \<Rightarrow> b)
      in entry\<lparr>se_buckets := jput slot (bucket_hit crc r bucket) kept\<rparr>)"

definition slow_put :: "string \<times> string \<Rightarrow> slow_entry \<Rightarrow> detection_context \<Rightarrow> detection_context" where
  "slow_put key entry c =
     (let all = put_last key entry (dctx_slow c); slow = drop_oldest DETECTION_MAX_TRACKED all
      in c\<lparr>dctx_slow := slow, dctx_evictions := dctx_evictions c + (length all - length slow)\<rparr>)"

definition observe_slow :: "(string \<Rightarrow> int) \<Rightarrow> parsed_request \<Rightarrow> int \<Rightarrow> bool \<Rightarrow> detection_context \<Rightarrow> string \<times> detection_context" where
  "observe_slow crc r now handled c =
     (if handled \<or> req_host r = [] \<or> is_asset (req_path r) \<or> req_path r = [] \<or> req_path r = ''/'' then ([], c)
      else
        let key = (client_ip r, take 253 (req_host r)); entry = slow_entry_of key now c in
        if now div 1800 < se_last entry div 1800 - 11 then ([], c\<lparr>dctx_slow := jput key entry (dctx_slow c)\<rparr>)
        else
          let hit = slow_hit crc r now entry; c1 = slow_put key hit c in
          if \<not> is_slow_scan (se_buckets hit) then ([], c1)
          else let action = rule_action ''behavior:slow-enumeration'' r now (dctx_config c1) ''observe''
            in (action, note_rule crc ''behavior:slow-enumeration'' r now action c1))"

section \<open>Changing the settings\<close>

definition slow_mode :: "detection_config \<Rightarrow> string" where
  "slow_mode c = (case map_of (dc_modes c) ''behavior:slow-enumeration'' of None \<Rightarrow> ''observe'' | Some md \<Rightarrow> md)"

definition replace_config :: "signatures \<Rightarrow> json \<Rightarrow> detection_context \<Rightarrow> detection_config result \<times> detection_context" where
  "replace_config s data c =
     (case validate_detection_config s data of
        Inl e \<Rightarrow> (Inl e, c)
      | Inr checked \<Rightarrow>
          if dc_revision checked \<noteq> dc_revision (dctx_config c) then
            (Inl (ValueError ''settings changed; reload before saving''), c)
          else
            let new = checked\<lparr>dc_revision := dc_revision checked + 1\<rparr>;
                reset = (slow_mode new = ''enforce'' \<and> slow_mode (dctx_config c) \<noteq> ''enforce'')
            in (Inr new, c\<lparr>dctx_config := new, dc_saved := new, dctx_slow := (if reset then [] else dctx_slow c)\<rparr>))"

definition persist_context :: "int \<Rightarrow> bool \<Rightarrow> detection_context \<Rightarrow> detection_context" where
  "persist_context now force c =
     (if \<not> force \<and> now - dctx_last_saved c < 60 then c
      else c\<lparr>dctx_stats := filter (\<lambda>(_, x). ds_last x \<ge> now - DETECTION_TTL) (dctx_stats c),
             dctx_slow := filter (\<lambda>(_, x). se_last x \<ge> now - 6 * 3600) (dctx_slow c), dctx_last_saved := now\<rparr>)"

end
