(* ===== verification/Guard_Trusted.thy ===== *)
theory Guard_Trusted
  imports Guard_Activity
begin

text \<open>
  Host names as the adaptive protection daemon reads them, the trap names, and the rate warnings for
  trusted addresses (\<open>SiteCeiling\<close>, \<open>_TrustedCounter\<close> and \<open>TrustedRates\<close> of
  \<open>src/ansible/roles/haproxy-admin/files/easy-ha-proxy-guardd.py\<close>).

  The generated configuration is the record \<open>rate_config\<close>: the size and time of the file and what the five
  patterns find in it.  \<open>time.monotonic()\<close> is the argument \<open>moment\<close>; the moment of the last look is \<open>None\<close>
  where the code has zero.  A stamp is a rational number of seconds.
\<close>

section \<open>Host names\<close>

definition MAX_TRAP_HOSTS :: nat where "MAX_TRAP_HOSTS = 100"

definition HOST_LABEL :: rex where
  "HOST_LABEL = RSeq (rng [(97, 122), (48, 57)] [])
     (ROpt (RSeq (RRep 0 61 (rng [(97, 122), (48, 57)] ''-'')) (rng [(97, 122), (48, 57)] [])))"

definition HOSTNAME_RE :: rex where
  "HOSTNAME_RE = RSeq HOST_LABEL (RPlus (RSeq (lit ''.'') HOST_LABEL))"

definition DOTTED_NUMBERS :: rex where
  "DOTTED_NUMBERS = RSeq (RPlus (rng [(48, 57)] [])) (RRep 3 3 (RSeq (lit ''.'') (RPlus (rng [(48, 57)] []))))"

text \<open>\<open>re.sub(r":\d+$", "", text)\<close>\<close>

definition strip_port :: "string \<Rightarrow> string" where
  "strip_port text =
     (let number = takeWhile is_digit (rev text); before = dropWhile is_digit (rev text) in
      if number \<noteq> [] \<and> before \<noteq> [] \<and> hd before = CHR '':'' then rev (tl before) else text)"

definition normalize_host :: "string \<Rightarrow> string" where
  "normalize_host host =
     (let text = py_lower (py_strip host) in
      if py_startswith text ''['' then []
      else let name = strip_port text in
        if name = [] \<or> rex_match DOTTED_NUMBERS name then []
        else if length name \<le> 253 \<and> rex_match HOSTNAME_RE name then name else [])"

fun checked_traps :: "string list \<Rightarrow> json list \<Rightarrow> string list \<Rightarrow> string list result" where
  "checked_traps sites [] checked = Inr (sort checked)"
| "checked_traps sites (raw # rest) checked =
     (let name = normalize_host (py_str raw) in
      if name = [] then Inl (ValueError (take 80 (py_str raw) @ '' is not a host name''))
      else if name \<in> set sites then Inl (ValueError (name @ '' serves a site and cannot be a trap''))
      else checked_traps sites rest (if name \<in> set checked then checked else checked @ [name]))"

definition validate_trap_hosts :: "json \<Rightarrow> string list \<Rightarrow> string list result" where
  "validate_trap_hosts j sites =
     (case j of
        JList names \<Rightarrow>
          if length names > MAX_TRAP_HOSTS then Inl (ValueError ''at most 100 trap names'')
          else checked_traps sites names []
      | _ \<Rightarrow> Inl (ValueError ''expected a list of names''))"

section \<open>The ceilings of the sites\<close>

text \<open>\<open>int(value * 0.001)\<close> is the whole seconds of \<open>value\<close> milliseconds for every time HAProxy accepts.\<close>

definition haproxy_seconds :: "string \<Rightarrow> int" where
  "haproxy_seconds text =
     (let t = py_strip text; number = takeWhile is_digit t; unit = py_lstrip (dropWhile is_digit t);
          value = int (digits_val number);
          seconds = (if unit = [] \<or> unit = ''ms'' then Some (value div 1000) else if unit = ''s'' then Some value
            else if unit = ''m'' then Some (value * 60) else if unit = ''h'' then Some (value * 3600)
            else if unit = ''d'' then Some (value * 86400) else None)
      in if number = [] \<or> value \<le> 0 then 0 else case seconds of None \<Rightarrow> 0 | Some n \<Rightarrow> max 1 n)"

record ceiling =
  ce_id :: string
  ce_names :: "string list"
  ce_limit :: int
  ce_window :: int
  ce_allow :: "ipnet list option"
  ce_enforced :: bool

text \<open>What the patterns of \<open>read_site_ceilings\<close> find, in the order of the file: host ACLs, thresholds, rate tables,
  limits stated for the warnings alone, and allow lists.\<close>

record rate_config =
  rc_signature :: "(int \<times> int) option"
  rc_hosts :: "(string \<times> string list) list"
  rc_limits :: "(string \<times> int) list"
  rc_windows :: "(string \<times> string) list"
  rc_warning_only :: "(string \<times> int \<times> string) list"
  rc_allowed :: "(string \<times> string list) list"

text \<open>The dictionaries of the code: the last match of a name counts for the numbers, the first one for host names and
  allow lists.\<close>

definition last_of :: "string \<Rightarrow> (string \<times> 'v) list \<Rightarrow> 'v option" where
  "last_of k m = map_of (rev m) k"

definition ceiling_of :: "rate_config \<Rightarrow> string \<Rightarrow> string list \<Rightarrow> ceiling option" where
  "ceiling_of c site names =
     (let limit = last_of (''tbl_rate_'' @ site) (rc_limits c);
          window = (case last_of site (rc_windows c) of None \<Rightarrow> 0 | Some w \<Rightarrow> haproxy_seconds w);
          found = (case limit of
              Some l \<Rightarrow> if window > 0 then Some (l, window, True)
                else map_option (\<lambda>(l, w). (l, haproxy_seconds w, False)) (last_of site (rc_warning_only c))
            | None \<Rightarrow> map_option (\<lambda>(l, w). (l, haproxy_seconds w, False)) (last_of site (rc_warning_only c)))
      in case found of
           None \<Rightarrow> None
         | Some (l, w, enforced) \<Rightarrow>
             if l \<le> 0 \<or> w \<le> 0 then None
             else Some \<lparr>ce_id = site, ce_names = names, ce_limit = l, ce_window = w,
               ce_allow = map_option (List.map_filter ip_network) (map_of (rc_allowed c) site),
               ce_enforced = enforced\<rparr>)"

definition read_site_ceilings :: "rate_config \<Rightarrow> (string \<times> ceiling) list" where
  "read_site_ceilings c =
     fold (\<lambda>(site, names) sites. if map_of sites site \<noteq> None then sites
         else case ceiling_of c site (map py_lower names) of None \<Rightarrow> sites | Some ce \<Rightarrow> sites @ [(site, ce)])
       (rc_hosts c) []"

definition in_networks :: "string \<Rightarrow> ipnet list \<Rightarrow> bool" where
  "in_networks ip nets = (case ip_address ip of None \<Rightarrow> False | Some a \<Rightarrow> list_ex (in_network a) nets)"

section \<open>The counter of one address on one site\<close>

record episode =
  ep_ip :: string
  ep_site :: string
  ep_trust :: string
  ep_limit :: int
  ep_window :: int
  ep_enforced :: bool
  ep_started :: int
  ep_ended :: int
  ep_last_over :: int
  ep_peak :: int
  ep_over_limit :: int
  ep_requests :: int
  ep_rate_limited :: int
  ep_banned :: int
  ep_rate_ban :: bool

record trusted_counter =
  ct_start :: int
  ct_curr :: int
  ct_prev :: int
  ct_episode :: "episode option"

definition new_counter :: "int \<Rightarrow> trusted_counter" where
  "new_counter ts = \<lparr>ct_start = ts, ct_curr = 0, ct_prev = 0, ct_episode = None\<rparr>"

definition counter_add :: "int \<Rightarrow> int \<Rightarrow> trusted_counter \<Rightarrow> int \<times> trusted_counter" where
  "counter_add ts0 period c =
     (let ts = max ts0 (ct_start c);
          passed = (ts - ct_start c) div period;
          c1 = (if passed \<ge> 2 then c\<lparr>ct_prev := 0, ct_curr := 0, ct_start := ct_start c + passed * period\<rparr>
                else if passed = 1 then c\<lparr>ct_prev := ct_curr c, ct_curr := 0, ct_start := ct_start c + period\<rparr>
                else c);
          c2 = c1\<lparr>ct_curr := ct_curr c1 + 1\<rparr>
      in (ct_curr c2 + (ct_prev c2 * (period - (ts - ct_start c2))) div period, c2))"

section \<open>Episodes\<close>

definition TRUSTED_RATE_MAX_KEYS :: nat where "TRUSTED_RATE_MAX_KEYS = 4096"
definition TRUSTED_RATE_MAX_PENDING :: nat where "TRUSTED_RATE_MAX_PENDING = 500"
definition RATE_CEILINGS_RECHECK :: rat where "RATE_CEILINGS_RECHECK = 60"

record trusted_rates =
  tr_sites :: "(string \<times> ceiling) list"
  tr_hosts :: "(string \<times> string) list"
  tr_any_allow_list :: bool
  tr_signature :: "(int \<times> int) option"
  tr_checked :: "rat option"
  tr_counters :: "((string \<times> string) \<times> trusted_counter) list"
  tr_finished :: "episode list"
  tr_max_keys :: nat
  tr_clock :: int
  tr_opened :: nat
  tr_evicted :: nat
  tr_dropped :: nat

definition new_trusted_rates :: "nat \<Rightarrow> trusted_rates" where
  "new_trusted_rates keys = \<lparr>tr_sites = [], tr_hosts = [], tr_any_allow_list = False, tr_signature = None,
     tr_checked = None, tr_counters = [], tr_finished = [], tr_max_keys = max 1 keys, tr_clock = 0, tr_opened = 0,
     tr_evicted = 0, tr_dropped = 0\<rparr>"

definition finish_episode :: "episode \<Rightarrow> trusted_rates \<Rightarrow> trusted_rates" where
  "finish_episode e t =
     (if length (tr_finished t) \<ge> TRUSTED_RATE_MAX_PENDING then t\<lparr>tr_dropped := tr_dropped t + 1\<rparr>
      else t\<lparr>tr_finished := tr_finished t @ [e]\<rparr>)"

text \<open>\<open>if counter.episode is not None: self._finish(counter.episode)\<close>\<close>

definition finish_counter :: "trusted_counter \<Rightarrow> trusted_rates \<Rightarrow> trusted_rates" where
  "finish_counter c t = (case ct_episode c of None \<Rightarrow> t | Some e \<Rightarrow> finish_episode e t)"

definition reload_rates :: "rate_config \<Rightarrow> bool \<Rightarrow> trusted_rates \<Rightarrow> bool \<times> trusted_rates" where
  "reload_rates c force t =
     (if \<not> force \<and> rc_signature c = tr_signature t then (False, t)
      else
        let sites = (if rc_signature c \<noteq> None then read_site_ceilings c else []);
            by_name = fold (\<lambda>(_, site). fold (\<lambda>name m. if map_of m name \<noteq> None then m else m @ [(name, ce_id site)]) (ce_names site))
              sites [];
            stale = (\<lambda>(k, _). map_of (tr_sites t) (snd k) \<noteq> map_of sites (snd k));
            t1 = fold (\<lambda>(_, ct). finish_counter ct) (filter stale (tr_counters t)) t
        in (True, t1\<lparr>tr_counters := filter (\<lambda>x. \<not> stale x) (tr_counters t), tr_sites := sites, tr_hosts := by_name,
              tr_any_allow_list := list_ex (\<lambda>(_, site). ce_allow site \<noteq> None) sites, tr_signature := rc_signature c\<rparr>))"

definition maybe_reload :: "rate_config \<Rightarrow> rat \<Rightarrow> trusted_rates \<Rightarrow> trusted_rates" where
  "maybe_reload c moment t =
     (if (case tr_checked t of None \<Rightarrow> True | Some before \<Rightarrow> moment - before \<ge> RATE_CEILINGS_RECHECK)
      then snd (reload_rates c False (t\<lparr>tr_checked := Some moment\<rparr>)) else t)"

definition live_refusal :: "int \<Rightarrow> string \<Rightarrow> string \<Rightarrow> string \<Rightarrow> string" where
  "live_refusal st bk term reason =
     (if st = 423 \<or> reason \<noteq> [] then ''banned''
      else if st = 429 then ''rate-limited''
      else if \<not> py_endswith bk ''/<NOSRV>'' then []
      else if st = 451 then ''geo'' else if st = 401 then ''zero-trust'' else if st = 403 then ''denied''
      else if st = 400 then ''invalid-request'' else if py_startswith term ''PR'' then ''refused'' else [])"

text \<open>\<open>int(stamp or request.ts or now or self.clock)\<close>\<close>

definition trunc_rat :: "rat \<Rightarrow> int" where
  "trunc_rat x = (if x \<ge> 0 then \<lfloor>x\<rfloor> else \<lceil>x\<rceil>)"

definition request_time :: "rat option \<Rightarrow> int \<Rightarrow> int \<Rightarrow> int \<Rightarrow> int" where
  "request_time stamp ts now clock =
     (case stamp of
        Some x \<Rightarrow> if x \<noteq> 0 then trunc_rat x else if ts \<noteq> 0 then ts else if now \<noteq> 0 then now else clock
      | None \<Rightarrow> if ts \<noteq> 0 then ts else if now \<noteq> 0 then now else clock)"

definition open_episode :: "string \<Rightarrow> ceiling \<Rightarrow> string \<Rightarrow> int \<Rightarrow> int \<Rightarrow> episode" where
  "open_episode ip site trust ts rate =
     \<lparr>ep_ip = ip, ep_site = ce_id site, ep_trust = trust, ep_limit = ce_limit site, ep_window = ce_window site,
      ep_enforced = ce_enforced site, ep_started = ts, ep_ended = ts, ep_last_over = ts, ep_peak = rate,
      ep_over_limit = 0, ep_requests = 0, ep_rate_limited = 0, ep_banned = 0, ep_rate_ban = False\<rparr>"

definition episode_over :: "int \<Rightarrow> int \<Rightarrow> episode \<Rightarrow> episode" where
  "episode_over ts rate e =
     e\<lparr>ep_last_over := ts, ep_over_limit := ep_over_limit e + 1, ep_peak := max (ep_peak e) rate\<rparr>"

definition episode_request :: "parsed_request \<Rightarrow> int \<Rightarrow> episode \<Rightarrow> episode" where
  "episode_request r ts e =
     (let refusal = live_refusal (status r) (backend r) (term_state r) (ban_reason r) in
      e\<lparr>ep_requests := ep_requests e + 1, ep_ended := max (ep_ended e) ts,
        ep_rate_limited := ep_rate_limited e + (if refusal = ''rate-limited'' then 1 else 0),
        ep_banned := ep_banned e + (if refusal = ''banned'' then 1 else 0),
        ep_rate_ban := (ep_rate_ban e \<or> py_startswith (ban_reason r) ''RATE_LIMIT_SITE'')\<rparr>)"

text \<open>The counter of a key: a new one may push the oldest out, one that is there moves to the end.\<close>

definition take_counter :: "string \<times> string \<Rightarrow> int \<Rightarrow> trusted_rates \<Rightarrow> trusted_counter \<times> trusted_rates" where
  "take_counter key ts t =
     (case map_of (tr_counters t) key of
        Some c \<Rightarrow> (c, t\<lparr>tr_counters := put_last key c (tr_counters t)\<rparr>)
      | None \<Rightarrow>
          let all = tr_counters t @ [(key, new_counter ts)] in
          if length all > tr_max_keys t then
            (new_counter ts, finish_counter (snd (hd all)) (t\<lparr>tr_counters := tl all, tr_evicted := tr_evicted t + 1\<rparr>))
          else (new_counter ts, t\<lparr>tr_counters := all\<rparr>))"

definition count_request :: "parsed_request \<Rightarrow> ceiling \<Rightarrow> string \<Rightarrow> int \<Rightarrow> trusted_rates \<Rightarrow> trusted_rates" where
  "count_request r site trust ts t =
     (let key = (client_ip r, ce_id site);
          (c, t1) = take_counter key ts t;
          (rate, c1) = counter_add ts (ce_window site) c;
          opened = (rate > ce_limit site \<and> ct_episode c1 = None);
          ep = (if rate > ce_limit site
                then Some (episode_over ts rate (case ct_episode c1 of None \<Rightarrow> open_episode (client_ip r) site trust ts rate | Some e \<Rightarrow> e))
                else ct_episode c1);
          c2 = c1\<lparr>ct_episode := map_option (episode_request r ts) ep\<rparr>
      in t1\<lparr>tr_counters := put_last key c2 (tr_counters t1), tr_opened := tr_opened t1 + (if opened then 1 else 0)\<rparr>)"

definition observe_rate :: "rate_config \<Rightarrow> rat \<Rightarrow> parsed_request \<Rightarrow> string \<Rightarrow> int \<Rightarrow> rat option \<Rightarrow> trusted_rates \<Rightarrow> trusted_rates" where
  "observe_rate cfg moment r trust now stamp t0 =
     (let t = (if tr_checked t0 = None then maybe_reload cfg moment t0 else t0) in
      if trust = [] \<and> \<not> tr_any_allow_list t then t
      else let host = normalize_host (req_host r) in
        if host = [] then t
        else case map_of (tr_sites t) (find_or host (tr_hosts t)) of
            None \<Rightarrow> t
          | Some site \<Rightarrow>
              if trust = [] \<and> (case ce_allow site of None \<Rightarrow> True | Some nets \<Rightarrow> \<not> in_networks (client_ip r) nets) then t
              else let ts = request_time stamp (req_ts r) now (tr_clock t) in
                count_request r site (if trust = [] then ''site-allow-list'' else trust) ts (t\<lparr>tr_clock := max (tr_clock t) ts\<rparr>))"

section \<open>Closing episodes\<close>

text \<open>One key of the loop of \<open>tick\<close>: the counter that stays, if any.\<close>

definition tick_counter :: "int \<Rightarrow> (string \<times> string) \<times> trusted_counter \<Rightarrow> trusted_rates \<Rightarrow> trusted_rates" where
  "tick_counter reference kc t =
     (case kc of (key, c) \<Rightarrow>
       let window = (case map_of (tr_sites t) (snd key) of None \<Rightarrow> 0 | Some site \<Rightarrow> ce_window site);
           over = (case ct_episode c of None \<Rightarrow> False | Some e \<Rightarrow> reference - ep_last_over e > window);
           t1 = (if over then finish_counter c t else t);
           c1 = (if over then c\<lparr>ct_episode := None\<rparr> else c)
       in t1\<lparr>tr_counters := (if ct_episode c1 = None \<and> reference - ct_start c1 > 2 * window
            then AList.delete key (tr_counters t1) else jput key c1 (tr_counters t1))\<rparr>)"

definition tick :: "rate_config \<Rightarrow> rat \<Rightarrow> int \<Rightarrow> bool \<Rightarrow> trusted_rates \<Rightarrow> trusted_rates" where
  "tick cfg moment now idle t0 =
     (let t = maybe_reload cfg moment t0; reference = (if idle then max (tr_clock t) now else tr_clock t)
      in fold (tick_counter reference) (tr_counters t) t)"

definition finish_all :: "trusted_rates \<Rightarrow> trusted_rates" where
  "finish_all t =
     (let t1 = fold (\<lambda>(_, c). finish_counter c) (tr_counters t) t
      in t1\<lparr>tr_counters := map (\<lambda>(k, c). (k, c\<lparr>ct_episode := None\<rparr>)) (tr_counters t1)\<rparr>)"

definition take_finished :: "trusted_rates \<Rightarrow> episode list \<times> trusted_rates" where
  "take_finished t = (tr_finished t, t\<lparr>tr_finished := []\<rparr>)"

text \<open>\<open>flush_rate_warnings\<close>: the rows to be written, and whether the database takes them.\<close>

definition flush_rate_warnings :: "rate_config \<Rightarrow> rat \<Rightarrow> int \<Rightarrow> bool \<Rightarrow> bool \<Rightarrow> trusted_rates \<Rightarrow> episode list \<times> trusted_rates" where
  "flush_rate_warnings cfg moment now idle db_ok t =
     (case take_finished (tick cfg moment now idle t) of
        (finished, t1) \<Rightarrow>
          if db_ok then (finished, t1) else ([], t1\<lparr>tr_dropped := tr_dropped t1 + length finished\<rparr>))"

end
