(* ===== verification/Guard_Observe.thy ===== *)
theory Guard_Observe
  imports Guard_Enforce Guard_Context Guard_Trusted
begin

text \<open>
  Detection in the adaptive protection daemon: \<open>GuardEngine.observe_request\<close> and the derived findings of
  \<open>src/ansible/roles/haproxy-admin/files/easy-ha-proxy-guardd.py\<close>.  The engine's state that decides about
  bans is \<open>engine\<close>, the record of \<open>Guard_Engine\<close>; a finding goes through \<open>emit\<close>, which queues the
  address for the next enforcement cycle.

  The working memory of one address is a mutable object of the table: it is taken out by \<open>touch\<close>, passed
  through every step and written back at the end, since nothing else reads it meanwhile.  Everything a
  request is looked at with (the hashes, the clock, the files read again) is the record \<open>surroundings\<close>.
\<close>

section \<open>Thresholds\<close>

definition MULTI_CATEGORY_MIN :: nat where "MULTI_CATEGORY_MIN = 3"
definition MULTI_CATEGORY_WINDOW :: int where "MULTI_CATEGORY_WINDOW = 2 * 3600"
definition LOW_AND_SLOW_MIN_HITS :: int where "LOW_AND_SLOW_MIN_HITS = 5"
definition LOW_AND_SLOW_MIN_CATEGORIES :: nat where "LOW_AND_SLOW_MIN_CATEGORIES = 3"
definition LOW_AND_SLOW_WINDOW :: int where "LOW_AND_SLOW_WINDOW = 6 * 3600"
definition NOT_FOUND_MIN_DISTINCT :: nat where "NOT_FOUND_MIN_DISTINCT = 6"
definition NOT_FOUND_WINDOW :: int where "NOT_FOUND_WINDOW = 3600"
definition WIDE_ENUM_MIN :: nat where "WIDE_ENUM_MIN = 30"
definition MASS_ENUM_MIN :: nat where "MASS_ENUM_MIN = 100"
definition WIDE_ENUM_WINDOW :: int where "WIDE_ENUM_WINDOW = 600"
definition INVALID_HOST_MIN :: nat where "INVALID_HOST_MIN = 5"
definition INVALID_HOST_WINDOW :: int where "INVALID_HOST_WINDOW = 6 * 3600"
definition RECURRING_WINDOW :: int where "RECURRING_WINDOW = 7 * 86400"
definition RECURRING_GAP :: int where "RECURRING_GAP = 2 * 3600"
definition RECURRING_RECHECK :: int where "RECURRING_RECHECK = 600"
definition SITE_NAMES_RECHECK :: rat where "SITE_NAMES_RECHECK = 60"

definition SIGNATURE_EVENTS :: "string list" where
  "SIGNATURE_EVENTS = [''SCANNER_PATH'', ''SCANNER_PATH_DECISIVE'', ''QUERY_INJECTION'']"

section \<open>State\<close>

record surroundings =
  hash_of :: "string \<Rightarrow> int"
  hash_pair :: "string \<times> string \<Rightarrow> int"
  crc_of :: "string \<Rightarrow> int"
  monotonic :: rat
  names_in_config :: "string list"
  rates_in_config :: rate_config

record 's detector =
  engine :: "'s guard"
  sigs :: signatures
  dctx :: detection_context
  trusted :: trusted_rates
  memory :: ip_memory
  max_paths :: nat
  catch_all :: catch_all_pages
  cands :: path_candidates
  unknown_hosts :: "(string \<times> unknown_host) list"
  trap_hosts :: "string list"
  site_list :: "string list"
  site_checked :: rat
  excluded_observations :: nat

type_synonym 's watch = "ip_activity \<times> 's detector"

definition site_names :: "surroundings \<Rightarrow> 's detector \<Rightarrow> 's detector" where
  "site_names w d =
     (if monotonic w - site_checked d \<ge> SITE_NAMES_RECHECK
      then d\<lparr>site_checked := monotonic w, site_list := names_in_config w\<rparr> else d)"

definition set_trap_hosts :: "surroundings \<Rightarrow> json \<Rightarrow> 's detector \<Rightarrow> string list result \<times> 's detector" where
  "set_trap_hosts w names d =
     (let d1 = site_names w d in
      case validate_trap_hosts names (site_list d1) of
        Inl e \<Rightarrow> (Inl e, d1)
      | Inr checked \<Rightarrow> (Inr checked, d1\<lparr>trap_hosts := checked\<rparr>))"

text \<open>\<open>self._emit(ip, ..., source="haproxy-log", ...)\<close>\<close>

definition finding :: "string \<Rightarrow> string \<Rightarrow> int \<Rightarrow> string \<Rightarrow> string \<Rightarrow> string \<Rightarrow> bool \<Rightarrow> sec_event" where
  "finding ip event now category site detail handled =
     \<lparr>ev_ts = now, ev_ip = ip, ev_type = event, ev_source = ''haproxy-log'', ev_site = site, ev_category = category,
      ev_detail = detail, ev_handled = handled\<rparr>"

definition report :: "sec_event \<Rightarrow> string \<Rightarrow> 's watch \<Rightarrow> 's watch" where
  "report e fingerprint ad = (case ad of (a, d) \<Rightarrow> (a, d\<lparr>engine := snd (emit e fingerprint (engine d))\<rparr>))"

section \<open>Derived findings\<close>

definition check_multi_category :: "string \<Rightarrow> int \<Rightarrow> 's watch \<Rightarrow> 's watch" where
  "check_multi_category ip now ad =
     (let n = length (recent_categories (now - MULTI_CATEGORY_WINDOW) (fst ad)) in
      if n < MULTI_CATEGORY_MIN then ad
      else report (finding ip ''SCANNER_MULTI_CATEGORY'' now [] [] (''categories='' @ nat_to_str n)
             (scanning_was_all_refused (fst ad))) [] ad)"

definition check_low_and_slow :: "string \<Rightarrow> int \<Rightarrow> 's watch \<Rightarrow> 's watch" where
  "check_low_and_slow ip now ad =
     (let n = length (recent_categories (now - LOW_AND_SLOW_WINDOW) (fst ad)); hits = scanner_hits (fst ad) in
      if hits < LOW_AND_SLOW_MIN_HITS \<or> n < LOW_AND_SLOW_MIN_CATEGORIES then ad
      else report (finding ip ''LOW_AND_SLOW_SCANNER'' now [] []
             (''hits='' @ int_to_str hits @ '' categories='' @ nat_to_str n) (scanning_was_all_refused (fst ad))) [] ad)"

definition check_not_found_enumeration :: "string \<Rightarrow> int \<Rightarrow> 's watch \<Rightarrow> 's watch" where
  "check_not_found_enumeration ip now ad =
     (let n = distinct_missing (now - NOT_FOUND_WINDOW) (fst ad) in
      if n < NOT_FOUND_MIN_DISTINCT then ad
      else report (finding ip ''NOT_FOUND_ENUMERATION'' now [] [] (''distinct='' @ nat_to_str n) False) [] ad)"

definition check_unknown_host :: "surroundings \<Rightarrow> string \<Rightarrow> int \<Rightarrow> parsed_request \<Rightarrow> 's watch \<Rightarrow> 's watch" where
  "check_unknown_host w ip now r ad =
     (case ad of (a, d) \<Rightarrow>
       let host = normalize_host (req_host r) in
       if host = [] then (a, d)
       else let d1 = site_names w d in
         if site_list d1 = [] \<or> host \<in> set (site_list d1) then (a, d1)
         else let client = looks_like_client a;
                  d2 = d1\<lparr>unknown_hosts := unknown_note (crc_of w) host ip client now (unknown_hosts d1)\<rparr>
              in if host \<in> set (trap_hosts d2) \<and> \<not> client then
                   report (finding ip ''SCANNER_PATH_DECISIVE'' now ''trap'' [] (''trap name '' @ host) False)
                     (ip @ ''|trap|'' @ host) (a, d2)
                 else (a, d2))"

definition check_recurring :: "string \<Rightarrow> int \<Rightarrow> 's watch \<Rightarrow> 's watch" where
  "check_recurring ip now ad =
     (case ad of (a, d) \<Rightarrow>
       if now - recurring_checked a < RECURRING_RECHECK then (a, d)
       else let a1 = a\<lparr>recurring_checked := now\<rparr>;
                history = take 200 (events_for ip (now - RECURRING_WINDOW) (db (engine d)));
                earlier = map ev_ts (filter (\<lambda>e. ev_type e \<in> set SIGNATURE_EVENTS \<and> ev_ts e \<le> now - RECURRING_GAP) history)
            in if earlier = [] then (a1, d)
               else report (finding ip ''RECURRING_SCANNER'' now [] []
                      (''back after '' @ int_to_str ((now - Max (set earlier)) div 3600) @ ''h'')
                      (scanning_was_all_refused a1)) [] (a1, d))"

definition check_enumeration_breadth :: "string \<Rightarrow> int \<Rightarrow> parsed_request \<Rightarrow> 's watch \<Rightarrow> 's watch" where
  "check_enumeration_breadth ip now r ad =
     (let count = burst_misses (fst ad);
          handled = refusal_is_a_shield r (fst ad);
          detail = ''distinct='' @ int_to_str count @ '' within '' @ int_to_str WIDE_ENUM_WINDOW @ ''s'' in
      if count < int WIDE_ENUM_MIN then ad
      else let ad1 = report (finding ip ''WIDE_ENUMERATION'' now [] [] detail handled) [] ad in
        if count \<ge> int MASS_ENUM_MIN then report (finding ip ''MASS_ENUMERATION'' now [] [] detail handled) [] ad1 else ad1)"

definition check_invalid_host :: "surroundings \<Rightarrow> string \<Rightarrow> int \<Rightarrow> parsed_request \<Rightarrow> 's watch \<Rightarrow> 's watch" where
  "check_invalid_host w ip now r ad =
     (case ad of (a, d) \<Rightarrow>
       case note_invalid_host (hash_of w (req_host r @ ''|'' @ req_path r)) now (max_paths d) INVALID_HOST_WINDOW a of
         (None, a1) \<Rightarrow> (a1, d)
       | (Some n, a1) \<Rightarrow>
           if n < INVALID_HOST_MIN then (a1, d)
           else report (finding ip ''INVALID_HOST_ACTIVITY'' now [] [] (''distinct='' @ nat_to_str n)
                  (refusal_is_a_shield r a1)) [] (a1, d))"

section \<open>The steps of one request\<close>

definition flag_str :: "bool \<Rightarrow> string" where
  "flag_str b = (if b then ''1'' else ''0'')"

definition trust_of :: "verdict \<Rightarrow> string" where
  "trust_of v =
     (if v_reason v = ''authenticated'' then ''signed-in''
      else if v_reason v = ''whitelisted'' then (if v_source v \<noteq> [] then v_source v else ''whitelist'') else [])"

text \<open>\<open>activity.scanner_hits += 1\<close>, refused or not.\<close>

definition scanner_hit :: "bool \<Rightarrow> ip_activity \<Rightarrow> ip_activity" where
  "scanner_hit handled a =
     a\<lparr>scanner_hits := scanner_hits a + 1, scanner_hits_denied := scanner_hits_denied a + (if handled then 1 else 0)\<rparr>"

text \<open>\<open>permitted\<close>: the action of the match, or what the settings say of the rule.\<close>

definition permitted :: "rule_match list \<Rightarrow> parsed_request \<Rightarrow> int \<Rightarrow> detection_config \<Rightarrow> string \<Rightarrow> bool" where
  "permitted matches r now c rule =
     ((case map_of (rev (map (\<lambda>m. (rm_id m, rm_action m)) matches)) rule of
         Some action \<Rightarrow> action | None \<Rightarrow> rule_action rule r now c ''enforce'') = ''enforce'')"

definition slow_step :: "surroundings \<Rightarrow> parsed_request \<Rightarrow> int \<Rightarrow> rat option \<Rightarrow> bool \<Rightarrow> 's watch \<Rightarrow> 's watch" where
  "slow_step w r now stamp handled ad =
     (case ad of (a, d) \<Rightarrow>
       let observed_at = (case stamp of None \<Rightarrow> now | Some x \<Rightarrow> trunc_rat (min (rat_of_int now) x));
           (action, ctx) = (if observed_at \<ge> now - 6 * 3600 then observe_slow (crc_of w) r observed_at handled (dctx d) else ([], dctx d));
           ad1 = (a, d\<lparr>dctx := ctx\<rparr>)
       in if action = ''enforce'' then
            report (finding (client_ip r) ''SCANNER_PATH'' now ''slow-enumeration'' (req_host r) (req_path r) False)
              (client_ip r @ ''|behavior:slow-enumeration|'' @ req_host r) ad1
          else ad1)"

definition context_step :: "parsed_request \<Rightarrow> int \<Rightarrow> bool \<Rightarrow> rule_match \<Rightarrow> (string \<times> string) list \<times> 's watch
    \<Rightarrow> (string \<times> string) list \<times> 's watch" where
  "context_step r now handled m st =
     (case st of (emitted, ad) \<Rightarrow>
       let ip = client_ip r; key = (rm_event m, rm_category m) in
       if \<not> ((py_startswith (rm_id m) ''custom:'' \<or> py_startswith (rm_id m) ''observe:'') \<and> rm_action m = ''enforce'')
          \<or> key \<in> set emitted then st
       else let ad1 = report (finding ip (rm_event m) now (rm_category m) (req_host r)
                  (take 300 (rm_id m @ '' '' @ req_path r)) handled)
                  (ip @ ''|'' @ rm_event m @ ''|'' @ rm_category m @ ''|'' @ flag_str handled) (apfst (scanner_hit handled) ad);
                ad2 = check_multi_category ip now (apfst (note_category (rm_category m) now) ad1);
                ad3 = (if py_startswith (rm_id m) ''custom:'' then check_recurring ip now (check_low_and_slow ip now ad2) else ad2)
            in (key # emitted, ad3))"

definition count_status :: "parsed_request \<Rightarrow> ip_activity \<Rightarrow> ip_activity" where
  "count_status r a =
     (if status r = 404 then a\<lparr>not_found := not_found a + 1\<rparr>
      else if denied_by_gateway r then a\<lparr>gateway_denied := gateway_denied a + 1\<rparr>
      else if status r \<ge> 400 then a\<lparr>errors := errors a + 1\<rparr> else a)"

definition note_request :: "surroundings \<Rightarrow> parsed_request \<Rightarrow> int \<Rightarrow> nat \<Rightarrow> ip_activity \<Rightarrow> ip_activity" where
  "note_request w r now limit a =
     (let a1 = count_status r a;
          a2 = (if req_path r \<noteq> [] then note_path (hash_of w (req_path r)) now limit a1 else a1)
      in if req_host r \<noteq> [] \<and> length (hosts a2) < 16 then a2\<lparr>hosts := List.insert (req_host r) (hosts a2)\<rparr> else a2)"

definition query_step :: "rule_match list \<Rightarrow> parsed_request \<Rightarrow> int \<Rightarrow> bool \<Rightarrow> 's watch \<Rightarrow> 's watch" where
  "query_step matches r now handled ad =
     (let ip = client_ip r; flag = query_flag r in
      if flag \<noteq> [] \<and> permitted matches r now (dctx_config (dctx (snd ad))) (''query:'' @ flag) then
        check_multi_category ip now
          (report (finding ip ''QUERY_INJECTION'' now flag (req_host r) (req_path r) handled)
             (ip @ ''|QUERY_INJECTION|'' @ flag) (apfst (note_category flag now \<circ> scanner_hit handled) ad))
      else ad)"

definition traversal_step :: "rule_match list \<Rightarrow> parsed_request \<Rightarrow> int \<Rightarrow> bool \<Rightarrow> 's watch \<Rightarrow> 's watch" where
  "traversal_step matches r now handled ad =
     (let ip = client_ip r; flag = path_flag r in
      if flag \<noteq> [] \<and> permitted matches r now (dctx_config (dctx (snd ad))) ''raw:path-traversal'' then
        report (finding ip ''SCANNER_PATH_DECISIVE'' now flag (req_host r) (req_path r) handled)
          (ip @ ''|path|'' @ flag @ ''|'' @ flag_str handled) (apfst (note_category flag now \<circ> scanner_hit handled) ad)
      else ad)"

definition agent_step :: "rule_match list \<Rightarrow> parsed_request \<Rightarrow> int \<Rightarrow> bool \<Rightarrow> 's watch \<Rightarrow> 's watch" where
  "agent_step matches r now handled ad =
     (let ip = client_ip r; (agent, category) = classify_user_agent (sigs (snd ad)) (user_agent r) in
      if agent \<noteq> [] \<and> permitted matches r now (dctx_config (dctx (snd ad))) (''ua:'' @ agent) then
        check_multi_category ip now
          (report (finding ip (path_event (sigs (snd ad)) category) now category (req_host r) (''user agent '' @ agent) handled)
             (ip @ ''|ua|'' @ agent @ ''|'' @ flag_str handled) (apfst (note_category category now \<circ> scanner_hit handled) ad))
      else ad)"

definition candidate_step :: "surroundings \<Rightarrow> string \<Rightarrow> parsed_request \<Rightarrow> int \<Rightarrow> 's watch \<Rightarrow> 's watch" where
  "candidate_step w category r now ad =
     (case ad of (a, d) \<Rightarrow>
       if category = [] \<and> req_path r \<noteq> [] \<and> req_path r \<noteq> ''/'' \<and> \<not> is_asset (req_path r) then
         (a, d\<lparr>cands := candidates_note (hash_pair w) (crc_of w) (req_path r) (client_ip r) (req_host r) (status r)
            (is_served (status r) \<and> \<not> catch_all_known (req_host r) (bytes_out r) (catch_all d))
            (looks_like_client a) now (cands d)\<rparr>)
       else (a, d))"

text \<open>A served path of a category that is not decisive is one the site has, unless the page is a catch-all.\<close>

definition excuse_served :: "surroundings \<Rightarrow> string \<Rightarrow> parsed_request \<Rightarrow> 's detector \<Rightarrow> string \<times> 's detector" where
  "excuse_served w category r d =
     (if category \<noteq> [] \<and> is_served (status r) \<and> \<not> category_is_decisive (sigs d) category then
        (case is_catch_all (req_host r) (bytes_out r) (hash_of w (req_path r)) (catch_all d) of
           (known, pages) \<Rightarrow> (if known then category else [], d\<lparr>catch_all := pages\<rparr>))
      else (category, d))"

definition path_step :: "string \<Rightarrow> parsed_request \<Rightarrow> int \<Rightarrow> bool \<Rightarrow> 's watch \<Rightarrow> 's watch" where
  "path_step category r now handled ad =
     (let ip = client_ip r; event = path_event (sigs (snd ad)) category in
      check_recurring ip now (check_low_and_slow ip now (check_multi_category ip now
        (report (finding ip event now category (req_host r) (req_path r) handled)
           (ip @ ''|'' @ event @ ''|'' @ category @ ''|'' @ flag_str handled)
           (apfst (note_category category now \<circ> scanner_hit handled) ad)))))"

definition enumeration_step :: "surroundings \<Rightarrow> parsed_request \<Rightarrow> int \<Rightarrow> 's watch \<Rightarrow> 's watch" where
  "enumeration_step w r now ad =
     (let ip = client_ip r; digest = hash_of w (req_path r); limit = max_paths (snd ad);
          ad1 = (if status r = 404 then
              (case note_missing digest now limit (fst ad) of
                 (fresh, a1) \<Rightarrow> if fresh then check_not_found_enumeration ip now (a1, snd ad) else (a1, snd ad))
            else ad)
      in case note_refused digest now (max limit (2 * WIDE_ENUM_MIN)) WIDE_ENUM_WINDOW (fst ad1) of
           (fresh, a2) \<Rightarrow> if fresh then check_enumeration_breadth ip now r (a2, snd ad1) else (a2, snd ad1))"

section \<open>One request\<close>

definition signature_step :: "surroundings \<Rightarrow> rule_match list \<Rightarrow> parsed_request \<Rightarrow> int \<Rightarrow> bool \<Rightarrow> 's watch \<Rightarrow> 's watch" where
  "signature_step w matches r now handled ad =
     (let category = classify_path (sigs (snd ad)) (req_path r);
          (a, d) = candidate_step w category r now ad;
          (kept, d1) = excuse_served w category r d
      in if kept \<noteq> [] \<and> permitted matches r now (dctx_config (dctx d1)) (''path:'' @ kept)
         then path_step kept r now handled (a, d1)
         else if kept = [] \<and> status r \<in> set ENUMERATION_STATUSES \<and> \<not> is_asset (req_path r)
         then enumeration_step w r now (a, d1) else (a, d1))"

definition watch_request :: "surroundings \<Rightarrow> rule_match list \<Rightarrow> parsed_request \<Rightarrow> int \<Rightarrow> rat option \<Rightarrow> 's watch \<Rightarrow> 's watch" where
  "watch_request w matches r now stamp ad =
     (let ip = client_ip r;
          ad1 = check_unknown_host w ip now r (apfst (\<lambda>a. a\<lparr>requests := requests a + 1\<rparr>) ad)
      in if bad_request r then check_invalid_host w ip now r (apfst (\<lambda>a. a\<lparr>bad_requests := bad_requests a + 1\<rparr>) ad1)
         else
           let ad2 = (if no_server r then ad1 else apfst (\<lambda>a. a\<lparr>reached_backend := True\<rparr>) ad1);
               handled = refusal_is_a_shield r (fst ad2);
               ad3 = slow_step w r now stamp handled ad2;
               ad4 = snd (fold (context_step r now handled) matches ([], ad3));
               ad5 = apfst (note_request w r now (max_paths (snd ad4))) ad4;
               ad6 = agent_step matches r now handled (traversal_step matches r now handled (query_step matches r now handled ad5));
               ad7 = signature_step w matches r now handled ad6
           in if status r = 400 \<or> no_server r then check_invalid_host w ip now r ad7 else ad7)"

definition observe_request :: "surroundings \<Rightarrow> parsed_request \<Rightarrow> int \<Rightarrow> rat option \<Rightarrow> 's detector \<Rightarrow> 's detector" where
  "observe_request w r now stamp d =
     (let ip = client_ip r;
          v = verdict_for (excl (engine d)) ip;
          d1 = d\<lparr>trusted := observe_rate (rates_in_config w) (monotonic w) r (trust_of v) now stamp (trusted d)\<rparr>;
          (matches, ctx) = inspect (crc_of w) (sigs d1) r now (v_excluded v)
            (catch_all_known (req_host r) (bytes_out r) (catch_all d1)) (dctx d1);
          d2 = d1\<lparr>dctx := ctx\<rparr>
      in if v_excluded v then d2\<lparr>excluded_observations := excluded_observations d2 + 1\<rparr>
         else case touch ip now (memory d2) of
           (a, m) \<Rightarrow> (case watch_request w matches r now stamp (a, d2\<lparr>memory := m\<rparr>) of
             (a', d3) \<Rightarrow> d3\<lparr>memory := put_activity ip a' (memory d3)\<rparr>))"

end
