(* ===== verification/Guard_Bounds.thy ===== *)
theory Guard_Bounds
  imports Guard_Observe Guard_Queue
begin

text \<open>
  The working memory of the adaptive protection daemon is bounded: every dictionary of \<open>Guard_Activity\<close>,
  \<open>Guard_Context\<close> and \<open>Guard_Trusted\<close> stays within the limit the code gives it, whatever is put in.
\<close>

section \<open>Bounded dictionaries\<close>

named_theorems bounds "lengths of the daemon's dictionaries"

lemma length_drop_oldest [bounds]: "length (drop_oldest n m) \<le> n"
  by (simp add: drop_oldest_def)

lemma set_drop_oldest: "set (drop_oldest n m) \<subseteq> set m"
  by (simp add: drop_oldest_def set_drop_subset)

lemma length_lru_put [bounds]: "length (lru_put n k v m) \<le> n"
  by (simp add: lru_put_def bounds)

lemma set_lru_put: "set (lru_put n k v m) \<subseteq> insert (k, v) (set m)"
  using set_drop_oldest [of n "put_last k v m"] by (auto simp: lru_put_def put_last_def AList.delete_eq)

lemma in_lru_put: "x \<in> set (lru_put n k v m) \<Longrightarrow> x = (k, v) \<or> x \<in> set m"
  using set_lru_put by fast

lemma map_of_put_last: "map_of (put_last k v m) = (map_of m)(k \<mapsto> v)"
  by (simp add: put_last_def delete_conv' fun_eq_iff map_add_def split: option.splits)

lemma length_put_last_old: "map_of m k \<noteq> None \<Longrightarrow> length (put_last k v m) \<le> length m"
proof -
  assume "map_of m k \<noteq> None"
  then obtain u where "(k, u) \<in> set m" by (auto dest: map_of_SomeD)
  then have "length (AList.delete k m) < length m" by (auto simp: AList.delete_eq intro: length_filter_less)
  then show ?thesis by (simp add: put_last_def)
qed

lemma in_jput: "x \<in> set (jput k v m) \<Longrightarrow> x = (k, v) \<or> x \<in> set m"
  by (induction m) (auto split: if_splits)

lemma ball_pair: "(\<forall>(k, v) \<in> set m. Q k v) \<longleftrightarrow> (\<forall>k v. (k, v) \<in> set m \<longrightarrow> Q k v)"
  by auto

section \<open>One address\<close>

text \<open>What the code promises of an address it remembers.\<close>

definition activity_ok :: "nat \<Rightarrow> ip_activity \<Rightarrow> bool" where
  "activity_ok limit a =
     (length (paths a) \<le> limit \<and> length (hosts a) \<le> 16 \<and> length (categories a) \<le> 16 \<and>
      length (missing_paths a) \<le> limit \<and> length (refused_paths a) \<le> max limit (2 * WIDE_ENUM_MIN) \<and>
      length (invalid_host_keys a) \<le> limit \<and> 0 \<le> scanner_hits a)"

lemma activity_ok_new [simp]: "activity_ok limit (new_activity ts)"
  by (simp add: activity_ok_def new_activity_def)

lemma activity_ok_ops [simp]:
  assumes "activity_ok limit a"
  shows "activity_ok limit (scanner_hit h a)" "activity_ok limit (note_category c ts a)"
    "activity_ok limit (note_path digest ts limit a)" "activity_ok limit (snd (note_missing digest ts limit a))"
    "activity_ok limit (snd (note_refused digest ts (max limit (2 * WIDE_ENUM_MIN)) window a))"
    "activity_ok limit (count_status r a)" "activity_ok limit (a\<lparr>recurring_checked := ts\<rparr>)"
    "activity_ok limit (a\<lparr>requests := n\<rparr>)" "activity_ok limit (a\<lparr>bad_requests := n\<rparr>)"
    "activity_ok limit (a\<lparr>reached_backend := b\<rparr>)" "activity_ok limit (a\<lparr>act_last_seen := ts\<rparr>)"
  using assms by (simp_all add: activity_ok_def scanner_hit_def note_category_def note_path_def note_missing_def note_refused_def
      count_status_def bounds Let_def)

lemma length_insert_le: "length xs < n \<Longrightarrow> length (List.insert x xs) \<le> n"
  by (simp add: List.insert_def)

lemma activity_ok_request [simp]: "activity_ok limit a \<Longrightarrow> activity_ok limit (note_request w r now limit a)"
proof -
  assume "activity_ok limit a"
  then have "activity_ok limit (if req_path r \<noteq> [] then note_path (hash_of w (req_path r)) now limit (count_status r a) else count_status r a)"
    by simp
  then show ?thesis
    unfolding note_request_def Let_def by (auto simp: activity_ok_def intro: length_insert_le)
qed

lemma activity_ok_invalid [simp]: "activity_ok limit a \<Longrightarrow> activity_ok limit (snd (note_invalid_host digest ts limit window a))"
  unfolding note_invalid_host_def Let_def
  by (auto simp: activity_ok_def bounds intro: order_trans [OF length_put_last_old] split: option.splits)

section \<open>Suggested signatures, unknown names, catch-all pages\<close>

definition candidates_ok :: "path_candidates \<Rightarrow> bool" where
  "candidates_ok c =
     (length (cand_paths c) \<le> CANDIDATE_MAX_PATHS \<and> length (cand_served c) \<le> CANDIDATE_MAX_SERVED \<and>
      (\<forall>(k, e) \<in> set (cand_paths c). length (cd_ips e) \<le> CANDIDATE_MAX_ADDRESSES \<and> length (cd_clients e) \<le> CANDIDATE_MAX_ADDRESSES \<and>
         length (cd_hosts e) \<le> 5))"

definition unknown_ok :: "(string \<times> unknown_host) list \<Rightarrow> bool" where
  "unknown_ok m =
     (length m \<le> UNKNOWN_HOSTS_MAX \<and>
      (\<forall>(k, e) \<in> set m. length (uh_ips e) \<le> CANDIDATE_MAX_ADDRESSES \<and> length (uh_clients e) \<le> CANDIDATE_MAX_ADDRESSES))"

definition pages_ok :: "catch_all_pages \<Rightarrow> bool" where
  "pages_ok c =
     (length c \<le> CATCH_ALL_MAX_HOSTS \<and>
      (\<forall>(h, ss) \<in> set c. length ss \<le> CATCH_ALL_MAX_SIZES \<and> (\<forall>(z, seen) \<in> set ss. length seen \<le> CATCH_ALL_MIN_PATHS)))"

lemma length_add_limited [simp]: "length xs \<le> CANDIDATE_MAX_ADDRESSES \<Longrightarrow> length (add_limited k xs) \<le> CANDIDATE_MAX_ADDRESSES"
  by (simp add: add_limited_def length_insert_le)

lemma length_count_up: "length (count_up k m) = (if map_of m k = None then Suc (length m) else length m)"
  by (simp add: count_up_def length_jput)

lemma candidates_ok_note [simp]: "candidates_ok c \<Longrightarrow> candidates_ok (candidates_note hp crc path ip host st served client ts c)"
proof -
  assume c: "candidates_ok c"
  let ?key = "(lower_host host, path)"
  define e0 where "e0 = (case map_of (cand_paths c) ?key of
     None \<Rightarrow> \<lparr>cd_first = ts, cd_last = ts, cd_ips = [], cd_clients = [], cd_status = [], cd_hosts = []\<rparr> | Some e \<Rightarrow> e)"
  have e0: "length (cd_ips e0) \<le> CANDIDATE_MAX_ADDRESSES" "length (cd_clients e0) \<le> CANDIDATE_MAX_ADDRESSES" "length (cd_hosts e0) \<le> 5"
    using c by (auto simp: e0_def candidates_ok_def dest!: map_of_SomeD split: option.splits)
  have hit: "length (cd_ips (candidate_hit st key client h ts e0)) \<le> CANDIDATE_MAX_ADDRESSES \<and>
      length (cd_clients (candidate_hit st key client h ts e0)) \<le> CANDIDATE_MAX_ADDRESSES \<and>
      length (cd_hosts (candidate_hit st key client h ts e0)) \<le> 5" for key h
    using e0 by (auto simp: candidate_hit_def length_count_up)
  show ?thesis
    using c hit unfolding candidates_note_def Let_def e0_def [symmetric]
    by (auto simp: candidates_ok_def bounds AList.delete_eq intro: order_trans [OF length_filter_le] dest!: in_lru_put)
qed

lemma unknown_ok_note [simp]: "unknown_ok m \<Longrightarrow> unknown_ok (unknown_note crc host ip client ts m)"
  unfolding unknown_note_def Let_def
  by (auto simp: unknown_ok_def bounds dest!: in_lru_put map_of_SomeD split: option.splits)

lemma pages_ok_seen [simp]: "pages_ok c \<Longrightarrow> pages_ok (snd (is_catch_all host sz digest c))"
proof -
  assume c: "pages_ok c"
  define ss where "ss = (case map_of c host of None \<Rightarrow> [] | Some s \<Rightarrow> s)"
  define seen where "seen = (case map_of ss sz of None \<Rightarrow> [] | Some s \<Rightarrow> s)"
  have ss: "\<forall>(z, seen) \<in> set ss. length seen \<le> CATCH_ALL_MIN_PATHS"
    using c by (cases "map_of c host") (auto simp: ss_def pages_ok_def dest!: map_of_SomeD)
  then have "length seen \<le> CATCH_ALL_MIN_PATHS"
    by (cases "map_of ss sz") (auto simp: seen_def dest!: map_of_SomeD)
  then show ?thesis
    using c ss unfolding is_catch_all_def Let_def ss_def [symmetric] seen_def [symmetric]
    by (auto simp: pages_ok_def bounds length_insert_le dest!: in_lru_put)
qed

section \<open>The aggregates of the contextual rules\<close>

definition stat_ok :: "dstat \<Rightarrow> bool" where
  "stat_ok x = (length (ds_ips x) \<le> CANDIDATE_MAX_ADDRESSES \<and> length (ds_hosts x) \<le> 8 \<and> (\<forall>(h, n) \<in> set (ds_hosts x). length h \<le> 253))"

definition slow_ok :: "slow_entry \<Rightarrow> bool" where
  "slow_ok e =
     (distinct (map fst (se_buckets e)) \<and>
      (\<forall>(slot, b) \<in> set (se_buckets e). se_last e div 1800 - 11 \<le> slot \<and> slot \<le> se_last e div 1800 \<and> length (sb_paths b) \<le> 32))"

definition context_ok :: "detection_context \<Rightarrow> bool" where
  "context_ok c =
     (length (dctx_stats c) \<le> DETECTION_MAX_STATS \<and> (\<forall>(k, x) \<in> set (dctx_stats c). stat_ok x) \<and>
      length (dctx_slow c) \<le> DETECTION_MAX_TRACKED \<and> (\<forall>(k, e) \<in> set (dctx_slow c). slow_ok e))"

text \<open>Six hours are twelve buckets of half an hour.\<close>

lemma slow_ok_buckets: "slow_ok e \<Longrightarrow> length (se_buckets e) \<le> 12"
proof -
  assume e: "slow_ok e"
  then have "length (se_buckets e) = card (fst ` set (se_buckets e))"
    by (metis slow_ok_def distinct_card length_map list.set_map)
  also have "\<dots> \<le> card {se_last e div 1800 - 11 .. se_last e div 1800}"
    using e by (intro card_mono) (auto simp: slow_ok_def)
  finally show ?thesis by simp
qed


lemma stat_ok_host: "stat_ok x \<Longrightarrow> map_of (ds_hosts x) h \<noteq> None \<or> length (ds_hosts x) < 8 \<Longrightarrow>
    length (count_up (take 253 h) (ds_hosts x)) \<le> 8"
proof -
  assume x: "stat_ok x" and h: "map_of (ds_hosts x) h \<noteq> None \<or> length (ds_hosts x) < 8"
  show ?thesis
  proof (cases "length (ds_hosts x) < 8")
    case False
    with h obtain n where n: "map_of (ds_hosts x) h = Some n" by auto
    then have "length h \<le> 253" using x map_of_SomeD [OF n] by (auto simp: stat_ok_def)
    with n x show ?thesis by (simp add: length_count_up stat_ok_def)
  qed (simp add: length_count_up)
qed

lemma in_count_up: "(k', n) \<in> set (count_up k m) \<Longrightarrow> k' = k \<or> (k', n) \<in> set m"
  unfolding count_up_def by (drule in_jput) auto

lemma context_ok_note [simp]: "context_ok c \<Longrightarrow> context_ok (note_rule crc rule r now action c)"
proof -
  assume c: "context_ok c"
  define row where "row = (let fresh = \<lparr>ds_first = now, ds_last = now, ds_hits = 0,
            ds_counts = [(''trusted'', 0), (''excepted'', 0), (''observe'', 0), (''enforce'', 0)], ds_ips = [], ds_hosts = []\<rparr>
     in case map_of (dctx_stats c) rule of None \<Rightarrow> fresh | Some x \<Rightarrow> if now - ds_first x \<ge> DETECTION_TTL then fresh else x)"
  have row: "stat_ok row"
    using c by (cases "map_of (dctx_stats c) rule") (auto simp: row_def stat_ok_def context_ok_def Let_def dest!: map_of_SomeD)
  define row' where "row' = row\<lparr>ds_last := now, ds_hits := ds_hits row + 1, ds_counts := count_up action (ds_counts row),
            ds_ips := add_limited (crc (client_ip r)) (ds_ips row),
            ds_hosts := (if map_of (ds_hosts row) (req_host r) \<noteq> None \<or> length (ds_hosts row) < 8
              then count_up (take 253 (req_host r)) (ds_hosts row) else ds_hosts row)\<rparr>"
  have row': "stat_ok row'"
    using row stat_ok_host [OF row, of "req_host r"] by (auto simp: row'_def stat_ok_def dest!: in_count_up)
  have e: "dctx_stats (note_rule crc rule r now action c) = lru_put DETECTION_MAX_STATS rule row' (dctx_stats c)"
    "dctx_slow (note_rule crc rule r now action c) = dctx_slow c"
    by (simp_all add: note_rule_def Let_def lru_put_def row'_def row_def)
  show ?thesis using c row' unfolding context_ok_def e by (auto simp: bounds dest!: in_lru_put)
qed

lemma config_note [simp]: "dctx_config (note_rule crc rule r now action c) = dctx_config c"
  by (simp add: note_rule_def Let_def)

lemma inspect_ok [simp]:
  "context_ok c \<Longrightarrow> context_ok (snd (inspect crc s r now t k c))" "dctx_config (snd (inspect crc s r now t k c)) = dctx_config c"
proof -
  have "context_ok c \<Longrightarrow> context_ok (fold (\<lambda>x. note_rule crc (rm_id x) r now (rm_action x)) ms c)" for ms
    by (induction ms arbitrary: c) simp_all
  then show "context_ok c \<Longrightarrow> context_ok (snd (inspect crc s r now t k c))" by (simp add: inspect_def Let_def)
  have "dctx_config (fold (\<lambda>x. note_rule crc (rm_id x) r now (rm_action x)) ms c) = dctx_config c" for ms
    by (induction ms arbitrary: c) simp_all
  then show "dctx_config (snd (inspect crc s r now t k c)) = dctx_config c" by (simp add: inspect_def Let_def)
qed

lemma bucket_paths: "length (sb_paths b) \<le> 32 \<Longrightarrow> length (sb_paths (bucket_hit crc r b)) \<le> 32"
  by (simp add: bucket_hit_def Let_def)

lemma slow_ok_entry:
  assumes "context_ok c"
  shows "slow_ok (slow_entry_of key now c) \<or> \<not> now div 1800 < se_last (slow_entry_of key now c) div 1800 - 11"
    and "now div 1800 < se_last (slow_entry_of key now c) div 1800 - 11 \<Longrightarrow> map_of (dctx_slow c) key \<noteq> None"
proof -
  have ok: "slow_ok e" if "map_of (dctx_slow c) key = Some e" for e
    using assms map_of_SomeD [OF that] by (auto simp: context_ok_def)
  show "slow_ok (slow_entry_of key now c) \<or> \<not> now div 1800 < se_last (slow_entry_of key now c) div 1800 - 11"
  proof (cases "map_of (dctx_slow c) key")
    case (Some e)
    then show ?thesis using ok [OF Some] by (auto simp: slow_entry_of_def Let_def slow_ok_def max_def)
  qed (simp add: slow_entry_of_def)
  show "map_of (dctx_slow c) key \<noteq> None" if "now div 1800 < se_last (slow_entry_of key now c) div 1800 - 11"
    using that by (cases "map_of (dctx_slow c) key") (simp_all add: slow_entry_of_def)
qed

lemma slow_ok_hit:
  assumes e: "slow_ok e" and t: "t = max (se_last e) now" and slot: "\<not> now div 1800 < t div 1800 - 11"
  shows "slow_ok (slow_hit crc r now (e\<lparr>se_last := t\<rparr>))"
proof -
  define kept where "kept = filter (\<lambda>(b, _). \<not> b < t div 1800 - 11) (se_buckets e)"
  define b where "b = (case map_of kept (now div 1800) of None \<Rightarrow> \<lparr>sb_missing = 0, sb_total = 0, sb_good = 0, sb_paths = []\<rparr> | Some b \<Rightarrow> b)"
  have mono: "se_last e div 1800 \<le> t div 1800" "now div 1800 \<le> t div 1800" using t by (simp_all add: zdiv_mono1)
  have d: "distinct (map fst (se_buckets e))" using e by (simp add: slow_ok_def)
  have kept: "t div 1800 - 11 \<le> k \<and> k \<le> t div 1800 \<and> length (sb_paths x) \<le> 32" if "(k, x) \<in> set kept" for k x
  proof -
    have "(k, x) \<in> set (se_buckets e)" "t div 1800 - 11 \<le> k" using that by (auto simp: kept_def)
    then show ?thesis using e mono(1) by (fastforce simp: slow_ok_def)
  qed
  have "length (sb_paths b) \<le> 32"
    using kept by (cases "map_of kept (now div 1800)") (auto simp: b_def dest!: map_of_SomeD)
  then have b: "length (sb_paths (bucket_hit crc r b)) \<le> 32" by (rule bucket_paths)
  have "t div 1800 - 11 \<le> k \<and> k \<le> t div 1800 \<and> length (sb_paths x) \<le> 32"
    if "(k, x) \<in> set (jput (now div 1800) (bucket_hit crc r b) kept)" for k x
    using in_jput [OF that] kept [of k x] slot mono(2) b by auto
  moreover have "distinct (map fst (jput (now div 1800) (bucket_hit crc r b) kept))"
    unfolding kept_def by (intro distinct_update distinct_map_filter d)
  moreover have "slow_hit crc r now (e\<lparr>se_last := t\<rparr>) = e\<lparr>se_last := t, se_buckets := jput (now div 1800) (bucket_hit crc r b) kept\<rparr>"
    by (simp add: slow_hit_def Let_def kept_def b_def)
  ultimately show ?thesis unfolding slow_ok_def by (simp add: ball_pair)
qed

lemma slow_ok_entry_hit:
  assumes c: "context_ok c" and slot: "\<not> now div 1800 < se_last (slow_entry_of key now c) div 1800 - 11"
  shows "slow_ok (slow_hit crc r now (slow_entry_of key now c))"
proof -
  define e where "e = (case map_of (dctx_slow c) key of None \<Rightarrow> \<lparr>se_last = now, se_buckets = []\<rparr> | Some e \<Rightarrow> e)"
  have "slow_ok e"
    using c by (cases "map_of (dctx_slow c) key") (auto simp: e_def context_ok_def slow_ok_def dest!: map_of_SomeD)
  moreover have s: "slow_entry_of key now c = e\<lparr>se_last := max (se_last e) now\<rparr>"
    by (simp add: slow_entry_of_def Let_def e_def)
  ultimately show ?thesis using slot unfolding s by (intro slow_ok_hit refl) simp_all
qed

lemma slow_put_ok: "context_ok c \<Longrightarrow> slow_ok e \<Longrightarrow> context_ok (slow_put key e c)"
  unfolding slow_put_def Let_def lru_put_def [symmetric] by (auto simp: context_ok_def bounds dest!: in_lru_put)

lemma observe_slow_handled: "handled \<Longrightarrow> observe_slow crc r now handled c = ([], c)"
  by (simp add: observe_slow_def)

lemma observe_slow_config [simp]: "dctx_config (snd (observe_slow crc r now handled c)) = dctx_config c"
  unfolding observe_slow_def Let_def slow_put_def by simp

lemma observe_slow_ok [simp]:
  assumes c: "context_ok c"
  shows "context_ok (snd (observe_slow crc r now handled c))"
proof -
  define key where "key = (client_ip r, take 253 (req_host r))"
  define e where "e = slow_entry_of key now c"
  define old where "old = (now div 1800 < se_last e div 1800 - 11)"
  have stale: "context_ok (c\<lparr>dctx_slow := jput key e (dctx_slow c)\<rparr>)" if old
    using that c slow_ok_entry [OF c, where key = key and now = now] unfolding old_def e_def [symmetric]
    by (auto simp: context_ok_def length_jput dest!: in_jput)
  have fresh: "context_ok (slow_put key (slow_hit crc r now e) c)" if "\<not> old"
    using slow_put_ok [OF c slow_ok_entry_hit [OF c]] that unfolding old_def e_def by simp
  show ?thesis
    using c stale fresh unfolding observe_slow_def Let_def key_def [symmetric] e_def [symmetric] old_def [symmetric] by simp
qed

end
