(* ===== verification/Guard_Watch.thy ===== *)
theory Guard_Watch
  imports Guard_Bounds
begin

text \<open>
  What one observed request may do.  \<open>allows P d d'\<close> says that the step from \<open>d\<close> to \<open>d'\<close> recorded only
  findings that satisfy \<open>P\<close>, kept every store within its limit and changed no setting.  The locale
  \<open>watch_contract\<close> states what a class of findings \<open>P\<close> and an invariant \<open>I\<close> of an address's activity must
  satisfy for the whole of \<open>watch_request\<close> to keep both; it is interpreted for an arbitrary request and
  for a request the gateway refused.
\<close>

section \<open>Recording a finding\<close>

definition stores_ok :: "'s detector \<Rightarrow> bool" where
  "stores_ok d = (candidates_ok (cands d) \<and> unknown_ok (unknown_hosts d) \<and> pages_ok (catch_all d) \<and> context_ok (dctx d))"

definition same_settings :: "'s detector \<Rightarrow> 's detector \<Rightarrow> bool" where
  "same_settings d d' =
     (excl (engine d') = excl (engine d) \<and> sigs d' = sigs d \<and> memory d' = memory d \<and> max_paths d' = max_paths d \<and>
      trap_hosts d' = trap_hosts d \<and> trusted d' = trusted d \<and> dctx_config (dctx d') = dctx_config (dctx d))"

definition new_findings :: "(sec_event \<Rightarrow> bool) \<Rightarrow> 's guard \<Rightarrow> 's guard \<Rightarrow> bool" where
  "new_findings P g g' = (\<exists>es. events (db g') = events (db g) @ es \<and> (\<forall>e \<in> set es. P e))"

definition allows :: "(sec_event \<Rightarrow> bool) \<Rightarrow> 's detector \<Rightarrow> 's detector \<Rightarrow> bool" where
  "allows P d d' = (new_findings P (engine d) (engine d') \<and> same_settings d d' \<and> (stores_ok d \<longrightarrow> stores_ok d'))"

lemma new_findings_refl [simp]: "new_findings P g g"
  by (simp add: new_findings_def)

lemma new_findings_trans: "new_findings P g g' \<Longrightarrow> new_findings P g' g'' \<Longrightarrow> new_findings P g g''"
  unfolding new_findings_def by (elim exE conjE) (metis (no_types) Un_iff append_assoc set_append)

lemma allows_refl [simp]: "allows P d d"
  by (simp add: allows_def same_settings_def)

lemma allows_trans: "allows P d d' \<Longrightarrow> allows P d' d'' \<Longrightarrow> allows P d d''"
  unfolding allows_def same_settings_def by (auto intro: new_findings_trans)

lemma allows_mono: "allows P d d' \<Longrightarrow> (\<And>e. P e \<Longrightarrow> Q e) \<Longrightarrow> allows Q d d'"
  unfolding allows_def new_findings_def by blast

lemma allows_max_paths: "allows P d d' \<Longrightarrow> max_paths d' = max_paths d"
  by (simp add: allows_def same_settings_def)

text \<open>A finding is recorded with its detail cut, or not at all; the exclusions stay.\<close>

lemma emit_effect:
  "excl (snd (emit e fp g)) = excl g"
  "events (db (snd (emit e fp g))) = events (db g) \<or>
   events (db (snd (emit e fp g))) = events (db g) @ [e\<lparr>ev_detail := take MAX_PATH_LENGTH (ev_detail e)\<rparr>]"
proof -
  define key where "key = (if fp = [] then ev_ip e @ ''|'' @ ev_type e else fp)"
  define w where "w = (case map_of COOLDOWN_SECONDS (ev_type e) of None \<Rightarrow> 60 | Some w \<Rightarrow> w)"
  obtain b d where c: "cooldown_passed key (ev_ts e) w (db g) = (b, d)" by (cases "cooldown_passed key (ev_ts e) w (db g)")
  then have d: "events d = events (db g)" by (auto simp: cooldown_passed_def split: option.splits if_splits)
  have o: "events (observe_ip a ts v d) = events d" for a ts v by (simp add: observe_ip_def split: option.splits)
  show "excl (snd (emit e fp g)) = excl g"
    unfolding emit_def Let_def key_def [symmetric] w_def [symmetric] c by (cases b) (simp_all add: queue_enforcement_check_def)
  show "events (db (snd (emit e fp g))) = events (db g) \<or>
   events (db (snd (emit e fp g))) = events (db g) @ [e\<lparr>ev_detail := take MAX_PATH_LENGTH (ev_detail e)\<rparr>]"
    unfolding emit_def Let_def key_def [symmetric] w_def [symmetric] c
    by (cases b) (simp_all add: queue_enforcement_check_def record_events_def d o)
qed

lemma report_fst [simp]: "fst (report e fp ad) = fst ad"
  by (simp add: report_def split: prod.splits)

lemma site_names_allows [simp]: "allows P d (site_names w d)"
  by (simp add: site_names_def allows_def same_settings_def stores_ok_def)

section \<open>The contract of a step\<close>

locale watch_contract =
  fixes P :: "sec_event \<Rightarrow> bool" and I :: "ip_activity \<Rightarrow> bool"
    and r :: parsed_request and now :: int and handled :: bool and limit :: nat
  assumes detail: "P (e\<lparr>ev_detail := x\<rparr>) = P e"
    and direct: "P (finding (client_ip r) t now c s x handled)"
    and derived: "I a \<Longrightarrow> 0 < scanner_hits a \<Longrightarrow> P (finding (client_ip r) t now c s x (scanning_was_all_refused a))"
    and shielded: "I a \<Longrightarrow> P (finding (client_ip r) t now c s x (refusal_is_a_shield r a))"
    and missing: "status r = 404 \<Longrightarrow> P (finding (client_ip r) t now c s x False)"
    and hit: "I a \<Longrightarrow> I (scanner_hit handled a) \<and> 0 < scanner_hits (scanner_hit handled a)"
    and category: "I a \<Longrightarrow> I (note_category c now a)"
    and request: "I a \<Longrightarrow> I (note_request w r now limit a)"
    and note_missing: "I a \<Longrightarrow> I (snd (note_missing digest now limit a))"
    and note_refused: "I a \<Longrightarrow> I (snd (note_refused digest now (max limit (2 * WIDE_ENUM_MIN)) WIDE_ENUM_WINDOW a))"
    and note_invalid: "I a \<Longrightarrow> I (snd (note_invalid_host digest now limit INVALID_HOST_WINDOW a))"
    and recurring: "I a \<Longrightarrow> I (a\<lparr>recurring_checked := now\<rparr>)"
    and counted: "I a \<Longrightarrow> I (a\<lparr>requests := n\<rparr>) \<and> I (a\<lparr>bad_requests := n\<rparr>)"
    and reached: "\<not> no_server r \<Longrightarrow> I a \<Longrightarrow> I (a\<lparr>reached_backend := True\<rparr>)"
begin

text \<open>A step keeps the contract: what it records is allowed and the activity stays in \<open>I\<close>.\<close>

definition keeps :: "'s watch \<Rightarrow> 's watch \<Rightarrow> bool" where
  "keeps ad ad' = (I (fst ad) \<and> max_paths (snd ad) = limit \<longrightarrow> allows P (snd ad) (snd ad') \<and> I (fst ad'))"

lemma keeps_refl [simp]: "keeps ad ad"
  by (simp add: keeps_def)

lemma keeps_trans: "keeps ad ad' \<Longrightarrow> keeps ad' ad'' \<Longrightarrow> keeps ad ad''"
  unfolding keeps_def using allows_max_paths by (metis allows_trans)

lemma keeps_activity: "(I (fst ad) \<Longrightarrow> I (f (fst ad))) \<Longrightarrow> keeps ad (apfst f ad)"
  by (simp add: keeps_def)

lemma report_keeps: "(I (fst ad) \<Longrightarrow> P e) \<Longrightarrow> keeps ad (report e fp ad)"
proof -
  assume e: "I (fst ad) \<Longrightarrow> P e"
  obtain a d where ad: "ad = (a, d)" by (cases ad)
  have "new_findings P (engine d) (snd (emit e fp (engine d)))" if "P e"
    using emit_effect(2) [of e fp "engine d"] that detail unfolding new_findings_def by (elim disjE) auto
  then show ?thesis
    using e by (auto simp: keeps_def ad report_def allows_def same_settings_def stores_ok_def emit_effect)
qed

section \<open>Derived findings\<close>

lemma check_multi_category_keeps: "0 < scanner_hits (fst ad) \<Longrightarrow> keeps ad (check_multi_category (client_ip r) now ad)"
  by (auto simp: check_multi_category_def Let_def intro: report_keeps derived)

lemma check_low_and_slow_keeps: "0 < scanner_hits (fst ad) \<Longrightarrow> keeps ad (check_low_and_slow (client_ip r) now ad)"
  by (auto simp: check_low_and_slow_def Let_def intro: report_keeps derived)

lemma check_hits [simp]:
  "scanner_hits (fst (check_multi_category ip now' ad)) = scanner_hits (fst ad)"
  "scanner_hits (fst (check_low_and_slow ip now' ad)) = scanner_hits (fst ad)"
  by (simp_all add: check_multi_category_def check_low_and_slow_def Let_def)

lemma check_recurring_keeps: "0 < scanner_hits (fst ad) \<Longrightarrow> keeps ad (check_recurring (client_ip r) now ad)"
proof -
  assume h: "0 < scanner_hits (fst ad)"
  obtain a d where ad: "ad = (a, d)" by (cases ad)
  have s: "keeps (a, d) (a\<lparr>recurring_checked := now\<rparr>, d)"
    using keeps_activity [of "(a, d)" "\<lambda>a. a\<lparr>recurring_checked := now\<rparr>"] recurring by simp
  have "keeps (a\<lparr>recurring_checked := now\<rparr>, d)
     (report (finding (client_ip r) t now [] [] x (scanning_was_all_refused (a\<lparr>recurring_checked := now\<rparr>))) [] (a\<lparr>recurring_checked := now\<rparr>, d))" for t x
    by (rule report_keeps) (use h ad in \<open>auto intro: derived\<close>)
  then show ?thesis
    using s keeps_trans [OF s] by (simp add: check_recurring_def ad Let_def)
qed

lemma check_not_found_keeps: "status r = 404 \<Longrightarrow> keeps ad (check_not_found_enumeration (client_ip r) now ad)"
  by (auto simp: check_not_found_enumeration_def Let_def intro: report_keeps missing)

lemma check_enumeration_breadth_keeps: "keeps ad (check_enumeration_breadth (client_ip r) now r ad)"
proof -
  let ?f = "\<lambda>t x. finding (client_ip r) t now [] [] x (refusal_is_a_shield r (fst ad))"
  have one: "keeps ad (report (?f t x) [] ad)" for t x
    by (rule report_keeps) (rule shielded)
  have "keeps (report (?f t x) [] ad) (report (?f t' x) [] (report (?f t x) [] ad))" for t t' x
    by (rule report_keeps) (simp add: shielded)
  then have two: "keeps ad (report (?f t' x) [] (report (?f t x) [] ad))" for t t' x
    by (rule keeps_trans [OF one])
  show ?thesis unfolding check_enumeration_breadth_def Let_def by (auto intro: one two)
qed

lemma check_invalid_host_keeps: "keeps ad (check_invalid_host w (client_ip r) now r ad)"
proof -
  obtain a d where ad: "ad = (a, d)" by (cases ad)
  let ?n = "note_invalid_host (hash_of w (req_host r @ ''|'' @ req_path r)) now limit INVALID_HOST_WINDOW a"
  obtain k a1 where n: "?n = (k, a1)" by (cases ?n)
  have s: "keeps (a, d) (a1, d)"
    using keeps_activity [of "(a, d)" "\<lambda>_. a1"] note_invalid [of a "hash_of w (req_host r @ ''|'' @ req_path r)"] n by simp
  have "keeps (a1, d) (report (finding (client_ip r) t now [] [] x (refusal_is_a_shield r a1)) [] (a1, d))" for t x
    by (rule report_keeps) (simp add: shielded)
  then have "keeps (a, d) (report (finding (client_ip r) t now [] [] x (refusal_is_a_shield r a1)) [] (a1, d))" for t x
    by (rule keeps_trans [OF s])
  then have "keeps (a, d) (check_invalid_host w (client_ip r) now r (a, d))" if l: "max_paths d = limit"
    using s unfolding check_invalid_host_def prod.case l n by (auto split: option.splits)
  then show ?thesis unfolding ad by (auto simp: keeps_def)
qed

section \<open>The steps of one request\<close>

lemma slow_step_keeps: "keeps ad (slow_step w r now stamp handled ad)"
proof -
  obtain a d where ad: "ad = (a, d)" by (cases ad)
  define moment where "moment = (case stamp of None \<Rightarrow> now | Some x \<Rightarrow> trunc_rat (min (rat_of_int now) x))"
  define oc where "oc = (if moment \<ge> now - 6 * 3600 then observe_slow (crc_of w) r moment handled (dctx d) else ([], dctx d))"
  have oc: "dctx_config (snd oc) = dctx_config (dctx d)" "context_ok (dctx d) \<Longrightarrow> context_ok (snd oc)" "handled \<Longrightarrow> fst oc = []"
    by (simp_all add: oc_def observe_slow_handled)
  have s: "keeps (a, d) (a, d\<lparr>dctx := snd oc\<rparr>)"
    using oc by (simp add: keeps_def allows_def same_settings_def stores_ok_def)
  have f: "P (finding (client_ip r) t now c st x False)" if "fst oc = ''enforce''" for t c st x
    using direct [of t c st x] oc(3) that by (cases handled) simp_all
  have e: "slow_step w r now stamp handled ad = (if fst oc = ''enforce'' then
            report (finding (client_ip r) ''SCANNER_PATH'' now ''slow-enumeration'' (req_host r) (req_path r) False)
              (client_ip r @ ''|behavior:slow-enumeration|'' @ req_host r) (a, d\<lparr>dctx := snd oc\<rparr>)
          else (a, d\<lparr>dctx := snd oc\<rparr>))"
    unfolding slow_step_def ad Let_def case_prod_beta fst_conv snd_conv moment_def [symmetric] oc_def [symmetric] by (rule refl)
  have "keeps (a, d) (report (finding (client_ip r) t now c st x False) fp (a, d\<lparr>dctx := snd oc\<rparr>))" if "fst oc = ''enforce''" for t c st x fp
    by (rule keeps_trans [OF s], rule report_keeps) (rule f [OF that])
  then show ?thesis
    unfolding e unfolding ad using s by simp
qed

text \<open>A signature was hit: the counters first, then the finding, then what is derived from it.\<close>

lemma hit_keeps:
  "keeps ad (report (finding (client_ip r) t now c s x handled) fp (apfst (note_category k now \<circ> scanner_hit handled) ad))"
  (is "keeps ad (report ?e fp ?ad)")
proof -
  have "keeps ad ?ad" by (rule keeps_activity) (simp add: hit category)
  moreover have "keeps ?ad (report ?e fp ?ad)" by (rule report_keeps) (rule direct)
  ultimately show ?thesis by (rule keeps_trans)
qed

lemma hit_positive:
  "I (fst ad) \<Longrightarrow> 0 < scanner_hits (fst (report e fp (apfst (note_category k now \<circ> scanner_hit handled) ad)))"
  using hit [of "fst ad"] by (cases ad) (simp add: note_category_def)

lemma keeps_after: "keeps ad ad' \<Longrightarrow> (I (fst ad) \<Longrightarrow> keeps ad' ad'') \<Longrightarrow> keeps ad ad''"
  using keeps_trans [of ad ad' ad''] by (auto simp: keeps_def)

lemma hit_multi_keeps:
  "keeps ad (check_multi_category (client_ip r) now
     (report (finding (client_ip r) t now c s x handled) fp (apfst (note_category k now \<circ> scanner_hit handled) ad)))"
  by (rule keeps_after [OF hit_keeps], rule check_multi_category_keeps, rule hit_positive)

lemma query_step_keeps: "keeps ad (query_step ms r now handled ad)"
  unfolding query_step_def Let_def by (simp only: hit_multi_keeps keeps_refl split: if_split) simp

lemma traversal_step_keeps: "keeps ad (traversal_step ms r now handled ad)"
  unfolding traversal_step_def Let_def by (simp only: hit_keeps keeps_refl split: if_split) simp

lemma agent_step_keeps: "keeps ad (agent_step ms r now handled ad)"
  unfolding agent_step_def Let_def by (simp only: hit_multi_keeps keeps_refl split: if_split prod.split) simp

lemma path_step_keeps: "keeps ad (path_step c r now handled ad)"
proof -
  define ad1 where "ad1 = report (finding (client_ip r) (path_event (sigs (snd ad)) c) now c (req_host r) (req_path r) handled)
    (client_ip r @ ''|'' @ path_event (sigs (snd ad)) c @ ''|'' @ c @ ''|'' @ flag_str handled)
    (apfst (note_category c now \<circ> scanner_hit handled) ad)"
  have h: "I (fst ad) \<Longrightarrow> 0 < scanner_hits (fst ad1)" unfolding ad1_def by (rule hit_positive)
  have multi: "keeps ad (check_multi_category (client_ip r) now ad1)" unfolding ad1_def by (rule hit_multi_keeps)
  have "keeps ad (check_recurring (client_ip r) now (check_low_and_slow (client_ip r) now (check_multi_category (client_ip r) now ad1)))"
    by (rule keeps_after [OF multi], rule keeps_trans [OF check_low_and_slow_keeps]) (simp_all add: h check_recurring_keeps)
  then show ?thesis unfolding path_step_def Let_def ad1_def .
qed

lemma context_step_keeps: "keeps (snd st) (snd (context_step r now handled m st))"
proof -
  obtain emitted ad where st: "st = (emitted, ad)" by (cases st)
  have hits: "I (fst ad) \<Longrightarrow> 0 < scanner_hits (note_category k now (scanner_hit handled (fst ad)))" for k
    using hit [of "fst ad"] by (simp add: note_category_def)
  let ?e = "finding (client_ip r) (rm_event m) now (rm_category m) (req_host r) (take 300 (rm_id m @ '' '' @ req_path r)) handled"
  define ad1 where "ad1 = report ?e (client_ip r @ ''|'' @ rm_event m @ ''|'' @ rm_category m @ ''|'' @ flag_str handled) (apfst (scanner_hit handled) ad)"
  define ad2 where "ad2 = apfst (note_category (rm_category m) now) ad1"
  have "keeps ad (apfst (scanner_hit handled) ad)" by (rule keeps_activity) (simp add: hit)
  moreover have "keeps (apfst (scanner_hit handled) ad) ad1" unfolding ad1_def by (rule report_keeps) (rule direct)
  moreover have "keeps ad1 ad2" unfolding ad2_def by (rule keeps_activity) (rule category)
  ultimately have ad2: "keeps ad ad2" by (metis keeps_trans)
  have h: "I (fst ad) \<Longrightarrow> 0 < scanner_hits (fst ad2)" using hits by (simp add: ad2_def ad1_def)
  have multi: "keeps ad (check_multi_category (client_ip r) now ad2)"
    by (rule keeps_after [OF ad2]) (simp add: h check_multi_category_keeps)
  have "keeps ad (check_recurring (client_ip r) now (check_low_and_slow (client_ip r) now (check_multi_category (client_ip r) now ad2)))"
    by (rule keeps_after [OF multi], rule keeps_trans [OF check_low_and_slow_keeps]) (simp_all add: h check_recurring_keeps)
  then show ?thesis
    using multi unfolding st context_step_def Let_def prod.case ad1_def [symmetric] ad2_def [symmetric] by simp
qed

lemma context_steps_keep: "keeps (snd st) (snd (fold (context_step r now handled) ms st))"
proof (induction ms arbitrary: st)
  case (Cons m ms)
  show ?case unfolding fold_Cons comp_apply by (rule keeps_trans [OF context_step_keeps Cons.IH])
qed simp

lemma enumeration_step_keeps: "keeps ad (enumeration_step w r now ad)"
proof -
  let ?dg = "hash_of w (req_path r)"
  obtain a d where ad: "ad = (a, d)" by (cases ad)
  define a1 where "a1 = snd (note_missing ?dg now limit a)"
  define ad1 where "ad1 = (if status r = 404 then
      (if fst (note_missing ?dg now limit a) then check_not_found_enumeration (client_ip r) now (a1, d) else (a1, d)) else (a, d))"
  have m: "keeps (a, d) (a1, d)"
    using keeps_activity [of "(a, d)" "\<lambda>_. a1"] note_missing by (simp add: a1_def)
  have k1: "keeps (a, d) ad1"
    using m keeps_trans [OF m check_not_found_keeps] by (auto simp: ad1_def)
  let ?n = "note_refused ?dg now (max limit (2 * WIDE_ENUM_MIN)) WIDE_ENUM_WINDOW (fst ad1)"
  have "keeps ad1 (snd ?n, snd ad1)"
    using note_refused by (simp add: keeps_def)
  with k1 have k2: "keeps (a, d) (snd ?n, snd ad1)" by (rule keeps_trans)
  have k3: "keeps (a, d) (check_enumeration_breadth (client_ip r) now r (snd ?n, snd ad1))"
    by (rule keeps_trans [OF k2 check_enumeration_breadth_keeps])
  have "keeps (a, d) (enumeration_step w r now (a, d))" if l: "max_paths d = limit"
    using k2 k3 unfolding enumeration_step_def Let_def fst_conv snd_conv case_prod_beta l a1_def [symmetric] ad1_def [symmetric] by simp
  then show ?thesis unfolding ad by (auto simp: keeps_def)
qed

lemma signature_step_keeps: "keeps ad (signature_step w ms r now handled ad)"
proof -
  obtain a d where ad: "ad = (a, d)" by (cases ad)
  define c where "c = classify_path (sigs d) (req_path r)"
  define d1 where "d1 = snd (candidate_step w c r now (a, d))"
  have s1: "candidate_step w c r now (a, d) = (a, d1)" by (simp add: d1_def candidate_step_def)
  have "allows P d d1" by (simp add: d1_def candidate_step_def allows_def same_settings_def stores_ok_def)
  obtain k d2 where s2: "excuse_served w c r d1 = (k, d2)" by (cases "excuse_served w c r d1")
  have pages: "pages_ok pg \<Longrightarrow> is_catch_all host sz digest pg = (b, pg') \<Longrightarrow> pages_ok pg'" for pg host sz digest b pg'
    using pages_ok_seen [of pg host sz digest] by simp
  have "allows P d1 d2"
    using s2 by (auto simp: excuse_served_def allows_def same_settings_def stores_ok_def pages split: if_splits prod.splits)
  with \<open>allows P d d1\<close> have "keeps (a, d) (a, d2)" by (auto simp: keeps_def intro: allows_trans)
  moreover have "keeps (a, d2) (enumeration_step w r now (a, d2))" by (rule enumeration_step_keeps)
  ultimately show ?thesis
    using keeps_trans [of "(a, d)" "(a, d2)"] path_step_keeps [of "(a, d2)"]
    unfolding ad signature_step_def Let_def snd_conv c_def [symmetric] s1 prod.case s2 by auto
qed

lemma unknown_host_keeps:
  assumes "normalize_host (req_host r) \<in> set (trap_hosts (snd ad)) \<Longrightarrow> P (finding (client_ip r) ''SCANNER_PATH_DECISIVE'' now ''trap'' [] x False)"
  shows "keeps ad (check_unknown_host w (client_ip r) now r ad)"
    and "fst (check_unknown_host w (client_ip r) now r ad) = fst ad"
proof -
  obtain a d where ad: "ad = (a, d)" by (cases ad)
  define d1 where "d1 = site_names w d"
  define d2 where "d2 = d1\<lparr>unknown_hosts := unknown_note (crc_of w) (normalize_host (req_host r)) (client_ip r) (looks_like_client a) now (unknown_hosts d1)\<rparr>"
  have "allows P d d1" by (simp add: d1_def)
  moreover have "allows P d1 d2" by (simp add: d2_def allows_def same_settings_def stores_ok_def)
  ultimately have k: "keeps (a, d) (a, d1)" "keeps (a, d) (a, d2)" by (auto simp: keeps_def intro: allows_trans)
  have t: "trap_hosts d2 = trap_hosts d" by (simp add: d2_def d1_def site_names_def)
  have "P (finding (client_ip r) ''SCANNER_PATH_DECISIVE'' now ''trap'' [] x' False)" if "normalize_host (req_host r) \<in> set (trap_hosts d2)" for x'
    using assms that detail [where e = "finding (client_ip r) ''SCANNER_PATH_DECISIVE'' now ''trap'' [] x False" and x = x'] by (simp add: ad t finding_def)
  then have "keeps (a, d) (report (finding (client_ip r) ''SCANNER_PATH_DECISIVE'' now ''trap'' [] x' False) fp (a, d2))"
    if "normalize_host (req_host r) \<in> set (trap_hosts d2)" for x' fp
    using that by (intro keeps_trans [OF k(2)] report_keeps)
  then show "keeps ad (check_unknown_host w (client_ip r) now r ad)"
    using k unfolding ad check_unknown_host_def Let_def prod.case d1_def [symmetric] d2_def [symmetric] by simp
  show "fst (check_unknown_host w (client_ip r) now r ad) = fst ad"
    unfolding ad check_unknown_host_def Let_def prod.case by simp
qed

lemma watch_request_keeps:
  assumes trap: "normalize_host (req_host r) \<in> set (trap_hosts (snd ad)) \<Longrightarrow>
      P (finding (client_ip r) ''SCANNER_PATH_DECISIVE'' now ''trap'' [] x False)"
    and h: "handled = (denied_by_gateway r \<and> no_server r \<and> \<not> reached_backend (fst ad))"
  shows "keeps ad (watch_request w ms r now stamp ad)"
proof -
  define ad0 where "ad0 = apfst (\<lambda>a. a\<lparr>requests := requests a + 1\<rparr>) ad"
  define ad1 where "ad1 = check_unknown_host w (client_ip r) now r ad0"
  define ad2 where "ad2 = (if no_server r then ad1 else apfst (\<lambda>a. a\<lparr>reached_backend := True\<rparr>) ad1)"
  define ad4 where "ad4 = snd (fold (context_step r now handled) ms ([], slow_step w r now stamp handled ad2))"
  define ad5 where "ad5 = apfst (note_request w r now (max_paths (snd ad4))) ad4"
  define ad7 where "ad7 = signature_step w ms r now handled
     (agent_step ms r now handled (traversal_step ms r now handled (query_step ms r now handled ad5)))"
  have "trap_hosts (snd ad0) = trap_hosts (snd ad)" by (simp add: ad0_def)
  with trap have u: "keeps ad0 ad1" "fst ad1 = fst ad0" unfolding ad1_def by (auto intro!: unknown_host_keeps)
  have "keeps ad ad0" unfolding ad0_def by (rule keeps_activity) (simp add: counted)
  with u have k1: "keeps ad ad1" by (blast intro: keeps_trans)
  have "keeps ad1 ad2" by (auto simp: ad2_def intro: keeps_activity reached)
  with k1 have k2: "keeps ad ad2" by (rule keeps_trans)
  have sh: "refusal_is_a_shield r (fst ad2) = handled"
    using u(2) by (simp add: ad2_def ad0_def refusal_is_a_shield_def h)
  have "keeps ad2 ad4"
    unfolding ad4_def by (rule keeps_trans [OF slow_step_keeps [where ad = ad2 and w = w and stamp = stamp]])
      (use context_steps_keep [of "([], slow_step w r now stamp handled ad2)"] in simp)
  with k2 have k4: "keeps ad ad4" by (rule keeps_trans)
  have "keeps ad4 ad5"
    unfolding ad5_def by (auto simp: keeps_def request)
  then have "keeps ad4 ad7"
    unfolding ad7_def
    by (rule keeps_trans [OF keeps_trans [OF keeps_trans [OF keeps_trans [OF _ query_step_keeps] traversal_step_keeps] agent_step_keeps]
          signature_step_keeps])
  with k4 have k7: "keeps ad ad7" by (rule keeps_trans)
  have bad: "keeps ad (check_invalid_host w (client_ip r) now r (apfst (\<lambda>a. a\<lparr>bad_requests := bad_requests a + 1\<rparr>) ad1))"
    by (rule keeps_trans [OF k1], rule keeps_trans [OF keeps_activity check_invalid_host_keeps]) (simp add: counted)
  have good: "keeps ad (check_invalid_host w (client_ip r) now r ad7)"
    by (rule keeps_trans [OF k7 check_invalid_host_keeps])
  show ?thesis
    using bad good k7 unfolding watch_request_def Let_def ad0_def [symmetric] ad1_def [symmetric] ad2_def [symmetric] sh
      ad4_def [symmetric] ad5_def [symmetric] ad7_def [symmetric] by simp
qed

end

section \<open>Two contracts\<close>

definition about :: "string \<Rightarrow> int \<Rightarrow> sec_event \<Rightarrow> bool" where
  "about ip now e = (ev_ip e = ip \<and> ev_ts e = now \<and> ev_source e = ''haproxy-log'')"

text \<open>An address that never got past the gateway: every scanner hit so far was refused.\<close>

definition walled :: "ip_activity \<Rightarrow> bool" where
  "walled a = (\<not> reached_backend a \<and> scanner_hits a \<le> scanner_hits_denied a)"

definition turned_away :: "parsed_request \<Rightarrow> bool" where
  "turned_away r = (denied_by_gateway r \<and> no_server r)"

lemma hit_counts: "activity_ok limit a \<Longrightarrow> 0 < scanner_hits (scanner_hit h a)"
  by (simp add: activity_ok_def scanner_hit_def)

interpretation any: watch_contract "about (client_ip r) now" "activity_ok limit" r now handled limit for r now handled limit
  by unfold_locales (simp_all add: about_def finding_def hit_counts)

lemma walled_ops [simp]:
  "walled (scanner_hit h a) \<longleftrightarrow> \<not> reached_backend a \<and> scanner_hits a + 1 \<le> scanner_hits_denied a + (if h then 1 else 0)"
  "walled (note_category c ts a) = walled a" "walled (note_request w r ts n a) = walled a"
  "walled (snd (note_missing digest ts n a)) = walled a" "walled (snd (note_refused digest ts n window a)) = walled a"
  "walled (snd (note_invalid_host digest ts n window a)) = walled a" "walled (a\<lparr>recurring_checked := ts\<rparr>) = walled a"
  "walled (a\<lparr>requests := m\<rparr>) = walled a" "walled (a\<lparr>bad_requests := m\<rparr>) = walled a" "walled (a\<lparr>act_last_seen := ts\<rparr>) = walled a"
  by (simp_all add: walled_def scanner_hit_def note_category_def note_request_def note_path_def count_status_def note_missing_def
      note_refused_def note_invalid_host_def Let_def split: option.splits)

lemma walled_new [simp]: "walled (new_activity ts)"
  by (simp add: walled_def new_activity_def)

lemma walled_refused: "walled a \<Longrightarrow> 0 < scanner_hits a \<Longrightarrow> scanning_was_all_refused a"
  by (simp add: walled_def scanning_was_all_refused_def)

lemma walled_shield: "walled a \<Longrightarrow> turned_away r \<Longrightarrow> refusal_is_a_shield r a"
  by (simp add: walled_def turned_away_def refusal_is_a_shield_def)

lemma turned_away_not_404: "turned_away r \<Longrightarrow> status r \<noteq> 404"
  by (auto simp: turned_away_def denied_by_gateway_def IDENTITY_REFUSALS_def split: if_splits)

interpretation refused: watch_contract "\<lambda>e. about (client_ip r) now e \<and> (turned_away r \<longrightarrow> ev_handled e)"
    "\<lambda>a. activity_ok limit a \<and> (turned_away r \<longrightarrow> walled a)" r now "turned_away r" limit for r now limit
proof unfold_locales
  show "activity_ok limit a \<and> (turned_away r \<longrightarrow> walled a) \<Longrightarrow>
      (activity_ok limit (scanner_hit (turned_away r) a) \<and> (turned_away r \<longrightarrow> walled (scanner_hit (turned_away r) a))) \<and>
      0 < scanner_hits (scanner_hit (turned_away r) a)" for a
    by (auto simp: walled_def scanner_hit_def activity_ok_def)
  show "\<not> no_server r \<Longrightarrow> activity_ok limit a \<and> (turned_away r \<longrightarrow> walled a) \<Longrightarrow>
      activity_ok limit (a\<lparr>reached_backend := True\<rparr>) \<and> (turned_away r \<longrightarrow> walled (a\<lparr>reached_backend := True\<rparr>))" for a
    by (simp add: turned_away_def)
qed (auto simp: about_def finding_def walled_refused walled_shield dest: turned_away_not_404)

end
