(* ===== verification/Guard_Rates.thy ===== *)
theory Guard_Rates
  imports Guard_Bounds
begin

text \<open>
  The rate warnings of \<open>Guard_Trusted\<close>: the counter agrees with counting the requests of two periods, and no
  episode is lost without being counted, whatever sequence of calls is made.
\<close>

section \<open>The counter is HAProxy's\<close>

text \<open>The weighted count written with the stamps themselves: the period that runs began a whole number of
  periods after the first request.\<close>

definition period_start :: "int \<Rightarrow> int \<Rightarrow> int \<Rightarrow> int" where
  "period_start first period ts = first + (ts - first) div period * period"

definition count_between :: "int \<Rightarrow> int \<Rightarrow> int list \<Rightarrow> int" where
  "count_between lo hi stamps = int (length (filter (\<lambda>t. lo \<le> t \<and> t < hi) stamps))"

definition counted_rate :: "int \<Rightarrow> int list \<Rightarrow> int" where
  "counted_rate period stamps =
     (let ts = last stamps; start = period_start (hd stamps) period ts in
      count_between start (start + period) stamps +
      count_between (start - period) start stamps * (period - (ts - start)) div period)"

definition counter_run :: "int \<Rightarrow> int list \<Rightarrow> int \<times> trusted_counter" where
  "counter_run period stamps = fold (\<lambda>ts rc. counter_add ts period (snd rc)) stamps (0, new_counter (hd stamps))"

definition counter_follows :: "int \<Rightarrow> int \<Rightarrow> int list \<Rightarrow> int \<Rightarrow> trusted_counter \<Rightarrow> bool" where
  "counter_follows first period stamps ts c =
     (ct_start c = period_start first period ts \<and>
      ct_curr c = count_between (ct_start c) (ct_start c + period) stamps \<and>
      ct_prev c = count_between (ct_start c - period) (ct_start c) stamps)"

lemma period_start_le: "0 < period \<Longrightarrow> period_start first period ts \<le> ts"
  "0 < period \<Longrightarrow> ts < period_start first period ts + period"
proof -
  assume p: "0 < period"
  have e: "(ts - first) div period * period + (ts - first) mod period = ts - first" by simp
  have "0 \<le> (ts - first) mod period" "(ts - first) mod period < period" using p by simp_all
  with e show "period_start first period ts \<le> ts" "ts < period_start first period ts + period"
    unfolding period_start_def by linarith+
qed

lemma period_start_step:
  assumes "0 < period"
  shows "period_start first period ts = period_start first period t + (ts - period_start first period t) div period * period"
proof -
  let ?k = "(t - first) div period"
  have "ts - period_start first period t = (ts - first) + (- ?k) * period" by (simp add: period_start_def)
  then have "(ts - period_start first period t) div period = (ts - first) div period - ?k"
    using assms by (simp only: div_mult_self1)
  then have "(ts - period_start first period t) div period * period = (ts - first) div period * period - ?k * period"
    by (simp add: left_diff_distrib)
  then show ?thesis by (simp add: period_start_def)
qed

lemma count_between_snoc: "count_between lo hi (xs @ [x]) = count_between lo hi xs + (if lo \<le> x \<and> x < hi then 1 else 0)"
  by (simp add: count_between_def)

lemma count_between_none: "(\<And>x. x \<in> set xs \<Longrightarrow> x < lo) \<Longrightarrow> count_between lo hi xs = 0"
  by (force simp: count_between_def filter_empty_conv)

lemma counter_add_follows:
  assumes p: "0 < period" and f: "counter_follows first period stamps t c" and ts: "t \<le> ts"
    and stamps: "\<And>x. x \<in> set stamps \<Longrightarrow> x \<le> t"
  shows "counter_follows first period (stamps @ [ts]) ts (snd (counter_add ts period c))"
    and "fst (counter_add ts period c) = ct_curr (snd (counter_add ts period c)) +
      ct_prev (snd (counter_add ts period c)) * (period - (ts - ct_start (snd (counter_add ts period c)))) div period"
proof -
  obtain s curr prev ep where c: "c = \<lparr>ct_start = s, ct_curr = curr, ct_prev = prev, ct_episode = ep\<rparr>" by (cases c)
  define n where "n = (ts - s) div period"
  have s: "s = period_start first period t" and curr: "curr = count_between s (s + period) stamps" and prev: "prev = count_between (s - period) s stamps"
    using f by (simp_all add: c counter_follows_def)
  have st: "s \<le> t" "t < s + period" using period_start_le [OF p, where first = first and ts = t] by (simp_all add: s [symmetric])
  have m: "max ts s = ts" using st ts by simp
  have start: "period_start first period ts = s + n * period"
    unfolding n_def s by (rule period_start_step [OF p])
  have n: "0 \<le> n" using st ts p by (simp add: n_def pos_imp_zdiv_nonneg_iff)
  have ge: "s + n * period \<le> ts" "ts < s + n * period + period"
    using period_start_le [OF p, where first = first and ts = ts] by (simp_all add: start)
  have none: "count_between (s + period + k) hi stamps = 0" if "0 \<le> k" for k hi
    by (rule count_between_none) (use stamps st that in fastforce)
  consider "n = 0" | "n = 1" | "2 \<le> n" using n by linarith
  then show "counter_follows first period (stamps @ [ts]) ts (snd (counter_add ts period c))"
  proof cases
    case 1
    then show ?thesis using ge p
      unfolding counter_follows_def counter_add_def Let_def c trusted_counter.simps m n_def [symmetric] start
      by (simp add: count_between_snoc curr prev)
  next
    case 2
    then show ?thesis using ge p none [of 0]
      unfolding counter_follows_def counter_add_def Let_def c trusted_counter.simps m n_def [symmetric] start
      by (simp add: count_between_snoc curr prev)
  next
    case 3
    then have "2 * period \<le> n * period" using p by simp
    then have "count_between (s + n * period) hi stamps = 0" "count_between (s + n * period - period) hi stamps = 0" for hi
      using none [of "n * period - period" hi] none [of "n * period - 2 * period" hi] p by (simp_all add: algebra_simps)
    with 3 show ?thesis using ge p
      unfolding counter_follows_def counter_add_def Let_def c trusted_counter.simps m n_def [symmetric] start
      by (simp add: count_between_snoc)
  qed
  show "fst (counter_add ts period c) = ct_curr (snd (counter_add ts period c)) +
      ct_prev (snd (counter_add ts period c)) * (period - (ts - ct_start (snd (counter_add ts period c)))) div period"
    unfolding counter_add_def Let_def c trusted_counter.simps m by simp
qed

lemma counter_run_snoc: "xs \<noteq> [] \<Longrightarrow> counter_run period (xs @ [x]) = counter_add x period (snd (counter_run period xs))"
  by (simp add: counter_run_def)

lemma counter_run_follows:
  assumes "0 < period" "sorted stamps" "stamps \<noteq> []"
  shows "counter_follows (hd stamps) period stamps (last stamps) (snd (counter_run period stamps)) \<and>
     fst (counter_run period stamps) = counted_rate period stamps"
  using assms(2,3)
proof (induction stamps rule: rev_induct)
  case (snoc x xs)
  show ?case
  proof (cases "xs = []")
    case True
    then show ?thesis using assms(1)
      by (simp add: counter_run_def counter_add_def new_counter_def counter_follows_def period_start_def counted_rate_def
          count_between_def Let_def)
  next
    case False
    have ord: "sorted xs" "last xs \<le> x" "\<And>y. y \<in> set xs \<Longrightarrow> y \<le> last xs"
      using snoc.prems False by (cases xs rule: rev_cases, auto simp: sorted_append)+
    note f = snoc.IH [OF ord(1) False, THEN conjunct1]
    note k = counter_add_follows [OF assms(1) f ord(2,3)]
    have h: "hd (xs @ [x]) = hd xs" "last (xs @ [x]) = x" using False by simp_all
    show ?thesis
      using k unfolding h counter_run_snoc [OF False] counted_rate_def Let_def by (simp add: counter_follows_def)
  qed
qed simp

section \<open>No episode is lost uncounted\<close>

definition is_open :: "trusted_counter \<Rightarrow> nat" where
  "is_open c = (if ct_episode c = None then 0 else 1)"

definition open_count :: "('k \<times> trusted_counter) list \<Rightarrow> nat" where
  "open_count cs = sum_list (map (is_open \<circ> snd) cs)"

definition rates_ok :: "trusted_rates \<Rightarrow> bool" where
  "rates_ok t = (distinct (map fst (tr_counters t)) \<and> length (tr_counters t) \<le> tr_max_keys t \<and> 0 < tr_max_keys t \<and>
     length (tr_finished t) \<le> TRUSTED_RATE_MAX_PENDING)"

text \<open>Episodes opened and not handed out: still open, waiting to be written, or counted as dropped.\<close>

definition settled :: "trusted_rates \<Rightarrow> nat" where
  "settled t = open_count (tr_counters t) + length (tr_finished t) + tr_dropped t"

definition balanced :: "trusted_rates \<Rightarrow> trusted_rates \<Rightarrow> bool" where
  "balanced t t' = (tr_opened t' + settled t = tr_opened t + settled t')"

lemma balanced_refl [simp]: "balanced t t"
  by (simp add: balanced_def)

lemma balanced_trans: "balanced t t' \<Longrightarrow> balanced t' t'' \<Longrightarrow> balanced t t''"
  by (simp add: balanced_def)

lemma open_count_simps [simp]:
  "open_count [] = 0" "open_count (x # cs) = is_open (snd x) + open_count cs" "open_count (cs @ ds) = open_count cs + open_count ds"
  "is_open (new_counter ts) = 0"
  by (simp_all add: open_count_def is_open_def new_counter_def)

lemma open_count_delete:
  "distinct (map fst cs) \<Longrightarrow> open_count (AList.delete k cs) + (case map_of cs k of None \<Rightarrow> 0 | Some c \<Rightarrow> is_open c) = open_count cs"
  by (induction cs) (auto simp: image_iff split: option.splits)

lemma open_count_put_last:
  "distinct (map fst cs) \<Longrightarrow> open_count (put_last k c cs) + (case map_of cs k of None \<Rightarrow> 0 | Some c \<Rightarrow> is_open c) = open_count cs + is_open c"
  using open_count_delete [of cs k] by (simp add: put_last_def)

lemma open_count_jput:
  "open_count (jput k c cs) + (case map_of cs k of None \<Rightarrow> 0 | Some c \<Rightarrow> is_open c) = open_count cs + is_open c"
  by (induction cs) auto

lemma open_count_filter: "open_count (filter Q cs) + open_count (filter (\<lambda>x. \<not> Q x) cs) = open_count cs"
  by (induction cs) auto

lemma finish_counter_same [simp]:
  "tr_counters (finish_counter c t) = tr_counters t" "tr_opened (finish_counter c t) = tr_opened t"
  "tr_max_keys (finish_counter c t) = tr_max_keys t" "tr_sites (finish_counter c t) = tr_sites t"
  "length (tr_finished (finish_counter c t)) + tr_dropped (finish_counter c t) = length (tr_finished t) + tr_dropped t + is_open c"
  "length (tr_finished t) \<le> TRUSTED_RATE_MAX_PENDING \<Longrightarrow> length (tr_finished (finish_counter c t)) \<le> TRUSTED_RATE_MAX_PENDING"
  by (simp_all add: finish_counter_def finish_episode_def is_open_def split: option.splits)

lemma finish_fold:
  "tr_counters (fold (\<lambda>(_, c). finish_counter c) cs t) = tr_counters t"
  "tr_opened (fold (\<lambda>(_, c). finish_counter c) cs t) = tr_opened t"
  "tr_max_keys (fold (\<lambda>(_, c). finish_counter c) cs t) = tr_max_keys t"
  "length (tr_finished (fold (\<lambda>(_, c). finish_counter c) cs t)) + tr_dropped (fold (\<lambda>(_, c). finish_counter c) cs t) =
     length (tr_finished t) + tr_dropped t + open_count cs"
  "length (tr_finished t) \<le> TRUSTED_RATE_MAX_PENDING \<Longrightarrow>
     length (tr_finished (fold (\<lambda>(_, c). finish_counter c) cs t)) \<le> TRUSTED_RATE_MAX_PENDING"
proof (induction cs arbitrary: t)
  case (Cons x cs)
  obtain k c where x: "x = (k, c)" by (cases x)
  { case 4 show ?case using Cons.IH(4) [of "finish_counter c t"] by (simp add: x) }
qed (auto split: prod.splits)

lemma distinct_put_last: "distinct (map fst m) \<Longrightarrow> distinct (map fst (put_last k v m))"
  by (auto simp: put_last_def AList.delete_eq distinct_map_filter)

text \<open>An operation on the rates: what it keeps of the bounds and of the balance.\<close>

definition fair :: "trusted_rates \<Rightarrow> trusted_rates \<Rightarrow> bool" where
  "fair t t' = (rates_ok t \<longrightarrow> rates_ok t' \<and> balanced t t')"

lemma fair_refl [simp]: "fair t t"
  by (simp add: fair_def)

lemma fair_trans: "fair t t' \<Longrightarrow> fair t' t'' \<Longrightarrow> fair t t''"
  by (auto simp: fair_def intro: balanced_trans)

lemma reload_fair: "fair t (snd (reload_rates cfg force t))"
proof -
  { fix sites by_name any sg
    define stale where "stale = (\<lambda>(k, _ :: trusted_counter). map_of (tr_sites t) (snd (k :: string \<times> string)) \<noteq> map_of sites (snd k))"
    let ?t = "(fold (\<lambda>(_, ct). finish_counter ct) (filter stale (tr_counters t)) t)\<lparr>tr_counters := filter (\<lambda>x. \<not> stale x) (tr_counters t),
        tr_sites := sites, tr_hosts := by_name, tr_any_allow_list := any, tr_signature := sg\<rparr>"
    have "fair t ?t"
      using finish_fold [where cs = "filter stale (tr_counters t)" and t = t] open_count_filter [of stale "tr_counters t"]
      by (auto simp: fair_def balanced_def settled_def rates_ok_def distinct_map_filter intro: order_trans [OF length_filter_le]) }
  then show ?thesis by (simp add: reload_rates_def Let_def)
qed

lemma maybe_reload_fair: "fair t (maybe_reload cfg moment t)"
proof -
  have "fair t (t\<lparr>tr_checked := Some moment\<rparr>)" by (simp add: fair_def balanced_def settled_def rates_ok_def)
  then show ?thesis unfolding maybe_reload_def by (auto intro: fair_trans reload_fair)
qed

lemma take_counter_fair:
  assumes "rates_ok t" "take_counter key ts t = (c, t')"
  shows "rates_ok t'" "balanced t t'" "map_of (tr_counters t') key = Some c" "tr_opened t' = tr_opened t"
proof -
  have "rates_ok t' \<and> balanced t t' \<and> map_of (tr_counters t') key = Some c \<and> tr_opened t' = tr_opened t"
  proof (cases "map_of (tr_counters t) key")
    case (Some c')
    then have t': "c = c'" "t' = t\<lparr>tr_counters := put_last key c (tr_counters t)\<rparr>"
      using assms(2) by (auto simp: take_counter_def)
    then show ?thesis
      using assms(1) Some open_count_put_last [of "tr_counters t" key c] length_put_last_old [of "tr_counters t" key c]
      by (simp add: rates_ok_def balanced_def settled_def distinct_put_last map_of_put_last)
  next
    case None
    define all where "all = tr_counters t @ [(key, new_counter ts)]"
    have d: "distinct (map fst all)" using None assms(1) by (auto simp: all_def rates_ok_def map_of_eq_None_iff)
    have c: "c = new_counter ts" using assms(2) None by (auto simp: take_counter_def Let_def split: if_splits)
    show ?thesis
    proof (cases "length all > tr_max_keys t")
      case True
      obtain x cs where x: "tr_counters t = x # cs" using True assms(1) by (cases "tr_counters t") (auto simp: all_def rates_ok_def)
      have t': "t' = finish_counter (snd x) (t\<lparr>tr_counters := cs @ [(key, new_counter ts)], tr_evicted := tr_evicted t + 1\<rparr>)"
        using assms(2) None True by (auto simp: take_counter_def Let_def all_def x)
      have "length (tr_finished t') + tr_dropped t' = length (tr_finished t) + tr_dropped t + is_open (snd x)"
        unfolding t' by simp
      then show ?thesis
        using assms(1) d None unfolding c t' balanced_def settled_def
        by (auto simp: rates_ok_def all_def x map_add_def map_of_eq_None_iff split: option.splits)
    next
      case False
      then have "t' = t\<lparr>tr_counters := all\<rparr>" using assms(2) None by (auto simp: take_counter_def Let_def all_def)
      then show ?thesis
        using assms(1) d False None by (simp add: rates_ok_def balanced_def settled_def all_def c map_add_def)
    qed
  qed
  then show "rates_ok t'" "balanced t t'" "map_of (tr_counters t') key = Some c" "tr_opened t' = tr_opened t" by simp_all
qed

lemma counter_add_episode [simp]: "ct_episode (snd (counter_add ts period c)) = ct_episode c"
  by (simp add: counter_add_def Let_def)

lemma count_request_fair: "fair t (count_request r site trust ts t)"
proof -
  obtain c t1 where t1: "take_counter (client_ip r, ce_id site) ts t = (c, t1)"
    by (cases "take_counter (client_ip r, ce_id site) ts t")
  obtain rate c1 where c1: "counter_add ts (ce_window site) c = (rate, c1)" by (cases "counter_add ts (ce_window site) c")
  have e1: "ct_episode c1 = ct_episode c" using counter_add_episode [of ts "ce_window site" c] c1 by simp
  define ep where "ep = (if rate > ce_limit site
     then Some (episode_over ts rate (case ct_episode c1 of None \<Rightarrow> open_episode (client_ip r) site trust ts rate | Some e \<Rightarrow> e))
     else ct_episode c1)"
  define c2 where "c2 = c1\<lparr>ct_episode := map_option (episode_request r ts) ep\<rparr>"
  let ?k = "(client_ip r, ce_id site)"
  have res: "count_request r site trust ts t = t1\<lparr>tr_counters := put_last ?k c2 (tr_counters t1),
      tr_opened := tr_opened t1 + (if rate > ce_limit site \<and> ct_episode c1 = None then 1 else 0)\<rparr>"
    unfolding count_request_def Let_def t1 prod.case c1 ep_def [symmetric] c2_def by simp
  have o: "is_open c2 = is_open c + (if rate > ce_limit site \<and> ct_episode c1 = None then 1 else 0)"
    by (simp add: is_open_def c2_def ep_def e1)
  show ?thesis
  proof (unfold fair_def, rule impI)
    assume ok: "rates_ok t"
    note k = take_counter_fair [OF ok t1]
    have "open_count (put_last ?k c2 (tr_counters t1)) + is_open c = open_count (tr_counters t1) + is_open c2"
      using open_count_put_last [of "tr_counters t1" ?k c2] k(1,3) by (simp add: rates_ok_def)
    moreover have "rates_ok (count_request r site trust ts t)"
      using k(1,3) length_put_last_old [of "tr_counters t1" ?k c2] by (simp add: res rates_ok_def distinct_put_last)
    ultimately show "rates_ok (count_request r site trust ts t) \<and> balanced t (count_request r site trust ts t)"
      using k(2,4) unfolding res balanced_def settled_def o by simp
  qed
qed

lemma observe_rate_fair: "fair t (observe_rate cfg moment r trust now stamp t)"
proof -
  define t1 where "t1 = (if tr_checked t = None then maybe_reload cfg moment t else t)"
  have "fair t t1" by (simp add: t1_def maybe_reload_fair)
  moreover have "fair t1 (count_request r site tr ts (t1\<lparr>tr_clock := n\<rparr>))" for site tr ts n
    by (rule fair_trans [OF _ count_request_fair]) (simp add: fair_def balanced_def settled_def rates_ok_def)
  ultimately show ?thesis
    unfolding observe_rate_def Let_def t1_def [symmetric] by (auto intro: fair_trans split: option.splits)
qed

lemma take_finished_ok: "rates_ok t \<Longrightarrow> rates_ok (snd (take_finished t))"
  by (simp add: take_finished_def rates_ok_def)

lemma finish_all_fair: "fair t (finish_all t)"
proof -
  have z: "open_count (map (\<lambda>(k, c). (k, c\<lparr>ct_episode := None\<rparr>)) cs) = 0" for cs :: "('k \<times> trusted_counter) list"
    by (induction cs) (auto simp: is_open_def)
  have f: "map (fst \<circ> (\<lambda>(k, c). (k, c\<lparr>ct_episode := None\<rparr>))) cs = map fst cs" for cs :: "('k \<times> trusted_counter) list"
    by auto
  show ?thesis
    using finish_fold [where cs = "tr_counters t" and t = t]
    by (simp add: fair_def finish_all_def Let_def balanced_def settled_def rates_ok_def z f)
qed

lemma tick_counter_fair:
  assumes ok: "rates_ok t" and c: "map_of (tr_counters t) key = Some c"
  shows "rates_ok (tick_counter reference (key, c) t)" "balanced t (tick_counter reference (key, c) t)"
    and "k' \<noteq> key \<Longrightarrow> map_of (tr_counters (tick_counter reference (key, c) t)) k' = map_of (tr_counters t) k'"
proof -
  define window where "window = (case map_of (tr_sites t) (snd key) of None \<Rightarrow> 0 | Some site \<Rightarrow> ce_window site)"
  define over where "over = (case ct_episode c of None \<Rightarrow> False | Some e \<Rightarrow> reference - ep_last_over e > window)"
  define t1 where "t1 = (if over then finish_counter c t else t)"
  define c1 where "c1 = (if over then c\<lparr>ct_episode := None\<rparr> else c)"
  define gone where "gone = (ct_episode c1 = None \<and> reference - ct_start c1 > 2 * window)"
  let ?cs = "if gone then AList.delete key (tr_counters t) else jput key c1 (tr_counters t)"
  have res: "tick_counter reference (key, c) t = t1\<lparr>tr_counters := ?cs\<rparr>"
    unfolding tick_counter_def Let_def prod.case window_def [symmetric] over_def [symmetric] t1_def [symmetric] c1_def [symmetric]
      gone_def [symmetric] by (simp add: t1_def)
  have fin: "length (tr_finished t1) + tr_dropped t1 + is_open c1 = length (tr_finished t) + tr_dropped t + is_open c"
    using finish_counter_same(5) [of c t] by (auto simp: t1_def c1_def is_open_def over_def split: option.splits)
  have same: "tr_opened t1 = tr_opened t" "tr_max_keys t1 = tr_max_keys t" by (simp_all add: t1_def)
  have "is_open c1 = 0" if gone using that by (simp add: gone_def is_open_def)
  moreover have "open_count (AList.delete key (tr_counters t)) + is_open c = open_count (tr_counters t)"
    using open_count_delete [of "tr_counters t" key] c ok by (simp add: rates_ok_def)
  moreover have "open_count (jput key c1 (tr_counters t)) + is_open c = open_count (tr_counters t) + is_open c1"
    using open_count_jput [of key c1 "tr_counters t"] c by simp
  ultimately have "open_count ?cs + is_open c = open_count (tr_counters t) + is_open c1" by auto
  then show "balanced t (tick_counter reference (key, c) t)"
    using fin same unfolding res balanced_def settled_def by simp
  have "length (tr_finished t1) \<le> TRUSTED_RATE_MAX_PENDING" using ok by (simp add: t1_def rates_ok_def)
  moreover have "length ?cs \<le> length (tr_counters t)" using c by (simp add: length_jput length_delete_le)
  moreover have "distinct (map fst ?cs)"
    using ok by (simp add: rates_ok_def distinct_update distinct_delete)
  ultimately show "rates_ok (tick_counter reference (key, c) t)"
    using ok same unfolding res by (simp add: rates_ok_def)
  show "k' \<noteq> key \<Longrightarrow> map_of (tr_counters (tick_counter reference (key, c) t)) k' = map_of (tr_counters t) k'"
    unfolding res by (simp add: delete_conv')
qed

lemma tick_fold_fair:
  assumes "rates_ok t" "distinct (map fst cs)" "\<And>k c. (k, c) \<in> set cs \<Longrightarrow> map_of (tr_counters t) k = Some c"
  shows "rates_ok (fold (tick_counter reference) cs t) \<and> balanced t (fold (tick_counter reference) cs t)"
  using assms
proof (induction cs arbitrary: t)
  case (Cons x cs)
  obtain k c where x: "x = (k, c)" by (cases x)
  have c: "map_of (tr_counters t) k = Some c" using Cons.prems(3) by (simp add: x)
  note step = tick_counter_fair [OF Cons.prems(1) c, where reference = reference]
  have "map_of (tr_counters (tick_counter reference (k, c) t)) k' = Some c'" if m: "(k', c') \<in> set cs" for k' c'
  proof -
    have "k' \<noteq> k" using m Cons.prems(2) by (auto simp: x image_iff)
    then show ?thesis using step(3) Cons.prems(3) m by simp
  qed
  then have "rates_ok (fold (tick_counter reference) cs (tick_counter reference (k, c) t)) \<and>
      balanced (tick_counter reference (k, c) t) (fold (tick_counter reference) cs (tick_counter reference (k, c) t))"
    using Cons.IH step(1) Cons.prems(2) by simp
  then show ?case using step(2) balanced_trans by (auto simp: x)
qed simp

lemma tick_fair: "fair t (tick cfg moment now idle t)"
proof -
  have "fair t1 (fold (tick_counter reference) (tr_counters t1) t1)" for t1 reference
    unfolding fair_def by (rule impI, rule tick_fold_fair) (simp_all add: rates_ok_def)
  then show ?thesis
    unfolding tick_def Let_def by (rule fair_trans [OF maybe_reload_fair])
qed

section \<open>Any sequence of calls\<close>

datatype rate_call =
    Observe rate_config rat parsed_request string int "rat option"
  | Reload rate_config bool
  | Flush rate_config rat int bool bool
  | FinishAll

text \<open>A call and the episodes it writes to the database.\<close>

fun rate_step :: "rate_call \<Rightarrow> trusted_rates \<Rightarrow> episode list \<times> trusted_rates" where
  "rate_step (Observe cfg moment r trust now stamp) t = ([], observe_rate cfg moment r trust now stamp t)"
| "rate_step (Reload cfg force) t = ([], snd (reload_rates cfg force t))"
| "rate_step (Flush cfg moment now idle db_ok) t = flush_rate_warnings cfg moment now idle db_ok t"
| "rate_step FinishAll t = ([], finish_all t)"

fun rate_run :: "rate_call list \<Rightarrow> trusted_rates \<Rightarrow> episode list \<times> trusted_rates" where
  "rate_run [] t = ([], t)"
| "rate_run (c # cs) t = (case rate_step c t of (written, t1) \<Rightarrow> case rate_run cs t1 of (later, t2) \<Rightarrow> (written @ later, t2))"

lemma rate_step_accounts:
  assumes "rates_ok t" "rate_step call t = (written, t')"
  shows "rates_ok t' \<and> tr_opened t' + settled t = tr_opened t + settled t' + length written"
proof (cases call)
  case (Flush cfg moment now idle db_ok)
  define t1 where "t1 = tick cfg moment now idle t"
  have t1: "rates_ok t1" "balanced t t1" using tick_fair [of t] assms(1) by (auto simp: t1_def fair_def)
  then show ?thesis
    using assms(2) unfolding Flush rate_step.simps flush_rate_warnings_def t1_def [symmetric] take_finished_def
    by (auto simp: rates_ok_def balanced_def settled_def split: if_splits)
next
  case (Observe cfg moment r trust now stamp)
  then show ?thesis using assms observe_rate_fair [of t] by (auto simp: fair_def balanced_def)
next
  case (Reload cfg force)
  then show ?thesis using assms reload_fair [of t] by (auto simp: fair_def balanced_def)
next
  case FinishAll
  then show ?thesis using assms finish_all_fair [of t] by (auto simp: fair_def balanced_def)
qed

lemma rate_run_accounts:
  assumes "rates_ok t" "rate_run calls t = (written, t')"
  shows "rates_ok t' \<and> tr_opened t' + settled t = tr_opened t + settled t' + length written"
  using assms
proof (induction calls arbitrary: t written)
  case (Cons c cs)
  obtain w1 t1 w2 where s: "rate_step c t = (w1, t1)" "rate_run cs t1 = (w2, t')" "written = w1 @ w2"
    using Cons.prems(2) by (auto split: prod.splits)
  show ?case using rate_step_accounts [OF Cons.prems(1) s(1)] Cons.IH [OF _ s(2)] s(3) by simp
qed simp

lemma rates_ok_new [simp]: "rates_ok (new_trusted_rates keys)" "settled (new_trusted_rates keys) = 0" "tr_opened (new_trusted_rates keys) = 0"
  by (simp_all add: rates_ok_def settled_def new_trusted_rates_def)

end
