(* ===== verification/Guard_Detection.thy ===== *)
theory Guard_Detection
  imports Guard_Watch Guard_Rates Guard_Score_Facts
begin

text \<open>
  Whole requests and runs of requests: \<open>observe_all\<close> is the loop of \<open>GuardEngine.ingest_log\<close> over the parsed
  lines of any number of reads.  The invariant \<open>detector_ok\<close> bounds everything the detector remembers.
\<close>

section \<open>The addresses remembered\<close>

definition memory_ok :: "nat \<Rightarrow> ip_memory \<Rightarrow> bool" where
  "memory_ok limit m = (length (mem_entries m) \<le> max_ips m \<and> (\<forall>(k, a) \<in> set (mem_entries m). activity_ok limit a))"

definition remembered :: "(ip_activity \<Rightarrow> bool) \<Rightarrow> string \<Rightarrow> ip_memory \<Rightarrow> bool" where
  "remembered Q ip m = (\<forall>(k, a) \<in> set (mem_entries m). k = ip \<longrightarrow> Q a)"

lemma touch_entry:
  assumes "touch ip ts m = (a, m')"
  shows "a = (new_activity ts)\<lparr>act_last_seen := ts\<rparr> \<or> (\<exists>b. (ip, b) \<in> set (mem_entries m) \<and> a = b\<lparr>act_last_seen := ts\<rparr>)"
    and "x \<in> set (mem_entries m') \<Longrightarrow> x = (ip, a) \<or> x \<in> set (mem_entries m)"
    and "max_ips m' = max_ips m" "length (mem_entries m') \<le> max_ips m"
  using assms
  by (auto simp: touch_def Let_def bounds put_last_def AList.delete_eq dest!: subsetD [OF set_drop_oldest] dest: map_of_SomeD split: option.splits)

lemma touch_ok:
  assumes "touch ip ts m = (a, m')" "memory_ok limit m"
  shows "activity_ok limit a" "memory_ok limit m'"
proof -
  show "activity_ok limit a" using touch_entry(1) [OF assms(1)] assms(2) by (auto simp: memory_ok_def)
  then show "memory_ok limit m'"
    using touch_entry(2-4) [OF assms(1)] assms(2) by (fastforce simp: memory_ok_def)
qed

lemma in_put_activity: "x \<in> set (mem_entries (put_activity ip a m)) \<Longrightarrow> x = (ip, a) \<or> x \<in> set (mem_entries m) \<and> fst x \<noteq> ip"
  by (auto simp: put_activity_def split: if_splits)

lemma put_activity_ok: "memory_ok limit m \<Longrightarrow> activity_ok limit a \<Longrightarrow> memory_ok limit (put_activity ip a m)"
  using in_put_activity [of _ ip a m] by (fastforce simp: memory_ok_def put_activity_def)

section \<open>One request\<close>

definition detector_ok :: "'s detector \<Rightarrow> bool" where
  "detector_ok d = (stores_ok d \<and> rates_ok (trusted d) \<and> memory_ok (max_paths d) (memory d))"

definition kept_settings :: "'s detector \<Rightarrow> 's detector \<Rightarrow> bool" where
  "kept_settings d d' =
     (excl (engine d') = excl (engine d) \<and> sigs d' = sigs d \<and> max_paths d' = max_paths d \<and> trap_hosts d' = trap_hosts d \<and>
      max_ips (memory d') = max_ips (memory d) \<and> dctx_config (dctx d') = dctx_config (dctx d))"

definition turned_clean :: "parsed_request \<Rightarrow> 's detector \<Rightarrow> bool" where
  "turned_clean r d = (turned_away r \<and> normalize_host (req_host r) \<notin> set (trap_hosts d))"

lemma observe_request_cases:
  fixes d :: "'s detector"
  obtains (excluded) t ctx where "v_excluded (verdict_for (excl (engine d)) (client_ip r))"
      "observe_request w r now stamp d = d\<lparr>trusted := t, dctx := ctx, excluded_observations := excluded_observations d + 1\<rparr>"
      "fair (trusted d) t" "context_ok (dctx d) \<longrightarrow> context_ok ctx" "dctx_config ctx = dctx_config (dctx d)"
  | (watched) t ctx ms a m a' d' where "\<not> v_excluded (verdict_for (excl (engine d)) (client_ip r))"
      "touch (client_ip r) now (memory d) = (a, m)"
      "watch_request w ms r now stamp (a, d\<lparr>trusted := t, dctx := ctx, memory := m\<rparr>) = (a', d')"
      "observe_request w r now stamp d = d'\<lparr>memory := put_activity (client_ip r) a' (memory d')\<rparr>"
      "fair (trusted d) t" "context_ok (dctx d) \<longrightarrow> context_ok ctx" "dctx_config ctx = dctx_config (dctx d)"
proof -
  define v where "v = verdict_for (excl (engine d)) (client_ip r)"
  define t where "t = observe_rate (rates_in_config w) (monotonic w) r (trust_of v) now stamp (trusted d)"
  define mc where "mc = inspect (crc_of w) (sigs d) r now (v_excluded v) (catch_all_known (req_host r) (bytes_out r) (catch_all d)) (dctx d)"
  have t: "fair (trusted d) t" unfolding t_def by (rule observe_rate_fair)
  have c: "context_ok (dctx d) \<longrightarrow> context_ok (snd mc)" "dctx_config (snd mc) = dctx_config (dctx d)" by (simp_all add: mc_def)
  have e: "observe_request w r now stamp d = (if v_excluded v
      then d\<lparr>trusted := t, dctx := snd mc, excluded_observations := excluded_observations d + 1\<rparr>
      else case touch (client_ip r) now (memory d) of
        (a, m) \<Rightarrow> (case watch_request w (fst mc) r now stamp (a, d\<lparr>trusted := t, dctx := snd mc, memory := m\<rparr>) of
          (a', d3) \<Rightarrow> d3\<lparr>memory := put_activity (client_ip r) a' (memory d3)\<rparr>))"
    unfolding observe_request_def Let_def v_def [symmetric] t_def [symmetric] case_prod_beta
    by (simp add: mc_def)
  show ?thesis
  proof (cases "v_excluded v")
    case True
    show ?thesis by (rule excluded [where t = t and ctx = "snd mc"]) (use True e t c in \<open>simp_all add: v_def\<close>)
  next
    case False
    obtain a m where tm: "touch (client_ip r) now (memory d) = (a, m)" by (cases "touch (client_ip r) now (memory d)")
    obtain a' d' where w: "watch_request w (fst mc) r now stamp (a, d\<lparr>trusted := t, dctx := snd mc, memory := m\<rparr>) = (a', d')"
      by (cases "watch_request w (fst mc) r now stamp (a, d\<lparr>trusted := t, dctx := snd mc, memory := m\<rparr>)")
    show ?thesis by (rule watched [OF _ tm w]) (use False e t c tm w in \<open>simp_all add: v_def\<close>)
  qed
qed

text \<open>A request of a watched address, by the contracts of \<open>watch_request\<close>.\<close>

lemma watched_effect:
  assumes ok: "detector_ok d" and tm: "touch (client_ip r) now (memory d) = (a, m)"
    and w: "watch_request w ms r now stamp (a, d\<lparr>trusted := t, dctx := ctx, memory := m\<rparr>) = (a', d')"
    and t: "fair (trusted d) t" and c: "context_ok (dctx d) \<longrightarrow> context_ok ctx"
  shows "allows (about (client_ip r) now) (d\<lparr>trusted := t, dctx := ctx, memory := m\<rparr>) d'" "activity_ok (max_paths d) a'"
    "memory_ok (max_paths d) m" "rates_ok t" "stores_ok (d\<lparr>trusted := t, dctx := ctx, memory := m\<rparr>)"
    and "turned_clean r d \<Longrightarrow> remembered walled (client_ip r) (memory d) \<Longrightarrow>
      new_findings ev_handled (engine d) (engine d') \<and> walled a'"
proof -
  let ?d = "d\<lparr>trusted := t, dctx := ctx, memory := m\<rparr>"
  let ?h = "denied_by_gateway r \<and> no_server r \<and> \<not> reached_backend a"
  have a: "activity_ok (max_paths d) a" and m: "memory_ok (max_paths d) m"
    using touch_ok [OF tm] ok by (simp_all add: detector_ok_def)
  show "memory_ok (max_paths d) m" by (rule m)
  show "rates_ok t" "stores_ok ?d" using ok t c by (simp_all add: detector_ok_def fair_def stores_ok_def)
  have "any.keeps r now (max_paths d) (a, ?d) (a', d')"
    unfolding w [symmetric] by (rule any.watch_request_keeps [where handled = ?h]) (simp_all add: about_def finding_def)
  then show "allows (about (client_ip r) now) ?d d'" "activity_ok (max_paths d) a'" using a by (simp_all add: any.keeps_def)
  assume tc: "turned_clean r d" and wl: "remembered walled (client_ip r) (memory d)"
  have wa: "walled a" using touch_entry(1) [OF tm] wl by (auto simp: remembered_def)
  have "refused.keeps r now (max_paths d) (a, ?d) (a', d')"
    unfolding w [symmetric]
    by (rule refused.watch_request_keeps) (use tc wa in \<open>simp_all add: turned_clean_def turned_away_def walled_def\<close>)
  then have "allows (\<lambda>e. about (client_ip r) now e \<and> (turned_away r \<longrightarrow> ev_handled e)) ?d d' \<and> walled a'"
    using a wa tc by (simp add: refused.keeps_def turned_clean_def)
  then show "new_findings ev_handled (engine d) (engine d') \<and> walled a'"
    using tc by (auto simp: allows_def new_findings_def turned_clean_def)
qed

lemma observe_request_effect:
  assumes ok: "detector_ok d"
  shows "detector_ok (observe_request w r now stamp d) \<and> kept_settings d (observe_request w r now stamp d) \<and>
    new_findings (about (client_ip r) now) (engine d) (engine (observe_request w r now stamp d)) \<and>
    (\<forall>x \<in> set (mem_entries (memory (observe_request w r now stamp d))). fst x = client_ip r \<or> x \<in> set (mem_entries (memory d))) \<and>
    (turned_clean r d \<and> remembered walled (client_ip r) (memory d) \<longrightarrow>
      new_findings ev_handled (engine d) (engine (observe_request w r now stamp d)) \<and>
      remembered walled (client_ip r) (memory (observe_request w r now stamp d)))"
proof (cases rule: observe_request_cases [of d r w now stamp])
  case (excluded t ctx)
  then show ?thesis using ok
    by (simp add: detector_ok_def stores_ok_def fair_def kept_settings_def)
next
  case (watched t ctx ms a m a' d')
  note k = watched_effect [OF ok watched(2,3,5,6)]
  have s: "same_settings (d\<lparr>trusted := t, dctx := ctx, memory := m\<rparr>) d'" "stores_ok d'"
    "new_findings (about (client_ip r) now) (engine d) (engine d')"
    using k(1,5) by (simp_all add: allows_def)
  then have f: "memory d' = m" "max_paths d' = max_paths d" "trusted d' = t" by (simp_all add: same_settings_def)
  have "detector_ok (observe_request w r now stamp d)"
    unfolding watched(4) using s(2) k(2,3,4) put_activity_ok [of "max_paths d" m a' "client_ip r"]
    by (simp add: detector_ok_def f stores_ok_def)
  moreover have "kept_settings d (observe_request w r now stamp d)"
    unfolding watched(4) using s(1) watched(7) touch_entry(3) [OF watched(2)]
    by (simp add: kept_settings_def same_settings_def put_activity_def)
  moreover have "fst x = client_ip r \<or> x \<in> set (mem_entries (memory d))"
    if "x \<in> set (mem_entries (memory (observe_request w r now stamp d)))" for x
    using that in_put_activity [of x "client_ip r" a' m] touch_entry(2) [OF watched(2), of x] unfolding watched(4) by (auto simp: f)
  moreover have "remembered walled (client_ip r) (memory (observe_request w r now stamp d))" if "walled a'"
    unfolding watched(4) remembered_def using that in_put_activity [of _ "client_ip r" a' m] by (fastforce simp: f)
  moreover have "new_findings (about (client_ip r) now) (engine d) (engine (observe_request w r now stamp d))"
    "engine (observe_request w r now stamp d) = engine d'"
    unfolding watched(4) using s(3) by simp_all
  ultimately show ?thesis using k(6) by auto
qed

lemmas observe_request_ok =
  observe_request_effect [THEN conjunct1] observe_request_effect [THEN conjunct2, THEN conjunct1]
  observe_request_effect [THEN conjunct2, THEN conjunct2, THEN conjunct1]
  observe_request_effect [THEN conjunct2, THEN conjunct2, THEN conjunct2, THEN conjunct1, THEN bspec]
  observe_request_effect [THEN conjunct2, THEN conjunct2, THEN conjunct2, THEN conjunct2, THEN mp]

lemma observe_request_excluded:
  assumes "v_excluded (verdict_for (excl (engine d)) (client_ip r))"
  shows "engine (observe_request w r now stamp d) = engine d" "memory (observe_request w r now stamp d) = memory d"
  by (cases rule: observe_request_cases [of d r w now stamp]; use assms in simp)+

section \<open>Runs\<close>

type_synonym sighting = "surroundings \<times> parsed_request \<times> int \<times> rat option"

definition observe_all :: "sighting list \<Rightarrow> 's detector \<Rightarrow> 's detector" where
  "observe_all xs = fold (\<lambda>(w, r, now, stamp). observe_request w r now stamp) xs"

lemma observe_all_simps [simp]:
  "observe_all [] d = d" "observe_all ((w, r, now, stamp) # xs) d = observe_all xs (observe_request w r now stamp d)"
  by (simp_all add: observe_all_def)

lemma kept_settings_trans: "kept_settings d d' \<Longrightarrow> kept_settings d' d'' \<Longrightarrow> kept_settings d d''"
  by (simp add: kept_settings_def)

lemma observe_all_ok: "detector_ok d \<Longrightarrow> detector_ok (observe_all xs d) \<and> kept_settings d (observe_all xs d)"
proof (induction xs arbitrary: d)
  case (Cons x xs)
  obtain w r now stamp where x: "x = (w, r, now, stamp)" by (cases x)
  note k = observe_request_ok(1,2) [OF Cons.prems, where w = w and r = r and now = now and stamp = stamp]
  show ?case using Cons.IH [OF k(1)] kept_settings_trans [OF k(2)] by (simp add: x)
qed (simp add: kept_settings_def)

text \<open>Findings about an address come from its own requests, and only while it is not excluded.\<close>

definition findings_of :: "string \<Rightarrow> 's detector \<Rightarrow> sec_event list" where
  "findings_of ip d = filter (\<lambda>e. ev_ip e = ip) (events (db (engine d)))"

lemma new_findings_filter:
  "new_findings P g g' \<Longrightarrow> (\<And>e. P e \<Longrightarrow> ev_ip e \<noteq> ip) \<Longrightarrow>
     filter (\<lambda>e. ev_ip e = ip) (events (db g')) = filter (\<lambda>e. ev_ip e = ip) (events (db g))"
  by (auto simp: new_findings_def filter_empty_conv)

lemma findings_of_others:
  assumes "detector_ok d" "client_ip r \<noteq> ip \<or> v_excluded (verdict_for (excl (engine d)) (client_ip r))"
  shows "findings_of ip (observe_request w r now stamp d) = findings_of ip d"
proof (cases "client_ip r = ip")
  case True
  then show ?thesis using observe_request_excluded [of d r] assms(2) by (simp add: findings_of_def)
next
  case False
  show ?thesis unfolding findings_of_def
    by (rule new_findings_filter [OF observe_request_ok(3) [OF assms(1)]]) (use False in \<open>simp add: about_def\<close>)
qed

lemma excluded_unseen:
  assumes "detector_ok d" "v_excluded (verdict_for (excl (engine d)) ip)"
  shows "findings_of ip (observe_all xs d) = findings_of ip d \<and>
    (\<forall>(k, a) \<in> set (mem_entries (memory (observe_all xs d))). k = ip \<longrightarrow> (k, a) \<in> set (mem_entries (memory d)))"
  using assms
proof (induction xs arbitrary: d)
  case (Cons x xs)
  obtain w r now stamp where x: "x = (w, r, now, stamp)" by (cases x)
  let ?d = "observe_request w r now stamp d"
  have e: "excl (engine ?d) = excl (engine d)" using observe_request_ok(2) [OF Cons.prems(1)] by (simp add: kept_settings_def)
  have f: "findings_of ip ?d = findings_of ip d"
    by (rule findings_of_others [OF Cons.prems(1)]) (use Cons.prems(2) in auto)
  have m: "y \<in> set (mem_entries (memory d))" if "y \<in> set (mem_entries (memory ?d))" "fst y = ip" for y
    using that observe_request_ok(4) [OF Cons.prems(1), of y w r now stamp] observe_request_excluded(2) [of d r w now stamp] Cons.prems(2)
    by (cases "client_ip r = ip") auto
  show ?case using Cons.IH [OF observe_request_ok(1) [OF Cons.prems(1)], of w r now stamp] Cons.prems(2) e f m
    by (fastforce simp: x)
qed auto

lemma walled_off_run:
  assumes "detector_ok d" "remembered walled ip (memory d)" "\<forall>e \<in> set (findings_of ip d). ev_handled e"
    and "\<And>w r now stamp. (w, r, now, stamp) \<in> set xs \<Longrightarrow> client_ip r = ip \<Longrightarrow> turned_clean r d"
  shows "\<forall>e \<in> set (findings_of ip (observe_all xs d)). ev_handled e"
  using assms
proof (induction xs arbitrary: d)
  case (Cons x xs)
  obtain w r now stamp where x: "x = (w, r, now, stamp)" by (cases x)
  let ?d = "observe_request w r now stamp d"
  note k = observe_request_ok [OF Cons.prems(1), where w = w and r = r and now = now and stamp = stamp]
  have tr: "turned_clean r' ?d = turned_clean r' d" for r' using k(2) by (simp add: kept_settings_def turned_clean_def)
  have "(\<forall>e \<in> set (findings_of ip ?d). ev_handled e) \<and> remembered walled ip (memory ?d)"
  proof (cases "client_ip r = ip")
    case True
    then have "new_findings ev_handled (engine d) (engine ?d) \<and> remembered walled ip (memory ?d)"
      using k(5) Cons.prems(2,4) by (auto simp: x)
    then show ?thesis using Cons.prems(3) by (auto simp: new_findings_def findings_of_def)
  next
    case False
    then show ?thesis
      using findings_of_others [OF Cons.prems(1)] Cons.prems(2,3) k(4) by (fastforce simp: remembered_def)
  qed
  then show ?case using Cons.IH [OF k(1)] Cons.prems(4) tr by (auto simp: x)
qed simp


section \<open>Scores\<close>

lemma score_event_refused: "ev_handled e \<Longrightarrow> ev_type e \<notin> set REFUSAL_DOES_NOT_EXCUSE \<Longrightarrow> total (score_event now policy e t) = total t"
  by (simp add: score_event_def Let_def)

lemma score_of_refused:
  assumes "\<And>e. e \<in> set evs \<Longrightarrow> ev_handled e \<and> ev_type e \<notin> set REFUSAL_DOES_NOT_EXCUSE"
  shows "s_score (score_events evs now policy) = 0"
proof -
  have "total (fold (score_event now policy) evs t) = total t" for t
    using assms by (induction evs arbitrary: t) (simp_all add: score_event_refused)
  then show ?thesis by (simp add: score_events_def tally_events_def Let_def py_round_def)
qed

lemma events_for_findings: "set (events_for ip since (db (engine d))) \<subseteq> set (findings_of ip d)"
  by (auto simp: events_for_def findings_of_def dest: in_set_takeD)

lemma reputation_of_refused:
  assumes "\<And>e. e \<in> set (findings_of ip d) \<Longrightarrow> ev_handled e \<and> ev_type e \<notin> set REFUSAL_DOES_NOT_EXCUSE"
  shows "r_score (reputation_of ip now policy scheduled (engine d)) = 0"
proof -
  have "s_score (score_events (events_for ip since (db (engine d))) now policy) = 0" for since
    by (rule score_of_refused) (use assms events_for_findings in blast)
  then show ?thesis by (simp add: reputation_of_def Let_def)
qed

section \<open>Pages a site serves\<close>

text \<open>A request the site answers with content, without any sign of a scanner beyond a path that reads like one of a
  technology the site may use.\<close>

definition plain_visit :: "parsed_request \<Rightarrow> 's detector \<Rightarrow> bool" where
  "plain_visit r d =
     (\<not> bad_request r \<and> \<not> no_server r \<and> is_served (status r) \<and> query_flag r = [] \<and> path_flag r = [] \<and>
      observation_flags r = [] \<and> fst (classify_user_agent (sigs d) (user_agent r)) = [] \<and>
      \<not> category_is_decisive (sigs d) (classify_path (sigs d) (req_path r)) \<and>
      list_all (\<lambda>x. \<not> scope_matches (dr_scope x) r) (dc_rules (dctx_config (dctx d))) \<and>
      normalize_host (req_host r) \<notin> set (trap_hosts d))"

definition slow_finding :: "string \<Rightarrow> sec_event \<Rightarrow> bool" where
  "slow_finding ip e = (ev_ip e = ip \<and> ev_category e = ''slow-enumeration'')"

lemma unknown_host_engine:
  "normalize_host (req_host r) \<notin> set (trap_hosts d) \<Longrightarrow> engine (snd (check_unknown_host w ip now r (a, d))) = engine d"
  "catch_all (snd (check_unknown_host w ip now r (a, d))) = catch_all d" "sigs (snd (check_unknown_host w ip now r (a, d))) = sigs d"
  by (simp_all add: check_unknown_host_def site_names_def Let_def report_def)

lemma slow_step_engine:
  "new_findings (slow_finding (client_ip r)) (engine d) (engine (snd (slow_step w r now stamp h (a, d))))"
  "catch_all (snd (slow_step w r now stamp h (a, d))) = catch_all d" "sigs (snd (slow_step w r now stamp h (a, d))) = sigs d"
  using emit_effect(2) [of "finding (client_ip r) ''SCANNER_PATH'' now ''slow-enumeration'' (req_host r) (req_path r) False"
      "client_ip r @ ''|behavior:slow-enumeration|'' @ req_host r" "engine d"]
  unfolding slow_step_def Let_def case_prod_beta report_def new_findings_def
  by (auto simp: slow_finding_def finding_def)

lemma context_steps_idle:
  "list_all (\<lambda>m. \<not> py_startswith (rm_id m) ''custom:'' \<and> \<not> py_startswith (rm_id m) ''observe:'') ms \<Longrightarrow>
     fold (context_step r now h) ms st = st"
  by (induction ms) (simp_all add: context_step_def split: prod.splits)

lemma plain_matches:
  assumes "plain_visit r d" "dctx_config c = dctx_config (dctx d)"
  shows "list_all (\<lambda>m. \<not> py_startswith (rm_id m) ''custom:'' \<and> \<not> py_startswith (rm_id m) ''observe:'')
    (fst (inspect crc (sigs d) r now t k c))"
proof -
  have "filter (\<lambda>x. scope_matches (dr_scope x) r) (rules_for host (dctx_config (dctx d))) = []" for host
    using assms(1) by (auto simp: plain_visit_def rules_for_def filter_empty_conv list_all_iff)
  then show ?thesis
    using assms by (auto simp: inspect_def Let_def found_rules_def decide_rule_def plain_visit_def py_startswith_def split: prod.splits)
qed

lemma signature_step_served:
  assumes "is_served (status r)" "\<not> category_is_decisive (sigs d) (classify_path (sigs d) (req_path r))"
    "\<not> fst (is_catch_all (req_host r) (bytes_out r) (hash_of w (req_path r)) (catch_all d))"
  shows "engine (snd (signature_step w ms r now h (a, d))) = engine d"
proof -
  have st: "status r \<notin> set ENUMERATION_STATUSES" using assms(1) by (auto simp: is_served_def ENUMERATION_STATUSES_def)
  let ?c = "classify_path (sigs d) (req_path r)"
  define d1 where "d1 = snd (candidate_step w ?c r now (a, d))"
  have d1: "candidate_step w ?c r now (a, d) = (a, d1)" "engine d1 = engine d" "sigs d1 = sigs d" "catch_all d1 = catch_all d"
    by (simp_all add: d1_def candidate_step_def)
  obtain k d2 where d2: "excuse_served w ?c r d1 = (k, d2)" by (cases "excuse_served w ?c r d1")
  have "k = []" "engine d2 = engine d"
    using assms d1 d2 by (auto simp: excuse_served_def split: prod.splits if_splits)
  then show ?thesis
    unfolding signature_step_def Let_def snd_conv d1(1) prod.case d2 by (simp add: st)
qed

text \<open>Of a plain visit only a slow enumeration that was already there can become a finding.\<close>

lemma plain_watch:
  assumes v: "plain_visit r d" and ms: "list_all (\<lambda>m. \<not> py_startswith (rm_id m) ''custom:'' \<and> \<not> py_startswith (rm_id m) ''observe:'') ms"
    and page: "\<not> fst (is_catch_all (req_host r) (bytes_out r) (hash_of w (req_path r)) (catch_all d))"
  shows "new_findings (slow_finding (client_ip r)) (engine d) (engine (snd (watch_request w ms r now stamp (a, d))))"
proof -
  obtain a1 d1 where ad1: "check_unknown_host w (client_ip r) now r (a\<lparr>requests := requests a + 1\<rparr>, d) = (a1, d1)"
    by (cases "check_unknown_host w (client_ip r) now r (a\<lparr>requests := requests a + 1\<rparr>, d)")
  have d1: "engine d1 = engine d" "catch_all d1 = catch_all d" "sigs d1 = sigs d"
    using unknown_host_engine [where r = r and d = d and w = w and ip = "client_ip r" and now = now and a = "a\<lparr>requests := requests a + 1\<rparr>"] ad1 v by (simp_all add: plain_visit_def)
  define h where "h = refusal_is_a_shield r (a1\<lparr>reached_backend := True\<rparr>)"
  obtain a3 d3 where ad3: "slow_step w r now stamp h (a1\<lparr>reached_backend := True\<rparr>, d1) = (a3, d3)"
    by (cases "slow_step w r now stamp h (a1\<lparr>reached_backend := True\<rparr>, d1)")
  have d3: "new_findings (slow_finding (client_ip r)) (engine d) (engine d3)" "catch_all d3 = catch_all d" "sigs d3 = sigs d"
    using slow_step_engine [where r = r and d = d1 and w = w and now = now and stamp = stamp and h = h and a = "a1\<lparr>reached_backend := True\<rparr>"]
      ad3 d1 by simp_all
  let ?a = "note_request w r now (max_paths d3) a3"
  have idle: "query_step ms r now h (?a, d3) = (?a, d3)" "traversal_step ms r now h (?a, d3) = (?a, d3)"
    "agent_step ms r now h (?a, d3) = (?a, d3)"
    using v d3(3) by (auto simp: query_step_def traversal_step_def agent_step_def plain_visit_def Let_def split: prod.splits)
  have "watch_request w ms r now stamp (a, d) = signature_step w ms r now h (?a, d3)"
    using v unfolding watch_request_def Let_def
    by (simp add: ad1 plain_visit_def is_served_def h_def [symmetric] ad3 context_steps_idle [OF ms] idle)
  moreover have "engine (snd (signature_step w ms r now h (?a, d3))) = engine d3"
    by (rule signature_step_served) (use v page d3 in \<open>simp_all add: plain_visit_def\<close>)
  ultimately show ?thesis using d3(1) by simp
qed

lemma plain_request:
  assumes v: "plain_visit r d"
    and page: "\<not> fst (is_catch_all (req_host r) (bytes_out r) (hash_of w (req_path r)) (catch_all d))"
  shows "new_findings (slow_finding (client_ip r)) (engine d) (engine (observe_request w r now stamp d))"
proof -
  define vd where "vd = verdict_for (excl (engine d)) (client_ip r)"
  define t where "t = observe_rate (rates_in_config w) (monotonic w) r (trust_of vd) now stamp (trusted d)"
  define mc where "mc = inspect (crc_of w) (sigs d) r now (v_excluded vd) (catch_all_known (req_host r) (bytes_out r) (catch_all d)) (dctx d)"
  obtain a m where tm: "touch (client_ip r) now (memory d) = (a, m)" by (cases "touch (client_ip r) now (memory d)")
  let ?d = "d\<lparr>trusted := t, dctx := snd mc, memory := m\<rparr>"
  have "plain_visit r ?d" using v by (simp add: plain_visit_def mc_def)
  moreover have "list_all (\<lambda>m. \<not> py_startswith (rm_id m) ''custom:'' \<and> \<not> py_startswith (rm_id m) ''observe:'') (fst mc)"
    unfolding mc_def by (rule plain_matches [OF v refl])
  ultimately have "new_findings (slow_finding (client_ip r)) (engine ?d) (engine (snd (watch_request w (fst mc) r now stamp (a, ?d))))"
    by (rule plain_watch) (use page in simp)
  moreover have "engine (observe_request w r now stamp d) =
     (if v_excluded vd then engine d else engine (snd (watch_request w (fst mc) r now stamp (a, ?d))))"
    unfolding observe_request_def Let_def vd_def [symmetric] t_def [symmetric] case_prod_beta by (simp add: mc_def tm)
  ultimately show ?thesis by simp
qed

end
