(* ===== verification/Guard_Rules.thy ===== *)
theory Guard_Rules
  imports Guard_Context
begin

text \<open>
  Facts about the signatures and the contextual rules: the tables in force are the shipped ones with the
  operator's rules on top, whatever file is read later; classification is the first decisive segment, or
  the first probable one; a configuration that was accepted is well formed.
\<close>

section \<open>The tables in force\<close>

lemma map_of_fold_delete: "map_of (fold AList.delete ks m) k = (if k \<in> set ks then None else map_of m k)"
  by (induction ks arbitrary: m) (auto simp: delete_conv')

definition place_rule :: "string \<times> string \<Rightarrow> (string \<times> string) list \<times> (string \<times> string) list \<Rightarrow> (string \<times> string) list \<times> (string \<times> string) list" where
  "place_rule = (\<lambda>(token, category) (segments, paths).
     if py_startswith token ''/'' then (segments, jput token category paths) else (jput token category segments, paths))"

lemma place_rules:
  assumes "distinct (map fst added)"
  shows "map_of (fst (fold place_rule added tables)) k =
      (if \<not> py_startswith k ''/'' \<and> map_of added k \<noteq> None then map_of added k else map_of (fst tables) k) \<and>
    map_of (snd (fold place_rule added tables)) k =
      (if py_startswith k ''/'' \<and> map_of added k \<noteq> None then map_of added k else map_of (snd tables) k)"
  using assms
proof (induction added arbitrary: tables)
  case (Cons x xs)
  obtain t c sg pt where x: "x = (t, c)" "tables = (sg, pt)" by (cases x, cases tables)
  have n: "map_of xs t = None" using Cons.prems by (simp add: x map_of_eq_None_iff)
  have t: "place_rule x tables = (if py_startswith t ''/'' then (sg, jput t c pt) else (jput t c sg, pt))"
    by (simp add: place_rule_def x)
  show ?case using Cons.IH [of "place_rule x tables"] Cons.prems n unfolding fold_Cons comp_apply t by (auto simp: x)
qed simp

definition table_in_force :: "bool \<Rightarrow> overrides \<Rightarrow> (string \<times> string) list \<Rightarrow> string \<Rightarrow> string option" where
  "table_in_force whole_paths ov shipped token =
     (if py_startswith token ''/'' = whole_paths \<and> map_of (o_added ov) token \<noteq> None then map_of (o_added ov) token
      else if token \<in> set (o_disabled ov) then None else map_of shipped token)"

definition in_force :: "signatures \<Rightarrow> bool" where
  "in_force s =
     (map_of (scanner_segments s) = table_in_force False (sig_overrides s) (shipped_segments s) \<and>
      map_of (scanner_paths s) = table_in_force True (sig_overrides s) (shipped_paths s) \<and>
      scanner_prefixes s = prefixes_of (scanner_segments s))"

lemma publish_same [simp]:
  "sig_overrides (publish_signatures s) = sig_overrides s" "shipped_segments (publish_signatures s) = shipped_segments s"
  "shipped_paths (publish_signatures s) = shipped_paths s"
  by (simp_all add: publish_signatures_def Let_def split: prod.splits)

lemma publish_in_force: "distinct (map fst (o_added (sig_overrides s))) \<Longrightarrow> in_force (publish_signatures s)"
  unfolding in_force_def publish_same
  using place_rules [of "o_added (sig_overrides s)"]
  by (auto simp: publish_signatures_def place_rule_def [symmetric] Let_def case_prod_beta table_in_force_def map_of_fold_delete fun_eq_iff)

lemma load_in_force:
  assumes "in_force s" "distinct (map fst (o_added (sig_overrides s)))"
  shows "in_force (snd (load_signatures ok doc s)) \<and> sig_overrides (snd (load_signatures ok doc s)) = sig_overrides s"
proof -
  have v: "in_force (s'\<lparr>sig_version := x\<rparr>) = in_force s'" for s' x by (simp add: in_force_def)
  have "in_force (publish_signatures (s\<lparr>query_rules := q, user_agents := u, shipped_segments := sg, shipped_paths := pt, decisive_categories := dc\<rparr>))"
    for q u sg pt dc by (rule publish_in_force) (simp add: assms(2))
  then show ?thesis
    using assms(1) by (auto simp: load_signatures_def v split: option.splits)
qed

lemma added_rules_distinct: "added_rules raw acc = Inr added \<Longrightarrow> distinct (map fst acc) \<Longrightarrow> distinct (map fst added)"
  by (induction raw acc rule: added_rules.induct) (auto simp: Let_def ebind_def distinct_update split: if_splits sum.splits)

lemma validated_overrides_distinct: "validate_overrides data = Inr ov \<Longrightarrow> distinct (map fst (o_added ov))"
  by (auto simp: validate_overrides_def ebind_def dest: added_rules_distinct split: json.splits if_splits sum.splits)

lemma reloads_in_force:
  assumes "in_force s" "distinct (map fst (o_added (sig_overrides s)))"
  shows "in_force (fold (\<lambda>doc s. snd (load_signatures ok doc s)) docs s) \<and>
     sig_overrides (fold (\<lambda>doc s. snd (load_signatures ok doc s)) docs s) = sig_overrides s"
  using assms
proof (induction docs arbitrary: s)
  case (Cons doc docs)
  note k = load_in_force [OF Cons.prems, of ok doc]
  show ?case using Cons.IH [of "snd (load_signatures ok doc s)"] k Cons.prems(2) by simp
qed simp

section \<open>Classification\<close>

definition segment_categories :: "signatures \<Rightarrow> string list \<Rightarrow> string list" where
  "segment_categories s segments = filter (\<lambda>c. c \<noteq> []) (map (segment_category s) (filter (\<lambda>g. g \<noteq> []) segments))"

definition first_of :: "string list \<Rightarrow> string" where
  "first_of cs = (case cs of [] \<Rightarrow> [] | c # _ \<Rightarrow> c)"

lemma classify_segments_first:
  "classify_segments s segments probable =
     (case find (category_is_decisive s) (segment_categories s segments) of
        Some c \<Rightarrow> Inl c
      | None \<Rightarrow> Inr (if probable \<noteq> [] then probable else first_of (segment_categories s segments)))"
  by (induction s segments probable rule: classify_segments.induct)
     (auto simp: segment_categories_def first_of_def Let_def split: option.splits)

section \<open>Accepted configurations\<close>

definition scope_wf :: "dscope \<Rightarrow> bool" where
  "scope_wf sc =
     (1 \<le> length (sc_hosts sc) \<and> length (sc_hosts sc) \<le> 8 \<and> distinct (sc_hosts sc) \<and> list_all (rex_match HOST_NAME) (sc_hosts sc) \<and>
      length (sc_methods sc) \<le> 16 \<and> list_all (rex_match METHOD_NAME) (sc_methods sc) \<and>
      length (sc_statuses sc) \<le> 16 \<and> list_all (\<lambda>i. 100 \<le> i \<and> i \<le> 599) (sc_statuses sc) \<and>
      (sc_match sc = ''segment'' \<and> CHR ''/'' \<notin> set (sc_value sc) \<or>
       sc_match sc \<in> {''exact'', ''prefix''} \<and> py_startswith (sc_value sc) ''/'') \<and>
      (sc_match sc = ''prefix'' \<longrightarrow> sc_value sc \<noteq> ''/''))"

definition config_wf :: "detection_config \<Rightarrow> bool" where
  "config_wf c =
     (0 \<le> dc_revision c \<and> dc_revision c < 2 ^ 53 \<and>
      length (dc_rules c) \<le> DETECTION_MAX_RULES \<and> distinct (map dr_id (dc_rules c)) \<and>
      list_all (\<lambda>x. rex_match RULE_ID (dr_id x) \<and> dr_mode x \<in> {''observe'', ''enforce''} \<and> scope_wf (dr_scope x)) (dc_rules c) \<and>
      length (dc_exceptions c) \<le> DETECTION_MAX_EXCEPTIONS \<and> distinct (map dx_id (dc_exceptions c)) \<and>
      list_all (\<lambda>x. scope_wf (dx_scope x) \<and> 0 \<le> dx_expires x \<and> dx_expires x \<le> 4102444800 \<and> 3 \<le> length (dx_reason x)) (dc_exceptions c) \<and>
      list_all (\<lambda>(k, v). v = ''observe'' \<or> v = ''enforce'' \<and> \<not> py_startswith k ''auth:'') (dc_modes c))"

lemma emap_hosts:
  assumes "emap detection_host hs = Inr names"
  shows "length names = length hs \<and> list_all (rex_match HOST_NAME) names"
  using assms
proof (induction hs arbitrary: names)
  case (Cons h hs)
  then obtain x xs where x: "detection_host h = Inr x" "emap detection_host hs = Inr xs" "names = x # xs"
    by (auto simp: ebind_def split: sum.splits)
  have "rex_match HOST_NAME x" using x(1) by (auto simp: detection_host_def Let_def split: json.splits if_splits)
  then show ?case using Cons.IH [OF x(2)] x(3) by simp
qed simp

lemma sort_remdups [simp]: "set (sort (remdups xs)) = set xs" "distinct (sort (remdups xs))" "length (sort (remdups xs)) \<le> length xs"
  by simp_all

lemma scope_methods_wf: "scope_methods j = Inr ms \<Longrightarrow> length ms \<le> 16 \<and> list_all (rex_match METHOD_NAME) ms"
proof -
  assume m: "scope_methods j = Inr ms"
  then obtain xs ss where x: "j = JList xs" "length xs \<le> 16" "all_strs xs = Some ss" "list_all (rex_match METHOD_NAME) ss" "ms = sort (remdups ss)"
    by (auto simp: scope_methods_def split: json.splits if_splits option.splits)
  have "length ss \<le> length xs" using x(3) by (auto simp: all_strs_def map_filter_def length_filter_le split: if_splits)
  then have "length (remdups ss) \<le> 16" using x(2) order_trans [OF length_remdups_leq [of ss]] by (meson order_trans)
  then show ?thesis using x by (simp add: list_all_iff)
qed

lemma scope_statuses_wf: "scope_statuses j = Inr ss \<Longrightarrow> length ss \<le> 16 \<and> list_all (\<lambda>i. 100 \<le> i \<and> i \<le> 599) ss"
proof -
  assume m: "scope_statuses j = Inr ss"
  then obtain xs ns where x: "j = JList xs" "length xs \<le> 16" "all_ints xs = Some ns" "list_all (\<lambda>i. 100 \<le> i \<and> i \<le> 599) ns" "ss = sort (remdups ns)"
    by (auto simp: scope_statuses_def split: json.splits if_splits option.splits)
  have "length ns \<le> length xs" using x(3) by (auto simp: all_ints_def map_filter_def length_filter_le split: if_splits)
  then have "length (remdups ns) \<le> 16" using x(2) order_trans [OF length_remdups_leq [of ns]] by (meson order_trans)
  then show ?thesis using x by (simp add: list_all_iff)
qed

lemma only_slashes:
  assumes "set v \<subseteq> {CHR ''/''}"
  shows "normalize_plain_path v = ''/''"
proof -
  have "set (py_split (CHR ''/'') v) \<subseteq> {[]}"
    using assms by (induction v) auto
  moreover have "set ps \<subseteq> {[]} \<Longrightarrow> resolve_dots ps acc = rev acc" for ps acc
    by (induction ps) auto
  ultimately have r: "resolve_dots (py_split (CHR ''/'') v) [] = []" by simp
  have t: "takeWhile (\<lambda>c. c \<noteq> x) v = v" if "x \<noteq> CHR ''/''" for x
    using assms that by (auto simp: takeWhile_eq_all_conv)
  have "py_strip v = v"
  proof -
    have "dropWhile py_isspace u = u" if "set u \<subseteq> {CHR ''/''}" for u
      using that by (cases u) (auto simp: py_isspace_def)
    then show ?thesis using assms by (simp add: py_strip_def py_lstrip_def py_rstrip_def)
  qed
  moreover have "filter (\<lambda>c. \<not> (ord c < 32 \<or> ord c = 127)) v = v"
    using assms by (auto simp: filter_id_conv)
  ultimately show ?thesis by (simp add: normalize_plain_path_def Let_def t r)
qed

lemma rstrip_prefix: "\<exists>w. v = rstrip_slashes v @ w \<and> set w \<subseteq> {CHR ''/''}"
proof -
  have "rev v = takeWhile (\<lambda>c. c = CHR ''/'') (rev v) @ dropWhile (\<lambda>c. c = CHR ''/'') (rev v)" by simp
  then have "v = rstrip_slashes v @ rev (takeWhile (\<lambda>c. c = CHR ''/'') (rev v))"
    unfolding rstrip_slashes_def by (metis rev_append rev_rev_ident)
  moreover have "set (rev (takeWhile (\<lambda>c. c = CHR ''/'') (rev v))) \<subseteq> {CHR ''/''}" by (auto dest: set_takeWhileD)
  ultimately show ?thesis by blast
qed

text \<open>The value of a scope after its trailing slashes are gone.\<close>

lemma scope_value_wf:
  assumes "scope_value mj vj = Inr (mt, v)" and "v' = (if rstrip_slashes v = [] then ''/'' else rstrip_slashes v)"
  shows "(mt = ''segment'' \<and> CHR ''/'' \<notin> set v' \<or> mt \<in> {''exact'', ''prefix''} \<and> py_startswith v' ''/'') \<and> (mt = ''prefix'' \<longrightarrow> v' \<noteq> ''/'')"
proof -
  have m: "mt \<in> {''exact'', ''prefix'', ''segment''}" and pv: "plain_value v"
    and sg: "mt = ''segment'' \<Longrightarrow> CHR ''/'' \<notin> set v"
    and ot: "mt \<noteq> ''segment'' \<Longrightarrow> py_startswith v ''/'' \<and> normalize_plain_path v = v"
    and pf: "mt = ''prefix'' \<Longrightarrow> v \<noteq> ''/''"
    using assms(1) by (auto simp: scope_value_def split: json.splits if_splits)
  obtain w where w: "v = rstrip_slashes v @ w" "set w \<subseteq> {CHR ''/''}" using rstrip_prefix by blast
  have slashes: "v = ''/''" if "rstrip_slashes v = []" "mt \<noteq> ''segment''"
    using only_slashes [of v] w that ot by simp
  have "v \<noteq> []" using pv by (auto simp: plain_value_def)
  show ?thesis
  proof (cases "mt = ''segment''")
    case True
    then have "CHR ''/'' \<notin> set (rstrip_slashes v @ w)" using sg w(1) by simp
    then have "w = []" using w(2) by (cases w) auto
    then have "rstrip_slashes v = v" using w(1) by simp
    then show ?thesis using True sg \<open>v \<noteq> []\<close> assms(2) by simp
  next
    case False
    have start: "py_startswith v' ''/''"
      using assms(2) ot [OF False] w(1) by (cases "rstrip_slashes v") (auto simp: py_startswith_def)
    have "v' \<noteq> ''/''" if "mt = ''prefix''"
    proof
      assume v': "v' = ''/''"
      have "rstrip_slashes v = [] \<or> last (rstrip_slashes v) \<noteq> CHR ''/''"
        using hd_dropWhile_not [of "\<lambda>c. c = CHR ''/''" "rev v"] by (auto simp: rstrip_slashes_def last_rev)
      then have "rstrip_slashes v = []" using v' assms(2) by (auto split: if_splits)
      then show False using slashes False pf that by simp
    qed
    then show ?thesis using m False start by auto
  qed
qed

lemma detection_scope_wf: "detection_scope row = Inr sc \<Longrightarrow> scope_wf sc"
proof -
  assume d: "detection_scope row = Inr sc"
  then obtain hs methods statuses mt v names where k: "1 \<le> length hs" "length hs \<le> 8"
    "scope_methods (jget_or ''methods'' (JList []) row) = Inr methods"
    "scope_statuses (jget_or ''statuses'' (JList []) row) = Inr statuses"
    "scope_value (jget_or ''match'' (JStr ''exact'') row) (jget ''value'' row) = Inr (mt, v)" "emap detection_host hs = Inr names"
    "sc = \<lparr>sc_hosts = sort (remdups names), sc_methods = methods, sc_match = mt,
                sc_value = (if rstrip_slashes v = [] then ''/'' else rstrip_slashes v), sc_statuses = statuses\<rparr>"
    by (auto simp: detection_scope_def ebind_def split: json.splits if_splits sum.splits)
  note n = emap_hosts [OF k(6)]
  have "remdups names \<noteq> []" using n k(1) by auto
  then have h: "1 \<le> length (remdups names)" "length (remdups names) \<le> 8"
    using n k(2) length_remdups_leq [of names] by (simp_all add: Suc_le_eq)
  show ?thesis
    using scope_methods_wf [OF k(3)] scope_statuses_wf [OF k(4)] scope_value_wf [OF k(5) refl] n h
    unfolding k(7) scope_wf_def by (simp add: list_all_iff)
qed

definition rule_wf :: "drule \<Rightarrow> bool" where
  "rule_wf x = (rex_match RULE_ID (dr_id x) \<and> dr_mode x \<in> {''observe'', ''enforce''} \<and> scope_wf (dr_scope x))"

definition exception_wf :: "dexception \<Rightarrow> bool" where
  "exception_wf x = (scope_wf (dx_scope x) \<and> 0 \<le> dx_expires x \<and> dx_expires x \<le> 4102444800 \<and> 3 \<le> length (dx_reason x))"

lemma row_id_match: "row_id j pat = Some (row, name) \<Longrightarrow> rex_match pat name"
  by (auto simp: row_id_def split: json.splits if_splits)

lemma checked_rules_wf:
  "checked_rules cats js acc = Inr rs \<Longrightarrow> distinct (map dr_id acc) \<Longrightarrow> list_all rule_wf acc \<Longrightarrow>
     length rs = length acc + length js \<and> distinct (map dr_id rs) \<and> list_all rule_wf rs"
proof (induction cats js acc rule: checked_rules.induct)
  case (2 cats j js acc)
  obtain row name category md sc where k: "row_id j RULE_ID = Some (row, name)" "name \<notin> set (map dr_id acc)"
    "jget_or ''category'' (JStr ''custom'') row = JStr category" "\<not> (category \<notin> set cats \<and> category \<noteq> ''custom'')"
    "jget_or ''mode'' (JStr ''observe'') row = JStr md" "\<not> (md \<noteq> ''observe'' \<and> md \<noteq> ''enforce'')" "detection_scope row = Inr sc"
    "checked_rules cats js (acc @ [\<lparr>dr_id = name, dr_scope = sc, dr_category = category, dr_mode = md\<rparr>]) = Inr rs"
    using "2.prems"(1) by (auto simp: ebind_def split: option.splits json.splits if_splits sum.splits)
  have w: "rule_wf \<lparr>dr_id = name, dr_scope = sc, dr_category = category, dr_mode = md\<rparr>"
    using row_id_match [OF k(1)] detection_scope_wf [OF k(7)] k(6) by (auto simp: rule_wf_def)
  show ?case
    using "2.IH" [OF k(1) refl k(2,3,4,5,6), of sc] k(8) w "2.prems"(2,3) k(2) by auto
qed simp

lemma checked_exceptions_wf:
  "checked_exceptions known js acc = Inr xs \<Longrightarrow> distinct (map dx_id acc) \<Longrightarrow> list_all exception_wf acc \<Longrightarrow>
     length xs = length acc + length js \<and> distinct (map dx_id xs) \<and> list_all exception_wf xs"
proof (induction js arbitrary: acc)
  case (Cons j js)
  obtain row name rule reason expires sc where k: "row_id j EXCEPTION_ID = Some (row, name)" "name \<notin> set (map dx_id acc)"
    "3 \<le> length (py_strip reason)" "0 \<le> expires" "expires \<le> 4102444800" "detection_scope row = Inr sc"
    "checked_exceptions known js (acc @ [\<lparr>dx_id = name, dx_rule = rule, dx_scope = sc, dx_reason = py_strip reason, dx_expires = expires\<rparr>]) = Inr xs"
    using Cons.prems(1) by (auto simp: ebind_def split: option.splits json.splits if_splits sum.splits)
  have w: "exception_wf \<lparr>dx_id = name, dx_rule = rule, dx_scope = sc, dx_reason = py_strip reason, dx_expires = expires\<rparr>"
    using detection_scope_wf [OF k(6)] k(3-5) by (simp add: exception_wf_def)
  show ?case using Cons.IH [OF k(7)] w Cons.prems(2,3) k(2) by auto
qed simp

lemma checked_modes_wf:
  "checked_modes known modes = Inr ms \<Longrightarrow> list_all (\<lambda>(k, v). v = ''observe'' \<or> v = ''enforce'' \<and> \<not> py_startswith k ''auth:'') ms"
  by (fastforce simp: checked_modes_def list_all_iff list_ex_iff split: if_splits)

lemma validated_config_wf:
  assumes "validate_detection_config s j = Inr c"
  shows "config_wf c"
proof -
  obtain data rules exceptions modes rs ms xs where k: "length rules \<le> DETECTION_MAX_RULES" "length exceptions \<le> DETECTION_MAX_EXCEPTIONS"
    "checked_rules (map snd (scanner_segments s @ scanner_paths s)) rules [] = Inr rs"
    "checked_modes (builtin_detection_ids s @ map dr_id rs) modes = Inr ms"
    "checked_exceptions (builtin_detection_ids s @ map dr_id rs) exceptions [] = Inr xs" "finish_config data rs ms xs = Inr c"
    using assms by (auto simp: validate_detection_config_def ebind_def Let_def not_less simp del: map_append split: json.splits if_splits sum.splits)
  have f: "dc_rules c = rs" "dc_exceptions c = xs" "dc_modes c = ms" "0 \<le> dc_revision c" "dc_revision c < 2 ^ 53"
    using k(6) by (auto simp: finish_config_def ebind_def split: json.splits if_splits sum.splits)
  show ?thesis
    using checked_rules_wf [OF k(3)] checked_exceptions_wf [OF k(5)] checked_modes_wf [OF k(4)] k(1,2) f
    by (simp add: config_wf_def rule_wf_def exception_wf_def list_all_iff)
qed

text \<open>Saving: the stored settings are well formed, a stale editor changes nothing.\<close>

lemma replace_config_cases:
  "replace_config s data c = (Inr new, c') \<Longrightarrow>
     dc_saved c' = new \<and> dctx_config c' = new \<and> dc_revision new = dc_revision (dctx_config c) + 1 \<and>
     config_wf (new\<lparr>dc_revision := dc_revision (dctx_config c)\<rparr>)"
  "replace_config s data c = (Inl e, c') \<Longrightarrow> c' = c"
  by (auto simp: replace_config_def Let_def config_wf_def dest!: validated_config_wf split: sum.splits if_splits)

end
