(* ===== verification/Guard_Detection_Properties.thy ===== *)
theory Guard_Detection_Properties
  imports Guard_Detection Guard_Rules
begin

text \<open>
  What detection guarantees, stated of \<open>observe_request\<close> over any run of requests, of the signatures and
  contextual rules it looks them up in, and of the rate warnings.
\<close>

section \<open>A sample detector\<close>

definition quiet_guard :: "unit guard" where
  "quiet_guard = \<lparr>hap = (), mode = ''enforce'', n_refused = 0, n_applied = 0, n_failed = 0, n_lifted = 0,
     ban_durations = BAN_DURATIONS, ban_durations_changed_at = 0, ban_policy = ''legacy'', base_policy = default_policy,
     excl = \<lparr>authenticated = [''198.51.100.7''], networks = [], geo_trusted = True\<rparr>, enforcement_queue = new_queue 10,
     scan_after = (0, []), scan_before = 0, enforcement_checked = 0, events_recorded = 0, manual_restored = 0,
     legacy_observed = [], burst_bans = [], burst_reported = None, alerts = None,
     db = \<lparr>ip_state = [], events = [], decisions = [], next_decision = 1, manual_bans = [], cooldowns = []\<rparr>\<rparr>"

definition no_rate_config :: rate_config where
  "no_rate_config = \<lparr>rc_signature = None, rc_hosts = [], rc_limits = [], rc_windows = [], rc_warning_only = [], rc_allowed = []\<rparr>"

definition quiet_config :: detection_config where
  "quiet_config = \<lparr>dc_revision = 0, dc_rules = [], dc_exceptions = [], dc_modes = [], dc_profiles = []\<rparr>"

definition quiet_detector :: "unit detector" where
  "quiet_detector = \<lparr>engine = quiet_guard, sigs = builtin_signatures,
     dctx = \<lparr>dctx_config = quiet_config, dctx_stats = [], dctx_slow = [], dctx_evictions = 0, dctx_last_saved = 0, dc_saved = quiet_config\<rparr>,
     trusted = new_trusted_rates TRUSTED_RATE_MAX_KEYS, memory = \<lparr>max_ips = 100, mem_entries = [], evictions = 0\<rparr>, max_paths = 64,
     catch_all = [], cands = \<lparr>cand_paths = [], cand_served = []\<rparr>, unknown_hosts = [], trap_hosts = [], site_list = [], site_checked = 0,
     excluded_observations = 0\<rparr>"

definition plain_surroundings :: surroundings where
  "plain_surroundings = \<lparr>hash_of = (\<lambda>s. int (length s)), hash_pair = (\<lambda>(a, b). int (length a + length b)), crc_of = (\<lambda>s. int (length s)),
     monotonic = 100, names_in_config = [''www.example.com''], rates_in_config = no_rate_config\<rparr>"

definition wp_request :: "string \<Rightarrow> int \<Rightarrow> string \<Rightarrow> parsed_request" where
  "wp_request ip st bk = \<lparr>client_ip = ip, status = st, backend = bk, http_method = ''GET'', req_path = ''/wp-login.php'',
     req_host = ''www.example.com'', bad_request = False, query_flag = [], path_flag = [], observation_flags = [], req_ts = 1000,
     bytes_out = 512, term_state = ''--'', ban_reason = [], user_agent = []\<rparr>"

lemma quiet_detector_ok: "detector_ok quiet_detector"
  by (simp add: detector_ok_def stores_ok_def quiet_detector_def candidates_ok_def unknown_ok_def pages_ok_def context_ok_def memory_ok_def)

section \<open>Who gets a finding\<close>

text \<open>C12. An address the gateway turns away is not scored for knocking.  Over any run of requests in which every
  request of the address was refused by the gateway before a server was chosen and named no trap, everybody
  else asking whatever they like, each finding about it is marked as refused, and its reputation is zero unless one
  of the findings is a decisive one.\<close>

theorem walled_off_address_is_not_scored:
  assumes "detector_ok d" "remembered walled ip (memory d)" "findings_of ip d = []"
    and "\<And>w r now stamp. (w, r, now, stamp) \<in> set xs \<Longrightarrow> client_ip r = ip \<Longrightarrow>
           denied_by_gateway r \<and> no_server r \<and> normalize_host (req_host r) \<notin> set (trap_hosts d)"
  shows "(\<forall>e \<in> set (findings_of ip (observe_all xs d)). ev_handled e) \<and>
    (r_score (reputation_of ip now policy scheduled (engine (observe_all xs d))) = 0 \<or>
     (\<exists>e \<in> set (findings_of ip (observe_all xs d)). ev_type e = ''SCANNER_PATH_DECISIVE''))"
proof -
  have h: "\<forall>e \<in> set (findings_of ip (observe_all xs d)). ev_handled e"
    by (rule walled_off_run [OF assms(1,2)]) (use assms(3,4) in \<open>auto simp: turned_clean_def turned_away_def\<close>)
  moreover have "r_score (reputation_of ip now policy scheduled (engine (observe_all xs d))) = 0"
    if "\<forall>e \<in> set (findings_of ip (observe_all xs d)). ev_type e \<noteq> ''SCANNER_PATH_DECISIVE''"
    by (rule reputation_of_refused) (use h that in \<open>auto simp: REFUSAL_DOES_NOT_EXCUSE_def\<close>)
  ultimately show ?thesis by blast
qed

theorem walled_off_address_is_not_scored_witness:
  "list_all ev_handled (findings_of ''203.0.113.9'' (observe_all (replicate 40 (plain_surroundings, wp_request ''203.0.113.9'' 403 ''fe/<NOSRV>'', 1000, None))
      quiet_detector))"
  using walled_off_address_is_not_scored [OF quiet_detector_ok, of "''203.0.113.9''"
      "replicate 40 (plain_surroundings, wp_request ''203.0.113.9'' 403 ''fe/<NOSRV>'', 1000, None)" 1000 default_policy "[]"]
  by (simp add: list_all_iff remembered_def findings_of_def quiet_detector_def quiet_guard_def wp_request_def denied_by_gateway_def IDENTITY_REFUSALS_def
      no_server_def py_endswith_def)

text \<open>C17. An excluded address (signed in, on an allow list, local, or unreadable) is never reported: no run of
  requests, its own included, adds a finding about it or an entry in the memory of addresses.\<close>

theorem excluded_address_is_never_reported:
  assumes "detector_ok d" "v_excluded (verdict_for (excl (engine d)) ip)"
  shows "findings_of ip (observe_all xs d) = findings_of ip d \<and>
    (\<forall>(k, a) \<in> set (mem_entries (memory (observe_all xs d))). k = ip \<longrightarrow> (k, a) \<in> set (mem_entries (memory d)))"
  by (rule excluded_unseen [OF assms])

theorem excluded_address_is_never_reported_witness:
  "findings_of ''198.51.100.7'' (observe_all [(plain_surroundings, wp_request ''198.51.100.7'' 404 ''fe/web'', 1000, None)] quiet_detector) = []"
  using excluded_address_is_never_reported [OF quiet_detector_ok, of "''198.51.100.7''"
      "[(plain_surroundings, wp_request ''198.51.100.7'' 404 ''fe/web'', 1000, None)]"]
  by (simp add: quiet_detector_def quiet_guard_def verdict_for_def findings_of_def)

text \<open>Using a site is not scanning it: a request the site answers with content, whose path reads like a probe
  for a technology the site may really have, gives no finding, unless the page is known as one that answers
  everything alike.  What may still be reported is a slow enumeration that the requests before it made up.\<close>

theorem served_page_is_no_finding:
  assumes "plain_visit r d"
    and "\<not> fst (is_catch_all (req_host r) (bytes_out r) (hash_of w (req_path r)) (catch_all d))"
  shows "new_findings (slow_finding (client_ip r)) (engine d) (engine (observe_request w r now stamp d))"
  by (rule plain_request [OF assms])

lemma wp_category: "classify_path builtin_signatures ''/wp-login.php'' = ''wordpress''"
  by (simp add: classify_path_def find_or_def builtin_signatures_def BUILTIN_PATHS_def BUILTIN_SEGMENTS_def BUILTIN_DECISIVE_def
      MAX_MATCHED_SEGMENTS_def segment_category_def category_is_decisive_def is_asset_def ASSET_SUFFIXES_def py_endswith_def py_lower_def
      py_lower_char_def is_authentication_endpoint_def AUTHENTICATION_PATHS_def py_startswith_def Let_def)

lemma wp_visit: "plain_visit (wp_request ''203.0.113.9'' 200 ''fe/web'') quiet_detector"
proof -
  have "\<not> category_is_decisive builtin_signatures ''wordpress''"
    by (simp add: category_is_decisive_def builtin_signatures_def BUILTIN_DECISIVE_def)
  then show ?thesis
    by (simp add: plain_visit_def wp_request_def quiet_detector_def quiet_config_def no_server_def py_endswith_def is_served_def
        classify_user_agent_def wp_category)
qed

theorem served_page_is_no_finding_witness:
  "new_findings (slow_finding ''203.0.113.9'') quiet_guard
     (engine (observe_request plain_surroundings (wp_request ''203.0.113.9'' 200 ''fe/web'') 1000 None quiet_detector))"
  using served_page_is_no_finding [OF wp_visit, of plain_surroundings 1000 None]
  by (simp add: quiet_detector_def wp_request_def is_catch_all_def CATCH_ALL_MIN_PATHS_def List.insert_def)

section \<open>What is remembered\<close>

text \<open>C18. Nothing a client sends makes the detector's memory grow without limit: over any run of requests every
  store keeps within the limit the code gives it, with at most twelve half-hours of slow traffic for an address.\<close>

theorem detection_memory_is_bounded:
  assumes "detector_ok d"
  shows "detector_ok (observe_all xs d) \<and> max_ips (memory (observe_all xs d)) = max_ips (memory d) \<and>
    (\<forall>(k, e) \<in> set (dctx_slow (dctx (observe_all xs d))). length (se_buckets e) \<le> 12)"
proof -
  have k: "detector_ok (observe_all xs d)" "kept_settings d (observe_all xs d)" using observe_all_ok [OF assms] by blast+
  then have "\<forall>(k, e) \<in> set (dctx_slow (dctx (observe_all xs d))). slow_ok e"
    by (simp add: detector_ok_def stores_ok_def context_ok_def)
  then show ?thesis using k slow_ok_buckets by (fastforce simp: kept_settings_def)
qed

theorem detection_memory_is_bounded_witness:
  "length (mem_entries (memory (observe_all (replicate 500 (plain_surroundings, wp_request ''203.0.113.9'' 404 ''fe/web'', 1000, None))
     quiet_detector))) \<le> 100"
proof -
  have "max_ips (memory quiet_detector) = 100" by (simp add: quiet_detector_def)
  then show ?thesis
    using detection_memory_is_bounded [OF quiet_detector_ok, of "replicate 500 (plain_surroundings, wp_request ''203.0.113.9'' 404 ''fe/web'', 1000, None)"]
    by (simp add: detector_ok_def memory_ok_def)
qed

section \<open>Rate warnings\<close>

text \<open>C25. No rate warning is lost without trace: after any sequence of observed requests, reloads, flushes that
  reach the database or fail to, and a final closing, the episodes that were opened are exactly those written,
  still open, waiting, and counted as dropped; counters and waiting list keep their limits.\<close>

theorem rate_episodes_are_accounted:
  assumes "rate_run calls (new_trusted_rates keys) = (written, t)"
  shows "tr_opened t = length written + open_count (tr_counters t) + length (tr_finished t) + tr_dropped t \<and>
    length (tr_counters t) \<le> tr_max_keys t \<and> length (tr_finished t) \<le> TRUSTED_RATE_MAX_PENDING"
  using rate_run_accounts [OF rates_ok_new(1) assms] by (simp add: settled_def [of t] rates_ok_def)

definition limited_site :: rate_config where
  "limited_site = \<lparr>rc_signature = Some (1, 1), rc_hosts = [(''w'', [''a.bc''])], rc_limits = [(''tbl_rate_w'', 1)],
     rc_windows = [(''w'', ''20s'')], rc_warning_only = [], rc_allowed = []\<rparr>"

definition signed_in_call :: rate_call where
  "signed_in_call = Observe limited_site 100 ((wp_request ''198.51.100.7'' 200 ''fe/web'')\<lparr>req_host := ''a.bc''\<rparr>) ''signed-in'' 1000 None"

lemma sample_host: "normalize_host ''a.bc'' = ''a.bc''"
  by (simp add: normalize_host_def py_strip_def py_lstrip_def py_rstrip_def py_isspace_def py_lower_def py_lower_char_def
      strip_port_def is_digit_def py_startswith_def DOTTED_NUMBERS_def HOSTNAME_RE_def HOST_LABEL_def rng_def singles_def RPlus_def ROpt_def
      lit_def in_class_def Let_def)

lemma sample_site: "read_site_ceilings limited_site =
    [(''w'', \<lparr>ce_id = ''w'', ce_names = [''a.bc''], ce_limit = 1, ce_window = 20, ce_allow = None, ce_enforced = True\<rparr>)]"
  by (simp add: read_site_ceilings_def limited_site_def ceiling_of_def last_of_def haproxy_seconds_def py_strip_def py_lstrip_def py_rstrip_def
      py_isspace_def is_digit_def digits_val_def digit_val_def py_lower_def py_lower_char_def)

lemma sample_signature: "rc_signature limited_site = Some (1, 1)"
  by (simp add: limited_site_def)

definition sample_rates :: "nat \<Rightarrow> int \<Rightarrow> episode option \<Rightarrow> trusted_rates" where
  "sample_rates opened n ep = \<lparr>tr_sites = read_site_ceilings limited_site, tr_hosts = [(''a.bc'', ''w'')], tr_any_allow_list = False,
     tr_signature = Some (1, 1), tr_checked = Some 100,
     tr_counters = [((''198.51.100.7'', ''w''), \<lparr>ct_start = 1000, ct_curr = n, ct_prev = 0, ct_episode = ep\<rparr>)], tr_finished = [],
     tr_max_keys = 10, tr_clock = 1000, tr_opened = opened, tr_evicted = 0, tr_dropped = 0\<rparr>"

lemma sample_first: "rate_step signed_in_call (new_trusted_rates 10) = ([], sample_rates 0 1 None)"
  by (simp add: signed_in_call_def observe_rate_def maybe_reload_def reload_rates_def new_trusted_rates_def sample_site sample_host sample_signature
      wp_request_def find_or_def request_time_def count_request_def take_counter_def counter_add_def new_counter_def put_last_def sample_rates_def Let_def)

lemma sample_second: "\<exists>ep. rate_step signed_in_call (sample_rates 0 1 None) = ([], sample_rates 1 2 (Some ep)) \<and> ep_last_over ep = 1000"
  by (simp add: signed_in_call_def observe_rate_def sample_site sample_host wp_request_def find_or_def request_time_def count_request_def
      take_counter_def counter_add_def put_last_def sample_rates_def open_episode_def episode_over_def episode_request_def Let_def)

lemma sample_flush:
  assumes "ep_last_over ep = 1000"
  shows "rate_step (Flush limited_site 120 2000 True True) (sample_rates 1 2 (Some ep)) = ([ep], (sample_rates 1 2 None)\<lparr>tr_counters := []\<rparr>)"
  using assms by (simp add: flush_rate_warnings_def tick_def maybe_reload_def RATE_CEILINGS_RECHECK_def tick_counter_def finish_counter_def
      finish_episode_def TRUSTED_RATE_MAX_PENDING_def take_finished_def sample_rates_def sample_site)

lemma sample_run:
  "rate_run [signed_in_call, signed_in_call, Flush limited_site 120 2000 True True] (new_trusted_rates 10) = (written, t) \<Longrightarrow>
     length written = 1 \<and> tr_counters t = [] \<and> tr_finished t = [] \<and> tr_dropped t = 0"
proof -
  obtain ep where ep: "rate_step signed_in_call (sample_rates 0 1 None) = ([], sample_rates 1 2 (Some ep))" "ep_last_over ep = 1000"
    using sample_second by blast
  assume "rate_run [signed_in_call, signed_in_call, Flush limited_site 120 2000 True True] (new_trusted_rates 10) = (written, t)"
  then show ?thesis
    unfolding rate_run.simps sample_first prod.case ep(1) sample_flush [OF ep(2)] by (auto simp: sample_rates_def)
qed

theorem rate_episodes_are_accounted_witness:
  "tr_opened (snd (rate_run [signed_in_call, signed_in_call, Flush limited_site 120 2000 True True] (new_trusted_rates 10))) = 1"
proof -
  obtain written t where r: "rate_run [signed_in_call, signed_in_call, Flush limited_site 120 2000 True True] (new_trusted_rates 10) = (written, t)"
    by (cases "rate_run [signed_in_call, signed_in_call, Flush limited_site 120 2000 True True] (new_trusted_rates 10)")
  show ?thesis using rate_episodes_are_accounted [OF r] sample_run [OF r] r by simp
qed

text \<open>The rate of a trusted address is the number HAProxy would have: for requests in the order of their
  stamps, the incremental counter gives the requests of the running period plus the part of the period before
  that the window still covers, counted from the stamps themselves.\<close>

theorem trusted_counter_counts_two_periods:
  assumes "0 < period" "sorted stamps" "stamps \<noteq> []"
  shows "fst (counter_run period stamps) = counted_rate period stamps"
  using counter_run_follows [OF assms] by blast

theorem trusted_counter_counts_two_periods_witness:
  "fst (counter_run 20 [1000, 1003, 1019, 1021, 1030]) = 2 + 3 * (20 - 10) div 20"
  using trusted_counter_counts_two_periods [of 20 "[1000, 1003, 1019, 1021, 1030]"]
  by (simp add: counted_rate_def period_start_def count_between_def)

section \<open>Signatures and settings\<close>

text \<open>C26. The operator's rules outlive every signature file: once they are saved, whatever files are read after
  that, the rules in force for a segment or a path are the added ones, then the shipped ones that are not
  disabled, with the prefix rules among them.\<close>

theorem operator_rules_survive_reload:
  assumes "store_overrides ok doc data (stored, s) = (Inr ov, stored', s')"
    and "s'' = fold (\<lambda>doc s. snd (load_signatures ok doc s)) docs s'"
  shows "stored' = Some ov \<and> map_of (scanner_segments s'') = table_in_force False ov (shipped_segments s'') \<and>
    map_of (scanner_paths s'') = table_in_force True ov (shipped_paths s'') \<and> scanner_prefixes s'' = prefixes_of (scanner_segments s'')"
proof -
  obtain r s1 where k: "validate_overrides data = Inr ov" "load_signatures ok doc s = (Inr r, s1)" "stored' = Some ov"
      "s' = apply_overrides (Some ov) s1"
    using assms(1) by (auto simp: store_overrides_def split: sum.splits prod.splits)
  have d: "distinct (map fst (o_added ov))" by (rule validated_overrides_distinct [OF k(1)])
  have o: "sig_overrides s' = ov" by (simp add: k(4) apply_overrides_def)
  have "in_force s'" unfolding k(4) apply_overrides_def by (rule publish_in_force) (simp add: d)
  then have "in_force s'' \<and> sig_overrides s'' = ov" unfolding assms(2) using reloads_in_force [of s' ok docs] o d by simp
  then show ?thesis using k(3) by (simp add: in_force_def)
qed

theorem operator_rules_survive_reload_witness:
  "map_of (scanner_segments (fold (\<lambda>doc s. snd (load_signatures (\<lambda>_. True) doc s))
      [Some (JObj [(''segments'', JObj [(''wp-admin'', JStr ''wordpress''), (''.env'', JStr ''secrets'')]), (''paths'', JObj [(''/x'', JStr ''config'')]),
         (''decisive'', JList [JStr ''secrets''])])]
      (snd (snd (store_overrides (\<lambda>_. True) None (JObj [(''disabled'', JList [JStr ''wp-admin''])]) (None, builtin_signatures)))))) ''wp-admin'' = None"
proof -
  let ?ov = "\<lparr>o_added = [], o_disabled = [''wp-admin'']\<rparr>"
  have v: "validate_overrides (JObj [(''disabled'', JList [JStr ''wp-admin''])]) = Inr ?ov" by code_simp
  obtain s' where s: "store_overrides (\<lambda>_. True) None (JObj [(''disabled'', JList [JStr ''wp-admin''])]) (None, builtin_signatures) =
      (Inr ?ov, Some ?ov, s')"
    by (simp add: store_overrides_def v load_signatures_def file_tables_def)
  show ?thesis
    unfolding s snd_conv operator_rules_survive_reload [OF s refl, THEN conjunct2, THEN conjunct1] by (simp add: table_in_force_def)
qed

text \<open>Classification is what its comment says: an exact path wins; otherwise the first decisive segment among
  those looked at, even of an asset; otherwise the first segment with a category, unless the path is an asset or an
  endpoint of the sign-in service.\<close>

theorem decisive_segment_wins:
  "classify_path s path =
     (let cs = segment_categories s (tl (py_split_max (CHR ''/'') (MAX_MATCHED_SEGMENTS + 1) path)) in
      if path = [] \<or> path = ''/'' then []
      else if find_or path (scanner_paths s) \<noteq> [] then find_or path (scanner_paths s)
      else case find (category_is_decisive s) cs of
          Some c \<Rightarrow> c
        | None \<Rightarrow> if is_asset path \<or> is_authentication_endpoint path then [] else first_of cs)"
  by (simp add: classify_path_def classify_segments_first Let_def split: option.splits)

text \<open>C28. Settings of the contextual rules that were accepted have the type the detector relies on: identifiers are
  unique, scopes name one to eight host names and a usable path, exceptions expire within range and give a reason,
  and no rule about logins is ever set to enforce; saving keeps that, bumps the revision by one, and a refusal leaves
  everything as it was.\<close>

theorem accepted_detection_settings:
  "case replace_config s data c of
     (Inr new, c') \<Rightarrow> dc_saved c' = new \<and> dctx_config c' = new \<and> dc_revision new = dc_revision (dctx_config c) + 1 \<and>
       config_wf (new\<lparr>dc_revision := dc_revision (dctx_config c)\<rparr>)
   | (Inl e, c') \<Rightarrow> c' = c"
  using replace_config_cases by (fastforce split: prod.splits sum.splits)

end
