(* ===== verification/Update_Scope.thy ===== *)
theory Update_Scope
  imports Py_Regex Py_Json
begin

text \<open>
  Which playbook stages a source change needs, \<open>src/installer/update_scope.py\<close>: the manifest of a source
  tree, the comparison with the record of the last complete update, the map from paths to stages, and
  the record itself.

  A tree is what the file system and \<open>git ls-files\<close> say about it; SHA-256 is the argument \<open>sha256\<close>.
  The record is the parsed JSON document of its file, \<open>None\<close> when it is missing or unreadable; writing
  it can fail at each of its steps.  Patterns of \<open>fnmatchcase\<close> are those the module uses: no bracket
  expressions (\<open>patterns_have_no_brackets\<close>).
\<close>

section \<open>Patterns\<close>

function fnmatchcase :: "string \<Rightarrow> string \<Rightarrow> bool" where
  "fnmatchcase [] [] = True"
| "fnmatchcase (c # s) [] = False"
| "fnmatchcase [] (p # ps) = (p = CHR ''*'' \<and> fnmatchcase [] ps)"
| "fnmatchcase (c # s) (p # ps) =
     (if p = CHR ''*'' then fnmatchcase (c # s) ps \<or> fnmatchcase s (p # ps)
      else (p = CHR ''?'' \<or> p = c) \<and> fnmatchcase s ps)"
  by pat_completeness auto
termination by (relation "measure (\<lambda>(s, p). length s + length p)") auto

text \<open>The regular expression \<open>fnmatch.translate\<close> gives for such a pattern.\<close>

definition any_char :: rex where "any_char = RClass True []"

definition translate_char :: "char \<Rightarrow> rex" where
  "translate_char p = (if p = CHR ''*'' then RStar any_char else if p = CHR ''?'' then any_char
     else RClass False [(ord p, ord p)])"

definition translate :: "string \<Rightarrow> rex" where
  "translate pat = foldr (\<lambda>p r. RSeq (translate_char p) r) pat REmpty"

section \<open>The map\<close>

definition FULL :: string where "FULL = ''full''"
definition STATUS_TAG :: string where "STATUS_TAG = ''status''"

definition ADMIN_DIR :: string where "ADMIN_DIR = ''ansible/roles/haproxy-admin''"
definition HAPROXY_DIR :: string where "HAPROXY_DIR = ''ansible/roles/haproxy''"
definition CERT_DIR :: string where "CERT_DIR = ''ansible/roles/cert''"
definition AUTHELIA_DIR :: string where "AUTHELIA_DIR = ''ansible/roles/authelia''"

type_synonym scope_rule = "string \<times> string list"

definition SCOPE_RULES :: "scope_rule list" where
  "SCOPE_RULES =
    [(''.tests/*'', []),
     (''.github/*'', []),
     (''LICENSES/*'', []),
     (''LICENSE'', []),
     (''*.md'', []),
     (''.gitignore'', []),
     (''.gitattributes'', []),
     (''.dockerignore'', []),
     (''Dockerfile'', []),
     (''docker/*'', []),
     (''install.sh'', []),
     (''install-local.sh'', []),
     (''install-remote.sh'', []),
     (''easy-ha-proxy-helper.sh'', []),
     (''installer/requirements.txt'', [FULL]),
     (''installer/*'', []),
     (''ansible/callback_plugins/*'', []),
     (''ansible/roles/healthcheck/*'', []),
     (''ansible/roles/update_packages/*'', []),
     (ADMIN_DIR @ ''/files/easy-ha-proxy-guardd.py'', [''ha-adm-guardd'']),
     (ADMIN_DIR @ ''/files/scanner-signatures.json'', [''ha-adm-guardd'']),
     (ADMIN_DIR @ ''/templates/guardd.json.j2'', [''ha-adm-guardd'']),
     (ADMIN_DIR @ ''/templates/easy-ha-proxy-guardd.service.j2'', [''ha-adm-guardd'']),
     (ADMIN_DIR @ ''/tasks/guardd.yml'', [''ha-adm-guardd'']),
     (ADMIN_DIR @ ''/files/easy-ha-proxy-metricsd.py'', [''ha-adm-metricsd'']),
     (ADMIN_DIR @ ''/templates/metricsd.json.j2'', [''ha-adm-metricsd'']),
     (ADMIN_DIR @ ''/templates/easy-ha-proxy-metricsd.service.j2'', [''ha-adm-metricsd'']),
     (ADMIN_DIR @ ''/tasks/metricsd.yml'', [''ha-adm-metricsd'']),
     (ADMIN_DIR @ ''/files/easy-ha-proxy-alertd.py'', [''ha-adm-alertd'']),
     (ADMIN_DIR @ ''/files/easy_ha_proxy_alert_client.py'', [''ha-adm-alertd'']),
     (ADMIN_DIR @ ''/templates/alertd.json.j2'', [''ha-adm-alertd'']),
     (ADMIN_DIR @ ''/templates/easy-ha-proxy-alertd.service.j2'', [''ha-adm-alertd'']),
     (ADMIN_DIR @ ''/tasks/alertd.yml'', [''ha-adm-alertd'']),
     (ADMIN_DIR @ ''/files/haproxy-healthd.py'', [''ha-adm-healthd'']),
     (ADMIN_DIR @ ''/templates/healthd.json.j2'', [''ha-adm-healthd'']),
     (ADMIN_DIR @ ''/templates/haproxy-healthd.service.j2'', [''ha-adm-healthd'']),
     (ADMIN_DIR @ ''/tasks/healthd.yml'', [''ha-adm-healthd'']),
     (ADMIN_DIR @ ''/files/haproxy-controld.py'', [''ha-adm-controld'']),
     (ADMIN_DIR @ ''/templates/haproxy-controld.service.j2'', [''ha-adm-controld'']),
     (ADMIN_DIR @ ''/tasks/controld.yml'', [''ha-adm-controld'']),
     (ADMIN_DIR @ ''/files/easy-ha-proxy-backupd.py'', [''ha-adm-backupd'']),
     (ADMIN_DIR @ ''/files/easy-ha-proxy-backup-run.py'', [''ha-adm-backupd'']),
     (ADMIN_DIR @ ''/files/easy-ha-proxy-unit-failed.py'', [''ha-adm-backupd'']),
     (ADMIN_DIR @ ''/templates/easy-ha-proxy-backup.service.j2'', [''ha-adm-backupd'']),
     (ADMIN_DIR @ ''/templates/easy-ha-proxy-backup.timer.j2'', [''ha-adm-backupd'']),
     (ADMIN_DIR @ ''/templates/easy-ha-proxy-backupd.service.j2'', [''ha-adm-backupd'']),
     (ADMIN_DIR @ ''/templates/easy-ha-proxy-unit-failed@.service.j2'', [''ha-adm-backupd'']),
     (ADMIN_DIR @ ''/tasks/backupd.yml'', [''ha-adm-backupd'']),
     (ADMIN_DIR @ ''/files/easy-ha-proxy-updated.py'', [''ha-adm-updated'']),
     (ADMIN_DIR @ ''/templates/easy-ha-proxy-updated.service.j2'', [''ha-adm-updated'']),
     (ADMIN_DIR @ ''/tasks/updated.yml'', [''ha-adm-updated'']),
     (ADMIN_DIR @ ''/files/haproxy-certd.py'', [''ha-adm-daemons'']),
     (ADMIN_DIR @ ''/files/easy-ha-proxy-cert-deliver.py'', [''ha-adm-daemons'']),
     (ADMIN_DIR @ ''/templates/haproxy-certd.service.j2'', [''ha-adm-daemons'']),
     (ADMIN_DIR @ ''/tasks/certd.yml'', [''ha-adm-daemons'']),
     (ADMIN_DIR @ ''/tasks/dns-plugins.yml'', [''ha-adm-daemons'']),
     (ADMIN_DIR @ ''/tasks/daemons.yml'', [''ha-adm-daemons'']),
     (ADMIN_DIR @ ''/templates/journal-vacuum.service.j2'', [''ha-adm-journald'']),
     (ADMIN_DIR @ ''/templates/journal-vacuum.timer.j2'', [''ha-adm-journald'']),
     (ADMIN_DIR @ ''/tasks/journald-retention.yml'', [''ha-adm-journald'']),
     (ADMIN_DIR @ ''/files/haproxy_ban.rules'', [''ha-adm-install'']),
     (ADMIN_DIR @ ''/files/haproxy-udp-forward.py'', [''ha-adm-install'']),
     (ADMIN_DIR @ ''/templates/iptables-haproxy-ban.service.j2'', [''ha-adm-install'']),
     (ADMIN_DIR @ ''/templates/iptables-haproxy-udp.service.j2'', [''ha-adm-install'']),
     (ADMIN_DIR @ ''/tasks/iptables-ban.yml'', [''ha-adm-install'']),
     (ADMIN_DIR @ ''/tasks/iptables-udp.yml'', [''ha-adm-install'']),
     (ADMIN_DIR @ ''/tasks/install.yml'', [''ha-adm-install'']),
     (ADMIN_DIR @ ''/tasks/fs.yml'', [''ha-adm-install'']),
     (ADMIN_DIR @ ''/tasks/update_haproxy_admin.yml'', []),
     (HAPROXY_DIR @ ''/templates/haproxy.cfg.j2'', [''ha-cfg'', ''ha-adm-cfg'']),
     (HAPROXY_DIR @ ''/templates/haproxy-state-dump.*'', [''ha-cfg'']),
     (HAPROXY_DIR @ ''/tasks/config.yml'', [''ha-cfg'']),
     (HAPROXY_DIR @ ''/files/default-favicon.ico'', [''ha-install'']),
     (HAPROXY_DIR @ ''/templates/access_granted.http.j2'', [''ha-install'']),
     (HAPROXY_DIR @ ''/templates/maintenance.http.j2'', [''ha-install'']),
     (HAPROXY_DIR @ ''/templates/update-admin-rt.*'', [''ha-install'']),
     (HAPROXY_DIR @ ''/tasks/install.yml'', [''ha-install'']),
     (HAPROXY_DIR @ ''/tasks/package.yml'', [''ha-install'']),
     (HAPROXY_DIR @ ''/tasks/fs.yml'', [''ha-install'']),
     (HAPROXY_DIR @ ''/tasks/apparmor.yml'', [''apparmor'']),
     (HAPROXY_DIR @ ''/defaults/*'', [''ha-install'', ''ha-cfg'']),
     (HAPROXY_DIR @ ''/handlers/*'', [''ha-install'', ''ha-cfg'']),
     (HAPROXY_DIR @ ''/tasks/addadmin.yml'', []),
     (''ansible/roles/geoip_acl/*'', [''geo'']),
     (''ansible/roles/docker/*'', [''docker'']),
     (CERT_DIR @ ''/templates/905-haproxy-pems-reload.sh.j2'', [''crt-hooks'']),
     (CERT_DIR @ ''/templates/906-deliver-certificates.sh.j2'', [''crt-hooks'']),
     (CERT_DIR @ ''/tasks/hooks.yml'', [''crt-hooks'']),
     (CERT_DIR @ ''/templates/910-mail-notify.sh.j2'', [''crt-notify'']),
     (CERT_DIR @ ''/templates/mail-notify.json.j2'', [''crt-notify'']),
     (CERT_DIR @ ''/tasks/notify.yml'', [''crt-notify'']),
     (CERT_DIR @ ''/tasks/install.yml'', [''crt-install'']),
     (CERT_DIR @ ''/tasks/renew*.yml'', []),
     (CERT_DIR @ ''/templates/_san_flags.j2'', []),
     (CERT_DIR @ ''/tasks/rdg.yml'', []),
     (CERT_DIR @ ''/tasks/test.yml'', []),
     (CERT_DIR @ ''/tasks/remove_orphans.yml'', []),
     (AUTHELIA_DIR @ ''/files/authelia-bansd.py'', [''aut-daemons'']),
     (AUTHELIA_DIR @ ''/files/authelia-configd.py'', [''aut-daemons'']),
     (AUTHELIA_DIR @ ''/files/authelia-usersd.py'', [''aut-daemons'']),
     (AUTHELIA_DIR @ ''/templates/authelia-bans.sh.j2'', [''aut-daemons'']),
     (AUTHELIA_DIR @ ''/templates/authelia-bansd.service.j2'', [''aut-daemons'']),
     (AUTHELIA_DIR @ ''/templates/authelia-configd.service.j2'', [''aut-daemons'']),
     (AUTHELIA_DIR @ ''/templates/authelia-usersd.service.j2'', [''aut-daemons'']),
     (AUTHELIA_DIR @ ''/tasks/bansd.yml'', [''aut-daemons'']),
     (AUTHELIA_DIR @ ''/tasks/configd.yml'', [''aut-daemons'']),
     (AUTHELIA_DIR @ ''/tasks/usersd.yml'', [''aut-daemons'']),
     (AUTHELIA_DIR @ ''/tasks/daemons.yml'', [''aut-daemons''])]"

definition TAG_LABELS :: "(string \<times> string) list" where
  "TAG_LABELS =
    [(''ha-cfg'', ''HAProxy configuration''),
     (''ha-install'', ''HAProxy files''),
     (''apparmor'', ''AppArmor profile''),
     (''geo'', ''GeoIP''),
     (''docker'', ''Docker''),
     (''crt-install'', ''Certbot''),
     (''crt-hooks'', ''Certificate hooks''),
     (''crt-notify'', ''Certificate notifications''),
     (''ha-adm-guardd'', ''Adaptive protection''),
     (''ha-adm-metricsd'', ''Metrics''),
     (''ha-adm-alertd'', ''Alerts''),
     (''ha-adm-healthd'', ''Health monitor''),
     (''ha-adm-controld'', ''HAProxy control service''),
     (''ha-adm-backupd'', ''Backups''),
     (''ha-adm-updated'', ''Update service''),
     (''ha-adm-daemons'', ''Helper daemons''),
     (''ha-adm-journald'', ''Journal retention''),
     (''ha-adm-install'', ''Admin host setup''),
     (''ha-adm-cfg'', ''Web application'' @ [CHR 0x27] @ ''s copy of the HAProxy template''),
     (''aut-daemons'', ''Authelia helper daemons'')]"

definition MAX_LISTED_PATHS :: nat where "MAX_LISTED_PATHS = 20"

section \<open>The manifest of a tree\<close>

text \<open>A file with contents (\<open>None\<close>: it cannot be read), a symbolic link, a directory.\<close>

datatype fs_entry = FsFile "string option" | FsLink | FsDir

text \<open>\<open>ls_files\<close>: \<open>None\<close> when git is missing or takes too long, else its exit code and output.\<close>

record source_tree =
  has_git :: bool
  ls_files :: "(int \<times> string) option"
  entries :: "(string \<times> fs_entry) list"

datatype update_error = OSErr string | InstallerError string | SystemExitErr string

type_synonym manifest = "(string \<times> string) list"

definition SKIPPED_DIRS :: "string list" where
  "SKIPPED_DIRS = [''.git'', ''__pycache__'', ''.pytest_cache'', ''.mypy_cache'', ''node_modules'']"

definition SKIPPED_PATTERNS :: "string list" where
  "SKIPPED_PATTERNS = [''*.pyc'', ''*.retry'', ''.easy-ha-proxy-source-revision'', ''ansible/cache/*'',
     ''ansible/tcp.yml'', ''ansible/authelia_users_initial.yml'', ''ansible/roles/cert/files/*.pem'',
     ''ansible/roles/haproxy-admin.zip'']"

definition skipped :: "string \<Rightarrow> bool" where
  "skipped relative =
     (list_ex (\<lambda>part. part \<in> set SKIPPED_DIRS) (butlast (py_split (CHR ''/'') relative))
      \<or> list_ex (fnmatchcase relative) SKIPPED_PATTERNS)"

definition tracked_files :: "source_tree \<Rightarrow> string list option" where
  "tracked_files t =
     (if \<not> has_git t then None
      else case ls_files t of None \<Rightarrow> None
        | Some (rc, out) \<Rightarrow> if rc \<noteq> 0 then None else Some (filter (\<lambda>n. n \<noteq> []) (py_split (CHR 0x00) out)))"

definition is_file_entry :: "fs_entry \<Rightarrow> bool" where
  "is_file_entry e = (case e of FsFile _ \<Rightarrow> True | _ \<Rightarrow> False)"

definition walked_files :: "source_tree \<Rightarrow> string list" where
  "walked_files t = map fst (filter (\<lambda>(_, e). is_file_entry e) (entries t))"

fun manifest_of :: "(string \<Rightarrow> string) \<Rightarrow> source_tree \<Rightarrow> string list \<Rightarrow> manifest \<Rightarrow> update_error + manifest" where
  "manifest_of sha256 t [] m = Inr m"
| "manifest_of sha256 t (n # ns) m =
     (if skipped n then manifest_of sha256 t ns m
      else case map_of (entries t) n of
          Some (FsFile (Some c)) \<Rightarrow> manifest_of sha256 t ns (jput n (sha256 c) m)
        | Some (FsFile None) \<Rightarrow> Inl (OSErr n)
        | _ \<Rightarrow> manifest_of sha256 t ns m)"

definition source_manifest :: "(string \<Rightarrow> string) \<Rightarrow> source_tree \<Rightarrow> update_error + manifest" where
  "source_manifest sha256 t =
     manifest_of sha256 t (case tracked_files t of None \<Rightarrow> walked_files t | Some ns \<Rightarrow> ns) []"

section \<open>What a change needs\<close>

definition changed_paths :: "manifest \<Rightarrow> manifest \<Rightarrow> string list" where
  "changed_paths applied candidate =
     sort (map fst (filter (\<lambda>(path, digest). map_of applied path \<noteq> Some digest) candidate))"

fun first_match :: "string \<Rightarrow> scope_rule list \<Rightarrow> string list option" where
  "first_match relative [] = None"
| "first_match relative ((pattern, tags) # rules) =
     (if fnmatchcase relative pattern then Some tags else first_match relative rules)"

definition tags_for_path :: "string \<Rightarrow> string list option" where
  "tags_for_path relative = first_match relative SCOPE_RULES"

text \<open>The loop of \<open>scope_for\<close>: the tags, the paths no rule knows, and those that need everything.\<close>

fun sort_out :: "string list \<Rightarrow> string list \<times> string list \<times> string list \<Rightarrow> string list \<times> string list \<times> string list" where
  "sort_out [] acc = acc"
| "sort_out (relative # ps) (tags, unmapped, full_paths) =
     sort_out ps (case tags_for_path relative of
         None \<Rightarrow> (tags, unmapped @ [relative], full_paths)
       | Some found \<Rightarrow> if FULL \<in> set found then (tags, unmapped, full_paths @ [relative])
           else (tags @ found, unmapped, full_paths))"

record scope =
  s_full :: bool
  s_tags :: "string list"
  s_steps :: "string list"
  s_changed :: nat
  s_unmapped :: "string list"
  s_paths :: "string list"

definition label_of :: "string \<Rightarrow> string" where
  "label_of tag = (case map_of TAG_LABELS tag of None \<Rightarrow> tag | Some l \<Rightarrow> l)"

definition scope_for :: "string list \<Rightarrow> scope" where
  "scope_for paths =
     (let changed = sort (remdups paths);
          (tags, unmapped, full_paths) = sort_out changed ([], [], []);
          needs_full = (unmapped \<noteq> [] \<or> full_paths \<noteq> []);
          ordered = (if needs_full then [] else sort (remdups tags));
          ordered = (if ordered = [] then [] else ordered @ [STATUS_TAG])
      in \<lparr>s_full = needs_full, s_tags = ordered,
          s_steps = map label_of (filter (\<lambda>tag. tag \<noteq> STATUS_TAG) ordered),
          s_changed = length changed,
          s_unmapped = take MAX_LISTED_PATHS (unmapped @ full_paths),
          s_paths = take MAX_LISTED_PATHS changed\<rparr>)"

section \<open>The record of the last complete update\<close>

definition MANIFEST_SCHEMA :: int where "MANIFEST_SCHEMA = 1"

definition REVISION_RE :: rex where "REVISION_RE = RRep 40 64 (rng [(48, 57), (97, 102)] [])"

record applied =
  a_revision :: string
  a_files :: manifest
  a_recorded_at :: string

text \<open>\<open>data.get("schema") == MANIFEST_SCHEMA\<close>; in Python \<open>True == 1\<close>.\<close>

definition schema_ok :: "json \<Rightarrow> bool" where
  "schema_ok j = (case j of JInt i \<Rightarrow> i = MANIFEST_SCHEMA | JBool b \<Rightarrow> of_bool b = MANIFEST_SCHEMA | _ \<Rightarrow> False)"

definition digests_of :: "jobj \<Rightarrow> manifest" where
  "digests_of files = List.map_filter (\<lambda>(n, d). case d of JStr s \<Rightarrow> Some (n, s) | _ \<Rightarrow> None) files"

definition read_applied :: "json option \<Rightarrow> applied option" where
  "read_applied doc =
     (case doc of
        Some (JObj data) \<Rightarrow>
          (case jget ''files'' data of
             JObj files \<Rightarrow>
               if schema_ok (jget ''schema'' data) \<and> files \<noteq> [] then
                 Some \<lparr>a_revision = str_or (jget ''revision'' data) [], a_files = digests_of files,
                   a_recorded_at = str_or (jget ''recorded_at'' data) []\<rparr>
               else None
           | _ \<Rightarrow> None)
      | _ \<Rightarrow> None)"

text \<open>Which steps of a write fail: making the directory, the temporary file, and writing, chmod or
  replacing.\<close>

record write_faults =
  mkdir_fails :: bool
  mkstemp_fails :: bool
  replace_step_fails :: bool

definition clean_revision :: "string \<Rightarrow> string" where
  "clean_revision revision =
     (let r = py_lower (py_strip revision) in if rex_match REVISION_RE r then r else [])"

text \<open>The document with its keys sorted, as \<open>json.dump(..., sort_keys=True)\<close> writes it.\<close>

definition applied_payload :: "string \<Rightarrow> string \<Rightarrow> manifest \<Rightarrow> json" where
  "applied_payload now revision m =
     JObj [(''files'', JObj (map (\<lambda>(n, d). (n, JStr d)) (sort_key fst m))), (''recorded_at'', JStr now),
       (''revision'', JStr (clean_revision revision)), (''schema'', JInt MANIFEST_SCHEMA)]"

definition write_applied :: "(string \<Rightarrow> string) \<Rightarrow> write_faults \<Rightarrow> string \<Rightarrow> source_tree \<Rightarrow> string \<Rightarrow> json option
    \<Rightarrow> (update_error + unit) \<times> json option" where
  "write_applied sha256 faults now source_root revision doc =
     (if mkdir_fails faults then (Inl (OSErr ''mkdir''), doc)
      else case source_manifest sha256 source_root of
          Inl e \<Rightarrow> (Inl e, doc)
        | Inr m \<Rightarrow>
            if mkstemp_fails faults then (Inl (OSErr ''mkstemp''), doc)
            else if replace_step_fails faults then (Inl (OSErr ''replace''), doc)
            else (Inr (), Some (applied_payload now revision m)))"

record plan = scope +
  p_ready :: bool
  p_reason :: string
  p_applied_revision :: "string option"

definition plan_scope :: "(string \<Rightarrow> string) \<Rightarrow> json option \<Rightarrow> source_tree \<Rightarrow> update_error + plan" where
  "plan_scope sha256 doc candidate_root =
     (case read_applied doc of
        None \<Rightarrow> Inr \<lparr>s_full = True, s_tags = [], s_steps = [], s_changed = 0, s_unmapped = [], s_paths = [],
          p_ready = False, p_reason = ''no-applied-record'', p_applied_revision = None\<rparr>
      | Some a \<Rightarrow> ebind (source_manifest sha256 candidate_root) (\<lambda>m.
          let s = scope_for (changed_paths (a_files a) m) in
          Inr (scope.extend s (plan.fields (\<not> s_full s) (if s_full s then ''unmapped-paths'' else [])
            (Some (a_revision a))))))"

definition tags_text :: "string list \<Rightarrow> string" where
  "tags_text tags = py_join '','' tags"

section \<open>Facts\<close>

lemma patterns_have_no_brackets:
  "list_all (\<lambda>(p, _). CHR ''['' \<notin> set p) SCOPE_RULES" "list_all (\<lambda>p. CHR ''['' \<notin> set p) SKIPPED_PATTERNS"
  by code_simp+

lemma any_in_pow: "s \<in> lang_pow (length s) (lang any_char)"
proof (induction s)
  case (Cons c s)
  have "c # s = [c] @ s" "[c] \<in> lang any_char" by (simp_all add: any_char_def in_class_def)
  moreover have "length (c # s) = Suc (length s)" by simp
  ultimately show ?case using Cons unfolding \<open>length (c # s) = Suc (length s)\<close> lang_pow.simps(2) by blast
qed simp

lemma lang_any [simp]: "s \<in> lang any_char \<longleftrightarrow> (\<exists>c. s = [c])"
  by (auto simp: any_char_def in_class_def)

lemma lang_translate_char:
  "u \<in> lang (translate_char p) \<longleftrightarrow> p = CHR ''*'' \<or> (\<exists>c. u = [c] \<and> (p = CHR ''?'' \<or> p = c))"
proof (cases "p = CHR ''*''")
  case True
  then show ?thesis using any_in_pow [of u] by (simp add: translate_char_def) blast
qed (auto simp: translate_char_def in_class_def)

lemma translate_simps:
  "s \<in> lang (translate []) \<longleftrightarrow> s = []"
  "s \<in> lang (translate (p # ps)) \<longleftrightarrow> (\<exists>u v. s = u @ v \<and> u \<in> lang (translate_char p) \<and> v \<in> lang (translate ps))"
  by (auto simp: translate_def)

lemma translate_step:
  "s \<in> lang (translate (CHR ''*'' # ps)) \<longleftrightarrow> (\<exists>u v. s = u @ v \<and> v \<in> lang (translate ps))"
  "p \<noteq> CHR ''*'' \<Longrightarrow> s \<in> lang (translate (p # ps)) \<longleftrightarrow>
     (\<exists>c v. s = c # v \<and> (p = CHR ''?'' \<or> p = c) \<and> v \<in> lang (translate ps))"
  unfolding translate_simps lang_translate_char by auto (metis append_Cons append_Nil)+

text \<open>The matcher decides the regular expression the pattern stands for.\<close>

lemma fnmatchcase_lang: "fnmatchcase s pat \<longleftrightarrow> s \<in> lang (translate pat)"
proof (induction s pat rule: fnmatchcase.induct)
  case (3 p ps)
  then show ?case by (cases "p = CHR ''*''") (simp_all add: translate_step)
next
  case (4 c s p ps)
  show ?case
  proof (cases "p = CHR ''*''")
    case True
    have "(\<exists>u v. c # s = u @ v \<and> v \<in> L) \<longleftrightarrow> c # s \<in> L \<or> (\<exists>u v. s = u @ v \<and> v \<in> L)" for L
      by (auto simp: Cons_eq_append_conv)
    then show ?thesis using 4(1,2) True by (simp add: translate_step(1))
  next
    case False
    then show ?thesis using 4(3) by (auto simp: translate_step(2))
  qed
qed (simp_all add: translate_simps)

end
