(* ===== verification/Update_Command.thy ===== *)
theory Update_Command
  imports Update_Scope
begin

text \<open>
  The update command of the installer, \<open>command_update\<close> of \<open>src/installer/easy_ha_proxy.py\<close>: refreshing the
  managed source, choosing the playbook stages, running them, and recording a complete update.

  The state is what these steps read and change: the managed source and its revision, the record, the
  pending and complete marks and the source channel of the metadata file, and the host.  The host
  itself (\<open>'h\<close>), Ansible, pip and git are fields of the environment, which also says which step fails
  with which error.  The steps that write other configuration files (secrets, the image channel, the
  copies of the panel's settings) only appear as steps that may fail.  Restarting into the
  refreshed installer is a second pass of the command, which does not fetch again.
\<close>

section \<open>State and environment\<close>

record 'h inst =
  src_tree :: source_tree
  head_rev :: "string option"
  applied_doc :: "json option"
  cfg_pending :: bool
  install_complete :: bool
  src_channel :: string
  host :: 'h

record 'h update_env =
  sha256 :: "string \<Rightarrow> string"
  lock_fault :: "update_error option"
  managed_path :: bool
  branch_valid :: bool
  remote :: "update_error + source_tree \<times> string"
  replace_fault :: "(update_error \<times> source_tree) option"
  executables_fault :: "update_error option"
  secrets_fault :: "update_error option"
  persist_fault :: "update_error option"
  sync_fault :: "update_error option"
  dependencies :: "source_tree \<Rightarrow> 'h \<Rightarrow> update_error option \<times> 'h"
  syntax_fault :: "update_error option"
  playbook :: "string \<Rightarrow> (string \<times> string) list \<Rightarrow> source_tree \<Rightarrow> 'h \<Rightarrow> update_error option \<times> 'h"
  record_faults :: write_faults
  stamp_now :: string
  mark_fault :: "update_error option"

record update_args =
  ui_only :: bool
  component :: string
  source_channel :: "string option"
  no_fetch :: bool
  expected_source_revision :: "string option"
  no_full_fallback :: bool

type_synonym ('h, 'a) uact = "'h inst \<Rightarrow> (update_error + 'a) \<times> 'h inst"

definition ubind :: "('h, 'a) uact \<Rightarrow> ('a \<Rightarrow> ('h, 'b) uact) \<Rightarrow> ('h, 'b) uact" where
  "ubind m k s = (case m s of (Inl e, s') \<Rightarrow> (Inl e, s') | (Inr x, s') \<Rightarrow> k x s')"

definition uret :: "'a \<Rightarrow> ('h, 'a) uact" where "uret x s = (Inr x, s)"

definition uraise :: "update_error \<Rightarrow> ('h, 'a) uact" where "uraise e s = (Inl e, s)"

definition step_may_fail :: "update_error option \<Rightarrow> ('h, unit) uact" where
  "step_may_fail f = (case f of None \<Rightarrow> uret () | Some e \<Rightarrow> uraise e)"

section \<open>Stages\<close>

definition update_tag_list :: "string list" where
  "update_tag_list = [''crt-install'', ''crt-hooks'', ''crt-notify'', ''ha-install'', ''apparmor'', ''geo'', ''ha-cfg'',
     ''docker'', ''aut-install'', ''aut-update'', ''ha-adm-install'', ''ha-adm-healthd'', ''ha-adm-cfg'',
     ''ha-adm-controld'', ''ha-adm-backupd'', ''ha-adm-updated'', ''ha-adm-metricsd'', ''ha-adm-guardd'',
     ''ha-adm-alertd'', ''ha-adm-journald'', ''ha-adm-update'', ''ha-adm-start'', ''status'']"

definition UPDATE_TAGS :: string where "UPDATE_TAGS = py_join '','' update_tag_list"

definition UI_TAGS :: string where
  "UI_TAGS = py_join '','' [''ha-cfg'', ''aut-daemons'', ''ha-adm-daemons'', ''ha-adm-healthd'', ''ha-adm-cfg'',
     ''ha-adm-controld'', ''ha-adm-backupd'', ''ha-adm-updated'', ''ha-adm-metricsd'', ''ha-adm-guardd'',
     ''ha-adm-alertd'', ''ha-adm-update'', ''ha-adm-start'', ''status'']"

definition DAEMON_TAGS :: string where "DAEMON_TAGS = ''aut-daemons,ha-adm-daemons,status''"

definition HOST_SERVICE_TAGS :: string where
  "HOST_SERVICE_TAGS = py_join '','' [''crt-install'', ''crt-hooks'', ''crt-notify'', ''ha-install'', ''apparmor'', ''geo'',
     ''ha-cfg'', ''ha-adm-install'', ''ha-adm-healthd'', ''ha-adm-backupd'', ''ha-adm-updated'', ''ha-adm-metricsd'',
     ''ha-adm-guardd'', ''ha-adm-alertd'', ''ha-adm-journald'', ''aut-install'', ''status'']"

definition CHANGES_COMPONENT :: string where "CHANGES_COMPONENT = ''changes''"

definition UPDATE_COMPONENT_TAGS :: "(string \<times> string) list" where
  "UPDATE_COMPONENT_TAGS = [(''all'', UPDATE_TAGS), (CHANGES_COMPONENT, []), (''ui'', UI_TAGS), (''daemons'', DAEMON_TAGS),
     (''services'', HOST_SERVICE_TAGS), (''containers'', ''aut-update,ha-adm-update,status''),
     (''admin-container'', ''ha-adm-cfg,ha-adm-update,status''), (''authelia-container'', ''aut-update,status''),
     (''os'', ''upgrade,status'')]"

definition SOURCE_UPDATE_COMPONENTS :: "string list" where
  "SOURCE_UPDATE_COMPONENTS = [''all'', ''daemons'', ''services'', CHANGES_COMPONENT]"

section \<open>The managed source\<close>

definition normalize_source_revision :: "string option \<Rightarrow> update_error + string option" where
  "normalize_source_revision v =
     (case v of None \<Rightarrow> Inr None
      | Some t \<Rightarrow> let revision = py_lower (py_strip t) in
          if rex_match REVISION_RE revision then Inr (Some revision)
          else Inl (InstallerError ''Expected source revision must be a full Git object ID.''))"

text \<open>What \<open>git rev-parse\<close> prints for the revision, checked.\<close>

definition git_revision :: "string option \<Rightarrow> update_error + string" where
  "git_revision out =
     (case out of
        Some t \<Rightarrow> let revision = py_lower (py_strip t) in
          if rex_match REVISION_RE revision then Inr revision
          else Inl (InstallerError ''Could not resolve fetched source revision'')
      | None \<Rightarrow> Inl (InstallerError ''Could not resolve fetched source revision''))"

definition REQUIRED_FILES :: "string list" where
  "REQUIRED_FILES = [''installer/easy_ha_proxy.py'', ''installer/requirements.txt'', ''ansible/easy-ha-proxy.yml'',
     ''ansible/requirements.yml'']"

definition tree_has_file :: "source_tree \<Rightarrow> string \<Rightarrow> bool" where
  "tree_has_file t n = (case map_of (entries t) n of Some e \<Rightarrow> is_file_entry e | None \<Rightarrow> False)"

text \<open>The fetched tree takes the place of the source; a step that fails half way may leave another one.\<close>

definition replace_source :: "'h update_env \<Rightarrow> source_tree \<Rightarrow> string \<Rightarrow> ('h, bool) uact" where
  "replace_source env t revision s =
     (case replace_fault env of
        Some (e, t') \<Rightarrow> (Inl e, s\<lparr>src_tree := t'\<rparr>)
      | None \<Rightarrow> ubind (step_may_fail (executables_fault env)) (\<lambda>_. uret True) (s\<lparr>src_tree := t, head_rev := Some revision\<rparr>))"

definition update_managed_source :: "'h update_env \<Rightarrow> string option \<Rightarrow> ('h, bool) uact" where
  "update_managed_source env expected s =
     (if \<not> managed_path env then (Inr False, s)
      else if \<not> branch_valid env then (Inl (InstallerError ''Invalid git branch recorded in metadata''), s)
      else case remote env of
          Inl e \<Rightarrow> (Inl e, s)
        | Inr (t, out) \<Rightarrow>
            if \<not> has_git (src_tree s) \<and> \<not> list_all (tree_has_file t) REQUIRED_FILES then
              (Inl (InstallerError ''Downloaded source is incomplete''), s)
            else (case git_revision (Some out) of
                Inl e \<Rightarrow> (Inl e, s)
              | Inr fetched \<Rightarrow>
                  if expected \<noteq> None \<and> expected \<noteq> Some fetched then
                    (Inl (InstallerError ((if has_git (src_tree s) then ''The fetched'' else ''The downloaded'')
                       @ '' source revision changed after the update check; run the check again before applying.'')), s)
                  else replace_source env t fetched s))"

definition reexec_check :: "('h, unit) uact" where
  "reexec_check s = (if tree_has_file (src_tree s) ''installer/easy-ha-proxy'' then (Inr (), s)
     else (Inl (InstallerError ''Refreshed installer entrypoint is missing''), s))"

section \<open>Scope and record\<close>

definition changes_scope :: "'h update_env \<Rightarrow> ('h, plan) uact" where
  "changes_scope env s = (plan_scope (sha256 env) (applied_doc s) (src_tree s), s)"

definition record_applied_source :: "'h update_env \<Rightarrow> ('h, unit) uact" where
  "record_applied_source env s =
     (let revision = (case git_revision (head_rev s) of Inl _ \<Rightarrow> [] | Inr r \<Rightarrow> r) in
      (Inr (), s\<lparr>applied_doc := snd (write_applied (sha256 env) (record_faults env) (stamp_now env) (src_tree s)
        revision (applied_doc s))\<rparr>))"

definition scope_tags_text :: "plan \<Rightarrow> string" where
  "scope_tags_text p = py_join '','' (if s_tags p = [] then [''status''] else s_tags p)"

definition update_tags_for_args :: "'h update_env \<Rightarrow> update_args \<Rightarrow> ('h, string) uact" where
  "update_tags_for_args env args =
     (if ui_only args \<and> component args \<noteq> ''all'' then
        uraise (SystemExitErr ''--ui-only cannot be combined with --component'')
      else let cmp = (if ui_only args then ''ui'' else component args) in
        if cmp = CHANGES_COMPONENT then
          ubind (changes_scope env) (\<lambda>p. uret (if s_full p then UPDATE_TAGS else scope_tags_text p))
        else case map_of UPDATE_COMPONENT_TAGS cmp of
            None \<Rightarrow> uraise (SystemExitErr ''Unsupported update component'')
          | Some t \<Rightarrow> uret t)"

section \<open>The command\<close>

definition mark_installation_complete :: "'h update_env \<Rightarrow> ('h, unit) uact" where
  "mark_installation_complete env =
     ubind (step_may_fail (mark_fault env)) (\<lambda>_ s. (Inr (), s\<lparr>install_complete := True, cfg_pending := False\<rparr>))"

definition persist_source_channel :: "'h update_env \<Rightarrow> string option \<Rightarrow> ('h, unit) uact" where
  "persist_source_channel env channel =
     (case channel of None \<Rightarrow> step_may_fail (persist_fault env)
      | Some t \<Rightarrow> let c = py_lower (py_strip t) in
          if c \<notin> {''github'', ''local''} then uraise (InstallerError ''Source channel must be github or local.'')
          else ubind (step_may_fail (persist_fault env)) (\<lambda>_ s. (Inr (), s\<lparr>src_channel := c\<rparr>)))"

definition sync_runtime_dependencies :: "'h update_env \<Rightarrow> ('h, unit) uact" where
  "sync_runtime_dependencies env s =
     (case dependencies env (src_tree s) (host s) of
        (None, h) \<Rightarrow> (Inr (), s\<lparr>host := h\<rparr>)
      | (Some e, h) \<Rightarrow> (Inl e, s\<lparr>host := h\<rparr>))"

definition run_playbook :: "'h update_env \<Rightarrow> string \<Rightarrow> (string \<times> string) list \<Rightarrow> ('h, unit) uact" where
  "run_playbook env tags extra s =
     (let extra' = (if ''status'' \<in> set (py_split (CHR '','') tags)
                    then extra @ [(''status_check_fail_on_error'', ''true'')] else extra)
      in case playbook env tags extra' (src_tree s) (host s) of
          (None, h) \<Rightarrow> (Inr (), s\<lparr>host := h\<rparr>)
        | (Some e, h) \<Rightarrow> (Inl e, s\<lparr>host := h\<rparr>))"

text \<open>The stages of a changes-only update (empty when it has become a full one), and the component.\<close>

definition choose_changes :: "'h update_env \<Rightarrow> update_args \<Rightarrow> bool \<Rightarrow> string \<Rightarrow> ('h, string \<times> string) uact" where
  "choose_changes env args managed_pending cmp =
     (if cmp \<noteq> CHANGES_COMPONENT then uret (cmp, [])
      else ubind (changes_scope env) (\<lambda>p.
        if (managed_pending \<or> s_full p) \<and> no_full_fallback args then
          uraise (InstallerError ''These changes need the full stack, which this update was not approved for. Check for updates again.'')
        else if managed_pending \<or> s_full p then uret (''all'', [])
        else uret (cmp, scope_tags_text p)))"

definition chosen_tags :: "'h update_env \<Rightarrow> update_args \<Rightarrow> string \<Rightarrow> string \<Rightarrow> ('h, string) uact" where
  "chosen_tags env args cmp changes_tags =
     (if changes_tags \<noteq> [] then uret changes_tags
      else if cmp = ''all'' then uret UPDATE_TAGS else update_tags_for_args env args)"

definition apply_stages :: "'h update_env \<Rightarrow> update_args \<Rightarrow> bool \<Rightarrow> bool \<Rightarrow> string \<Rightarrow> string \<Rightarrow> ('h, string) uact" where
  "apply_stages env args refresh managed_pending cmp changes_tags =
     ubind (if cmp = ''all'' \<or> (cmp \<in> {''daemons'', ''services''} \<and> refresh) then sync_runtime_dependencies env else uret ())
       (\<lambda>_. ubind (step_may_fail (syntax_fault env))
       (\<lambda>_. ubind (chosen_tags env args cmp changes_tags)
       (\<lambda>tags. ubind (run_playbook env tags
           (if managed_pending \<and> cmp = ''all'' then [(''haproxy_admin_sync_managed_config'', ''true'')] else []))
       (\<lambda>_. ubind (if cmp = ''all'' \<or> changes_tags \<noteq> [] then record_applied_source env else uret ())
       (\<lambda>_. ubind (if managed_pending \<and> cmp \<noteq> ''all'' then uret () else mark_installation_complete env)
       (\<lambda>_. uret tags))))))"

definition update_pass :: "'h update_env \<Rightarrow> update_args \<Rightarrow> string \<Rightarrow> string option \<Rightarrow> bool \<Rightarrow> bool \<Rightarrow> ('h, string) uact" where
  "update_pass env args channel expected refresh refreshed s =
     (let cmp = (if ui_only args then ''ui'' else component args) in
      ubind (\<lambda>s. (if refreshed \<and> expected \<noteq> None then
                (case git_revision (head_rev s) of Inl e \<Rightarrow> Inl e
                 | Inr active \<Rightarrow> if Some active \<noteq> expected then
                     Inl (InstallerError ''The active source does not match the revision approved by the update plan.'')
                     else Inr ())
              else Inr (), s))
        (\<lambda>_. ubind (step_may_fail (secrets_fault env))
        (\<lambda>_. ubind (persist_source_channel env (if \<not> no_fetch args \<or> source_channel args \<noteq> None then Some channel else None))
        (\<lambda>_ s. (let managed_pending = cfg_pending s in
           ubind (if managed_pending then uret () else step_may_fail (sync_fault env))
             (\<lambda>_. ubind (choose_changes env args managed_pending cmp)
             (\<lambda>(cmp', changes_tags). apply_stages env args refresh managed_pending cmp' changes_tags)) s)))) s)"

definition channel_for :: "update_args \<Rightarrow> string \<Rightarrow> string" where
  "channel_for args configured =
     (case source_channel args of Some c \<Rightarrow> c
      | None \<Rightarrow> if no_fetch args \<and> py_strip configured \<in> {''github'', ''local''} then py_strip configured else ''github'')"

definition command_update :: "'h update_env \<Rightarrow> update_args \<Rightarrow> ('h, string) uact" where
  "command_update env args =
     ubind (step_may_fail (lock_fault env)) (\<lambda>_ s.
       let cmp = (if ui_only args then ''ui'' else component args) in
       case normalize_source_revision (expected_source_revision args) of
         Inl e \<Rightarrow> (Inl e, s)
       | Inr expected \<Rightarrow>
           let channel = channel_for args (src_channel s);
               fetch_source = (channel = ''github'' \<and> \<not> no_fetch args);
               refresh = (fetch_source \<and> cmp \<in> set SOURCE_UPDATE_COMPONENTS)
           in if expected \<noteq> None \<and> channel \<noteq> ''github'' then
                (Inl (InstallerError ''An expected source revision can only be used with the GitHub source channel.''), s)
              else if expected \<noteq> None \<and> cmp \<notin> set SOURCE_UPDATE_COMPONENTS then
                (Inl (InstallerError ''An expected source revision is only valid for a source update component.''), s)
              else if refresh then
                ubind (update_managed_source env expected) (\<lambda>replaced.
                  if replaced then ubind reexec_check (\<lambda>_. update_pass env args channel expected refresh True)
                  else update_pass env args channel expected refresh False) s
              else update_pass env args channel expected refresh False s)"

end
