(* ===== verification/Update_Facts.thy ===== *)
theory Update_Facts
  imports Update_Command
begin

text \<open>
  Facts about updates: the closed form of the scope of a set of paths, the record read back, what one
  run of the command does to the host and the record, and histories of commands with the manifests seen
  since the last record.
\<close>

section \<open>The scope of a set of paths\<close>

definition unknown_path :: "string \<Rightarrow> bool" where
  "unknown_path p = (tags_for_path p = None)"

definition wants_full :: "string \<Rightarrow> bool" where
  "wants_full p = (case tags_for_path p of None \<Rightarrow> False | Some ts \<Rightarrow> FULL \<in> set ts)"

definition stage_tags :: "string \<Rightarrow> string list" where
  "stage_tags p = (case tags_for_path p of None \<Rightarrow> [] | Some ts \<Rightarrow> if FULL \<in> set ts then [] else ts)"

lemma sort_out_closed:
  "sort_out ps (t, u, f) = (t @ concat (map stage_tags ps), u @ filter unknown_path ps, f @ filter wants_full ps)"
  by (induction ps arbitrary: t u f) (auto simp: unknown_path_def wants_full_def stage_tags_def split: option.splits)

lemma scope_full: "s_full (scope_for ps) \<longleftrightarrow> (\<exists>p \<in> set ps. unknown_path p \<or> wants_full p)"
  by (auto simp: scope_for_def sort_out_closed Let_def filter_empty_conv)

lemma scope_tags:
  assumes "\<not> s_full (scope_for ps)"
  shows "s_tags (scope_for ps) =
    (let ts = sort (remdups (concat (map stage_tags (sort (remdups ps))))) in if ts = [] then [] else ts @ [STATUS_TAG])"
  using assms by (auto simp: scope_for_def sort_out_closed Let_def)

lemma scope_tags_set:
  assumes "\<not> s_full (scope_for ps)"
  shows "set (s_tags (scope_for ps)) =
    (let T = \<Union> (set ` stage_tags ` set ps) in if T = {} then {} else insert STATUS_TAG T)"
proof -
  let ?ts = "sort (remdups (concat (map stage_tags (sort (remdups ps)))))"
  have "set ?ts = \<Union> (set ` stage_tags ` set ps)" by auto
  moreover from this have "?ts = [] \<longleftrightarrow> \<Union> (set ` stage_tags ` set ps) = {}" by (metis set_empty)
  ultimately show ?thesis unfolding scope_tags [OF assms] Let_def by simp
qed

lemma stages_covered: "\<not> s_full (scope_for ps) \<Longrightarrow> p \<in> set ps \<Longrightarrow> set (stage_tags p) \<subseteq> set (s_tags (scope_for ps))"
  by (auto simp: scope_tags_set Let_def)

lemma known_path_tags:
  "\<not> s_full (scope_for ps) \<Longrightarrow> p \<in> set ps \<Longrightarrow> tags_for_path p = Some (stage_tags p) \<and> FULL \<notin> set (stage_tags p)"
  by (fastforce simp: scope_full unknown_path_def wants_full_def stage_tags_def split: option.splits if_splits)

section \<open>Stage names in one text\<close>

lemma py_split_concat:
  "sep \<notin> set s \<Longrightarrow> py_split sep (s @ sep # t) = s # py_split sep t"
  by (induction s) auto

lemma py_split_single: "sep \<notin> set s \<Longrightarrow> py_split sep s = [s]"
  by (induction s) auto

lemma py_split_of_join:
  "ts \<noteq> [] \<Longrightarrow> \<forall>t \<in> set ts. sep \<notin> set t \<Longrightarrow> py_split sep (py_join [sep] ts) = ts"
  by (induction "[sep]" ts rule: py_join.induct) (auto simp: py_split_concat py_split_single)

lemma first_match_in: "first_match p rs = Some ts \<Longrightarrow> \<exists>pat. (pat, ts) \<in> set rs"
  by (induction p rs rule: first_match.induct) (auto split: if_splits)

lemma rule_tags_plain: "list_all (\<lambda>(_, ts). list_all (\<lambda>t. CHR '','' \<notin> set t \<and> t \<noteq> []) ts) SCOPE_RULES"
  by code_simp

lemma stage_tags_plain:
  assumes "t \<in> set (stage_tags p)"
  shows "CHR '','' \<notin> set t"
proof -
  from assms obtain ts where "tags_for_path p = Some ts" and t: "t \<in> set ts"
    by (cases "tags_for_path p") (auto simp: stage_tags_def split: if_splits)
  then obtain pat where "(pat, ts) \<in> set SCOPE_RULES" using first_match_in unfolding tags_for_path_def by blast
  then show ?thesis using rule_tags_plain t unfolding list_all_iff by blast
qed

lemma scope_tags_plain: "t \<in> set (s_tags (scope_for ps)) \<Longrightarrow> CHR '','' \<notin> set t"
  by (cases "s_full (scope_for ps)")
     (auto simp: scope_tags_set Let_def STATUS_TAG_def stage_tags_plain split: if_splits,
      auto simp: scope_for_def Let_def sort_out_closed)

section \<open>Manifests and the record\<close>

lemma manifest_of_distinct:
  "manifest_of sha t ns m = Inr m' \<Longrightarrow> distinct (map fst m) \<Longrightarrow> distinct (map fst m')"
  by (induction sha t ns m rule: manifest_of.induct)
     (auto simp: distinct_update split: if_splits option.splits fs_entry.splits)

lemma manifest_distinct: "source_manifest sha t = Inr m \<Longrightarrow> distinct (map fst m)"
  by (auto simp: source_manifest_def dest: manifest_of_distinct)

lemma changed_paths_set:
  "set (changed_paths a m) = {p. \<exists>d. (p, d) \<in> set m \<and> map_of a p \<noteq> Some d}"
  by (force simp: changed_paths_def)

lemma changed_paths_iff:
  "distinct (map fst m) \<Longrightarrow> p \<in> set (changed_paths a m) \<longleftrightarrow> (\<exists>d. map_of m p = Some d \<and> map_of a p \<noteq> Some d)"
  by (simp add: changed_paths_set)

lemma map_of_sort_key: "distinct (map fst m) \<Longrightarrow> map_of (sort_key fst m) = map_of m"
  by (rule map_of_inject_set [THEN iffD2]) (auto simp: distinct_map)

lemma digests_of_written: "digests_of (map (\<lambda>(n, d). (n, JStr d)) m) = m"
  by (induction m) (auto simp: digests_of_def map_filter_def)

lemma read_written:
  "read_applied (Some (applied_payload now revision m)) =
     (if m = [] then None
      else Some \<lparr>a_revision = clean_revision revision, a_files = sort_key fst m, a_recorded_at = now\<rparr>)"
  by (cases m)
     (auto simp: read_applied_def applied_payload_def digests_of_written schema_ok_def str_or_def jor_def
       py_str_def MANIFEST_SCHEMA_def)

section \<open>One run of the command\<close>

lemma ubind_eq:
  "ubind m k s = (r, s') \<longleftrightarrow> (\<exists>e s1. m s = (Inl e, s1) \<and> r = Inl e \<and> s' = s1) \<or> (\<exists>x s1. m s = (Inr x, s1) \<and> k x s1 = (r, s'))"
  by (auto simp: ubind_def split: prod.splits sum.splits)

text \<open>What the run of a command leaves alone: the source, the host and the record.\<close>

definition quiet :: "('h, 'a) uact \<Rightarrow> bool" where
  "quiet m = (\<forall>s r s'. m s = (r, s') \<longrightarrow> src_tree s' = src_tree s \<and> host s' = host s \<and> applied_doc s' = applied_doc s)"

lemma quietD: "quiet m \<Longrightarrow> m s = (r, s') \<Longrightarrow> src_tree s' = src_tree s \<and> host s' = host s \<and> applied_doc s' = applied_doc s"
  by (auto simp: quiet_def)

named_theorems quiet_rules

lemma quiet_basic [quiet_rules]: "quiet (uret x)" "quiet (uraise e)" "quiet (step_may_fail f)" "quiet reexec_check"
  by (auto simp: quiet_def uret_def uraise_def step_may_fail_def reexec_check_def split: option.splits if_splits)

lemma quiet_ubind [quiet_rules]: "quiet m \<Longrightarrow> (\<And>x. quiet (k x)) \<Longrightarrow> quiet (ubind m k)"
  unfolding quiet_def ubind_eq by metis

lemma quiet_scope [quiet_rules]: "quiet (changes_scope env)"
  by (auto simp: quiet_def changes_scope_def)

lemma quiet_if [quiet_rules]: "(b \<Longrightarrow> quiet m) \<Longrightarrow> (\<not> b \<Longrightarrow> quiet n) \<Longrightarrow> quiet (if b then m else n)"
  by simp

lemma quiet_steps [quiet_rules]:
  "quiet (mark_installation_complete env)" "quiet (persist_source_channel env c)" "quiet (update_tags_for_args env args)"
  "quiet (choose_changes env args mp cmp)" "quiet (chosen_tags env args cmp ct)"
proof -
  show "quiet (mark_installation_complete env)"
    unfolding mark_installation_complete_def by (intro quiet_rules) (auto simp: quiet_def)
  have "quiet (\<lambda>s. (Inr (), s\<lparr>src_channel := c\<rparr>))" for c by (auto simp: quiet_def)
  then show "quiet (persist_source_channel env c)"
    unfolding persist_source_channel_def Let_def by (auto intro!: quiet_rules split: option.splits)
  show t: "quiet (update_tags_for_args env args)"
    unfolding update_tags_for_args_def Let_def by (auto intro!: quiet_rules split: option.splits)
  show "quiet (choose_changes env args mp cmp)"
    unfolding choose_changes_def by (intro quiet_rules)
  show "quiet (chosen_tags env args cmp ct)"
    unfolding chosen_tags_def by (intro quiet_rules t)
qed

text \<open>The source is replaced before anything else is touched.\<close>

lemma managed_source_frame:
  "update_managed_source env expected s = (r, s') \<Longrightarrow>
     host s' = host s \<and> applied_doc s' = applied_doc s \<and> cfg_pending s' = cfg_pending s"
  by (auto simp: update_managed_source_def replace_source_def ubind_def step_may_fail_def uret_def uraise_def
      split: if_splits sum.splits prod.splits option.splits)

lemma record_outcome:
  assumes "record_applied_source env s = (r, s')"
  shows "r = Inr () \<and> src_tree s' = src_tree s \<and> host s' = host s \<and>
    (applied_doc s' = applied_doc s \<or>
     (\<exists>revision m. source_manifest (sha256 env) (src_tree s) = Inr m \<and>
        applied_doc s' = Some (applied_payload (stamp_now env) revision m)))"
  using assms by (auto simp: record_applied_source_def write_applied_def Let_def split: if_splits sum.splits)

text \<open>What the end of a successful run writes.\<close>

definition recorded :: "'h update_env \<Rightarrow> 'h inst \<Rightarrow> json option \<Rightarrow> bool" where
  "recorded env s doc = (\<exists>revision m. source_manifest (sha256 env) (src_tree s) = Inr m \<and>
     doc = Some (applied_payload (stamp_now env) revision m))"

lemma finish_outcome:
  assumes "ubind (if b then record_applied_source env else uret ())
      (\<lambda>_. ubind (if c then uret () else mark_installation_complete env) (\<lambda>_. uret tags)) s = (r, s')"
  shows "src_tree s' = src_tree s \<and> host s' = host s \<and> (\<forall>T. r = Inr T \<longrightarrow> T = tags) \<and>
    (applied_doc s' = applied_doc s \<or> b \<and> recorded env s (applied_doc s'))"
proof -
  obtain s1 where 1: "(if b then record_applied_source env else uret ()) s = (Inr (), s1)"
    and 2: "ubind (if c then uret () else mark_installation_complete env) (\<lambda>_. uret tags) s1 = (r, s')"
    using assms unfolding ubind_eq by (auto simp: record_applied_source_def uret_def Let_def split: if_splits)
  have "src_tree s1 = src_tree s \<and> host s1 = host s \<and> (applied_doc s1 = applied_doc s \<or> b \<and> recorded env s (applied_doc s1))"
    using 1 by (cases b) (auto simp: uret_def recorded_def dest!: record_outcome)
  moreover have "quiet (ubind (if c then uret () else mark_installation_complete env) (\<lambda>_. uret tags))"
    by (intro quiet_rules)
  note quietD [OF this 2]
  moreover have "\<forall>T. r = Inr T \<longrightarrow> T = tags"
    using 2 by (auto simp: ubind_eq uret_def)
  ultimately show ?thesis by auto
qed

text \<open>The whole run from the dependencies on: either it stops before the playbook, or the playbook runs the
  stages \<open>T\<close>, and the record is only written after it has succeeded.\<close>

definition ran :: "'h update_env \<Rightarrow> string \<Rightarrow> bool \<Rightarrow> 'h inst \<Rightarrow> update_error + string \<Rightarrow> 'h inst \<Rightarrow> bool" where
  "ran env T complete s r s' =
     (\<exists>h. (h = host s \<or> (\<exists>e. dependencies env (src_tree s') (host s) = (e, h))) \<and>
       (host s' = h \<and> applied_doc s' = applied_doc s \<and> isl r
        \<or> (\<exists>extra e. playbook env T extra (src_tree s') h = (e, host s') \<and>
             (e \<noteq> None \<longrightarrow> isl r) \<and>
             (applied_doc s' = applied_doc s \<or> e = None \<and> complete \<and> recorded env s' (applied_doc s')))))"

definition stages_named :: "string \<Rightarrow> string \<Rightarrow> string \<Rightarrow> bool" where
  "stages_named cmp ct T = ((ct \<noteq> [] \<longrightarrow> T = ct) \<and> (ct = [] \<and> cmp = ''all'' \<longrightarrow> T = UPDATE_TAGS))"

lemma dependencies_outcome:
  assumes "(if b then sync_runtime_dependencies env else uret ()) s = (r, s')"
  shows "src_tree s' = src_tree s \<and> applied_doc s' = applied_doc s \<and>
    (host s' = host s \<or> (\<exists>e. dependencies env (src_tree s) (host s) = (e, host s')))"
  using assms by (auto simp: sync_runtime_dependencies_def uret_def split: if_splits prod.splits option.splits)

lemma playbook_outcome:
  assumes "run_playbook env tags extra s = (r, s')"
  shows "src_tree s' = src_tree s \<and> applied_doc s' = applied_doc s \<and>
    (\<exists>extra' e. playbook env tags extra' (src_tree s) (host s) = (e, host s') \<and> isl r = (e \<noteq> None))"
  using assms by (fastforce simp: run_playbook_def Let_def split: if_splits prod.splits option.splits)

lemma ranI:
  assumes "h = host s \<or> (\<exists>e. dependencies env (src_tree s') (host s) = (e, h))"
    and "playbook env T extra (src_tree s') h = (e, host s')" and "e \<noteq> None \<longrightarrow> isl r"
    and "applied_doc s' = applied_doc s \<or> e = None \<and> complete \<and> recorded env s' (applied_doc s')"
  shows "ran env T complete s r s'"
  using assms unfolding ran_def by blast

lemma recorded_cong: "src_tree s = src_tree t \<Longrightarrow> recorded env s d = recorded env t d"
  by (simp add: recorded_def)

lemma chosen_tags_outcome: "chosen_tags env args cmp ct s = (Inr T, s') \<Longrightarrow> stages_named cmp ct T"
  by (auto simp: chosen_tags_def stages_named_def uret_def split: if_splits)

lemma apply_stages_outcome:
  assumes "apply_stages env args refresh mp cmp ct s = (r, s')"
  shows "src_tree s' = src_tree s \<and> (\<exists>T. (\<forall>T'. r = Inr T' \<longrightarrow> T' = T) \<and> stages_named cmp ct T \<and>
    ran env T (cmp = ''all'' \<or> ct \<noteq> []) s r s')"
proof -
  let ?deps = "if cmp = ''all'' \<or> (cmp \<in> {''daemons'', ''services''} \<and> refresh) then sync_runtime_dependencies env else uret ()"
  let ?extra = "if mp \<and> cmp = ''all'' then [(''haproxy_admin_sync_managed_config'', ''true'')] else []"
  let ?T0 = "if ct \<noteq> [] then ct else UPDATE_TAGS"
  have named: "stages_named cmp ct ?T0" by (simp add: stages_named_def)
  obtain r1 s1 where 1: "?deps s = (r1, s1)" by fastforce
  note d = dependencies_outcome [OF 1]
  have stop: ?thesis if "host s' = host s1" "src_tree s' = src_tree s" "applied_doc s' = applied_doc s" "isl r"
    using that d named unfolding ran_def by (auto simp: isl_def)
  show ?thesis
  proof (cases r1)
    case (Inl e)
    then show ?thesis using assms 1 d stop by (auto simp: apply_stages_def ubind_eq)
  next
    case (Inr u)
    then obtain s2 r2 where 2: "step_may_fail (syntax_fault env) s1 = (r2, s2)"
      and q2: "src_tree s2 = src_tree s1 \<and> host s2 = host s1 \<and> applied_doc s2 = applied_doc s1"
      by (metis quietD quiet_basic(3) surj_pair)
    obtain s3 r3 where 3: "chosen_tags env args cmp ct s2 = (r3, s3)"
      and q3: "src_tree s3 = src_tree s2 \<and> host s3 = host s2 \<and> applied_doc s3 = applied_doc s2"
      by (metis quietD quiet_steps(5) surj_pair)
    show ?thesis
    proof (cases "isl r2 \<or> isl r3")
      case True
      then have "isl r \<and> (s' = s2 \<or> s' = s3)"
        using assms 1 2 3 Inr by (cases r2; cases r3) (auto simp: apply_stages_def ubind_def)
      then show ?thesis using stop d q2 q3 by auto
    next
      case False
      then obtain T where T: "r2 = Inr ()" "r3 = Inr T" by (cases r2; cases r3) auto
      obtain r4 s4 where 4: "run_playbook env T ?extra s3 = (r4, s4)" by fastforce
      note p = playbook_outcome [OF 4]
      have nm: "stages_named cmp ct T" using 3 T chosen_tags_outcome by blast
      show ?thesis
      proof (cases r4)
        case Inl: (Inl e)
        then have "r = Inl e" "s' = s4"
          using assms 1 2 3 4 Inr T by (auto simp: apply_stages_def ubind_def)
        moreover obtain x e' where "playbook env T x (src_tree s) (host s1) = (e', host s4)"
          using p d q2 q3 by auto
        ultimately have "ran env T (cmp = ''all'' \<or> ct \<noteq> []) s r s'"
          using d q2 q3 p by (intro ranI [of "host s1" _ _ _ _ x e']) auto
        then show ?thesis using nm d q2 q3 p \<open>r = Inl e\<close> \<open>s' = s4\<close> by auto
      next
        case Inr': (Inr v)
        then have f: "ubind (if cmp = ''all'' \<or> ct \<noteq> [] then record_applied_source env else uret ())
            (\<lambda>_. ubind (if mp \<and> cmp \<noteq> ''all'' then uret () else mark_installation_complete env) (\<lambda>_. uret T)) s4 = (r, s')"
          using assms 1 2 3 4 Inr T by (auto simp: apply_stages_def ubind_def)
        note w = finish_outcome [OF f]
        obtain x where "playbook env T x (src_tree s) (host s1) = (None, host s4)"
          using p d q2 q3 Inr' by auto
        then have "ran env T (cmp = ''all'' \<or> ct \<noteq> []) s r s'"
          using d q2 q3 p w recorded_cong [of s4 s' env] by (intro ranI [of "host s1" _ _ _ _ x None]) auto
        then show ?thesis using nm d q2 q3 p w by auto
      qed
    qed
  qed
qed

text \<open>Two states that agree on the source, the host and the record.\<close>

definition alike :: "'h inst \<Rightarrow> 'h inst \<Rightarrow> bool" where
  "alike s t = (src_tree s = src_tree t \<and> host s = host t \<and> applied_doc s = applied_doc t)"

lemma alike_trans: "alike s t \<Longrightarrow> alike t u \<Longrightarrow> alike s u"
  by (simp add: alike_def)

lemma quiet_prefix:
  assumes "ubind m k s = (r, s')" "quiet m"
  obtains (stopped) e where "r = Inl e" "alike s s'"
  | (went_on) x s1 where "m s = (Inr x, s1)" "alike s s1" "k x s1 = (r, s')"
proof (cases "m s")
  case (Pair r1 s1)
  note q = quietD [OF assms(2) Pair]
  show ?thesis
  proof (cases r1)
    case (Inl e)
    then show ?thesis using assms(1) Pair q by (intro stopped [of e]) (simp_all add: ubind_def alike_def)
  next
    case (Inr x)
    then show ?thesis using assms(1) Pair q by (intro went_on [of x s1]) (simp_all add: ubind_def alike_def)
  qed
qed

lemma ran_alike: "alike s t \<Longrightarrow> ran env T c t r s' \<Longrightarrow> ran env T c s r s'"
  by (simp add: ran_def alike_def)

lemma joined_nonempty: "py_join sep ts = [] \<Longrightarrow> t \<in> set ts \<Longrightarrow> t = []"
  by (induction sep ts rule: py_join.induct) auto

lemma plan_tags: "plan_scope sha d t = Inr p \<Longrightarrow> \<not> s_full p \<Longrightarrow>
   \<exists>a m. read_applied d = Some a \<and> source_manifest sha t = Inr m \<and>
     s_full p = s_full (scope_for (changed_paths (a_files a) m)) \<and> s_tags p = s_tags (scope_for (changed_paths (a_files a) m))"
  by (auto simp: plan_scope_def ebind_def Let_def scope.defs plan.defs split: option.splits sum.splits)

lemma scope_text_nonempty:
  assumes "plan_scope sha d t = Inr p" "\<not> s_full p"
  shows "scope_tags_text p \<noteq> []"
proof (cases "s_tags p = []")
  case False
  obtain ps where ps: "\<not> s_full (scope_for ps)" "s_tags p = s_tags (scope_for ps)" using plan_tags [OF assms] assms(2) by metis
  then have "STATUS_TAG \<in> set (s_tags p)" using False scope_tags_set [OF ps(1)] by (auto simp: Let_def split: if_splits)
  then show ?thesis using False joined_nonempty [of "'',''" "s_tags p" STATUS_TAG]
    by (auto simp: scope_tags_text_def STATUS_TAG_def)
qed (simp add: scope_tags_text_def)

text \<open>A complete run is a full one, or one of the stages the changes need.\<close>

definition complete_stages :: "'h update_env \<Rightarrow> json option \<Rightarrow> source_tree \<Rightarrow> string \<Rightarrow> bool" where
  "complete_stages env d t T = (T = UPDATE_TAGS \<or>
     (\<exists>p. plan_scope (sha256 env) d t = Inr p \<and> \<not> s_full p \<and> T = scope_tags_text p))"

lemma choose_outcome:
  assumes "choose_changes env args mp cmp s = (Inr (cmp', ct), s')" "stages_named cmp' ct T"
  shows "(cmp' = ''all'' \<or> ct \<noteq> [] \<longrightarrow> complete_stages env (applied_doc s) (src_tree s) T) \<and>
    (cmp = ''all'' \<or> cmp = CHANGES_COMPONENT \<longrightarrow> cmp' = ''all'' \<or> ct \<noteq> [])"
  using assms scope_text_nonempty
  by (auto simp: choose_changes_def ubind_def uret_def uraise_def changes_scope_def stages_named_def complete_stages_def
      split: if_splits sum.splits)

definition whole_update :: "update_args \<Rightarrow> bool" where
  "whole_update args = (\<not> ui_only args \<and> component args \<in> {''all'', CHANGES_COMPONENT})"

definition command_ran :: "'h update_env \<Rightarrow> update_args \<Rightarrow> 'h inst \<Rightarrow> update_error + string \<Rightarrow> 'h inst \<Rightarrow> bool" where
  "command_ran env args s r s' =
     (host s' = host s \<and> applied_doc s' = applied_doc s \<and> isl r \<or>
      (\<exists>T complete. (\<forall>T'. r = Inr T' \<longrightarrow> T' = T) \<and> (whole_update args \<longrightarrow> complete) \<and>
        (complete \<longrightarrow> complete_stages env (applied_doc s) (src_tree s') T) \<and> ran env T complete s r s'))"

lemma command_ran_alike: "alike s t \<Longrightarrow> command_ran env args t r s' \<Longrightarrow> command_ran env args s r s'"
  by (auto simp: command_ran_def alike_def ran_def)

lemma prefix_ran:
  assumes "ubind m k s = (r, s')" "quiet m"
    and "\<And>x s1. m s = (Inr x, s1) \<Longrightarrow> alike s s1 \<Longrightarrow> k x s1 = (r, s') \<Longrightarrow> command_ran env args s1 r s'"
  shows "command_ran env args s r s'"
  using assms(1,2)
proof (cases rule: quiet_prefix)
  case (stopped e)
  then show ?thesis by (auto simp: command_ran_def alike_def)
next
  case (went_on x s1)
  then show ?thesis using assms(3) command_ran_alike by blast
qed

lemma stages_ran:
  assumes "choose_changes env args mp cmp s = (Inr (c', ct), s1)" and "alike s s1"
    and "cmp = (if ui_only args then ''ui'' else component args)"
    and "apply_stages env args refresh mp c' ct s1 = (r, s')"
  shows "command_ran env args s1 r s'"
proof -
  obtain T where T: "src_tree s' = src_tree s1" "\<forall>T'. r = Inr T' \<longrightarrow> T' = T" "stages_named c' ct T"
    "ran env T (c' = ''all'' \<or> ct \<noteq> []) s1 r s'"
    using apply_stages_outcome [OF assms(4)] by auto
  have "whole_update args \<longrightarrow> c' = ''all'' \<or> ct \<noteq> []"
    "c' = ''all'' \<or> ct \<noteq> [] \<longrightarrow> complete_stages env (applied_doc s1) (src_tree s') T"
    using choose_outcome [OF assms(1) T(3)] assms(2,3) T(1) by (auto simp: whole_update_def alike_def)
  then show ?thesis
    unfolding command_ran_def using T(2,4)
    by (intro disjI2 exI [of _ T] exI [of _ "c' = ''all'' \<or> ct \<noteq> []"]) simp
qed

lemma update_pass_outcome:
  assumes "update_pass env args channel expected refresh refreshed s = (r, s')"
  shows "command_ran env args s r s'"
  using assms unfolding update_pass_def Let_def
proof (elim prefix_ran, goal_cases)
  case 1 show ?case by (simp add: quiet_def)
next
  case (6 x s1 x2 s2 x3 s3 x4 s4 x5 s5)
  obtain c' ct where x5: "x5 = (c', ct)" by (cases x5)
  show ?case by (rule stages_ran [OF _ 6(10) refl]) (use 6 x5 in simp_all)
qed (intro quiet_rules)+

lemma command_ran_cong:
  "host t = host s \<Longrightarrow> applied_doc t = applied_doc s \<Longrightarrow> command_ran env args t r s' \<Longrightarrow> command_ran env args s r s'"
  by (auto simp: command_ran_def ran_def)

lemma command_ran_stopped:
  "host s' = host s \<Longrightarrow> applied_doc s' = applied_doc s \<Longrightarrow> command_ran env args s (Inl e) s'"
  by (simp add: command_ran_def)

lemma refreshed_ran:
  assumes "ubind (update_managed_source env expected) (\<lambda>replaced.
      if replaced then ubind reexec_check (\<lambda>_. update_pass env args channel expected refresh True)
      else update_pass env args channel expected refresh False) s = (r, s')"
  shows "command_ran env args s r s'"
proof (cases "update_managed_source env expected s")
  case (Pair r1 s1)
  note f = managed_source_frame [OF Pair]
  show ?thesis
  proof (cases r1)
    case (Inl e)
    then show ?thesis using assms Pair f command_ran_stopped [of s' s] by (auto simp: ubind_def)
  next
    case (Inr b)
    have "command_ran env args s1 r s'"
    proof (cases b)
      case True
      then have "ubind reexec_check (\<lambda>_. update_pass env args channel expected refresh True) s1 = (r, s')"
        using assms Pair Inr by (simp add: ubind_def)
      then show ?thesis by (rule prefix_ran) (auto intro: quiet_rules update_pass_outcome)
    next
      case False
      then show ?thesis using assms Pair Inr update_pass_outcome by (simp add: ubind_def)
    qed
    then show ?thesis using f command_ran_cong by blast
  qed
qed

lemma command_outcome:
  assumes "command_update env args s = (r, s')"
  shows "command_ran env args s r s'"
  using assms unfolding command_update_def Let_def
proof (elim prefix_ran, goal_cases)
  case (2 x s1)
  then show ?case
    by (auto simp: command_ran_stopped intro: refreshed_ran update_pass_outcome split: sum.splits if_splits)
qed (intro quiet_rules)

section \<open>What the playbook does to the host\<close>

text \<open>
  \<open>ver h x p\<close> is the version (digest) of the source file \<open>p\<close> in the place \<open>x\<close> of the host; \<open>places p\<close> are the
  places the playbook deploys \<open>p\<close> to.  A run, whether it succeeds or stops half way, leaves in a place
  what was there or puts the file of its source tree there.  A run that succeeds has deployed every
  file whose stages were all selected, and the full stack deploys every file.  Installing the
  dependencies touches none of these places.
\<close>

definition playbook_laws :: "'h update_env \<Rightarrow> ('h \<Rightarrow> 'x \<Rightarrow> string \<Rightarrow> string option) \<Rightarrow> (string \<Rightarrow> 'x set) \<Rightarrow> bool" where
  "playbook_laws env ver places =
     ((\<forall>T extra t h e h' m p x. playbook env T extra t h = (e, h') \<longrightarrow> source_manifest (sha256 env) t = Inr m \<longrightarrow>
         x \<in> places p \<longrightarrow> ver h' x p = ver h x p \<or> (map_of m p \<noteq> None \<and> ver h' x p = map_of m p)) \<and>
      (\<forall>T extra t h h' m p x ts d. playbook env T extra t h = (None, h') \<longrightarrow> source_manifest (sha256 env) t = Inr m \<longrightarrow>
         x \<in> places p \<longrightarrow> map_of m p = Some d \<longrightarrow>
         T = UPDATE_TAGS \<or> tags_for_path p = Some ts \<and> FULL \<notin> set ts \<and> set ts \<subseteq> set (py_split (CHR '','') T) \<longrightarrow>
         ver h' x p = Some d) \<and>
      (\<forall>t h e h' p x. dependencies env t h = (e, h') \<longrightarrow> ver h' x p = ver h x p))"

lemma playbook_old_or_new:
  "playbook_laws env ver places \<Longrightarrow> playbook env T extra t h = (e, h') \<Longrightarrow> source_manifest (sha256 env) t = Inr m \<Longrightarrow>
    x \<in> places p \<Longrightarrow> ver h' x p = ver h x p \<or> (map_of m p \<noteq> None \<and> ver h' x p = map_of m p)"
  unfolding playbook_laws_def
  by (drule conjunct1, drule spec [of _ T], drule spec [of _ extra], drule spec [of _ t], drule spec [of _ h], blast)

lemma playbook_deploys:
  "playbook_laws env ver places \<Longrightarrow> playbook env T extra t h = (None, h') \<Longrightarrow> source_manifest (sha256 env) t = Inr m \<Longrightarrow>
    x \<in> places p \<Longrightarrow> map_of m p = Some d \<Longrightarrow>
    T = UPDATE_TAGS \<or> tags_for_path p = Some ts \<and> FULL \<notin> set ts \<and> set ts \<subseteq> set (py_split (CHR '','') T) \<Longrightarrow>
    ver h' x p = Some d"
  unfolding playbook_laws_def by blast

lemma dependencies_keep: "playbook_laws env ver places \<Longrightarrow> dependencies env t h = (e, h') \<Longrightarrow> ver h' x p = ver h x p"
  unfolding playbook_laws_def by blast

section \<open>Histories\<close>

text \<open>The version of a path that the readable record gives.\<close>

definition recorded_version :: "'h inst \<Rightarrow> string \<Rightarrow> string option" where
  "recorded_version s p = (case read_applied (applied_doc s) of None \<Rightarrow> None | Some a \<Rightarrow> map_of (a_files a) p)"

text \<open>No file of \<open>m\<close> is back at its recorded version after another one was installed in between.\<close>

definition no_return :: "'h inst \<Rightarrow> manifest list \<Rightarrow> manifest \<Rightarrow> bool" where
  "no_return s seen m = (\<forall>p d m'. recorded_version s p = Some d \<longrightarrow> map_of m p = Some d \<longrightarrow> m' \<in> set seen \<longrightarrow>
     map_of m' p = None \<or> map_of m' p = Some d)"

text \<open>
  Any commands, in any order, that succeed or fail anywhere; \<open>seen\<close> are the manifests installed since
  the record was last written.
\<close>

inductive update_history :: "(string \<Rightarrow> string) \<Rightarrow> ('h \<Rightarrow> 'x \<Rightarrow> string \<Rightarrow> string option) \<Rightarrow> (string \<Rightarrow> 'x set) \<Rightarrow>
    manifest list \<Rightarrow> 'h inst \<Rightarrow> bool" for sha ver places where
  no_record: "read_applied (applied_doc s) = None \<Longrightarrow> update_history sha ver places [] s"
| command: "update_history sha ver places seen s \<Longrightarrow> playbook_laws env ver places \<Longrightarrow> sha256 env = sha \<Longrightarrow>
    command_update env args s = (r, s') \<Longrightarrow> source_manifest sha (src_tree s') = Inr m \<Longrightarrow>
    applied_doc s' = applied_doc s \<or> no_return s seen m \<Longrightarrow>
    update_history sha ver places (if applied_doc s' = applied_doc s then m # seen else []) s'"

text \<open>The host holds, in every place, the recorded version or one installed since.\<close>

definition host_explained :: "('h \<Rightarrow> 'x \<Rightarrow> string \<Rightarrow> string option) \<Rightarrow> (string \<Rightarrow> 'x set) \<Rightarrow> manifest list \<Rightarrow> 'h inst \<Rightarrow> bool" where
  "host_explained ver places seen s = (\<forall>p x d. x \<in> places p \<longrightarrow> recorded_version s p = Some d \<longrightarrow>
     ver (host s) x p = Some d \<or> (\<exists>m \<in> set seen. map_of m p \<noteq> None \<and> ver (host s) x p = map_of m p))"

definition up_to_date :: "('h \<Rightarrow> 'x \<Rightarrow> string \<Rightarrow> string option) \<Rightarrow> (string \<Rightarrow> 'x set) \<Rightarrow> manifest \<Rightarrow> 'h \<Rightarrow> bool" where
  "up_to_date ver places m h = (\<forall>p x d. x \<in> places p \<longrightarrow> map_of m p = Some d \<longrightarrow> ver h x p = Some d)"

lemma complete_run_up_to_date:
  assumes laws: "playbook_laws env ver places"
    and hist: "host_explained ver places seen s" and fresh: "no_return s seen m"
    and m: "source_manifest (sha256 env) t = Inr m"
    and deps: "\<And>x p. ver h x p = ver (host s) x p"
    and run: "playbook env T extra t h = (None, h')"
    and stages: "complete_stages env (applied_doc s) t T"
  shows "up_to_date ver places m h'"
  unfolding up_to_date_def
proof (intro allI impI)
  fix p x d assume x: "x \<in> places p" and d: "map_of m p = Some d"
  consider "T = UPDATE_TAGS" | pl where "plan_scope (sha256 env) (applied_doc s) t = Inr pl" "\<not> s_full pl" "T = scope_tags_text pl"
    using stages by (auto simp: complete_stages_def)
  then show "ver h' x p = Some d"
  proof cases
    case 1
    then show ?thesis using playbook_deploys [OF laws run m x d] by blast
  next
    case 2
    let ?S = "\<lambda>a. scope_for (changed_paths (a_files a) m)"
    obtain a where a: "read_applied (applied_doc s) = Some a" "\<not> s_full (?S a)" "s_tags pl = s_tags (?S a)"
      using plan_tags [OF 2(1,2)] m 2(2) by auto
    show ?thesis
    proof (cases "map_of (a_files a) p = Some d")
      case False
      then have p: "p \<in> set (changed_paths (a_files a) m)"
        using d by (simp add: changed_paths_iff [OF manifest_distinct [OF m]])
      have "py_split (CHR '','') T = (if s_tags pl = [] then [''status''] else s_tags pl)"
        unfolding 2(3) scope_tags_text_def a(3)
        by (rule py_split_of_join) (auto simp: scope_tags_plain)
      then have "set (stage_tags p) \<subseteq> set (py_split (CHR '','') T)"
        using stages_covered [OF a(2) p] a(3) by auto
      then show ?thesis using playbook_deploys [OF laws run m x d] known_path_tags [OF a(2) p] by blast
    next
      case True
      then have "recorded_version s p = Some d" using a(1) by (simp add: recorded_version_def)
      then have "ver (host s) x p = Some d" using hist fresh x d unfolding host_explained_def no_return_def by metis
      then show ?thesis using playbook_old_or_new [OF laws run m x] deps d by auto
    qed
  qed
qed

section \<open>Commands in a history\<close>

lemma ran_cases:
  assumes "playbook_laws env ver places" "command_ran env args s r s'"
  obtains (nothing) "\<And>x p. ver (host s') x p = ver (host s) x p" "applied_doc s' = applied_doc s" "isl r"
  | (run) T extra e h where "playbook env T extra (src_tree s') h = (e, host s')" "\<And>x p. ver h x p = ver (host s) x p"
      "e \<noteq> None \<longrightarrow> isl r" "\<forall>T'. r = Inr T' \<longrightarrow> T' = T"
      "whole_update args \<longrightarrow> complete_stages env (applied_doc s) (src_tree s') T"
      "applied_doc s' = applied_doc s \<or> e = None \<and> complete_stages env (applied_doc s) (src_tree s') T \<and> recorded env s' (applied_doc s')"
proof (cases "host s' = host s \<and> applied_doc s' = applied_doc s \<and> isl r")
  case True
  show ?thesis by (rule nothing) (use True in simp_all)
next
  case False
  then obtain T complete where T: "\<forall>T'. r = Inr T' \<longrightarrow> T' = T" "whole_update args \<longrightarrow> complete"
      "complete \<longrightarrow> complete_stages env (applied_doc s) (src_tree s') T"
    and R: "ran env T complete s r s'"
    using assms(2) unfolding command_ran_def by blast
  obtain h where h: "h = host s \<or> (\<exists>e. dependencies env (src_tree s') (host s) = (e, h))"
    and o: "host s' = h \<and> applied_doc s' = applied_doc s \<and> isl r \<or>
      (\<exists>extra e. playbook env T extra (src_tree s') h = (e, host s') \<and> (e \<noteq> None \<longrightarrow> isl r) \<and>
         (applied_doc s' = applied_doc s \<or> e = None \<and> complete \<and> recorded env s' (applied_doc s')))"
    using R unfolding ran_def by (elim exE conjE) (rule that)
  have deps: "ver h x p = ver (host s) x p" for x p
    using h dependencies_keep [OF assms(1)] by blast
  from o show ?thesis
  proof (elim disjE exE conjE)
    assume st: "host s' = h" "applied_doc s' = applied_doc s" "isl r"
    show ?thesis by (rule nothing) (use st deps in simp_all)
  next
    fix extra e assume "playbook env T extra (src_tree s') h = (e, host s')" "e \<noteq> None \<longrightarrow> isl r" "applied_doc s' = applied_doc s"
    then show ?thesis using run [of T extra h e] deps T by simp
  next
    fix extra e assume "playbook env T extra (src_tree s') h = (e, host s')" "e \<noteq> None \<longrightarrow> isl r" "e = None" complete
      "recorded env s' (applied_doc s')"
    then show ?thesis using run [of T extra h e] deps T by simp
  qed
qed

lemma command_old_or_new:
  assumes "playbook_laws env ver places" "command_ran env args s r s'" "source_manifest (sha256 env) (src_tree s') = Inr m" "x \<in> places p"
  shows "ver (host s') x p = ver (host s) x p \<or> (map_of m p \<noteq> None \<and> ver (host s') x p = map_of m p)"
  using assms(1,2)
proof (cases rule: ran_cases)
  case (run T extra e h)
  then show ?thesis using playbook_old_or_new [OF assms(1) run(1) assms(3,4)] by simp
qed simp

lemma recorded_version_written:
  "source_manifest sha t = Inr m \<Longrightarrow> applied_doc s = Some (applied_payload now revision m) \<Longrightarrow> recorded_version s p = map_of m p"
  by (auto simp: recorded_version_def read_written map_of_sort_key dest: manifest_distinct)

lemma recording_command:
  assumes laws: "playbook_laws env ver places" and cmd: "command_ran env args s r s'"
    and m: "source_manifest (sha256 env) (src_tree s') = Inr m"
    and explained: "host_explained ver places seen s" and fresh: "no_return s seen m"
    and new: "applied_doc s' \<noteq> applied_doc s"
  shows "up_to_date ver places m (host s') \<and> (\<forall>p. recorded_version s' p = map_of m p)"
  using laws cmd
proof (cases rule: ran_cases)
  case (run T extra e h)
  then have e: "e = None" "complete_stages env (applied_doc s) (src_tree s') T" "recorded env s' (applied_doc s')"
    using new by auto
  have "up_to_date ver places m (host s')"
    by (rule complete_run_up_to_date [OF laws explained fresh m run(2) run(1) [unfolded e(1)] e(2)])
  then show ?thesis using e(3) m recorded_version_written by (auto simp: recorded_def)
qed (use new in simp)

lemma history_explained:
  "update_history sha ver places seen s \<Longrightarrow> host_explained ver places seen s"
proof (induction rule: update_history.induct)
  case (no_record s)
  then show ?case by (simp add: host_explained_def recorded_version_def)
next
  case (command seen s env args r s' m)
  note ran = command_outcome [OF command.hyps(4)] and m = command.hyps(5) [folded command.hyps(3)]
  show ?case
  proof (cases "applied_doc s' = applied_doc s")
    case True
    then have "recorded_version s' = recorded_version s" by (auto simp: recorded_version_def)
    then have "host_explained ver places (m # seen) s'"
      using command.IH command_old_or_new [OF command.hyps(2) ran m] unfolding host_explained_def
      by (fastforce simp del: not_None_eq)
    then show ?thesis using True by simp
  next
    case False
    then show ?thesis
      using recording_command [OF command.hyps(2) ran m command.IH] command.hyps(6)
      by (auto simp: host_explained_def up_to_date_def)
  qed
qed

text \<open>A changes-only update that returns has run the stages of the changes, or the full stack when they need it.\<close>

lemma ubind_Inr: "ubind m k s = (Inr y, s') \<longleftrightarrow> (\<exists>x s1. m s = (Inr x, s1) \<and> k x s1 = (Inr y, s'))"
  by (auto simp: ubind_eq)

lemma step_Inr: "step_may_fail f s = (Inr u, s') \<longleftrightarrow> f = None \<and> s' = s"
  by (auto simp: step_may_fail_def uret_def uraise_def split: option.splits)

lemma persist_Inr:
  "persist_source_channel env c s = (Inr u, s') \<Longrightarrow>
     cfg_pending s' = cfg_pending s \<and> applied_doc s' = applied_doc s \<and> src_tree s' = src_tree s"
  by (auto simp: persist_source_channel_def Let_def ubind_Inr step_Inr uraise_def split: option.splits if_splits)

lemma pass_of_changes:
  assumes "update_pass env args channel expected refresh refreshed s = (Inr T, s')"
    and "component args = CHANGES_COMPONENT" "\<not> ui_only args" "\<not> cfg_pending s"
  shows "\<exists>p. plan_scope (sha256 env) (applied_doc s) (src_tree s') = Inr p \<and> T = (if s_full p then UPDATE_TAGS else scope_tags_text p)"
proof -
  let ?check = "\<lambda>s. (if refreshed \<and> expected \<noteq> None then
      (case git_revision (head_rev s) of Inl e \<Rightarrow> Inl e
       | Inr active \<Rightarrow> if Some active \<noteq> expected then
           Inl (InstallerError ''The active source does not match the revision approved by the update plan.'') else Inr ())
      else Inr (), s)"
  obtain u1 s1 u2 s2 u3 s3 u4 s4 y s5 where steps: "?check s = (Inr u1, s1)" "step_may_fail (secrets_fault env) s1 = (Inr u2, s2)"
      "persist_source_channel env (if \<not> no_fetch args \<or> source_channel args \<noteq> None then Some channel else None) s2 = (Inr u3, s3)"
      "(if cfg_pending s3 then uret () else step_may_fail (sync_fault env)) s3 = (Inr u4, s4)"
      "choose_changes env args (cfg_pending s3) (if ui_only args then ''ui'' else component args) s4 = (Inr y, s5)"
    and ap0: "(case y of (c', ct) \<Rightarrow> apply_stages env args refresh (cfg_pending s3) c' ct) s5 = (Inr T, s')"
    using assms(1) unfolding update_pass_def Let_def ubind_Inr by (elim exE conjE) (rule that)
  have s2: "s2 = s" using steps(1,2) by (simp add: step_Inr)
  then have s3: "\<not> cfg_pending s3" "applied_doc s3 = applied_doc s" using persist_Inr [OF steps(3)] assms(4) by auto
  then have "s4 = s3" using steps(4) by (simp add: step_Inr)
  then have ch: "choose_changes env args False CHANGES_COMPONENT s3 = (Inr y, s5)" using steps(5) assms(2,3) s3 by simp
  then have "s5 = s3" by (auto simp: choose_changes_def ubind_Inr changes_scope_def uret_def uraise_def split: if_splits)
  obtain c' ct where y: "y = (c', ct)" by fastforce
  from ch obtain p where p: "plan_scope (sha256 env) (applied_doc s) (src_tree s3) = Inr p"
    "(c', ct) = (if s_full p then (''all'', []) else (CHANGES_COMPONENT, scope_tags_text p))"
    by (auto simp: choose_changes_def ubind_Inr changes_scope_def uret_def uraise_def s3 y split: if_splits)
  have ap: "apply_stages env args refresh False c' ct s3 = (Inr T, s')" using ap0 y s3 \<open>s5 = s3\<close> by simp
  obtain T' where "src_tree s' = src_tree s3" "T' = T" "stages_named c' ct T'"
    using apply_stages_outcome [OF ap] by auto
  then show ?thesis using p scope_text_nonempty [OF p(1)]
    by (auto simp: stages_named_def split: if_splits)
qed

lemma command_of_changes:
  assumes "command_update env args s = (Inr T, s')"
    and c: "component args = CHANGES_COMPONENT" "\<not> ui_only args" "\<not> cfg_pending s"
  shows "\<exists>p. plan_scope (sha256 env) (applied_doc s) (src_tree s') = Inr p \<and> T = (if s_full p then UPDATE_TAGS else scope_tags_text p)"
proof -
  define Q where "Q = (\<exists>p. plan_scope (sha256 env) (applied_doc s) (src_tree s') = Inr p \<and>
    T = (if s_full p then UPDATE_TAGS else scope_tags_text p))"
  have pass: Q if "update_pass env args ch ex rf rd s1 = (Inr T, s')" "applied_doc s1 = applied_doc s" "\<not> cfg_pending s1" for ch ex rf rd s1
    using pass_of_changes [OF that(1) c(1,2) that(3)] that(2) by (simp add: Q_def)
  have Q
    using assms(1) c(3)
    by (auto simp: command_update_def Let_def ubind_Inr step_Inr reexec_check_def
        split: sum.splits if_splits dest!: managed_source_frame intro: pass)
  then show ?thesis by (simp add: Q_def)
qed

end
