(* ===== verification/Update_Properties.thy ===== *)
theory Update_Properties
  imports Update_Facts
begin

text \<open>
  The properties of updates: the scope of a change is never too narrow, the record is read back and
  is written only after a complete run, and over any history of commands a complete update leaves the
  host at the source; except that a file back at its recorded version is not deployed again.
  The witnesses follow one installation: a complete update, a narrower one, and two ways on.
\<close>

section \<open>A sample installation\<close>

definition guardd_py :: string where
  "guardd_py = ''ansible/roles/haproxy-admin/files/easy-ha-proxy-guardd.py''"

definition sample_tree :: "string \<Rightarrow> source_tree" where
  "sample_tree v = \<lparr>has_git = False, ls_files = None,
     entries = [(guardd_py, FsFile (Some v)), (''installer/easy-ha-proxy'', FsFile (Some ''x''))]
       @ map (\<lambda>n. (n, FsFile (Some ''y''))) REQUIRED_FILES\<rparr>"

text \<open>A host that only holds the guard daemon.\<close>

definition sample_play :: "string \<Rightarrow> (string \<times> string) list \<Rightarrow> source_tree \<Rightarrow> (string \<times> string) list
    \<Rightarrow> update_error option \<times> (string \<times> string) list" where
  "sample_play T extra t h =
     (None, if T = UPDATE_TAGS \<or> ''ha-adm-guardd'' \<in> set (py_split (CHR '','') T)
            then (case source_manifest id t of Inl _ \<Rightarrow> h
              | Inr m \<Rightarrow> (case map_of m guardd_py of None \<Rightarrow> h | Some d \<Rightarrow> jput guardd_py d h)) else h)"

definition sample_ver :: "(string \<times> string) list \<Rightarrow> unit \<Rightarrow> string \<Rightarrow> string option" where
  "sample_ver h x p = map_of h p"

definition sample_places :: "string \<Rightarrow> unit set" where
  "sample_places p = (if p = guardd_py then {()} else {})"

definition sample_update_env :: "string \<Rightarrow> (string \<times> string) list update_env" where
  "sample_update_env v = \<lparr>sha256 = id, lock_fault = None, managed_path = True, branch_valid = True,
     remote = Inr (sample_tree v, replicate 40 (CHR ''a'')), replace_fault = None, executables_fault = None,
     secrets_fault = None, persist_fault = None, sync_fault = None, dependencies = (\<lambda>t h. (None, h)), syntax_fault = None,
     playbook = sample_play, record_faults = \<lparr>mkdir_fails = False, mkstemp_fails = False, replace_step_fails = False\<rparr>,
     stamp_now = ''2026-01-01T00:00:00+00:00'', mark_fault = None\<rparr>"

definition sample_args :: "string \<Rightarrow> update_args" where
  "sample_args c = \<lparr>ui_only = False, component = c, source_channel = None, no_fetch = False, expected_source_revision = None,
     no_full_fallback = False\<rparr>"

definition sample_revision :: string where "sample_revision = replicate 40 (CHR ''a'')"

definition sample_files :: "string \<Rightarrow> manifest" where
  "sample_files v = [(guardd_py, v), (''installer/easy-ha-proxy'', ''x'')] @ map (\<lambda>n. (n, ''y'')) REQUIRED_FILES"

definition fresh_install :: "(string \<times> string) list inst" where
  "fresh_install = \<lparr>src_tree = sample_tree ''v0'', head_rev = None, applied_doc = None, cfg_pending = False,
     install_complete = True, src_channel = ''github'', host = []\<rparr>"

text \<open>The source at \<open>v\<close>, the record at \<open>rv\<close>, the guard daemon of the host at \<open>hv\<close>.\<close>

definition installed :: "string \<Rightarrow> string \<Rightarrow> string \<Rightarrow> (string \<times> string) list inst" where
  "installed v rv hv = \<lparr>src_tree = sample_tree v, head_rev = Some sample_revision,
     applied_doc = Some (applied_payload ''2026-01-01T00:00:00+00:00'' sample_revision (sample_files rv)),
     cfg_pending = False, install_complete = True, src_channel = ''github'', host = [(guardd_py, hv)]\<rparr>"

lemma guardd_tags: "tags_for_path guardd_py = Some [''ha-adm-guardd'']"
  by code_simp

lemma sample_manifest: "source_manifest id (sample_tree v) = Inr (sample_files v)"
  by code_simp

lemma sample_complete: "command_update (sample_update_env ''v1'') (sample_args ''all'') fresh_install = (Inr UPDATE_TAGS, installed ''v1'' ''v1'' ''v1'')"
  by code_simp

lemma sample_narrow:
  "command_update (sample_update_env ''v2'') (sample_args ''services'') (installed ''v1'' ''v1'' ''v1'') =
     (Inr HOST_SERVICE_TAGS, installed ''v2'' ''v1'' ''v2'')"
  by code_simp

lemma sample_changes:
  "command_update (sample_update_env ''v3'') (sample_args ''changes'') (installed ''v2'' ''v1'' ''v2'') =
     (Inr ''ha-adm-guardd,status'', installed ''v3'' ''v3'' ''v3'')"
  by code_simp

lemma sample_return:
  "command_update (sample_update_env ''v1'') (sample_args ''changes'') (installed ''v2'' ''v1'' ''v2'') =
     (Inr ''status'', installed ''v1'' ''v1'' ''v2'')"
  by code_simp

lemma sample_playbook_laws: "playbook_laws (sample_update_env v) sample_ver sample_places"
  unfolding playbook_laws_def
proof (intro conjI allI impI)
  fix T extra t h e h' m p and x :: unit
  assume "playbook (sample_update_env v) T extra t h = (e, h')" "source_manifest (sha256 (sample_update_env v)) t = Inr m"
    "x \<in> sample_places p"
  then show "sample_ver h' x p = sample_ver h x p \<or> map_of m p \<noteq> None \<and> sample_ver h' x p = map_of m p"
    by (auto simp: sample_update_env_def sample_play_def sample_ver_def sample_places_def split: if_splits option.splits)
next
  fix T extra t h h' m p ts d and x :: unit
  assume "playbook (sample_update_env v) T extra t h = (None, h')" "source_manifest (sha256 (sample_update_env v)) t = Inr m"
    "x \<in> sample_places p" "map_of m p = Some d"
    "T = UPDATE_TAGS \<or> tags_for_path p = Some ts \<and> FULL \<notin> set ts \<and> set ts \<subseteq> set (py_split (CHR '','') T)"
  then show "sample_ver h' x p = Some d"
    by (auto simp: sample_update_env_def sample_play_def sample_ver_def sample_places_def guardd_tags split: if_splits)
next
  fix t h e h' p and x :: unit
  assume "dependencies (sample_update_env v) t h = (e, h')"
  then show "sample_ver h' x p = sample_ver h x p" by (simp add: sample_update_env_def)
qed

section \<open>Properties\<close>

text \<open>C11. Nothing is missed: after any history of updates, complete, narrower or failed anywhere, a complete
  or changes-only update that returns has put every file of the installed source in place, provided no file is
  back at the version of the record while another version was installed in between.\<close>

theorem whole_update_misses_nothing:
  assumes "update_history sha ver places seen s" "playbook_laws env ver places" "sha256 env = sha"
    and "command_update env args s = (Inr T, s')" "component args \<in> {''all'', CHANGES_COMPONENT}" "\<not> ui_only args"
    and "source_manifest sha (src_tree s') = Inr m" "no_return s seen m"
    and "x \<in> places p" "map_of m p = Some d"
  shows "ver (host s') x p = Some d"
  using assms(2) command_outcome [OF assms(4)]
proof (cases rule: ran_cases)
  case (run T1 extra e h)
  have "e = None" "complete_stages env (applied_doc s) (src_tree s') T1"
    using run assms(5,6) by (auto simp: whole_update_def)
  then have "up_to_date ver places m (host s')"
    using complete_run_up_to_date [OF assms(2) history_explained [OF assms(1)] assms(8) assms(7) [folded assms(3)] run(2)] run(1)
    by blast
  then show ?thesis using assms(9,10) unfolding up_to_date_def by blast
qed simp

theorem whole_update_misses_nothing_witness:
  "sample_ver (host (installed ''v3'' ''v3'' ''v3'')) () guardd_py = Some ''v3''"
proof -
  let ?H = "update_history id sample_ver sample_places"
  have h1: "?H [] (installed ''v1'' ''v1'' ''v1'')"
    using command [OF no_record sample_playbook_laws _ sample_complete, of id "sample_files ''v1''"]
    by (simp add: fresh_install_def read_applied_def installed_def sample_update_env_def sample_manifest no_return_def)
  have h2: "?H [sample_files ''v2''] (installed ''v2'' ''v1'' ''v2'')"
    using command [OF h1 sample_playbook_laws _ sample_narrow, of "sample_files ''v2''"]
    by (simp add: sample_update_env_def sample_manifest installed_def)
  have "recorded_version (installed ''v2'' ''v1'' ''v2'') p = map_of (sample_files ''v1'') p" for p
    by (rule recorded_version_written [OF sample_manifest]) (simp add: installed_def)
  then have "no_return (installed ''v2'' ''v1'' ''v2'') [sample_files ''v2''] (sample_files ''v3'')"
    by (auto simp: no_return_def sample_files_def split: if_splits)
  then show ?thesis
    using whole_update_misses_nothing [OF h2 sample_playbook_laws _ sample_changes, of "sample_files ''v3''" "()" guardd_py "''v3''"]
    by (simp add: sample_update_env_def sample_args_def CHANGES_COMPONENT_def installed_def sample_manifest sample_places_def
        sample_files_def)
qed

text \<open>C27. The record moves only at the end of a complete run: when a command changes it, the playbook has
  succeeded on the installed source with the full stack or with the stages of the changes, and the new
  record is the manifest of that source.\<close>

theorem record_only_after_complete_run:
  assumes "command_update env args s = (r, s')" "applied_doc s' \<noteq> applied_doc s"
  shows "\<exists>T extra h m revision. playbook env T extra (src_tree s') h = (None, host s') \<and>
    (T = UPDATE_TAGS \<or> (\<exists>p. plan_scope (sha256 env) (applied_doc s) (src_tree s') = Inr p \<and> \<not> s_full p \<and> T = scope_tags_text p)) \<and>
    source_manifest (sha256 env) (src_tree s') = Inr m \<and> applied_doc s' = Some (applied_payload (stamp_now env) revision m)"
proof -
  obtain T extra h where "playbook env T extra (src_tree s') h = (None, host s')"
    "complete_stages env (applied_doc s) (src_tree s') T" "recorded env s' (applied_doc s')"
    using command_outcome [OF assms(1)] assms(2) unfolding command_ran_def ran_def by blast
  then show ?thesis unfolding complete_stages_def recorded_def by blast
qed

theorem record_only_after_complete_run_witness:
  "\<exists>T extra h m revision. playbook (sample_update_env ''v3'') T extra (sample_tree ''v3'') h = (None, [(guardd_py, ''v3'')]) \<and>
    (T = UPDATE_TAGS \<or> (\<exists>p. plan_scope (sha256 (sample_update_env ''v3'')) (applied_doc (installed ''v2'' ''v1'' ''v2'')) (sample_tree ''v3'') = Inr p
        \<and> \<not> s_full p \<and> T = scope_tags_text p)) \<and>
    source_manifest (sha256 (sample_update_env ''v3'')) (sample_tree ''v3'') = Inr m \<and>
    applied_doc (installed ''v3'' ''v3'' ''v3'') = Some (applied_payload (stamp_now (sample_update_env ''v3'')) revision m)"
proof -
  have "applied_doc (installed ''v3'' ''v3'' ''v3'') \<noteq> applied_doc (installed ''v2'' ''v1'' ''v2'')"
    by code_simp
  moreover have "src_tree (installed ''v3'' ''v3'' ''v3'') = sample_tree ''v3''" "host (installed ''v3'' ''v3'' ''v3'') = [(guardd_py, ''v3'')]"
    by (simp_all add: installed_def)
  ultimately show ?thesis using record_only_after_complete_run [OF sample_changes] by metis
qed

text \<open>What a change needs is never too narrow: the scope of a set of paths is full exactly when a path is
  unknown to the map or needs everything; otherwise its stages are exactly those of the paths, in
  order and once each, followed by the status check when there is any.\<close>

theorem scope_is_conservative:
  "(s_full (scope_for ps) \<longleftrightarrow> (\<exists>p \<in> set ps. case tags_for_path p of None \<Rightarrow> True | Some ts \<Rightarrow> FULL \<in> set ts)) \<and>
   (if s_full (scope_for ps) then s_tags (scope_for ps) = []
    else \<exists>ts. sorted ts \<and> distinct ts \<and> set ts = {t. \<exists>p \<in> set ps. \<exists>us. tags_for_path p = Some us \<and> t \<in> set us} \<and>
      s_tags (scope_for ps) = (if ts = [] then [] else ts @ [STATUS_TAG])) \<and>
   s_changed (scope_for ps) = card (set ps)"
proof (intro conjI)
  show "s_full (scope_for ps) \<longleftrightarrow> (\<exists>p \<in> set ps. case tags_for_path p of None \<Rightarrow> True | Some ts \<Rightarrow> FULL \<in> set ts)"
    unfolding scope_full by (rule bex_cong) (auto simp: unknown_path_def wants_full_def split: option.splits)
  show "s_changed (scope_for ps) = card (set ps)"
    by (simp add: scope_for_def sort_out_closed Let_def length_remdups_card_conv)
  show "if s_full (scope_for ps) then s_tags (scope_for ps) = []
    else \<exists>ts. sorted ts \<and> distinct ts \<and> set ts = {t. \<exists>p \<in> set ps. \<exists>us. tags_for_path p = Some us \<and> t \<in> set us} \<and>
      s_tags (scope_for ps) = (if ts = [] then [] else ts @ [STATUS_TAG])"
  proof (cases "s_full (scope_for ps)")
    case True
    then show ?thesis by (auto simp: scope_for_def sort_out_closed Let_def)
  next
    case False
    let ?ts = "sort (remdups (concat (map stage_tags (sort (remdups ps)))))"
    have "set ?ts = {t. \<exists>p \<in> set ps. \<exists>us. tags_for_path p = Some us \<and> t \<in> set us}"
      using known_path_tags [OF False] by auto
    moreover have "s_tags (scope_for ps) = (if ?ts = [] then [] else ?ts @ [STATUS_TAG])"
      using scope_tags [OF False] by (simp only: Let_def)
    moreover have "sorted ?ts" "distinct ?ts" by simp_all
    ultimately show ?thesis unfolding if_not_P [OF False] by (intro exI [of _ ?ts] conjI)
  qed
qed

text \<open>The record is read back: after the source was recorded the same tree needs nothing, whichever
  revision and time were written.\<close>

theorem recorded_tree_needs_nothing:
  assumes "write_applied sha faults now t revision old = (Inr (), doc)" "source_manifest sha t = Inr m" "m \<noteq> []"
  shows "\<exists>p. plan_scope sha doc t = Inr p \<and> p_ready p \<and> s_tags p = [] \<and> s_changed p = 0 \<and>
    p_applied_revision p = Some (clean_revision revision)"
proof -
  have doc: "doc = Some (applied_payload now revision m)" using assms by (auto simp: write_applied_def split: if_splits)
  have "set (changed_paths (sort_key fst m) m) = {}"
    using map_of_sort_key [OF manifest_distinct [OF assms(2)]] manifest_distinct [OF assms(2)]
    by (auto simp: changed_paths_set)
  then have "changed_paths (sort_key fst m) m = []" by simp
  moreover have "s_full (scope_for []) = False" "s_tags (scope_for []) = []" "s_changed (scope_for []) = 0"
    by (simp_all add: scope_for_def)
  ultimately show ?thesis using assms(2,3)
    by (simp add: plan_scope_def doc read_written ebind_def Let_def scope.defs plan.defs)
qed

theorem recorded_tree_needs_nothing_witness:
  "\<exists>p. plan_scope id (applied_doc (installed ''v1'' ''v1'' ''v1'')) (sample_tree ''v1'') = Inr p \<and> p_ready p \<and> s_tags p = [] \<and> s_changed p = 0 \<and>
    p_applied_revision p = Some (clean_revision sample_revision)"
proof (rule recorded_tree_needs_nothing [OF _ sample_manifest])
  show "write_applied id \<lparr>mkdir_fails = False, mkstemp_fails = False, replace_step_fails = False\<rparr> ''2026-01-01T00:00:00+00:00''
      (sample_tree ''v1'') sample_revision None = (Inr (), applied_doc (installed ''v1'' ''v1'' ''v1''))"
    by (simp add: write_applied_def sample_manifest installed_def)
qed (simp add: sample_files_def)

text \<open>C29. A file that came back is skipped: when every file of the source is at its recorded version again, a
  changes-only update runs the status check alone and leaves every place of the host as it is, also one
  where a narrower or failed update has put another version meanwhile.\<close>

theorem returned_version_is_skipped:
  assumes "playbook_laws env ver places" "command_update env args s = (Inr T, s')"
    and "component args = CHANGES_COMPONENT" "\<not> ui_only args" "\<not> cfg_pending s"
    and "read_applied (applied_doc s) = Some a" "source_manifest (sha256 env) (src_tree s') = Inr m"
    and "\<forall>p d. map_of m p = Some d \<longrightarrow> map_of (a_files a) p = Some d"
    and "\<forall>extra t h h'. playbook env ''status'' extra t h = (None, h') \<longrightarrow> (\<forall>x p. ver h' x p = ver h x p)"
  shows "T = ''status'' \<and> (\<forall>x p. ver (host s') x p = ver (host s) x p)"
proof -
  obtain p where p: "plan_scope (sha256 env) (applied_doc s) (src_tree s') = Inr p" "T = (if s_full p then UPDATE_TAGS else scope_tags_text p)"
    using command_of_changes [OF assms(2-5)] by blast
  have "changed_paths (a_files a) m = []"
    using assms(8) manifest_distinct [OF assms(7)] changed_paths_iff [of m _ "a_files a"] by (metis list.set_intros(1) neq_Nil_conv)
  then have "s_full p = s_full (scope_for [])" "s_tags p = s_tags (scope_for [])"
    using p(1) assms(6,7) by (auto simp: plan_scope_def ebind_def Let_def scope.defs plan.defs)
  then have "\<not> s_full p" "s_tags p = []" by (simp_all add: scope_for_def)
  then have T: "T = ''status''" using p(2) by (simp add: scope_tags_text_def)
  show ?thesis using assms(1) command_outcome [OF assms(2)]
  proof (cases rule: ran_cases)
    case (run T1 extra e h)
    then have "e = None" "T1 = ''status''" using T by (cases e; auto)+
    then have "\<forall>x p. ver (host s') x p = ver h x p" using assms(9) run(1) by blast
    then show ?thesis using run(2) T by simp
  qed simp
qed

theorem returned_version_is_skipped_witness:
  "(''status'' = ''status'' \<and> (\<forall>x p. sample_ver (host (installed ''v1'' ''v1'' ''v2'')) x p = sample_ver (host (installed ''v2'' ''v1'' ''v2'')) x p)) \<and>
   sample_ver (host (installed ''v1'' ''v1'' ''v2'')) () guardd_py = Some ''v2'' \<and> map_of (sample_files ''v1'') guardd_py = Some ''v1''"
proof -
  have r: "read_applied (applied_doc (installed ''v2'' ''v1'' ''v2'')) = Some \<lparr>a_revision = clean_revision sample_revision,
      a_files = sort_key fst (sample_files ''v1''), a_recorded_at = ''2026-01-01T00:00:00+00:00''\<rparr>"
    by (simp add: installed_def read_written sample_files_def)
  have k: "map_of (sort_key fst (sample_files ''v1'')) = map_of (sample_files ''v1'')"
    by (rule map_of_sort_key [OF manifest_distinct [OF sample_manifest]])
  have st: "\<not> (''status'' = UPDATE_TAGS \<or> ''ha-adm-guardd'' \<in> set (py_split (CHR '','') ''status''))" by code_simp
  have "''status'' = ''status'' \<and> (\<forall>x p. sample_ver (host (installed ''v1'' ''v1'' ''v2'')) x p = sample_ver (host (installed ''v2'' ''v1'' ''v2'')) x p)"
    by (rule returned_version_is_skipped [OF sample_playbook_laws sample_return _ _ _ r])
       (use st k in \<open>auto simp: sample_args_def CHANGES_COMPONENT_def installed_def sample_update_env_def sample_manifest sample_play_def\<close>)
  then show ?thesis by (simp add: sample_ver_def installed_def sample_files_def)
qed

text \<open>The pattern matcher decides the regular expression that \<open>fnmatch.translate\<close> gives for the pattern.\<close>

theorem fnmatch_is_its_translation: "fnmatchcase s pat \<longleftrightarrow> rex_match (translate pat) s"
  by (simp add: fnmatchcase_lang rex_match_iff)

end
