(* ===== verification/Backup_Retention.thy ===== *)
theory Backup_Retention
  imports Py_Regex Py_Json
begin

text \<open>
  Which off-host copies of the backup the keep policy of a destination removes, and the numbers an
  operator may ask for: \<open>retention_victims\<close>, \<open>keep_count\<close>, \<open>keep_local_value\<close> and the file names
  of \<open>src/ansible/roles/haproxy-admin/files/easy-ha-proxy-backupd.py\<close>.  The calendar is that of the
  standard library's \<open>datetime.date\<close>: the proleptic Gregorian calendar with ISO weeks.
\<close>

section \<open>Errors\<close>

text \<open>
  What a request can raise: \<open>BackupdError\<close> with its code and message, an \<open>OSError\<close>, the timeout of a
  child process, and the language's own errors.
\<close>

datatype backup_error =
    BackupdError string string
  | OSError string
  | TimeoutExpired
  | PyError py_error

type_synonym 'a bresult = "backup_error + 'a"

abbreviation invalid :: "string \<Rightarrow> 'a bresult" where
  "invalid msg \<equiv> Inl (BackupdError ''invalid'' msg)"

section \<open>Calendar\<close>

definition leap_year :: "int \<Rightarrow> bool" where
  "leap_year y = (y mod 4 = 0 \<and> (y mod 100 \<noteq> 0 \<or> y mod 400 = 0))"

definition month_days :: "int list" where
  "month_days = [31, 28, 31, 30, 31, 30, 31, 31, 30, 31, 30, 31]"

definition days_in_month :: "int \<Rightarrow> int \<Rightarrow> int" where
  "days_in_month y m = (if m = 2 \<and> leap_year y then 29 else month_days ! nat (m - 1))"

text \<open>\<open>dt.date(y, m, d)\<close> raises \<open>ValueError\<close> outside these bounds.\<close>

definition valid_date :: "int \<Rightarrow> int \<Rightarrow> int \<Rightarrow> bool" where
  "valid_date y m d = (1 \<le> y \<and> y \<le> 9999 \<and> 1 \<le> m \<and> m \<le> 12 \<and> 1 \<le> d \<and> d \<le> days_in_month y m)"

definition days_before_year :: "int \<Rightarrow> int" where
  "days_before_year y = (let p = y - 1 in p * 365 + p div 4 - p div 100 + p div 400)"

definition days_before_month :: "int \<Rightarrow> int \<Rightarrow> int" where
  "days_before_month y m = sum_list (take (nat (m - 1)) month_days) + (if m > 2 \<and> leap_year y then 1 else 0)"

text \<open>\<open>date.toordinal\<close>: day 1 is Monday, 1 January of year 1.\<close>

definition ymd2ord :: "int \<Rightarrow> int \<Rightarrow> int \<Rightarrow> int" where
  "ymd2ord y m d = days_before_year y + days_before_month y m + d"

definition isoweek1monday :: "int \<Rightarrow> int" where
  "isoweek1monday y =
     (let firstday = ymd2ord y 1 1; firstweekday = (firstday + 6) mod 7; monday = firstday - firstweekday
      in if firstweekday > 3 then monday + 7 else monday)"

text \<open>Year and week of \<open>date.isocalendar\<close>.\<close>

definition isocalendar :: "int \<Rightarrow> int \<Rightarrow> int \<Rightarrow> int \<times> int" where
  "isocalendar y m d =
     (let today = ymd2ord y m d; week = (today - isoweek1monday y) div 7
      in if week < 0 then (y - 1, (today - isoweek1monday (y - 1)) div 7 + 1)
         else if week \<ge> 52 \<and> today \<ge> isoweek1monday (y + 1) then (y + 1, 1)
         else (y, week + 1))"

section \<open>Names of the copies\<close>

definition REMOTE_PREFIX :: string where "REMOTE_PREFIX = ''easy-ha-proxy-''"
definition ARCHIVE_SUFFIX :: string where "ARCHIVE_SUFFIX = ''.tar.gz.enc''"

text \<open>
  The date right behind the prefix as \<open>YYYY-MM-DD\<close>, when there are eight digits there that are a
  date.
\<close>

definition date_groups :: "string \<Rightarrow> (string \<times> string \<times> string) option" where
  "date_groups name =
     (let rest = drop (length REMOTE_PREFIX) name; ds = take 8 rest
      in if py_startswith name REMOTE_PREFIX \<and> length ds = 8 \<and> list_all is_digit ds
         then Some (take 4 ds, take 2 (drop 4 ds), drop 6 ds) else None)"

definition copy_day :: "string \<Rightarrow> string option" where
  "copy_day name = (case date_groups name of None \<Rightarrow> None
     | Some (y, m, d) \<Rightarrow>
         if valid_date (int (digits_val y)) (int (digits_val m)) (int (digits_val d))
         then Some (y @ ''-'' @ m @ ''-'' @ d) else None)"

definition is_copy_name :: "string \<Rightarrow> bool" where
  "is_copy_name candidate = (py_startswith candidate REMOTE_PREFIX \<and> py_endswith candidate ARCHIVE_SUFFIX)"

text \<open>\<open>row.strip().rsplit("/", 1)[-1]\<close> of every row, kept when it names a copy.\<close>

definition listed_names :: "string list \<Rightarrow> string list" where
  "listed_names rows = sort (filter is_copy_name (map (\<lambda>row. last (py_split (CHR ''/'') (py_strip row))) rows))"

section \<open>Retention\<close>

text \<open>\<open>int(value or default)\<close>\<close>

definition int_or :: "json \<Rightarrow> int \<Rightarrow> int bresult" where
  "int_or v dflt = (let w = jor v (JInt dflt) in case py_int w of Some n \<Rightarrow> Inr n
     | None \<Rightarrow> (case w of JStr _ \<Rightarrow> Inl (PyError (ValueError ''invalid literal for int()''))
                 | _ \<Rightarrow> Inl (PyError (TypeError ''int() argument must be a string or a number''))))"

definition scan_copy :: "string \<Rightarrow> (string \<times> string) list \<times> string list \<Rightarrow> (string \<times> string) list \<times> string list" where
  "scan_copy name = (\<lambda>(by_day, dated). case copy_day name of None \<Rightarrow> (by_day, dated)
     | Some day \<Rightarrow> (jput day name by_day, name # dated))"

definition scan_copies :: "string list \<Rightarrow> (string \<times> string) list \<times> string list" where
  "scan_copies names = fold scan_copy (sort names) ([], [])"

text \<open>The loop over the days, newest first, that keeps the first day of each of the first \<open>n\<close> groups.\<close>

fun keep_groups :: "(string \<Rightarrow> string) \<Rightarrow> int \<Rightarrow> string list \<Rightarrow> string list \<Rightarrow> string list" where
  "keep_groups token n seen [] = []"
| "keep_groups token n seen (day # days) =
     (if token day \<in> set seen then keep_groups token n seen days
      else (if int (length seen) + 1 \<le> n then [day] else []) @ keep_groups token n (token day # seen) days)"

definition week_token :: "string \<Rightarrow> string" where
  "week_token day =
     (case isocalendar (int (digits_val (take 4 day))) (int (digits_val (take 2 (drop 5 day)))) (int (digits_val (drop 8 day)))
      of (y, w) \<Rightarrow> int_to_str y @ ''-'' @ int_to_str w)"

definition month_token :: "string \<Rightarrow> string" where
  "month_token day = take 7 day"

text \<open>The weekly and the monthly count are read only when there is a day to look at.\<close>

definition kept_days :: "jobj \<Rightarrow> string list \<Rightarrow> string list bresult" where
  "kept_days record days =
     ebind (int_or (jget ''keep_daily'' record) 0) (\<lambda>daily.
       if days = [] then Inr []
       else ebind (int_or (jget ''keep_weekly'' record) 0) (\<lambda>weekly.
              ebind (int_or (jget ''keep_monthly'' record) 0) (\<lambda>monthly.
                Inr (take (nat daily) days @ keep_groups week_token weekly [] days @
                     keep_groups month_token monthly [] days))))"

definition retention_victims :: "string list \<Rightarrow> jobj \<Rightarrow> string list bresult" where
  "retention_victims names record =
     (case scan_copies names of (by_day, dated) \<Rightarrow>
        let days = rev (sort (map fst by_day))
        in ebind (kept_days record days) (\<lambda>keep_days.
             let keep = map (\<lambda>day. the (map_of by_day day)) keep_days
             in Inr (filter (\<lambda>name. name \<in> set dated \<and> name \<notin> set keep) names)))"

section \<open>The counts an operator may ask for\<close>

text \<open>\<open>value is None or value == ""\<close>\<close>

definition absent :: "json \<Rightarrow> bool" where
  "absent v = (v = JNull \<or> v = JStr [])"

definition keep_count :: "json \<Rightarrow> int \<Rightarrow> int \<Rightarrow> int bresult" where
  "keep_count v dflt cap =
     (if absent v then Inr dflt
      else case py_int v of None \<Rightarrow> invalid ''a retention count must be a number''
        | Some number \<Rightarrow> Inr (max 0 (min cap number)))"

definition DEFAULT_KEEP_LOCAL :: int where "DEFAULT_KEEP_LOCAL = 3"
definition LIST_LIMIT :: int where "LIST_LIMIT = 50"

text \<open>
  \<open>str.isdigit\<close> is true of the superscript digits U+00B2, U+00B3 and U+00B9 too, which \<open>int\<close> then
  refuses with a \<open>ValueError\<close>.
\<close>

definition py_isdigit :: "string \<Rightarrow> bool" where
  "py_isdigit s = (s \<noteq> [] \<and> list_all (\<lambda>c. is_digit c \<or> ord c \<in> {178, 179, 185}) s)"

fun whole_number :: "json \<Rightarrow> bool" where
  "whole_number (JInt _) = True"
| "whole_number (JStr s) = py_isdigit (py_strip s)"
| "whole_number _ = False"

definition keep_local_value :: "json \<Rightarrow> int \<Rightarrow> int bresult" where
  "keep_local_value v dflt =
     (if absent v then Inr dflt
      else if \<not> whole_number v
        then invalid ''the number of backups kept on this server must be a whole number''
      else case py_int v of None \<Rightarrow> Inl (PyError (ValueError ''invalid literal for int()''))
        | Some number \<Rightarrow> if 1 \<le> number \<and> number \<le> LIST_LIMIT then Inr number
             else invalid ''the number of backups kept on this server must be between 1 and 50'')"

text \<open>A hand-edited count falls back to the default; only \<open>BackupdError\<close> is caught.\<close>

definition stored_keep_local :: "json \<Rightarrow> int bresult" where
  "stored_keep_local v = (case keep_local_value v DEFAULT_KEEP_LOCAL of
       Inl (BackupdError _ _) \<Rightarrow> Inr DEFAULT_KEEP_LOCAL | r \<Rightarrow> r)"

section \<open>Weeks\<close>

text \<open>The number of the week, from Monday to Sunday, that a day lies in.\<close>

definition week_number :: "int \<Rightarrow> int \<Rightarrow> int \<Rightarrow> int" where
  "week_number y m d = (ymd2ord y m d - 1) div 7"

lemma ymd2ord_first: "ymd2ord y 1 1 = days_before_year y + 1"
  by (simp add: ymd2ord_def days_before_month_def)

lemma div_step:
  assumes "0 < (n :: int)"
  shows "y div n = (y - 1) div n + (if y mod n = 0 then 1 else 0)"
proof -
  let ?q = "y div n" and ?r = "y mod n"
  have y: "y = n * ?q + ?r" and r: "0 \<le> ?r" "?r < n" using assms by simp_all
  show ?thesis
  proof (cases "?r = 0")
    case True
    have "(y - 1) div n = ?q - 1"
      by (rule int_div_pos_eq [where r = "n - 1"]) (use y True assms in \<open>simp_all add: algebra_simps\<close>)
    then show ?thesis using True by simp
  next
    case False
    have "(y - 1) div n = ?q" by (rule int_div_pos_eq [where r = "?r - 1"]) (use y False r in simp_all)
    then show ?thesis using False by simp
  qed
qed

lemma mod_chain: "(y :: int) mod 400 = 0 \<Longrightarrow> y mod 100 = 0" "(y :: int) mod 100 = 0 \<Longrightarrow> y mod 4 = 0"
  by (auto simp: mod_eq_0_iff_dvd elim: dvdE)

lemma days_before_year_step: "days_before_year (y + 1) = days_before_year y + (if leap_year y then 366 else 365)"
proof -
  have sum: "a' = a + (if p then 1 else 0) \<Longrightarrow> b' = b + (if q then 1 else 0) \<Longrightarrow> c' = c + (if r then 1 else 0) \<Longrightarrow>
      (r \<longrightarrow> q) \<Longrightarrow> (q \<longrightarrow> p) \<Longrightarrow>
      y * 365 + a' - b' + c' = (y - 1) * 365 + a - b + c + (if p \<and> (\<not> q \<or> r) then 366 else 365)"
    for a a' b b' c c' :: int and p q r by (cases p; cases q; cases r; simp)
  have "days_before_year (y + 1) = y * 365 + y div 4 - y div 100 + y div 400" by (simp add: days_before_year_def)
  also have "\<dots> = (y - 1) * 365 + (y - 1) div 4 - (y - 1) div 100 + (y - 1) div 400 + (if leap_year y then 366 else 365)"
    unfolding leap_year_def by (rule sum, (rule div_step, simp)+, (use mod_chain [of y] in blast)+)
  finally show ?thesis by (simp only: days_before_year_def Let_def)
qed

lemma isoweek1monday_near:
  "isoweek1monday y \<ge> days_before_year y - 2" "isoweek1monday y \<le> days_before_year y + 4"
  "isoweek1monday y mod 7 = 1"
  unfolding isoweek1monday_def Let_def ymd2ord_first by (auto; presburger)+

lemma isoweek1monday_step: "isoweek1monday y + 364 \<le> isoweek1monday (y + 1)"
proof -
  let ?a = "isoweek1monday y" and ?b = "isoweek1monday (y + 1)"
  have "?b - ?a \<ge> 359"
    using isoweek1monday_near(1) [of "y + 1"] isoweek1monday_near(2) [of y] days_before_year_step [of y]
    by (auto split: if_splits)
  moreover have "(?b - ?a) mod 7 = 0"
    using isoweek1monday_near(3) [of y] isoweek1monday_near(3) [of "y + 1"] by presburger
  ultimately show ?thesis by presburger
qed

lemma valid_date_year:
  assumes "valid_date y m d"
  shows "days_before_year y < ymd2ord y m d" "ymd2ord y m d \<le> days_before_year (y + 1)"
proof -
  have "m \<in> {1, 2, 3, 4, 5, 6, 7, 8, 9, 10, 11, 12}" using assms unfolding valid_date_def by (simp, presburger)
  then show "days_before_year y < ymd2ord y m d" "ymd2ord y m d \<le> days_before_year (y + 1)"
    using assms unfolding valid_date_def ymd2ord_def days_before_year_step
    by (auto simp: days_in_month_def days_before_month_def month_days_def nat_eq_iff eval_nat_numeral split: if_splits)
qed

lemma isocalendar_year:
  assumes "valid_date y m d" "isocalendar y m d = (iy, iw)"
  shows "isoweek1monday iy \<le> ymd2ord y m d" "ymd2ord y m d < isoweek1monday (iy + 1)"
    "iw = (ymd2ord y m d - isoweek1monday iy) div 7 + 1"
proof -
  let ?t = "ymd2ord y m d"
  note t = valid_date_year [OF assms(1)]
  have prev: "isoweek1monday (y - 1) \<le> ?t"
    using isoweek1monday_near(2) [of "y - 1"] days_before_year_step [of "y - 1"] t(1) by (auto split: if_splits)
  have "next": "?t < isoweek1monday (y + 1) + 7" using isoweek1monday_near(1) [of "y + 1"] t(2) by simp
  have far: "?t < isoweek1monday (y + 2)"
    using isoweek1monday_step [of "y + 1"] "next" by (simp add: algebra_simps)
  consider (early) "?t < isoweek1monday y" "iy = y - 1" "iw = (?t - isoweek1monday (y - 1)) div 7 + 1"
    | (late) "isoweek1monday (y + 1) \<le> ?t" "iy = y + 1" "iw = 1"
    | (same) "isoweek1monday y \<le> ?t" "?t < isoweek1monday (y + 1)" "iy = y" "iw = (?t - isoweek1monday y) div 7 + 1"
  proof (cases "?t < isoweek1monday y")
    case True
    then have "(?t - isoweek1monday y) div 7 < 0" by (simp add: div_neg_pos_less0)
    then show ?thesis using that(1) True assms(2) by (auto simp: isocalendar_def Let_def)
  next
    case False
    then have w: "\<not> (?t - isoweek1monday y) div 7 < 0" by (simp add: pos_imp_zdiv_neg_iff)
    show ?thesis
    proof (cases "isoweek1monday (y + 1) \<le> ?t")
      case after: True
      have "364 \<le> ?t - isoweek1monday y" using isoweek1monday_step [of y] after by linarith
      then have "52 \<le> (?t - isoweek1monday y) div 7" using zdiv_mono1 [of 364 _ 7] by simp
      then have "isocalendar y m d = (y + 1, 1)" using w after by (simp add: isocalendar_def Let_def)
      then show ?thesis using that(2) after assms(2) by simp
    next
      case before: False
      then have "isocalendar y m d = (y, (?t - isoweek1monday y) div 7 + 1)"
        using w by (simp add: isocalendar_def Let_def)
      then show ?thesis using that(3) False before assms(2) by (intro that(3)) auto
    qed
  qed
  then have "isoweek1monday iy \<le> ?t \<and> ?t < isoweek1monday (iy + 1) \<and> iw = (?t - isoweek1monday iy) div 7 + 1"
  proof cases
    case early
    then show ?thesis using prev by simp
  next
    case late
    have "y + 1 + 1 = y + 2" by simp
    moreover have "(?t - isoweek1monday (y + 1)) div 7 = 0"
      by (rule div_pos_pos_trivial) (use late "next" in linarith)+
    ultimately show ?thesis using late far by (simp only:) simp
  next
    case same
    then show ?thesis by simp
  qed
  then show "isoweek1monday iy \<le> ?t" "?t < isoweek1monday (iy + 1)" "iw = (?t - isoweek1monday iy) div 7 + 1"
    by blast+
qed

lemma isoweek1monday_mono: "y < y' \<Longrightarrow> isoweek1monday (y + 1) \<le> isoweek1monday y'"
proof (induction "nat (y' - y)" arbitrary: y')
  case (Suc n)
  show ?case
  proof (cases "y' = y + 1")
    case False
    have "isoweek1monday (y + 1) \<le> isoweek1monday (y' - 1)" by (rule Suc.hyps(1)) (use Suc False in linarith)+
    then show ?thesis using isoweek1monday_step [of "y' - 1"] by simp
  qed simp
qed simp

lemma week_number_split:
  assumes "isocalendar y m d = (iy, iw)" "valid_date y m d"
  shows "week_number y m d = (isoweek1monday iy - 1) div 7 + (iw - 1)"
    "(isoweek1monday iy - 1) div 7 \<le> week_number y m d" "week_number y m d < (isoweek1monday (iy + 1) - 1) div 7"
proof -
  let ?t = "ymd2ord y m d"
  note c = isocalendar_year [OF assms(2,1)]
  obtain k where k: "isoweek1monday iy = 7 * k + 1" using isoweek1monday_near(3) [of iy] mult_div_mod_eq [of 7 "isoweek1monday iy"] by metis
  obtain j where j: "isoweek1monday (iy + 1) = 7 * j + 1"
    using isoweek1monday_near(3) [of "iy + 1"] mult_div_mod_eq [of 7 "isoweek1monday (iy + 1)"] by metis
  have t: "?t - 1 = (?t - isoweek1monday iy) + k * 7" using k by simp
  have w: "week_number y m d = k + (iw - 1)" unfolding week_number_def t c(3) by simp
  show "week_number y m d = (isoweek1monday iy - 1) div 7 + (iw - 1)" using w k by simp
  show "(isoweek1monday iy - 1) div 7 \<le> week_number y m d" using w k c(1,3) by (simp add: pos_imp_zdiv_nonneg_iff)
  have "week_number y m d < j" unfolding week_number_def using c(2) j by linarith
  then show "week_number y m d < (isoweek1monday (iy + 1) - 1) div 7" using j by simp
qed

lemma isocalendar_is_week:
  assumes "valid_date y m d" "valid_date y' m' d'"
  shows "isocalendar y m d = isocalendar y' m' d' \<longleftrightarrow> week_number y m d = week_number y' m' d'"
proof -
  obtain iy iw iy' iw' where c: "isocalendar y m d = (iy, iw)" "isocalendar y' m' d' = (iy', iw')" by fastforce
  note w = week_number_split [OF c(1) assms(1)] week_number_split [OF c(2) assms(2)]
  have "week_number a b c < week_number a' b' c'"
    if "isocalendar a b c = (i, u)" "isocalendar a' b' c' = (i', u')" "valid_date a b c" "valid_date a' b' c'" "i < i'"
    for a b c a' b' c' i u i' u'
  proof -
    have "(isoweek1monday (i + 1) - 1) div 7 \<le> (isoweek1monday i' - 1) div 7"
      using isoweek1monday_mono [OF that(5)] by (intro zdiv_mono1) auto
    then show ?thesis using week_number_split(3) [OF that(1,3)] week_number_split(2) [OF that(2,4)] by linarith
  qed
  from this [OF c(1,2) assms] this [OF c(2,1) assms(2,1)] have "week_number y m d = week_number y' m' d' \<Longrightarrow> iy = iy'"
    by (cases iy iy' rule: linorder_cases) auto
  then show ?thesis using w(1,4) c by auto
qed

text \<open>The dates of the copies, and that the tokens of the weekly loop name exactly the calendar weeks.\<close>

definition day_parts :: "string \<Rightarrow> int \<times> int \<times> int" where
  "day_parts day = (int (digits_val (take 4 day)), int (digits_val (take 2 (drop 5 day))), int (digits_val (drop 8 day)))"

definition day_week :: "string \<Rightarrow> int" where
  "day_week day = (case day_parts day of (y, m, d) \<Rightarrow> week_number y m d)"

lemma copy_day_parts:
  assumes "copy_day x = Some day" "day_parts day = (y, m, d)"
  shows "valid_date y m d"
proof -
  obtain ys ms ds where g: "date_groups x = Some (ys, ms, ds)"
    "valid_date (int (digits_val ys)) (int (digits_val ms)) (int (digits_val ds))" "day = ys @ ''-'' @ ms @ ''-'' @ ds"
    using assms(1) by (auto simp: copy_day_def split: option.splits prod.splits if_splits)
  have "length ys = 4" "length ms = 2" using g(1) by (auto simp: date_groups_def Let_def split: if_splits)
  then show ?thesis using g(2,3) assms(2) by (auto simp: day_parts_def)
qed

lemma int_to_str_nonneg: "0 \<le> n \<Longrightarrow> int_to_str n = nat_to_str (nat n)"
  by (simp add: int_to_str_def)

lemma dash_split:
  assumes "0 \<le> a" "0 \<le> b" "0 \<le> a'" "0 \<le> b'"
    "int_to_str a @ ''-'' @ int_to_str b = int_to_str a' @ ''-'' @ int_to_str b'"
  shows "a = a' \<and> b = b'"
proof -
  have no: "CHR ''-'' \<notin> set (int_to_str n)" if "0 \<le> n" for n
    using that is_digit_nat_to_str [of "CHR ''-''" "nat n"] by (auto simp: int_to_str_nonneg is_digit_def)
  have "takeWhile (\<lambda>c. c \<noteq> CHR ''-'') (int_to_str n @ ''-'' @ r) = int_to_str n" if "0 \<le> n" for n r
    using no [OF that] by (subst takeWhile_append2) auto
  then have "int_to_str a = int_to_str a'" "int_to_str b = int_to_str b'" using assms by (metis, metis append_same_eq append.assoc same_append_eq)
  then show ?thesis using assms nat_to_str_inj [of "nat a" "nat a'"] nat_to_str_inj [of "nat b" "nat b'"]
    by (auto simp: int_to_str_nonneg)
qed

lemma isocalendar_nonneg:
  assumes "valid_date y m d" "isocalendar y m d = (iy, iw)"
  shows "0 \<le> iy" "0 \<le> iw"
proof -
  show "0 \<le> iy" using assms by (auto simp: isocalendar_def Let_def valid_date_def split: if_splits)
  show "0 \<le> iw" using isocalendar_year(1,3) [OF assms] by (simp add: pos_imp_zdiv_nonneg_iff)
qed

lemma week_token_is_week:
  assumes "copy_day x = Some day" "copy_day x' = Some day'"
  shows "week_token day = week_token day' \<longleftrightarrow> day_week day = day_week day'"
proof -
  obtain y m d y' m' d' where p: "day_parts day = (y, m, d)" "day_parts day' = (y', m', d')" by (metis prod_cases3)
  note v = copy_day_parts [OF assms(1) p(1)] copy_day_parts [OF assms(2) p(2)]
  obtain iy iw iy' iw' where c: "isocalendar y m d = (iy, iw)" "isocalendar y' m' d' = (iy', iw')" by fastforce
  have t: "week_token day = int_to_str iy @ ''-'' @ int_to_str iw" "week_token day' = int_to_str iy' @ ''-'' @ int_to_str iw'"
    using p c by (auto simp: week_token_def day_parts_def)
  have "week_token day = week_token day' \<longleftrightarrow> (iy, iw) = (iy', iw')"
    using dash_split [of iy iw iy' iw'] isocalendar_nonneg [OF v(1) c(1)] isocalendar_nonneg [OF v(2) c(2)]
    unfolding t by auto
  also have "\<dots> \<longleftrightarrow> week_number y m d = week_number y' m' d'" using isocalendar_is_week [OF v] c by simp
  finally show ?thesis using p by (simp add: day_week_def)
qed

section \<open>What the policy means\<close>

text \<open>
  Read off the operator's words: of the days that have a copy, the newest \<open>n\<close> groups (days, ISO
  weeks or months) keep the copy of their last day.
\<close>

definition later :: "string set \<Rightarrow> string \<Rightarrow> string set" where
  "later D d = {y \<in> D. d < y}"

definition newest_groups :: "(string \<Rightarrow> 'k) \<Rightarrow> int \<Rightarrow> string set \<Rightarrow> string \<Rightarrow> bool" where
  "newest_groups token n D d = (token d \<notin> token ` later D d \<and> int (card (token ` later D d)) < n)"

definition copy_days :: "string list \<Rightarrow> string set" where
  "copy_days names = {d. \<exists>x \<in> set names. copy_day x = Some d}"

definition last_copy :: "string list \<Rightarrow> string \<Rightarrow> string \<Rightarrow> bool" where
  "last_copy names d x = (copy_day x = Some d \<and> (\<forall>y \<in> set names. copy_day y = Some d \<longrightarrow> y \<le> x))"

definition policy_keeps :: "int \<Rightarrow> int \<Rightarrow> int \<Rightarrow> string list \<Rightarrow> string \<Rightarrow> bool" where
  "policy_keeps daily weekly monthly names x =
     (case copy_day x of None \<Rightarrow> True
      | Some d \<Rightarrow> last_copy names d x \<and>
          (newest_groups id daily (copy_days names) d \<or> newest_groups day_week weekly (copy_days names) d \<or>
           newest_groups month_token monthly (copy_days names) d))"

section \<open>Facts\<close>

lemma map_of_scan:
  "map_of (fst (fold scan_copy xs (b, s))) d =
     (case filter (\<lambda>x. copy_day x = Some d) xs of [] \<Rightarrow> map_of b d | ys \<Rightarrow> Some (last ys))"
  by (induction xs arbitrary: b s) (auto simp: scan_copy_def split: option.splits list.splits)

lemma dated_scan: "set (snd (fold scan_copy xs (b, s))) = {x \<in> set xs. copy_day x \<noteq> None} \<union> set s"
  by (induction xs arbitrary: b s) (auto simp: scan_copy_def split: option.splits)

lemma distinct_scan: "distinct (map fst b) \<Longrightarrow> distinct (map fst (fst (fold scan_copy xs (b, s))))"
  by (induction xs arbitrary: b s) (auto simp: scan_copy_def distinct_update split: option.splits)

lemma keys_scan: "fst ` set (fst (fold scan_copy xs (b, s))) = {d. \<exists>x \<in> set xs. copy_day x = Some d} \<union> fst ` set b"
  by (induction xs arbitrary: b s) (auto simp: scan_copy_def dom_update split: option.splits)

lemma sorted_last_ge: "sorted xs \<Longrightarrow> y \<in> set xs \<Longrightarrow> y \<le> last xs"
  by (induction xs rule: rev_induct) (auto simp: sorted_append)

lemma by_day_last:
  assumes "d \<in> copy_days names"
  shows "\<exists>x \<in> set names. map_of (fst (scan_copies names)) d = Some x \<and> last_copy names d x"
proof -
  let ?ys = "filter (\<lambda>x. copy_day x = Some d) (sort names)"
  have ne: "?ys \<noteq> []" using assms by (auto simp: copy_days_def filter_empty_conv)
  then have l: "last ?ys \<in> set ?ys" by (rule last_in_set)
  have "sorted ?ys" by (simp add: sorted_wrt_filter)
  then have "\<forall>y \<in> set ?ys. y \<le> last ?ys" using sorted_last_ge by blast
  moreover have "map_of (fst (scan_copies names)) d = Some (last ?ys)"
    using ne by (simp add: scan_copies_def map_of_scan split: list.splits)
  ultimately show ?thesis using l by (intro bexI [of _ "last ?ys"]) (auto simp: last_copy_def)
qed

lemma last_copy_unique: "last_copy names d x \<Longrightarrow> last_copy names d y \<Longrightarrow> x \<in> set names \<Longrightarrow> y \<in> set names \<Longrightarrow> x = y"
  by (auto simp: last_copy_def intro: antisym)

lemma days_of_scan:
  "set (rev (sort (map fst (fst (scan_copies names))))) = copy_days names"
  "sorted_wrt (>) (rev (sort (map fst (fst (scan_copies names)))))"
proof -
  show "set (rev (sort (map fst (fst (scan_copies names))))) = copy_days names"
    by (simp add: scan_copies_def keys_scan copy_days_def)
  have "distinct (map fst (fst (scan_copies names)))" by (simp add: scan_copies_def distinct_scan)
  then have "sorted_wrt (<) (sort (map fst (fst (scan_copies names))))"
    by (simp add: strict_sorted_iff)
  then show "sorted_wrt (>) (rev (sort (map fst (fst (scan_copies names)))))"
    by (simp add: sorted_wrt_rev)
qed

lemma Cons_split_ex:
  "(\<exists>us vs. x # xs = us @ d # vs \<and> Q us) \<longleftrightarrow> (d = x \<and> Q []) \<or> (\<exists>us vs. xs = us @ d # vs \<and> Q (x # us))"
proof
  assume "\<exists>us vs. x # xs = us @ d # vs \<and> Q us"
  then obtain us vs where "x # xs = us @ d # vs" "Q us" by blast
  then show "(d = x \<and> Q []) \<or> (\<exists>us vs. xs = us @ d # vs \<and> Q (x # us))" by (cases us) auto
next
  assume "(d = x \<and> Q []) \<or> (\<exists>us vs. xs = us @ d # vs \<and> Q (x # us))"
  then show "\<exists>us vs. x # xs = us @ d # vs \<and> Q us"
  proof (elim disjE exE conjE)
    assume "d = x" "Q []"
    then have "x # xs = [] @ d # xs \<and> Q []" by simp
    then show ?thesis by blast
  next
    fix us vs
    assume "xs = us @ d # vs" "Q (x # us)"
    then have "x # xs = (x # us) @ d # vs \<and> Q (x # us)" by simp
    then show ?thesis by blast
  qed
qed

lemma keep_groups_iff:
  assumes "distinct seen"
  shows "d \<in> set (keep_groups token n seen days) \<longleftrightarrow>
     (\<exists>us vs. days = us @ d # vs \<and> token d \<notin> token ` set us \<union> set seen \<and>
        int (card (token ` set us \<union> set seen)) < n)"
  using assms
proof (induction token n seen days rule: keep_groups.induct)
  case (1 token n seen)
  then show ?case by simp
next
  case (2 token n seen day days)
  let ?P = "\<lambda>seen us. token d \<notin> token ` set us \<union> set seen \<and> int (card (token ` set us \<union> set seen)) < n"
  have split: "(\<exists>us vs. day # days = us @ d # vs \<and> ?P seen us) \<longleftrightarrow>
      (d = day \<and> ?P seen []) \<or> (\<exists>us vs. days = us @ d # vs \<and> ?P seen (day # us))"
    by (rule Cons_split_ex)
  show ?case
  proof (cases "token day \<in> set seen")
    case True
    then have "token ` set (day # us) \<union> set seen = token ` set us \<union> set seen" for us by auto
    then show ?thesis using True 2 unfolding split by auto
  next
    case False
    have eq: "token ` set (day # us) \<union> set seen = token ` set us \<union> set (token day # seen)" for us by auto
    have "int (card (set seen)) < n \<longleftrightarrow> int (length seen) + 1 \<le> n" using 2(3) by (auto simp: distinct_card)
    then show ?thesis using False 2(2) [OF False] 2(3) unfolding split eq by auto
  qed
qed

lemma descending_split:
  assumes "sorted_wrt (>) days" "set days = D"
  shows "(\<exists>us vs. days = us @ d # vs \<and> P (set us)) \<longleftrightarrow> d \<in> D \<and> P (later D d)"
proof -
  have "days = us @ d # vs \<Longrightarrow> set us = later D d" for us vs
    using assms by (auto simp: later_def sorted_wrt_append)
  then show ?thesis using assms(2) by (metis in_set_conv_decomp)
qed

lemma keep_groups_newest:
  assumes "sorted_wrt (>) days" "set days = D"
  shows "set (keep_groups token n [] days) = {d \<in> D. newest_groups token n D d}"
  using descending_split [OF assms, of _ "\<lambda>U. _ \<notin> token ` U \<and> int (card (token ` U)) < n"]
  by (auto simp: keep_groups_iff newest_groups_def)

lemma keep_groups_take: "distinct days \<Longrightarrow> set seen \<inter> set days = {} \<Longrightarrow> distinct seen \<Longrightarrow>
   keep_groups id n seen days = take (nat (n - int (length seen))) days"
proof (induction days arbitrary: seen)
  case (Cons d days)
  have step: "keep_groups id n (d # seen) days = take (nat (n - int (length (d # seen)))) days"
    by (rule Cons.IH) (use Cons.prems in auto)
  have fresh: "d \<notin> set seen" using Cons.prems by auto
  show ?case
  proof (cases "int (length seen) + 1 \<le> n")
    case True
    then obtain k where k: "n = int (length seen) + 1 + int k" by (metis zle_iff_zadd)
    have s: "nat (n - int (length seen)) = Suc k" using k by simp
    have s': "nat (n - int (length (d # seen))) = k" using k by simp
    show ?thesis unfolding s using step True fresh s' by (simp add: id_def)
  next
    case False
    then show ?thesis using step fresh by (simp add: id_def)
  qed
qed simp

lemma take_newest:
  assumes "sorted_wrt (>) days" "set days = D"
  shows "set (take (nat n) days) = {d \<in> D. newest_groups id n D d}"
proof -
  have "distinct days" using assms(1) by (induction days) auto
  then show ?thesis using keep_groups_take [of days "[]" n] keep_groups_newest [OF assms, of id n] by simp
qed

text \<open>The policy is monotone in the copies that are there: fewer copies never push one out.\<close>

lemma newest_groups_mono:
  assumes "D' \<subseteq> D" "finite D" "newest_groups token n D d"
  shows "newest_groups token n D' d"
proof -
  have s: "later D' d \<subseteq> later D d" "finite (later D d)" using assms by (auto simp: later_def)
  then have "card (token ` later D' d) \<le> card (token ` later D d)" by (intro card_mono) auto
  then show ?thesis using assms(3) s by (auto simp: newest_groups_def)
qed

lemma finite_copy_days [simp]: "finite (copy_days names)"
proof -
  have "copy_days names \<subseteq> the ` copy_day ` set names" by (force simp: copy_days_def)
  then show ?thesis by (rule finite_subset) simp
qed

lemma newest_groups_card:
  assumes "finite D"
  shows "card {d \<in> D. newest_groups token n D d} \<le> nat n"
proof -
  let ?K = "{d \<in> D. newest_groups token n D d}" and ?r = "\<lambda>d. card (token ` later D d)"
  have lt: "?r d' < ?r d" if "d < d'" "d' \<in> ?K" for d d'
  proof (rule psubset_card_mono)
    show "finite (token ` later D d)" using assms by (simp add: later_def)
    show "token ` later D d' \<subset> token ` later D d"
      using that by (fastforce simp: later_def newest_groups_def)
  qed
  have "inj_on ?r ?K"
    by (rule linorder_inj_onI) (use lt in fastforce)+
  moreover have "?r ` ?K \<subseteq> {..<nat n}" by (auto simp: newest_groups_def)
  ultimately have "card ?K \<le> card {..<nat n}" by (intro card_inj_on_le) auto
  then show ?thesis by simp
qed

lemma card_image_le_via:
  assumes "finite S" "\<And>x y. x \<in> S \<Longrightarrow> y \<in> S \<Longrightarrow> g x = g y \<Longrightarrow> f x = f y"
  shows "card (f ` S) \<le> card (g ` S)"
proof -
  have "f x = f (inv_into S g (g x))" if "x \<in> S" for x
    by (rule assms(2)) (use that in \<open>auto simp: inv_into_into f_inv_into_f\<close>)
  then have "f ` S = (\<lambda>k. f (inv_into S g k)) ` g ` S" unfolding image_image by (rule image_cong [OF refl])
  then show ?thesis using card_image_le [of "g ` S" "\<lambda>k. f (inv_into S g k)"] assms(1) by simp
qed

lemma newest_groups_cong:
  assumes "finite D" "d \<in> D" "\<And>x y. x \<in> D \<Longrightarrow> y \<in> D \<Longrightarrow> f x = f y \<longleftrightarrow> g x = g y"
  shows "newest_groups f n D d = newest_groups g n D d"
proof -
  have l: "later D d \<subseteq> D" "finite (later D d)" using assms(1) by (auto simp: later_def)
  have "card (f ` later D d) = card (g ` later D d)"
    by (intro antisym card_image_le_via) (use l assms(3) in auto)
  moreover have "f d \<in> f ` later D d \<longleftrightarrow> g d \<in> g ` later D d"
    using l assms(2,3) unfolding image_iff by blast
  ultimately show ?thesis by (simp add: newest_groups_def)
qed

lemma week_groups: "d \<in> copy_days names \<Longrightarrow>
   newest_groups week_token n (copy_days names) d = newest_groups day_week n (copy_days names) d"
  by (rule newest_groups_cong [OF finite_copy_days]) (auto simp: copy_days_def dest: week_token_is_week)

lemma retention_victims_spec:
  assumes "int_or (jget ''keep_daily'' record) 0 = Inr daily" "int_or (jget ''keep_weekly'' record) 0 = Inr weekly"
    "int_or (jget ''keep_monthly'' record) 0 = Inr monthly"
  shows "retention_victims names record = Inr (filter (\<lambda>x. \<not> policy_keeps daily weekly monthly names x) names)"
proof -
  obtain by_day dated where sc: "scan_copies names = (by_day, dated)" by fastforce
  let ?D = "copy_days names" and ?days = "rev (sort (map fst by_day))"
  let ?new = "\<lambda>d. newest_groups id daily ?D d \<or> newest_groups day_week weekly ?D d \<or> newest_groups month_token monthly ?D d"
  have days: "set ?days = ?D" "sorted_wrt (>) ?days" using days_of_scan [of names] sc by simp_all
  obtain ks where ks: "kept_days record ?days = Inr ks" "set ks = {d \<in> ?D. ?new d}"
  proof (cases "?days = []")
    case True
    then show ?thesis using that [of "[]"] days(1) assms by (auto simp: kept_days_def ebind_def)
  next
    case False
    have week: "{d \<in> ?D. newest_groups week_token weekly ?D d} = {d \<in> ?D. newest_groups day_week weekly ?D d}"
      using week_groups by blast
    from False show ?thesis
      using that [of "take (nat daily) ?days @ keep_groups week_token weekly [] ?days @ keep_groups month_token monthly [] ?days"]
        take_newest [OF days(2,1)] keep_groups_newest [OF days(2,1)] assms week
      by (auto simp: kept_days_def ebind_def)
  qed
  have dated: "set dated = {x \<in> set names. copy_day x \<noteq> None}"
    using dated_scan [of "sort names" "[]" "[]"] sc by (simp add: scan_copies_def)
  have bd: "\<exists>x \<in> set names. map_of by_day d = Some x \<and> last_copy names d x" if "d \<in> ?D" for d
    using by_day_last [OF that] sc by simp
  have "x \<in> set dated \<and> x \<notin> (\<lambda>d. the (map_of by_day d)) ` set ks \<longleftrightarrow> \<not> policy_keeps daily weekly monthly names x"
    if x: "x \<in> set names" for x
  proof (cases "copy_day x")
    case None
    then show ?thesis by (simp add: dated policy_keeps_def)
  next
    case (Some d)
    have dD: "d \<in> ?D" using Some x by (auto simp: copy_days_def)
    obtain z where z: "z \<in> set names" "map_of by_day d = Some z" "last_copy names d z" using bd [OF dD] by blast
    have "x = the (map_of by_day e) \<longleftrightarrow> e = d \<and> last_copy names d x" if "e \<in> ?D" for e
      using bd [OF that] z Some last_copy_unique [of names d x z] x by (auto simp: last_copy_def)
    then have "x \<in> (\<lambda>d. the (map_of by_day d)) ` set ks \<longleftrightarrow> last_copy names d x \<and> ?new d"
      using dD ks(2) by blast
    then show ?thesis using Some x by (simp add: dated policy_keeps_def)
  qed
  then have "filter (\<lambda>x. x \<in> set dated \<and> x \<notin> (\<lambda>d. the (map_of by_day d)) ` set ks) names =
      filter (\<lambda>x. \<not> policy_keeps daily weekly monthly names x) names"
    by (intro filter_cong) auto
  then show ?thesis using ks(1) by (simp add: retention_victims_def sc ebind_def)
qed

end
