(* ===== verification/Backup_Store.thy ===== *)
theory Backup_Store
  imports Backup_Retention
begin

text \<open>
  The archives on the gateway and their copies elsewhere, from
  \<open>src/ansible/roles/haproxy-admin/files/easy-ha-proxy-backupd.py\<close>: which archives count
  (\<open>all_backups\<close>), removing old ones (\<open>prune_local_backups\<close>), and copying one to a destination
  (\<open>upload_backup\<close>) with its verification and the pruning of the far end.

  Directories are lists of entries; what the file system answers is part of the entry.  A far end
  is reached by SFTP batches, a command over SSH, or signed S3 requests: its answers are a field of
  \<open>far_end\<close>, and what the daemon sends is returned as a trace, so that a deletion is visible in it.
\<close>

section \<open>Identifiers and files\<close>

definition lower_hex :: "char \<Rightarrow> bool" where
  "lower_hex c = (is_digit c \<or> (97 \<le> ord c \<and> ord c \<le> 102))"

definition is_identifier :: "string \<Rightarrow> bool" where
  "is_identifier s = (length s = 32 \<and> list_all lower_hex s)"

definition is_sha256 :: "string \<Rightarrow> bool" where
  "is_sha256 s = (length s = 64 \<and> list_all lower_hex s)"

definition identifier_of :: "json \<Rightarrow> string \<Rightarrow> string bresult" where
  "identifier_of v label = (case v of JStr s \<Rightarrow> if is_identifier s then Inr s else invalid (''invalid '' @ label)
     | _ \<Rightarrow> invalid (''invalid '' @ label))"

text \<open>
  A file: whether it is a regular file with one link that root owns, and its size.  The limits are
  the daemon's defaults.
\<close>

record file_stat =
  f_plain :: bool
  f_size :: int

definition MAX_ARCHIVE_BYTES :: int where "MAX_ARCHIVE_BYTES = 8 * 1024 * 1024 * 1024"
definition MAX_STATE_BYTES :: int where "MAX_STATE_BYTES = 256 * 1024"
definition CHECKSUM_BYTES :: int where "CHECKSUM_BYTES = 64 * 1024"

definition safe_regular_file :: "file_stat option \<Rightarrow> int \<Rightarrow> int bresult" where
  "safe_regular_file fs maximum_size = (case fs of None \<Rightarrow> Inl (OSError ''No such file'')
     | Some i \<Rightarrow> if \<not> f_plain i \<or> f_size i \<le> 0 then invalid ''unsafe or unsupported file''
         else if maximum_size < f_size i then Inl (BackupdError ''too_large'' ''file exceeds the configured size limit'')
         else Inr (f_size i))"

text \<open>A JSON file: \<open>None\<close> inside where the text does not parse.\<close>

definition safe_json_file :: "(file_stat \<times> json option) option \<Rightarrow> jobj bresult" where
  "safe_json_file jf = (case jf of None \<Rightarrow> Inl (OSError ''No such file'')
     | Some (i, doc) \<Rightarrow>
         if \<not> f_plain i \<or> f_size i \<le> 0 \<or> MAX_STATE_BYTES < f_size i then invalid ''unsafe state file''
         else case doc of None \<Rightarrow> Inl (PyError (ValueError ''invalid JSON''))
           | Some (JObj m) \<Rightarrow> Inr m
           | Some _ \<Rightarrow> invalid ''invalid state file'')"

section \<open>Archives on this server\<close>

record entry =
  e_id :: string
  e_meta :: "(file_stat \<times> json option) option"
  e_archive :: "file_stat option"
  e_sum :: "file_stat option"

record backup =
  b_id :: string
  b_size :: int
  b_created :: json
  b_sha256 :: string

definition public_backup :: "jobj \<Rightarrow> backup bresult" where
  "public_backup m = ebind (int_or (jget ''size_bytes'' m) 0) (\<lambda>size.
     Inr \<lparr>b_id = str_or (jget ''id'' m) [], b_size = size, b_created = jget ''created_at'' m,
          b_sha256 = str_or (jget ''sha256'' m) []\<rparr>)"

definition demand :: "bool \<Rightarrow> string \<Rightarrow> 'a bresult \<Rightarrow> 'a bresult" where
  "demand c msg k = (if c then k else invalid msg)"

definition read_backup :: "entry \<Rightarrow> backup bresult" where
  "read_backup e =
     ebind (safe_json_file (e_meta e)) (\<lambda>m.
       demand (jget ''id'' m = JStr (e_id e)) ''backup metadata identifier does not match''
         (ebind (safe_regular_file (e_archive e) MAX_ARCHIVE_BYTES) (\<lambda>size.
            ebind (safe_regular_file (e_sum e) CHECKSUM_BYTES) (\<lambda>_.
              ebind (int_or (jget ''size_bytes'' m) (- 1)) (\<lambda>stated.
                demand (size = stated) ''backup size does not match metadata''
                  (demand (is_sha256 (str_or (jget ''sha256'' m) [])) ''backup metadata checksum is invalid''
                    (public_backup m)))))))"

text \<open>\<open>except (BackupdError, OSError, ValueError, json.JSONDecodeError)\<close>: a \<open>TypeError\<close> is not among them.\<close>

fun ignored_error :: "backup_error \<Rightarrow> bool" where
  "ignored_error (BackupdError _ _) = True"
| "ignored_error (OSError _) = True"
| "ignored_error (PyError (ValueError _)) = True"
| "ignored_error _ = False"

fun read_backups :: "entry list \<Rightarrow> backup list bresult" where
  "read_backups [] = Inr []"
| "read_backups (e # es) =
     (if e_meta e = None \<or> \<not> is_identifier (e_id e) then read_backups es
      else case read_backup e of
          Inr b \<Rightarrow> ebind (read_backups es) (\<lambda>bs. Inr (b # bs))
        | Inl err \<Rightarrow> if ignored_error err then read_backups es else Inl err)"

definition created_key :: "backup \<Rightarrow> string" where
  "created_key b = str_or (b_created b) []"

text \<open>\<open>list.sort(key=..., reverse=True)\<close> keeps equal elements in their order.\<close>

definition all_backups :: "entry list \<Rightarrow> backup list bresult" where
  "all_backups es = ebind (read_backups es) (\<lambda>bs. Inr (rev (sort_key created_key (rev bs))))"

definition staged_backup_ids :: "jobj option list \<Rightarrow> string list" where
  "staged_backup_ids stages =
     filter is_identifier (map (\<lambda>r. str_or (jget ''backup_id'' r) []) (List.map_filter id stages))"

definition set_entry :: "string \<Rightarrow> (entry \<Rightarrow> entry) \<Rightarrow> entry list \<Rightarrow> entry list" where
  "set_entry bid f es = map (\<lambda>e. if e_id e = bid then f e else e) es"

text \<open>
  All three files are checked before the first is unlinked; an \<open>unlink\<close> that fails leaves the
  files removed before it removed.
\<close>

definition remove_backup_files :: "(string \<Rightarrow> bool) \<Rightarrow> string \<Rightarrow> entry list \<Rightarrow> string list bresult \<times> entry list" where
  "remove_backup_files unlink_ok bid es =
     (let e = find (\<lambda>e. e_id e = bid) es;
          a = bid @ ARCHIVE_SUFFIX; c = a @ ''.sha256''; m = a @ ''.json'';
          checked = ebind (identifier_of (JStr bid) ''backup id'') (\<lambda>_.
            ebind (safe_regular_file (Option.bind e e_archive) MAX_ARCHIVE_BYTES) (\<lambda>_.
              ebind (safe_regular_file (Option.bind e e_sum) CHECKSUM_BYTES) (\<lambda>_.
                safe_regular_file (map_option fst (Option.bind e e_meta)) MAX_STATE_BYTES)));
          es1 = set_entry bid (e_archive_update (\<lambda>_. None)) es;
          es2 = set_entry bid (e_sum_update (\<lambda>_. None)) es1
      in case checked of Inl err \<Rightarrow> (Inl err, es)
         | Inr _ \<Rightarrow>
             if \<not> unlink_ok a then (Inl (OSError ''unlink''), es)
             else if \<not> unlink_ok c then (Inl (OSError ''unlink''), es1)
             else if \<not> unlink_ok m then (Inl (OSError ''unlink''), es2)
             else (Inr [a, c, m], set_entry bid (e_meta_update (\<lambda>_. None)) es2))"

text \<open>The loop of \<open>prune_local_backups\<close>; it goes on after \<open>BackupdError\<close> and \<open>OSError\<close>.\<close>

fun prune_loop :: "(string \<Rightarrow> bool) \<Rightarrow> string list \<Rightarrow> string list \<Rightarrow> entry list \<Rightarrow> string list \<times> entry list" where
  "prune_loop unlink_ok staged [] es = ([], es)"
| "prune_loop unlink_ok staged (bid # bids) es =
     (if bid \<in> set staged then prune_loop unlink_ok staged bids es
      else case remove_backup_files unlink_ok bid es of
          (Inl _, es') \<Rightarrow> prune_loop unlink_ok staged bids es'
        | (Inr _, es') \<Rightarrow> (case prune_loop unlink_ok staged bids es' of (removed, es'') \<Rightarrow> (bid # removed, es'')))"

definition prune_local_backups :: "(string \<Rightarrow> bool) \<Rightarrow> jobj option list \<Rightarrow> int \<Rightarrow> entry list \<Rightarrow> string list bresult \<times> entry list" where
  "prune_local_backups unlink_ok stages keep es =
     (case all_backups es of Inl err \<Rightarrow> (Inl err, es)
      | Inr bs \<Rightarrow> (case prune_loop unlink_ok (staged_backup_ids stages) (map b_id (drop (nat (max keep 1)) bs)) es
                   of (removed, es') \<Rightarrow> (Inr removed, es')))"

section \<open>Destinations\<close>

definition destination_name_ok :: "string \<Rightarrow> bool" where
  "destination_name_ok s =
     (case s of [] \<Rightarrow> False
      | c # r \<Rightarrow> (is_digit c \<or> (97 \<le> ord c \<and> ord c \<le> 122)) \<and> length r \<le> 39 \<and>
          list_all (\<lambda>c. is_digit c \<or> (97 \<le> ord c \<and> ord c \<le> 122) \<or> c = CHR ''-'') r)"

text \<open>\<open>str(name or "").strip().lower()\<close>\<close>

definition tidy_name :: "json \<Rightarrow> string" where
  "tidy_name v = py_lower (py_strip (str_or v []))"

definition load_destination :: "(string \<Rightarrow> jobj bresult) \<Rightarrow> json \<Rightarrow> jobj bresult" where
  "load_destination dest_files name =
     (let text = tidy_name name
      in if \<not> destination_name_ok text then invalid ''the destination name may use a-z, 0-9 and dashes''
         else case dest_files text of
             Inl (BackupdError c m) \<Rightarrow> Inl (BackupdError c m)
           | Inl _ \<Rightarrow> invalid ''cannot read the destination''
           | Inr record \<Rightarrow> if record = [] then Inl (BackupdError ''not_found'' ''no such destination'') else Inr record)"

text \<open>\<open>directory.rstrip("/") + "/" + name\<close>, and the quoting of the batch language.\<close>

definition remote_join :: "string \<Rightarrow> string \<Rightarrow> string" where
  "remote_join directory name =
     (if directory \<in> {[], ''.''} then name
      else rev (dropWhile (\<lambda>c. c = CHR ''/'') (rev directory)) @ ''/'' @ name)"

definition quote_char :: "char \<Rightarrow> string" where
  "quote_char c = (if c = CHR 0x5C \<or> c = CHR 0x22 then [CHR 0x5C, c] else [c])"

definition remote_quote :: "string \<Rightarrow> string" where
  "remote_quote v = [CHR 0x22] @ concat (map quote_char v) @ [CHR 0x22]"

definition normalize_remote_dir :: "json \<Rightarrow> string bresult" where
  "normalize_remote_dir v =
     (let text = py_strip (str_or v []);
          parts = filter (\<lambda>p. p \<noteq> [] \<and> p \<noteq> ''.'') (py_split (CHR ''/'') text);
          joined = py_join ''/'' parts
      in if text = [] \<or> text = ''.'' \<or> text = ''./'' then Inr ''.''
         else if ''..'' \<in> set parts \<or> 512 < length text \<or> list_ex (\<lambda>c. ord c < 32) text
           then invalid (''the remote path must be free of '' @ [CHR 0x27] @ ''..'' @ [CHR 0x27])
         else if py_startswith text ''/'' then Inr (''/'' @ joined)
         else Inr (if joined = [] then ''.'' else joined))"

section \<open>Talking to the far end\<close>

datatype sftp_cmd =
    Mkdir string
  | Put string string
  | Rm string
  | Rename string string
  | Get string string
  | Ls string

datatype far_cmd =
    Batch "sftp_cmd list"
  | Ssh "string list"
  | S3 string string

text \<open>The line of the batch; a leading dash makes \<open>sftp\<close> go on when the command fails.\<close>

fun batch_line :: "sftp_cmd \<Rightarrow> string" where
  "batch_line (Mkdir d) = ''-mkdir '' @ remote_quote d @ [CHR 0x0A]"
| "batch_line (Put l r) = ''put '' @ remote_quote l @ '' '' @ remote_quote r @ [CHR 0x0A]"
| "batch_line (Rm r) = ''-rm '' @ remote_quote r @ [CHR 0x0A]"
| "batch_line (Rename a b) = ''rename '' @ remote_quote a @ '' '' @ remote_quote b @ [CHR 0x0A]"
| "batch_line (Get r l) = ''get '' @ remote_quote r @ '' '' @ remote_quote l @ [CHR 0x0A]"
| "batch_line (Ls d) = ''ls -1 '' @ remote_quote d @ [CHR 0x0A]"

text \<open>
  What the far end answers: exit code or status, output or body, and the error text; or the error
  the call raises.  \<open>read_back\<close> is the digest of what a \<open>get\<close> left behind, \<open>None\<close> for no file.
\<close>

record far_end =
  ask :: "far_cmd \<Rightarrow> (int \<times> string \<times> string) bresult"
  read_back :: "string option"

text \<open>Calls that leave a trace: a result and what was sent.\<close>

type_synonym 'a sent = "'a bresult \<times> far_cmd list"

definition sbind :: "'a sent \<Rightarrow> ('a \<Rightarrow> 'b sent) \<Rightarrow> 'b sent" where
  "sbind r k = (case r of (Inl err, cs) \<Rightarrow> (Inl err, cs)
     | (Inr x, cs) \<Rightarrow> (case k x of (y, ds) \<Rightarrow> (y, cs @ ds)))"

definition send :: "far_end \<Rightarrow> far_cmd \<Rightarrow> (int \<times> string \<times> string) sent" where
  "send f c = (ask f c, [c])"

definition silent :: "'a bresult \<Rightarrow> 'a sent" where
  "silent r = (r, [])"

section \<open>Copying one archive\<close>

definition VERIFY_DOWNLOAD_MAX_BYTES :: int where "VERIFY_DOWNLOAD_MAX_BYTES = 2 * 1024 * 1024 * 1024"

definition verify_remote_copy :: "far_end \<Rightarrow> string \<Rightarrow> jobj \<Rightarrow> string \<Rightarrow> string \<Rightarrow> int \<Rightarrow> (bool \<times> string \<times> string) sent" where
  "verify_remote_copy f work record remote_file expected nbytes =
     (if py_lower (py_strip (str_or (jget ''verify'' record) ''auto'')) = ''transfer'' then silent (Inr (True, ''transfer'', []))
      else sbind (send f (Ssh [''sha256sum'', ''--'', remote_file])) (\<lambda>(rc, stdout, _).
        let answer = py_words stdout in
        if rc = 0 \<and> answer \<noteq> [] \<and> is_sha256 (hd answer)
          then silent (Inr (if hd answer = expected then (True, ''remote-hash'', [])
                            else (False, ''remote-hash'', ''the far end reports different content'')))
        else if VERIFY_DOWNLOAD_MAX_BYTES < nbytes
          then silent (Inr (False, ''none'', ''the far end cannot hash and the archive is too large to re-read''))
        else sbind (send f (Batch [Get remote_file (work @ ''/verify.bin'')])) (\<lambda>(rc, _, _).
          silent (Inr (if rc \<noteq> 0 \<or> read_back f = None then (False, ''download'', ''the copy could not be read back'')
                       else if read_back f \<noteq> Some expected then (False, ''download'', ''the copy read back does not match'')
                       else (True, ''download'', []))))))"

definition remote_listing :: "far_end \<Rightarrow> string \<Rightarrow> string list sent" where
  "remote_listing f dir = sbind (send f (Batch [Ls dir])) (\<lambda>(rc, stdout, _).
     silent (Inr (if rc \<noteq> 0 then [] else listed_names (py_splitlines stdout))))"

text \<open>The keys of a bucket listing: what \<open>re.finditer(r"<Key>([^<]+)</Key>", text)\<close> finds.\<close>

function s3_keys :: "string \<Rightarrow> string list" where
  "s3_keys [] = []"
| "s3_keys (c # s) =
     (let rest = drop 5 (c # s); key = takeWhile (\<lambda>c. c \<noteq> CHR ''<'') rest; after = drop (length key) rest
      in if py_startswith (c # s) ''<Key>'' \<and> key \<noteq> [] \<and> py_startswith after ''</Key>''
         then key # s3_keys (drop 6 after) else s3_keys s)"
  by pat_completeness auto
termination by (relation "measure length") (auto simp: Let_def)

definition s3_listing :: "far_end \<Rightarrow> string list sent" where
  "s3_listing f = sbind (send f (S3 ''GET'' [])) (\<lambda>(status, body, _).
     silent (Inr (if status \<noteq> 200 then []
       else sort (filter is_copy_name (map (\<lambda>k. last (py_split (CHR ''/'') k)) (s3_keys body))))))"

fun s3_prune :: "far_end \<Rightarrow> string list \<Rightarrow> string list sent" where
  "s3_prune f [] = silent (Inr [])"
| "s3_prune f (name # names) =
     sbind (send f (S3 ''DELETE'' name)) (\<lambda>(status, _, _).
       sbind (send f (S3 ''DELETE'' (name @ ''.sha256''))) (\<lambda>_.
         sbind (s3_prune f names) (\<lambda>removed.
           silent (Inr ((if status \<in> {200, 204} then [name] else []) @ removed)))))"

record upload_report =
  u_ok :: bool
  u_destination :: json
  u_bytes :: int
  u_verified :: bool
  u_verified_by :: string
  u_pruned :: "string list"
  u_error :: string

text \<open>
  What the upload reads of the archive: its files, its digest (from the sidecar or computed), and
  the UTC stamp of its record or modification time, \<open>YYYYMMDD-HHMMSS\<close>.
\<close>

record local_archive =
  la_entries :: "entry list"
  la_digest :: "string \<Rightarrow> string bresult"
  la_stamp :: "string \<Rightarrow> string"
  la_work :: string

definition BACKUPS_DIR :: string where "BACKUPS_DIR = ''/var/lib/easy-ha-proxy/backup-web/backups''"

definition remote_archive_name :: "local_archive \<Rightarrow> string \<Rightarrow> string" where
  "remote_archive_name la bid = REMOTE_PREFIX @ la_stamp la bid @ ''-'' @ bid @ ARCHIVE_SUFFIX"

text \<open>\<open>record[key]\<close> where the code needs a string.\<close>

definition need_str :: "string \<Rightarrow> jobj \<Rightarrow> string bresult" where
  "need_str k record = (case map_of record k of None \<Rightarrow> Inl (PyError (LookupError k))
     | Some (JStr s) \<Rightarrow> Inr s | Some _ \<Rightarrow> Inl (PyError (TypeError k)))"

definition need_key :: "string \<Rightarrow> jobj \<Rightarrow> json bresult" where
  "need_key k record = (case map_of record k of None \<Rightarrow> Inl (PyError (LookupError k)) | Some v \<Rightarrow> Inr v)"

definition s3_copy :: "far_end \<Rightarrow> jobj \<Rightarrow> string \<Rightarrow> int \<Rightarrow> upload_report sent" where
  "s3_copy f record remote_name nbytes =
     sbind (send f (S3 ''PUT'' remote_name)) (\<lambda>(status, body, _).
       if status \<notin> {200, 201} then silent (Inl (BackupdError ''upstream'' (''the upload failed ('' @ int_to_str status @ ''): '' @ take 400 (py_strip body))))
       else sbind (send f (S3 ''PUT'' (remote_name @ ''.sha256''))) (\<lambda>_.
         sbind (silent (need_key ''name'' record)) (\<lambda>name.
           sbind (s3_listing f) (\<lambda>names.
             sbind (silent (retention_victims names record)) (\<lambda>victims.
               sbind (s3_prune f victims) (\<lambda>removed.
                 silent (Inr \<lparr>u_ok = True, u_destination = name, u_bytes = nbytes, u_verified = True,
                              u_verified_by = ''signed-put'', u_pruned = removed, u_error = []\<rparr>)))))))"

definition put_batch :: "string \<Rightarrow> string \<Rightarrow> string \<Rightarrow> string \<Rightarrow> string \<Rightarrow> far_cmd" where
  "put_batch work archive dir remote_name remote_file =
     Batch [Mkdir dir, Put archive (remote_file @ ''.part''), Rm remote_file,
            Rename (remote_file @ ''.part'') remote_file,
            Put (work @ ''/'' @ remote_name @ ''.sha256'') (remote_file @ ''.sha256'')]"

definition prune_batch :: "string \<Rightarrow> string list \<Rightarrow> far_cmd" where
  "prune_batch dir victims =
     Batch (concat (map (\<lambda>n. [Rm (remote_join dir n), Rm (remote_join dir (n @ ''.sha256''))]) victims))"

definition sftp_copy :: "far_end \<Rightarrow> local_archive \<Rightarrow> jobj \<Rightarrow> string \<Rightarrow> string \<Rightarrow> string \<Rightarrow> string \<Rightarrow> int \<Rightarrow> upload_report sent" where
  "sftp_copy f la record dir bid remote_name expected nbytes =
     (let remote_file = remote_join dir remote_name in
      sbind (send f (put_batch (la_work la) (BACKUPS_DIR @ ''/'' @ bid @ ARCHIVE_SUFFIX) dir remote_name remote_file)) (\<lambda>(rc, _, err).
        if rc \<noteq> 0 then sbind (silent (need_key ''name'' record)) (\<lambda>_.
          silent (Inl (BackupdError ''upstream'' (''the upload failed: '' @ take 500 (py_strip err)))))
        else sbind (verify_remote_copy f (la_work la) record remote_file expected nbytes) (\<lambda>(verified, method, detail).
          sbind (silent (need_key ''name'' record)) (\<lambda>name.
            let report = \<lparr>u_ok = True, u_destination = name, u_bytes = nbytes, u_verified = verified, u_verified_by = method,
                          u_pruned = [], u_error = []\<rparr> in
            if \<not> verified
              then silent (Inr (report\<lparr>u_ok := False, u_error := (if detail = [] then ''the copy could not be verified'' else detail)\<rparr>))
            else sbind (remote_listing f dir) (\<lambda>names.
              sbind (silent (retention_victims names record)) (\<lambda>victims.
                if victims = [] then silent (Inr report)
                else sbind (send f (prune_batch dir victims)) (\<lambda>_.
                  silent (Inr (report\<lparr>u_pruned := victims\<rparr>)))))))))"

definition upload_backup :: "(string \<Rightarrow> jobj bresult) \<Rightarrow> far_end \<Rightarrow> local_archive \<Rightarrow> json \<Rightarrow> json \<Rightarrow> upload_report sent" where
  "upload_backup dest_files f la backup_id destination =
     sbind (silent (identifier_of backup_id ''backup id'')) (\<lambda>bid.
       sbind (silent (load_destination dest_files destination)) (\<lambda>record.
         case Option.bind (find (\<lambda>e. e_id e = bid) (la_entries la)) e_archive of
           None \<Rightarrow> silent (Inl (BackupdError ''not_found'' ''no such backup''))
         | Some info \<Rightarrow>
             sbind (silent (la_digest la bid)) (\<lambda>expected.
               let remote_name = remote_archive_name la bid in
               if jget ''type'' record = JStr ''s3'' then s3_copy f record remote_name (f_size info)
               else sbind (silent (need_str ''path'' record)) (\<lambda>dir.
                 sftp_copy f la record dir bid remote_name expected (f_size info)))))"

text \<open>
  The alert, by its rule and subject, that a failed or unverified SFTP copy reports; a failed S3 copy
  reports none.
\<close>

definition upload_alerts :: "(string \<Rightarrow> jobj bresult) \<Rightarrow> json \<Rightarrow> json \<Rightarrow> upload_report sent \<Rightarrow> (string \<times> string) list" where
  "upload_alerts dest_files backup_id destination r =
     (let name = (case load_destination dest_files destination of Inl _ \<Rightarrow> [] | Inr record \<Rightarrow> py_str (jget ''name'' record));
          alert = (''backup.failed'', str_or backup_id [] @ ''@'' @ name) in
      case r of (Inr report, _) \<Rightarrow> if u_ok report then [] else [alert]
      | (Inl (BackupdError c _), Batch _ # _) \<Rightarrow> if c = ''upstream'' then [alert] else []
      | _ \<Rightarrow> [])"

end
