(* ===== verification/Backup_Schedule.thy ===== *)
theory Backup_Schedule
  imports Backup_Store
begin

text \<open>
  The backup schedule of \<open>src/ansible/roles/haproxy-admin/files/easy-ha-proxy-backupd.py\<close>: reading and
  saving it (\<open>load_schedule\<close>, \<open>save_schedule\<close>), and the run the timer or a person starts
  (\<open>run_scheduled_backup\<close>): make a backup, copy it to every destination, remove old local archives.

  The backup job itself runs in a worker; a run sees it through the job record it polls and the
  archive it leaves.  Locks, the clock, writes that can fail and the answers of the far ends are
  fields of \<open>run_env\<close>.
\<close>

section \<open>State\<close>

text \<open>
  \<open>sched_file\<close> and \<open>dest_files\<close> are what \<open>safe_json_file\<close> returns for those files, \<open>timer_dropin\<close> the hour
  in the drop-in of the timer, \<open>alerts\<close> the alerts reported so far.
\<close>

record bstate =
  sched_file :: "jobj bresult"
  passphrase_file :: "string option"
  timer_dropin :: "string option"
  archives :: "entry list"
  stages :: "jobj option list"
  dest_files :: "string \<Rightarrow> jobj bresult"
  alerts :: "(string \<times> string) list"

record schedule =
  sc_enabled :: bool
  sc_destinations :: "string list"
  sc_include_ssh :: bool
  sc_quiesce :: bool
  sc_passphrase_stored :: bool
  sc_last_run :: json
  sc_last_result :: json
  sc_time :: string
  sc_keep_local :: int

section \<open>Reading the schedule\<close>

definition DEFAULT_SCHEDULE_TIME :: string where "DEFAULT_SCHEDULE_TIME = ''03:20''"

definition TIME_RE :: rex where
  "TIME_RE = RSeq (RAlt (RSeq (rng [] ''01'') (rng [digit_range] [])) (RSeq (lit ''2'') (rng [(48, 51)] [])))
     (RSeq (lit '':'') (RSeq (rng [(48, 53)] []) (rng [digit_range] [])))"

definition schedule_time :: "json \<Rightarrow> string \<Rightarrow> string bresult" where
  "schedule_time v dflt =
     (let text = py_strip (str_or v [])
      in if text = [] then Inr dflt
         else if \<not> rex_match TIME_RE text then invalid ''the time must be given as HH:MM on a 24-hour clock''
         else Inr text)"

text \<open>\<open>for item in (value or [])\<close>: a list, the characters of a text, the keys of an object.\<close>

fun py_iter :: "json \<Rightarrow> json list bresult" where
  "py_iter (JList xs) = Inr xs"
| "py_iter (JStr s) = Inr (map (\<lambda>c. JStr [c]) s)"
| "py_iter (JObj m) = Inr (map (\<lambda>(k, _). JStr k) m)"
| "py_iter JNull = Inr []"
| "py_iter (JBool b) = (if b then Inl (PyError (TypeError ''bool object is not iterable'')) else Inr [])"
| "py_iter (JInt i) = (if i \<noteq> 0 then Inl (PyError (TypeError ''int object is not iterable'')) else Inr [])"

definition str_items :: "json list \<Rightarrow> string list" where
  "str_items xs = List.map_filter (\<lambda>v. case v of JStr s \<Rightarrow> Some s | _ \<Rightarrow> None) xs"

definition load_schedule :: "bstate \<Rightarrow> schedule bresult" where
  "load_schedule st =
     (let record = (case sched_file st of Inl _ \<Rightarrow> [] | Inr m \<Rightarrow> m) in
      ebind (py_iter (jget ''destinations'' record)) (\<lambda>items.
        ebind (schedule_time (jget ''time'' record) DEFAULT_SCHEDULE_TIME) (\<lambda>time.
          ebind (stored_keep_local (jget ''keep_local'' record)) (\<lambda>keep.
            Inr \<lparr>sc_enabled = truthy (jget ''enabled'' record), sc_destinations = str_items items,
                 sc_include_ssh = truthy (jget ''include_ssh'' record),
                 sc_quiesce = (jget_or ''quiesce'' (JBool True) record \<noteq> JBool False),
                 sc_passphrase_stored = (passphrase_file st \<noteq> None),
                 sc_last_run = jget_or ''last_run'' (JStr []) record,
                 sc_last_result = jget_or ''last_result'' (JStr []) record,
                 sc_time = time, sc_keep_local = keep\<rparr>))))"

section \<open>Saving the schedule\<close>

definition require_passphrase :: "json \<Rightarrow> string bresult" where
  "require_passphrase v = (case v of
       JStr s \<Rightarrow> if length s < 12 then invalid ''the backup passphrase must contain at least 12 characters''
         else if 1024 < length s \<or> list_ex (\<lambda>c. ord c \<in> {0, 10, 13}) s then invalid ''the backup passphrase is invalid''
         else Inr s
     | _ \<Rightarrow> invalid ''the backup passphrase must contain at least 12 characters'')"

text \<open>Which of the writes of a save succeed; the timer's failure carries the text of \<open>systemctl\<close>.\<close>

record save_env =
  pass_unlink_ok :: bool
  pass_write_ok :: bool
  sched_write_ok :: bool
  dropin_write_ok :: bool
  timer_error :: "string option"

fun chosen_names :: "(string \<Rightarrow> jobj bresult) \<Rightarrow> json list \<Rightarrow> string list bresult" where
  "chosen_names files [] = Inr []"
| "chosen_names files (item # items) =
     ebind (load_destination files (JStr (tidy_name item))) (\<lambda>_.
       ebind (chosen_names files items) (\<lambda>names. Inr (tidy_name item # names)))"

text \<open>\<open>write_private\<close> removes the old file before it creates the new one.\<close>

definition store_passphrase :: "save_env \<Rightarrow> json \<Rightarrow> bstate \<Rightarrow> unit bresult \<times> bstate" where
  "store_passphrase env v st = (case v of
       JStr [] \<Rightarrow> if passphrase_file st = None \<or> pass_unlink_ok env then (Inr (), st\<lparr>passphrase_file := None\<rparr>)
         else (Inl (OSError ''unlink''), st)
     | JStr s \<Rightarrow> (case require_passphrase v of Inl e \<Rightarrow> (Inl e, st)
         | Inr p \<Rightarrow>
             if passphrase_file st \<noteq> None \<and> \<not> pass_unlink_ok env then (Inl (OSError ''unlink''), st)
             else if \<not> pass_write_ok env then (Inl (OSError ''open''), st\<lparr>passphrase_file := None\<rparr>)
             else (Inr (), st\<lparr>passphrase_file := Some p\<rparr>))
     | _ \<Rightarrow> (Inr (), st))"

definition schedule_record :: "bool \<Rightarrow> string list \<Rightarrow> jobj \<Rightarrow> schedule \<Rightarrow> string \<Rightarrow> int \<Rightarrow> jobj" where
  "schedule_record enabled chosen request current wanted keep =
     [(''enabled'', JBool enabled), (''destinations'', JList (map JStr chosen)),
      (''include_ssh'', JBool (truthy (jget_or ''include_ssh'' (JBool (sc_include_ssh current)) request))),
      (''quiesce'', JBool (jget_or ''quiesce'' (JBool (sc_quiesce current)) request \<noteq> JBool False)),
      (''last_run'', sc_last_run current), (''last_result'', sc_last_result current),
      (''time'', JStr wanted), (''keep_local'', JInt keep)]"

text \<open>The checks after the passphrase was dealt with, in their order, and what is then written.\<close>

definition armed_record :: "jobj \<Rightarrow> schedule \<Rightarrow> string list \<Rightarrow> bstate \<Rightarrow> (string \<times> jobj) bresult" where
  "armed_record request current chosen st =
     (let enabled = (if jget ''enabled'' request = JNull then sc_enabled current else truthy (jget ''enabled'' request)) in
      if enabled \<and> passphrase_file st = None then invalid ''a stored passphrase is required before the schedule can run''
      else if enabled \<and> chosen = [] then invalid ''choose at least one destination before enabling the schedule''
      else ebind (schedule_time (jget ''time'' request) (sc_time current)) (\<lambda>wanted.
        ebind (keep_local_value (jget ''keep_local'' request) (sc_keep_local current)) (\<lambda>keep.
          Inr (wanted, schedule_record enabled chosen request current wanted keep))))"

definition write_schedule :: "save_env \<Rightarrow> schedule \<Rightarrow> string \<Rightarrow> jobj \<Rightarrow> bstate \<Rightarrow> schedule bresult \<times> bstate" where
  "write_schedule env current wanted record st =
     (if \<not> sched_write_ok env then (Inl (OSError ''write''), st)
      else let st1 = st\<lparr>sched_file := Inr record\<rparr> in
        if wanted = sc_time current then (load_schedule st1, st1)
        else if \<not> dropin_write_ok env then (Inl (OSError ''write''), st1)
        else let st2 = st1\<lparr>timer_dropin := Some wanted\<rparr> in
          case timer_error env of Some msg \<Rightarrow>
              (invalid (''the schedule was saved but the timer could not be updated: '' @ take 200 (py_strip msg)), st2)
          | None \<Rightarrow> (load_schedule st2, st2))"

definition wanted_destinations :: "jobj \<Rightarrow> schedule \<Rightarrow> bstate \<Rightarrow> string list bresult" where
  "wanted_destinations request current st =
     (case jget ''destinations'' request of
        JNull \<Rightarrow> chosen_names (dest_files st) (map JStr (sc_destinations current))
      | JList xs \<Rightarrow> chosen_names (dest_files st) xs
      | _ \<Rightarrow> invalid ''destinations must be a list'')"

definition save_schedule :: "save_env \<Rightarrow> jobj \<Rightarrow> bstate \<Rightarrow> schedule bresult \<times> bstate" where
  "save_schedule env request st =
     (case load_schedule st of Inl e \<Rightarrow> (Inl e, st)
      | Inr current \<Rightarrow>
          (case wanted_destinations request current st of Inl e \<Rightarrow> (Inl e, st)
           | Inr chosen \<Rightarrow>
               (case store_passphrase env (jget ''passphrase'' request) st of (Inl e, st1) \<Rightarrow> (Inl e, st1)
                | (Inr _, st1) \<Rightarrow>
                    (case armed_record request current chosen st1 of Inl e \<Rightarrow> (Inl e, st1)
                     | Inr (wanted, record) \<Rightarrow> write_schedule env current wanted record st1))))"

section \<open>A run\<close>

record run_env =
  now_text :: string
  start_lock :: "(string \<times> string) option"
  prune_lock :: "(string \<times> string) option"
  new_job :: "string bresult"
  polls :: "jobj bresult list"
  made :: "entry list"
  far :: "string \<Rightarrow> far_end"
  digest_of :: "string \<Rightarrow> string bresult"
  stamp_of :: "string \<Rightarrow> string"
  workdir :: string
  unlink_ok :: "string \<Rightarrow> bool"
  outcome_write_ok :: bool
  space_low :: "bool bresult"

definition record_schedule_outcome :: "run_env \<Rightarrow> string \<Rightarrow> bstate \<Rightarrow> bstate" where
  "record_schedule_outcome env result st =
     (let record = (case sched_file st of Inl _ \<Rightarrow> [] | Inr m \<Rightarrow> m)
      in if outcome_write_ok env
         then st\<lparr>sched_file := Inr (jput ''last_result'' (JStr (take 500 result)) (jput ''last_run'' (JStr (now_text env)) record))\<rparr>
         else st)"

text \<open>\<open>start_backup\<close>: the passphrase is checked, the lock taken, the worker started.\<close>

definition start_backup :: "run_env \<Rightarrow> string \<Rightarrow> string bresult" where
  "start_backup env passphrase =
     ebind (require_passphrase (JStr passphrase)) (\<lambda>_.
       case start_lock env of Some (c, m) \<Rightarrow> Inl (BackupdError c m) | None \<Rightarrow> new_job env)"

definition TERMINAL_STATUSES :: "string list" where
  "TERMINAL_STATUSES = [''completed'', ''failed'', ''interrupted'']"

text \<open>
  The polling loop: \<open>BackupdError\<close> is suppressed, a terminal status ends it, and so does the deadline
  (the end of \<open>polls\<close>).
\<close>

fun poll_job :: "jobj \<Rightarrow> jobj bresult list \<Rightarrow> jobj bresult" where
  "poll_job state [] = Inr state"
| "poll_job state (p # ps) =
     (case p of
        Inl (BackupdError _ _) \<Rightarrow> if jget ''status'' state \<in> JStr ` set TERMINAL_STATUSES then Inr state else poll_job state ps
      | Inl e \<Rightarrow> Inl e
      | Inr s \<Rightarrow> if jget ''status'' s \<in> JStr ` set TERMINAL_STATUSES then Inr s else poll_job s ps)"

definition made_backup_id :: "jobj \<Rightarrow> json" where
  "made_backup_id state =
     jor (case jget ''output'' state of JObj m \<Rightarrow> jget ''backup_id'' m | _ \<Rightarrow> JNull) (JStr [])"

record copies =
  c_uploads :: "upload_report list"
  c_failures :: "string list"
  c_alerts :: "(string \<times> string) list"
  c_sent :: "(string \<times> far_cmd list) list"

definition run_archive :: "run_env \<Rightarrow> bstate \<Rightarrow> local_archive" where
  "run_archive env st = \<lparr>la_entries = archives st, la_digest = digest_of env, la_stamp = stamp_of env, la_work = workdir env\<rparr>"

text \<open>The loop over the destinations; only \<open>BackupdError\<close> is caught.\<close>

fun copy_all :: "run_env \<Rightarrow> bstate \<Rightarrow> json \<Rightarrow> string list \<Rightarrow> copies \<Rightarrow> unit bresult \<times> copies" where
  "copy_all env st backup_id [] c = (Inr (), c)"
| "copy_all env st backup_id (name # names) c =
     (let r = upload_backup (dest_files st) (far env name) (run_archive env st) backup_id (JStr name);
          c1 = c\<lparr>c_sent := c_sent c @ [(name, snd r)],
                 c_alerts := c_alerts c @ upload_alerts (dest_files st) backup_id (JStr name) r\<rparr>
      in case fst r of
           Inl (BackupdError _ msg) \<Rightarrow> copy_all env st backup_id names (c1\<lparr>c_failures := c_failures c1 @ [name @ '': '' @ msg]\<rparr>)
         | Inl e \<Rightarrow> (Inl e, c1)
         | Inr u \<Rightarrow> copy_all env st backup_id names
             (c1\<lparr>c_uploads := c_uploads c1 @ [u],
                 c_failures := c_failures c1 @ (if u_ok u then [] else [name @ '': '' @ u_error u])\<rparr>))"

datatype run_result =
    Skipped
  | NotCompleted string
  | Ran bool string json "upload_report list" "string list" "string list"

definition no_copies :: copies where
  "no_copies = \<lparr>c_uploads = [], c_failures = [], c_alerts = [], c_sent = []\<rparr>"

definition outcome_text :: "copies \<Rightarrow> string list \<Rightarrow> string" where
  "outcome_text c pruned =
     (if c_failures c \<noteq> [] then py_join ''; '' (c_failures c)
      else ''copied to '' @ nat_to_str (length (c_uploads c)) @ '' destination(s)'') @
     (if pruned \<noteq> [] then ''; removed '' @ nat_to_str (length pruned) @ '' older local backup(s)'' else [])"

text \<open>Old local archives go only when every copy went well, and only when the lock is free.\<close>

definition prune_after :: "run_env \<Rightarrow> schedule \<Rightarrow> copies \<Rightarrow> bstate \<Rightarrow> string list bresult \<times> bstate" where
  "prune_after env sc c st =
     (if c_uploads c \<noteq> [] \<and> c_failures c = [] \<and> prune_lock env = None
      then case prune_local_backups (unlink_ok env) (stages st) (sc_keep_local sc) (archives st) of
             (r, es) \<Rightarrow> (r, st\<lparr>archives := es\<rparr>)
      else (Inr [], st))"

definition finish_run :: "run_env \<Rightarrow> schedule \<Rightarrow> string \<Rightarrow> json \<Rightarrow> copies \<Rightarrow> bstate \<Rightarrow> run_result bresult \<times> bstate" where
  "finish_run env sc job backup_id c st =
     (case prune_after env sc c st of (Inl e, st1) \<Rightarrow> (Inl e, st1)
      | (Inr pruned, st1) \<Rightarrow>
          (let st2 = record_schedule_outcome env (outcome_text c pruned) st1
           in case space_low env of Inl e \<Rightarrow> (Inl e, st2)
              | Inr low \<Rightarrow>
                  (Inr (Ran (c_failures c = []) job backup_id (c_uploads c) (c_failures c) pruned),
                   if low then st2\<lparr>alerts := alerts st2 @ [(''backup.space_low'', ''local'')]\<rparr> else st2)))"

definition after_backup :: "run_env \<Rightarrow> schedule \<Rightarrow> string \<Rightarrow> jobj \<Rightarrow> bstate \<Rightarrow> run_result bresult \<times> bstate \<times> copies" where
  "after_backup env sc job state st =
     (if jget ''status'' state \<noteq> JStr ''completed''
      then let st1 = record_schedule_outcome env (''the backup did not complete: '' @ py_str (jget ''status'' state)) st
           in (Inr (NotCompleted job), st1\<lparr>alerts := alerts st1 @ [(''backup.failed'', job)]\<rparr>, no_copies)
      else case copy_all env st (made_backup_id state) (sc_destinations sc) no_copies of
             (Inl e, c) \<Rightarrow> (Inl e, st\<lparr>alerts := alerts st @ c_alerts c\<rparr>, c)
           | (Inr _, c) \<Rightarrow>
               (case finish_run env sc job (made_backup_id state) c (st\<lparr>alerts := alerts st @ c_alerts c\<rparr>)
                of (r, st1) \<Rightarrow> (r, st1, c)))"

text \<open>
  The result, the state, what went to the far ends, and the passphrase the worker was started with.
\<close>

definition run_scheduled_backup :: "run_env \<Rightarrow> jobj \<Rightarrow> bstate \<Rightarrow> run_result bresult \<times> bstate \<times> copies \<times> string option" where
  "run_scheduled_backup env request st =
     (case load_schedule st of Inl e \<Rightarrow> (Inl e, st, no_copies, None)
      | Inr sc \<Rightarrow>
          (let on_demand = truthy (jget ''on_demand'' request) in
           if \<not> sc_enabled sc \<and> \<not> on_demand then (Inr Skipped, st, no_copies, None)
           else if on_demand \<and> sc_destinations sc = []
             then (invalid ''choose at least one destination before running it'', st, no_copies, None)
           else case passphrase_file st of
               None \<Rightarrow> (invalid ''no stored passphrase'', record_schedule_outcome env ''no stored passphrase'' st, no_copies, None)
             | Some text \<Rightarrow>
                 (let passphrase = py_strip text in
                  case start_backup env passphrase of Inl e \<Rightarrow> (Inl e, st, no_copies, None)
                  | Inr job \<Rightarrow>
                      (let st1 = st\<lparr>archives := made env @ archives st\<rparr> in
                       case poll_job [] (polls env) of Inl e \<Rightarrow> (Inl e, st1, no_copies, Some passphrase)
                       | Inr state \<Rightarrow> (case after_backup env sc job state st1 of (r, st2, c) \<Rightarrow> (r, st2, c, Some passphrase))))))"

end
