(* ===== verification/Backup_Facts.thy ===== *)
theory Backup_Facts
  imports Backup_Schedule
begin

text \<open>
  Facts about the backup model that its properties share: what a traced call sends, which deletions
  a copy can contain, what pruning leaves of the local archives, and what a saved schedule reads as.
\<close>

section \<open>Traces\<close>

lemma sbind_simps [simp]:
  "sbind (Inl err, cs) k = (Inl err, cs)"
  "sbind (Inr x, cs) k = (fst (k x), cs @ snd (k x))"
  by (simp_all add: sbind_def split: prod.split)

lemma snd_sbind: "snd (sbind m k) = snd m @ (case fst m of Inl _ \<Rightarrow> [] | Inr x \<Rightarrow> snd (k x))"
  by (cases m; cases "fst m") (auto simp: sbind_def split: prod.splits)

lemma fst_sbind: "fst (sbind m k) = (case fst m of Inl e \<Rightarrow> Inl e | Inr x \<Rightarrow> fst (k x))"
  by (cases m; cases "fst m") (auto simp: sbind_def split: prod.splits)

lemma silent_simps [simp]: "fst (silent r) = r" "snd (silent r) = []"
  by (simp_all add: silent_def)

lemma send_simps [simp]: "fst (send f c) = ask f c" "snd (send f c) = [c]"
  by (simp_all add: send_def)

text \<open>The files a trace asks the far end to remove.\<close>

fun cmd_removals :: "far_cmd \<Rightarrow> string list" where
  "cmd_removals (Batch bs) = List.map_filter (\<lambda>b. case b of Rm r \<Rightarrow> Some r | _ \<Rightarrow> None) bs"
| "cmd_removals (S3 m k) = (if m = ''DELETE'' then [k] else [])"
| "cmd_removals (Ssh _) = []"

definition far_removals :: "far_cmd list \<Rightarrow> string set" where
  "far_removals cs = set (concat (map cmd_removals cs))"

lemma far_removals_simps [simp]:
  "far_removals [] = {}" "far_removals (c # cs) = set (cmd_removals c) \<union> far_removals cs"
  "far_removals (cs @ ds) = far_removals cs \<union> far_removals ds"
  by (auto simp: far_removals_def)

lemma map_filter_simps' [simp]:
  "List.map_filter f [] = []"
  "List.map_filter f (x # xs) = (case f x of None \<Rightarrow> List.map_filter f xs | Some y \<Rightarrow> y # List.map_filter f xs)"
  "List.map_filter f (xs @ ys) = List.map_filter f xs @ List.map_filter f ys"
  by (auto simp: List.map_filter_def split: option.splits)

lemma prune_batch_removals:
  "set (cmd_removals (prune_batch dir vs)) = (\<Union>n \<in> set vs. {remote_join dir n, remote_join dir (n @ ''.sha256'')})"
  by (induction vs) (auto simp: prune_batch_def)

lemma put_batch_removals: "set (cmd_removals (put_batch w a dir n rf)) = {rf}"
  by (simp add: put_batch_def)

lemma verify_no_removals: "far_removals (snd (verify_remote_copy f w record rf ex n)) = {}"
  by (auto simp: verify_remote_copy_def snd_sbind Let_def split: sum.splits prod.splits)

lemma listing_no_removals: "far_removals (snd (remote_listing f dir)) = {}" "far_removals (snd (s3_listing f)) = {}"
  by (auto simp: remote_listing_def s3_listing_def snd_sbind split: sum.splits prod.splits)

lemma s3_prune_removals: "far_removals (snd (s3_prune f vs)) \<subseteq> (\<Union>n \<in> set vs. {n, n @ ''.sha256''})"
  by (induction vs) (auto simp: snd_sbind split: sum.splits prod.splits)

section \<open>A proved copy\<close>

text \<open>
  The far end holds the archive: its own digest is the archive's, what was read back has that
  digest, or the operator asked to trust the transfer.
\<close>

definition copy_proved :: "far_end \<Rightarrow> string \<Rightarrow> jobj \<Rightarrow> string \<Rightarrow> string \<Rightarrow> bool" where
  "copy_proved f work record remote_file expected =
     (py_lower (py_strip (str_or (jget ''verify'' record) ''auto'')) = ''transfer'' \<or>
      (\<exists>out err. ask f (Ssh [''sha256sum'', ''--'', remote_file]) = Inr (0, out, err) \<and> is_sha256 expected \<and>
         take 1 (py_words out) = [expected]) \<or>
      (\<exists>out err. ask f (Batch [Get remote_file (work @ ''/verify.bin'')]) = Inr (0, out, err) \<and> read_back f = Some expected))"

lemma verify_proves:
  assumes "fst (verify_remote_copy f work record rf expected n) = Inr (True, method, detail)"
  shows "copy_proved f work record rf expected"
proof -
  have hd: "ws \<noteq> [] \<Longrightarrow> take (Suc 0) ws = [hd ws]" for ws :: "string list" by (cases ws) auto
  show ?thesis
    using assms
    by (auto simp: verify_remote_copy_def copy_proved_def fst_sbind Let_def hd split: sum.splits prod.splits if_splits)
qed

lemma sftp_copy_removals:
  assumes x: "x \<in> far_removals (snd (sftp_copy f la record dir bid name expected n))"
  shows "x = remote_join dir name \<or> copy_proved f (la_work la) record (remote_join dir name) expected \<and>
     (\<exists>names vs v. fst (remote_listing f dir) = Inr names \<and> retention_victims names record = Inr vs \<and> v \<in> set vs \<and>
        (x = remote_join dir v \<or> x = remote_join dir (v @ ''.sha256'')))"
proof (rule disjCI)
  assume no: "\<not> (copy_proved f (la_work la) record (remote_join dir name) expected \<and>
     (\<exists>names vs v. fst (remote_listing f dir) = Inr names \<and> retention_victims names record = Inr vs \<and> v \<in> set vs \<and>
        (x = remote_join dir v \<or> x = remote_join dir (v @ ''.sha256''))))"
  show "x = remote_join dir name"
    using x no verify_proves [of f "la_work la" "record" "remote_join dir name" expected n]
    by (auto simp: sftp_copy_def Let_def snd_sbind put_batch_removals verify_no_removals listing_no_removals
        prune_batch_removals split: sum.splits prod.splits if_splits)
qed

section \<open>Local archives\<close>

lemma set_entry_other: "e \<in> set es \<Longrightarrow> e_id e \<noteq> bid \<Longrightarrow> e \<in> set (set_entry bid f es)"
  by (force simp: set_entry_def)

lemma remove_keeps_others:
  "e \<in> set es \<Longrightarrow> e_id e \<noteq> bid \<Longrightarrow> e \<in> set (snd (remove_backup_files ok bid es))"
  by (simp add: remove_backup_files_def Let_def set_entry_other split: sum.split)

lemma prune_loop_keeps:
  assumes "e \<in> set es" "e_id e \<notin> set bids - set staged"
  shows "e \<in> set (snd (prune_loop ok staged bids es))"
  using assms
proof (induction ok staged bids es rule: prune_loop.induct)
  case (2 ok staged bid bids es)
  show ?case
  proof (cases "bid \<in> set staged")
    case True
    then show ?thesis using 2(1) [OF True] 2(4,5) by auto
  next
    case False
    obtain r es' where r: "remove_backup_files ok bid es = (r, es')" by fastforce
    have e: "e \<in> set es'" using remove_keeps_others [of e es bid ok] False 2(4,5) r by auto
    have "e \<in> set (snd (prune_loop ok staged bids es'))"
      using 2(2,3) [OF False r [symmetric]] e 2(5) by (cases r) auto
    then show ?thesis using False r by (cases r) (auto split: prod.splits)
  qed
qed simp

lemma read_backup_id: "read_backup e = Inr b \<Longrightarrow> b_id b = e_id e \<or> e_id e = []"
  by (auto simp: read_backup_def demand_def public_backup_def split: if_splits)

lemma read_backups_ids: "read_backups es = Inr bs \<Longrightarrow> distinct (map e_id es) \<Longrightarrow>
   distinct (map b_id bs) \<and> set (map b_id bs) \<subseteq> set (map e_id es)"
proof (induction es arbitrary: bs)
  case (Cons e es)
  show ?case
  proof (cases "e_meta e = None \<or> \<not> is_identifier (e_id e)")
    case True
    then show ?thesis using Cons by auto
  next
    case False
    then have ne: "e_id e \<noteq> []" by (auto simp: is_identifier_def)
    show ?thesis
    proof (cases "read_backup e")
      case (Inl err)
      then show ?thesis using Cons False by (auto split: if_splits)
    next
      case (Inr b)
      then obtain bs' where bs': "read_backups es = Inr bs'" "bs = b # bs'" using Cons.prems(1) False by auto
      then show ?thesis using Cons.IH [OF bs'(1)] Cons.prems(2) read_backup_id [OF Inr] ne by auto
    qed
  qed
qed simp

lemma all_backups_ids:
  assumes "all_backups es = Inr bs" "distinct (map e_id es)"
  shows "distinct (map b_id bs)"
proof -
  obtain xs where xs: "read_backups es = Inr xs" "bs = rev (sort_key created_key (rev xs))"
    using assms(1) by (auto simp: all_backups_def)
  then show ?thesis using read_backups_ids [OF xs(1) assms(2)]
    by (auto simp: rev_map distinct_map inj_on_def)
qed

lemma prune_local_keeps:
  assumes "distinct (map e_id es)" "e \<in> set es"
    "e_id e \<in> set (staged_backup_ids stg) \<or>
     (\<exists>bs. all_backups es = Inr bs \<and> e_id e \<in> set (map b_id (take (nat (max keep 1)) bs)))"
  shows "e \<in> set (snd (prune_local_backups ok stg keep es))"
proof (cases "all_backups es")
  case (Inr bs)
  let ?n = "nat (max keep 1)"
  have "distinct (map b_id (take ?n bs @ drop ?n bs))" using all_backups_ids [OF Inr assms(1)] by simp
  then have "set (map b_id (take ?n bs)) \<inter> set (map b_id (drop ?n bs)) = {}" by (simp only: map_append distinct_append)
  then have "e_id e \<notin> set (map b_id (drop ?n bs)) - set (staged_backup_ids stg)" using assms(3) Inr by auto
  from prune_loop_keeps [OF assms(2) this, of ok] Inr show ?thesis
    by (auto simp: prune_local_backups_def split: prod.splits)
qed (use assms(2) in \<open>simp add: prune_local_backups_def\<close>)

section \<open>The loop over the destinations\<close>

abbreviation copy_to :: "run_env \<Rightarrow> bstate \<Rightarrow> json \<Rightarrow> string \<Rightarrow> upload_report sent" where
  "copy_to env st bid n \<equiv> upload_backup (dest_files st) (far env n) (run_archive env st) bid (JStr n)"

fun is_backupd :: "backup_error \<Rightarrow> bool" where
  "is_backupd (BackupdError _ _) = True"
| "is_backupd _ = False"

lemma copy_all_failures: "copy_all env st bid names c = (r, c') \<Longrightarrow> c_failures c \<noteq> [] \<Longrightarrow> c_failures c' \<noteq> []"
  by (induction names arbitrary: c)
     (auto simp: Let_def split: sum.splits backup_error.splits if_splits)

lemma copy_all_good:
  assumes "copy_all env st bid names c = (Inr (), c')" "c_failures c' = []"
  shows "\<exists>us. c_uploads c' = c_uploads c @ us \<and> map (\<lambda>n. fst (copy_to env st bid n)) names = map Inr us \<and> list_all u_ok us"
  using assms(1)
proof (induction names arbitrary: c)
  case (Cons n ns)
  show ?case
  proof (cases "fst (copy_to env st bid n)")
    case (Inl e)
    then show ?thesis using Cons.prems copy_all_failures assms(2) by (cases e) (fastforce simp: Let_def)+
  next
    case (Inr u)
    let ?c = "c\<lparr>c_sent := c_sent c @ [(n, snd (copy_to env st bid n))],
        c_alerts := c_alerts c @ upload_alerts (dest_files st) bid (JStr n) (copy_to env st bid n),
        c_uploads := c_uploads c @ [u], c_failures := c_failures c @ (if u_ok u then [] else [n @ '': '' @ u_error u])\<rparr>"
    have run: "copy_all env st bid ns ?c = (Inr (), c')" using Cons.prems Inr by (simp add: Let_def)
    have ok: "u_ok u" using copy_all_failures [OF run] assms(2) by (cases "u_ok u") simp_all
    from Cons.IH [OF run] obtain us where us: "c_uploads c' = c_uploads ?c @ us"
      "map (\<lambda>n. fst (copy_to env st bid n)) ns = map Inr us" "list_all u_ok us" by blast
    show ?thesis by (rule exI [of _ "u # us"]) (use us ok Inr in simp)
  qed
qed simp

lemma copy_all_stops:
  assumes "\<And>m e. m \<in> set pre \<Longrightarrow> fst (copy_to env st bid m) = Inl e \<Longrightarrow> is_backupd e"
    "fst (copy_to env st bid n) = Inl e" "\<not> is_backupd e"
  shows "\<exists>c'. copy_all env st bid (pre @ n # post) c = (Inl e, c') \<and> map fst (c_sent c') = map fst (c_sent c) @ pre @ [n]"
  using assms(1)
proof (induction pre arbitrary: c)
  case Nil
  then show ?case using assms(2,3) by (cases e) (simp_all add: Let_def)
next
  case (Cons m ms)
  have IH: "\<exists>c'. copy_all env st bid (ms @ n # post) c = (Inl e, c') \<and> map fst (c_sent c') = qs"
    if "qs = map fst (c_sent c) @ ms @ [n]" for c qs
    unfolding that by (rule Cons.IH) (use Cons.prems in auto)
  show ?case
  proof (cases "fst (copy_to env st bid m)")
    case (Inl x)
    then have "is_backupd x" using Cons.prems by auto
    then show ?thesis using Inl by (cases x) (simp_all add: Let_def IH)
  next
    case (Inr u)
    then show ?thesis by (simp add: Let_def IH)
  qed
qed

lemma upload_ok_verified: "fst (upload_backup df f la bid d) = Inr u \<Longrightarrow> u_ok u \<Longrightarrow> u_verified u"
  by (auto simp: upload_backup_def s3_copy_def sftp_copy_def fst_sbind Let_def split: sum.splits prod.splits option.splits if_splits)

section \<open>Settings that read back\<close>

definition good_time :: "string \<Rightarrow> bool" where
  "good_time t = (t \<noteq> [] \<and> py_strip t = t \<and> rex_match TIME_RE t)"

lemma schedule_time_good: "schedule_time v d = Inr t \<Longrightarrow> good_time d \<Longrightarrow> good_time t"
  by (auto simp: schedule_time_def good_time_def Let_def py_strip_idem split: if_splits)

lemma schedule_time_back: "good_time t \<Longrightarrow> schedule_time (JStr t) d = Inr t"
  by (simp add: schedule_time_def good_time_def)

lemma default_time_good: "good_time DEFAULT_SCHEDULE_TIME"
  by code_simp

lemma keep_local_bounds: "keep_local_value v d = Inr n \<Longrightarrow> 1 \<le> d \<and> d \<le> LIST_LIMIT \<Longrightarrow> 1 \<le> n \<and> n \<le> LIST_LIMIT"
  by (auto simp: keep_local_value_def split: if_splits option.splits)

lemma keep_local_back: "1 \<le> n \<and> n \<le> LIST_LIMIT \<Longrightarrow> keep_local_value (JInt n) d = Inr n"
  by (simp add: keep_local_value_def absent_def)

lemma stored_keep_local_bounds: "stored_keep_local v = Inr n \<Longrightarrow> 1 \<le> n \<and> n \<le> LIST_LIMIT"
  by (auto simp: stored_keep_local_def DEFAULT_KEEP_LOCAL_def LIST_LIMIT_def split: sum.splits backup_error.splits
      dest: keep_local_bounds [unfolded LIST_LIMIT_def])

lemma load_schedule_good:
  assumes "load_schedule st = Inr sc"
  shows "good_time (sc_time sc)" "1 \<le> sc_keep_local sc \<and> sc_keep_local sc \<le> LIST_LIMIT"
    "sc_passphrase_stored sc = (passphrase_file st \<noteq> None)"
  using assms
  by (auto simp: load_schedule_def Let_def dest: stored_keep_local_bounds schedule_time_good [OF _ default_time_good])

lemma str_items_JStr: "str_items (map JStr xs) = xs"
  by (induction xs) (simp_all add: str_items_def)

lemma load_schedule_written:
  assumes "sched_file st = Inr (schedule_record enabled chosen req cur wanted keep)" "good_time wanted"
    "1 \<le> keep \<and> keep \<le> LIST_LIMIT"
  shows "load_schedule st = Inr \<lparr>sc_enabled = enabled, sc_destinations = chosen,
     sc_include_ssh = truthy (jget_or ''include_ssh'' (JBool (sc_include_ssh cur)) req),
     sc_quiesce = (jget_or ''quiesce'' (JBool (sc_quiesce cur)) req \<noteq> JBool False),
     sc_passphrase_stored = (passphrase_file st \<noteq> None), sc_last_run = sc_last_run cur,
     sc_last_result = sc_last_result cur, sc_time = wanted, sc_keep_local = keep\<rparr>"
  using assms(1) schedule_time_back [OF assms(2)] keep_local_back [OF assms(3)]
  by (simp add: load_schedule_def schedule_record_def str_items_JStr stored_keep_local_def)

lemma armed_record_parts:
  assumes "armed_record req cur chosen st = Inr (wanted, record)" "good_time (sc_time cur)"
    "1 \<le> sc_keep_local cur \<and> sc_keep_local cur \<le> LIST_LIMIT"
  obtains enabled keep where
    "record = schedule_record enabled chosen req cur wanted keep" "good_time wanted" "1 \<le> keep \<and> keep \<le> LIST_LIMIT"
    "enabled = (if jget ''enabled'' req = JNull then sc_enabled cur else truthy (jget ''enabled'' req))"
    "enabled \<Longrightarrow> passphrase_file st \<noteq> None \<and> chosen \<noteq> []"
    "schedule_time (jget ''time'' req) (sc_time cur) = Inr wanted"
    "keep_local_value (jget ''keep_local'' req) (sc_keep_local cur) = Inr keep"
proof -
  let ?e = "if jget ''enabled'' req = JNull then sc_enabled cur else truthy (jget ''enabled'' req)"
  from assms(1) obtain keep where k: "schedule_time (jget ''time'' req) (sc_time cur) = Inr wanted"
    "keep_local_value (jget ''keep_local'' req) (sc_keep_local cur) = Inr keep"
    "record = schedule_record ?e chosen req cur wanted keep" "\<not> (?e \<and> passphrase_file st = None)" "\<not> (?e \<and> chosen = [])"
    unfolding armed_record_def Let_def by (auto split: if_splits)
  show ?thesis
    by (rule that [of ?e keep]) (use k schedule_time_good [OF k(1) assms(2)] keep_local_bounds [OF k(2) assms(3)] in auto)
qed

end
