(* ===== verification/Backup_Properties.thy ===== *)
theory Backup_Properties
  imports Backup_Facts
begin

text \<open>
  Properties of the backup daemon: what the keep policy of a destination removes, that nothing is
  removed before the new copy is proved, that local archives go last, and what the schedule promises.
\<close>

section \<open>Rules that keep days\<close>

text \<open>
  The contract of one line of a keep policy: which of the days that have a copy it keeps.  Fewer
  copies never push a kept one out, the number of kept days is bounded, and the newest day is kept.
\<close>

locale keep_rule =
  fixes keeps :: "string set \<Rightarrow> string \<Rightarrow> bool" and bound :: nat
  assumes keeps_mono: "D' \<subseteq> D \<Longrightarrow> finite D \<Longrightarrow> keeps D d \<Longrightarrow> keeps D' d"
    and keeps_card: "finite D \<Longrightarrow> card {d \<in> D. keeps D d} \<le> bound"
    and keeps_newest: "finite D \<Longrightarrow> D \<noteq> {} \<Longrightarrow> 0 < bound \<Longrightarrow> keeps D (Max D)"

locale keep_policy = daily: keep_rule kd nd + weekly: keep_rule kw nw + monthly: keep_rule km nm
  for kd nd kw nw km nm
begin

definition some_rule :: "string set \<Rightarrow> string \<Rightarrow> bool" where
  "some_rule D d = (kd D d \<or> kw D d \<or> km D d)"

lemma some_rule_mono: "D' \<subseteq> D \<Longrightarrow> finite D \<Longrightarrow> some_rule D d \<Longrightarrow> some_rule D' d"
  unfolding some_rule_def using daily.keeps_mono [of D' D d] weekly.keeps_mono [of D' D d] monthly.keeps_mono [of D' D d] by blast

lemma some_rule_card:
  assumes "finite D"
  shows "card {d \<in> D. some_rule D d} \<le> nd + nw + nm"
proof -
  have "{d \<in> D. some_rule D d} = {d \<in> D. kd D d} \<union> {d \<in> D. kw D d} \<union> {d \<in> D. km D d}"
    by (auto simp: some_rule_def)
  then have "card {d \<in> D. some_rule D d} = card ({d \<in> D. kd D d} \<union> {d \<in> D. kw D d} \<union> {d \<in> D. km D d})" by simp
  then show ?thesis
    using card_Un_le [of "{d \<in> D. kd D d} \<union> {d \<in> D. kw D d}" "{d \<in> D. km D d}"]
      card_Un_le [of "{d \<in> D. kd D d}" "{d \<in> D. kw D d}"]
      daily.keeps_card [OF assms] weekly.keeps_card [OF assms] monthly.keeps_card [OF assms] by linarith
qed

lemma some_rule_newest: "finite D \<Longrightarrow> D \<noteq> {} \<Longrightarrow> 0 < nd + nw + nm \<Longrightarrow> some_rule D (Max D)"
  unfolding some_rule_def using daily.keeps_newest [of D] weekly.keeps_newest [of D] monthly.keeps_newest [of D] by auto

end

lemma newest_groups_Max:
  assumes "finite D" "D \<noteq> {}" "0 < nat n"
  shows "newest_groups token n D (Max D)"
proof -
  have "later D (Max D) = {}" using assms(1) by (auto simp: later_def dest: Max_ge [rotated])
  then show ?thesis using assms(3) by (simp add: newest_groups_def)
qed

interpretation groups: keep_rule "newest_groups token n" "nat n" for token :: "string \<Rightarrow> 'k" and n
  by unfold_locales (auto intro: newest_groups_mono newest_groups_card newest_groups_Max)

interpretation copies: keep_policy "newest_groups id d" "nat d" "newest_groups day_week w" "nat w"
    "newest_groups month_token m" "nat m" for d w m
  by unfold_locales

section \<open>The keep policy\<close>

lemma policy_keeps_iff:
  "policy_keeps d w m names x \<longleftrightarrow>
     (\<forall>day. copy_day x = Some day \<longrightarrow> last_copy names day x \<and> copies.some_rule d w m (copy_days names) day)"
  by (auto simp: policy_keeps_def copies.some_rule_def split: option.splits)

lemma policy_keeps_mono:
  assumes "set names' \<subseteq> set names" "policy_keeps d w m names x"
  shows "policy_keeps d w m names' x"
proof -
  have "copy_days names' \<subseteq> copy_days names" using assms(1) by (auto simp: copy_days_def)
  then show ?thesis using assms copies.some_rule_mono [OF _ finite_copy_days]
    unfolding policy_keeps_iff last_copy_def by blast
qed

lemma kept_copies_card:
  "card {x \<in> set names. copy_day x \<noteq> None \<and> policy_keeps d w m names x} \<le> nat d + nat w + nat m"
proof -
  let ?K = "{x \<in> set names. copy_day x \<noteq> None \<and> policy_keeps d w m names x}" and ?D = "copy_days names"
  have "inj_on (the \<circ> copy_day) ?K"
    by (rule inj_onI) (auto simp: policy_keeps_iff intro: last_copy_unique)
  moreover have "(the \<circ> copy_day) ` ?K \<subseteq> {day \<in> ?D. copies.some_rule d w m ?D day}"
    by (auto simp: policy_keeps_iff copy_days_def)
  ultimately have "card ?K \<le> card {day \<in> ?D. copies.some_rule d w m ?D day}"
    by (intro card_inj_on_le [of "the \<circ> copy_day"]) auto
  then show ?thesis using copies.some_rule_card [OF finite_copy_days, of names d w m] by linarith
qed

lemma newest_copy_kept:
  assumes "copy_days names \<noteq> {}" "0 < d \<or> 0 < w \<or> 0 < m"
  shows "\<exists>x \<in> set names. copy_day x = Some (Max (copy_days names)) \<and> policy_keeps d w m names x"
proof -
  have "Max (copy_days names) \<in> copy_days names" using assms(1) by (intro Max_in) auto
  then obtain x where x: "x \<in> set names" "last_copy names (Max (copy_days names)) x" using by_day_last by blast
  have "copies.some_rule d w m (copy_days names) (Max (copy_days names))"
    by (rule copies.some_rule_newest) (use assms in auto)
  then show ?thesis using x by (intro bexI [of _ x]) (auto simp: policy_keeps_iff last_copy_def)
qed

text \<open>C15. The off-host copies a destination's retention removes are exactly those the keep policy
  drops: a copy with a date in its name survives just when it is the last one of its day and that day
  is among the newest \<open>keep_daily\<close> days with a copy, or is the last day with a copy in one of the
  newest \<open>keep_weekly\<close> calendar weeks (Monday to Sunday), or the last in one of the newest
  \<open>keep_monthly\<close> months; a name without a date is never removed.\<close>

theorem retention_follows_the_policy:
  assumes "int_or (jget ''keep_daily'' rec) 0 = Inr daily" "int_or (jget ''keep_weekly'' rec) 0 = Inr weekly"
    "int_or (jget ''keep_monthly'' rec) 0 = Inr monthly"
  shows "retention_victims names rec = Inr (filter (\<lambda>x. \<not> policy_keeps daily weekly monthly names x) names)"
  by (rule retention_victims_spec [OF assms])

theorem retention_follows_the_policy_witness:
  "retention_victims [''easy-ha-proxy-20260105-0.tar.gz.enc'', ''easy-ha-proxy-20260106-0.tar.gz.enc'', ''notes'']
     [(''keep_daily'', JInt 1)] =
   Inr (filter (\<lambda>x. \<not> policy_keeps 1 0 0 [''easy-ha-proxy-20260105-0.tar.gz.enc'', ''easy-ha-proxy-20260106-0.tar.gz.enc'', ''notes''] x)
     [''easy-ha-proxy-20260105-0.tar.gz.enc'', ''easy-ha-proxy-20260106-0.tar.gz.enc'', ''notes''])"
  by (rule retention_follows_the_policy) (simp_all add: int_or_def jor_def)

text \<open>C16. Retention settles and is bounded: after the victims are gone a second pass removes nothing, at
  most \<open>keep_daily + keep_weekly + keep_monthly\<close> dated copies remain, and unless all three counts are
  zero a copy of the newest day remains.\<close>

theorem retention_settles:
  assumes "int_or (jget ''keep_daily'' rec) 0 = Inr daily" "int_or (jget ''keep_weekly'' rec) 0 = Inr weekly"
    "int_or (jget ''keep_monthly'' rec) 0 = Inr monthly" "retention_victims names rec = Inr victims"
    "left = filter (\<lambda>x. x \<notin> set victims) names"
  shows "retention_victims left rec = Inr [] \<and>
     card {x \<in> set left. copy_day x \<noteq> None} \<le> nat daily + nat weekly + nat monthly \<and>
     (copy_days names \<noteq> {} \<and> (0 < daily \<or> 0 < weekly \<or> 0 < monthly) \<longrightarrow>
        (\<exists>x \<in> set left. copy_day x = Some (Max (copy_days names))))"
proof -
  let ?k = "policy_keeps daily weekly monthly"
  have v: "victims = filter (\<lambda>x. \<not> ?k names x) names" using assms(4) retention_victims_spec [OF assms(1-3)] by simp
  have left: "left = filter (?k names) names" unfolding assms(5) v by (rule filter_cong) auto
  have sub: "set left \<subseteq> set names" by (simp add: left)
  have "?k left x" if "x \<in> set left" for x using policy_keeps_mono [OF sub] that left by auto
  then have "filter (\<lambda>x. \<not> ?k left x) left = []" by (simp add: filter_empty_conv)
  moreover have "{x \<in> set left. copy_day x \<noteq> None} = {x \<in> set names. copy_day x \<noteq> None \<and> ?k names x}" by (auto simp: left)
  ultimately show ?thesis
    using retention_victims_spec [OF assms(1-3), of left] kept_copies_card [of names daily weekly monthly]
      newest_copy_kept [of names daily weekly monthly] left by auto
qed

theorem retention_settles_witness:
  "retention_victims [''easy-ha-proxy-20260106-0.tar.gz.enc''] [(''keep_daily'', JInt 1)] = Inr [] \<and>
   card {x \<in> set [''easy-ha-proxy-20260106-0.tar.gz.enc'']. copy_day x \<noteq> None} \<le> nat 1 + nat 0 + nat 0"
  using retention_settles [of "[(''keep_daily'', JInt 1)]" 1 0 0 "[''easy-ha-proxy-20260105-0.tar.gz.enc'', ''easy-ha-proxy-20260106-0.tar.gz.enc'']"
      "[''easy-ha-proxy-20260105-0.tar.gz.enc'']" "[''easy-ha-proxy-20260106-0.tar.gz.enc'']"]
proof -
  have "retention_victims [''easy-ha-proxy-20260105-0.tar.gz.enc'', ''easy-ha-proxy-20260106-0.tar.gz.enc'']
      [(''keep_daily'', JInt 1)] = Inr [''easy-ha-proxy-20260105-0.tar.gz.enc'']" by code_simp
  from retention_settles [OF _ _ _ this refl, of 1 0 0] show ?thesis by (simp add: int_or_def jor_def)
qed

section \<open>An example gateway\<close>

text \<open>One S3 destination that keeps one daily copy, one archive from the day before, and a run that makes another.\<close>

definition ex_file :: "int \<Rightarrow> file_stat" where
  "ex_file n = \<lparr>f_plain = True, f_size = n\<rparr>"

definition ex_entry :: "char \<Rightarrow> string \<Rightarrow> entry" where
  "ex_entry c day = \<lparr>e_id = replicate 32 c,
     e_meta = Some (ex_file 10, Some (JObj [(''id'', JStr (replicate 32 c)), (''size_bytes'', JInt 5), (''created_at'', JStr day),
                                            (''sha256'', JStr (replicate 64 CHR ''f''))])),
     e_archive = Some (ex_file 5), e_sum = Some (ex_file 5)\<rparr>"

definition ex_dest :: jobj where
  "ex_dest = [(''name'', JStr ''box''), (''type'', JStr ''s3''), (''keep_daily'', JInt 1)]"

definition ex_files :: "string \<Rightarrow> jobj bresult" where
  "ex_files n = (if n = ''box'' then Inr ex_dest else Inl (OSError ''No such file''))"

definition ex_state :: bstate where
  "ex_state = \<lparr>sched_file = Inr [(''enabled'', JBool True), (''destinations'', JList [JStr ''box'']), (''keep_local'', JInt 1)],
     passphrase_file = Some ''correct horse battery'', timer_dropin = None, archives = [ex_entry CHR ''b'' ''2026-01-01''],
     stages = [], dest_files = ex_files, alerts = []\<rparr>"

definition ex_far :: "(int \<times> string \<times> string) bresult \<Rightarrow> far_end" where
  "ex_far answer = \<lparr>ask = (\<lambda>_. answer), read_back = None\<rparr>"


definition ex_env :: "(int \<times> string \<times> string) bresult \<Rightarrow> run_env" where
  "ex_env answer = \<lparr>now_text = ''2026-01-02'', start_lock = None, prune_lock = None, new_job = Inr (replicate 32 CHR ''1''),
     polls = [Inr [(''status'', JStr ''completed''), (''output'', JObj [(''backup_id'', JStr (replicate 32 CHR ''a''))])]],
     made = [ex_entry CHR ''a'' ''2026-01-02''], far = (\<lambda>_. ex_far answer), digest_of = (\<lambda>_. Inr (replicate 64 CHR ''f'')),
     stamp_of = (\<lambda>_. ''20260102-030000''), workdir = ''/tmp/work'', unlink_ok = (\<lambda>_. True), outcome_write_ok = True,
     space_low = Inr False\<rparr>"

definition ex_save :: save_env where
  "ex_save = \<lparr>pass_unlink_ok = True, pass_write_ok = True, sched_write_ok = True, dropin_write_ok = True, timer_error = None\<rparr>"

section \<open>Copies elsewhere\<close>





section \<open>Archives on this server\<close>

lemma record_outcome_keeps [simp]:
  "archives (record_schedule_outcome env t st) = archives st"
  "passphrase_file (record_schedule_outcome env t st) = passphrase_file st"
  by (simp_all add: record_schedule_outcome_def)

lemma after_backup_archives:
  assumes "after_backup env sc job state st = (r, st', c)" "archives st' \<noteq> archives st"
  shows "copy_all env st (made_backup_id state) (sc_destinations sc) no_copies = (Inr (), c)" "c_uploads c \<noteq> []"
    "c_failures c = []"
    "archives st' = snd (prune_local_backups (unlink_ok env) (stages st) (sc_keep_local sc) (archives st))"
  using assms
  by (auto simp: after_backup_def finish_run_def prune_after_def Let_def split: if_splits prod.splits sum.splits)

lemma run_started:
  assumes "run_scheduled_backup env req st = (r, st', c, Some p)"
  obtains sc job where "load_schedule st = Inr sc" "start_backup env p = Inr job"
    "passphrase_file st \<noteq> None" "p = py_strip (the (passphrase_file st))"
    "(\<exists>e. poll_job [] (polls env) = Inl e \<and> st' = st\<lparr>archives := made env @ archives st\<rparr>) \<or>
     (\<exists>state. poll_job [] (polls env) = Inr state \<and>
        after_backup env sc job state (st\<lparr>archives := made env @ archives st\<rparr>) = (r, st', c))"
  using assms by (auto simp: run_scheduled_backup_def Let_def split: if_splits sum.splits option.splits prod.splits)

text \<open>C13. A scheduled run removes an archive from this server only when every destination of the schedule
  took a verified copy of the new backup; and then neither one of the newest \<open>keep_local\<close> archives nor
  one a restore has been staged from.\<close>

theorem local_archives_go_last:
  assumes "run_scheduled_backup env req st = (r, st', c, Some p)" "distinct (map e_id (made env @ archives st))"
    "e \<in> set (made env @ archives st)" "e \<notin> set (archives st')"
  shows "\<exists>sc bs. load_schedule st = Inr sc \<and> sc_destinations sc \<noteq> [] \<and>
     length (c_uploads c) = length (sc_destinations sc) \<and> list_all (\<lambda>u. u_ok u \<and> u_verified u) (c_uploads c) \<and>
     all_backups (made env @ archives st) = Inr bs \<and> e_id e \<notin> set (map b_id (take (nat (sc_keep_local sc)) bs)) \<and>
     e_id e \<notin> set (staged_backup_ids (stages st))"
proof -
  let ?st = "st\<lparr>archives := made env @ archives st\<rparr>"
  from assms(1) obtain sc job where sc: "load_schedule st = Inr sc" and
    "(\<exists>e. poll_job [] (polls env) = Inl e \<and> st' = ?st) \<or>
     (\<exists>state. poll_job [] (polls env) = Inr state \<and> after_backup env sc job state ?st = (r, st', c))"
    by (rule run_started)
  then consider "st' = ?st" | state where "after_backup env sc job state ?st = (r, st', c)" by blast
  then obtain state where ab: "after_backup env sc job state ?st = (r, st', c)"
  proof cases
    case 1
    then have "archives st' = made env @ archives st" by simp
    then show ?thesis using assms(3,4) by simp
  qed
  note a = after_backup_archives [OF ab]
  have ne: "archives st' \<noteq> archives ?st" using assms(3,4) by auto
  obtain us where us: "c_uploads c = us"
    "map (\<lambda>n. fst (copy_to env ?st (made_backup_id state) n)) (sc_destinations sc) = map Inr us" "list_all u_ok us"
    using copy_all_good [OF a(1) [OF ne] a(3) [OF ne]] by (auto simp: no_copies_def)
  have len: "length us = length (sc_destinations sc)" using arg_cong [OF us(2), of length] by simp
  have ver: "u_verified u" if "u \<in> set us" for u
  proof -
    have "Inr u \<in> set (map (\<lambda>n. fst (copy_to env ?st (made_backup_id state) n)) (sc_destinations sc))" using us(2) that by simp
    then obtain n where "fst (copy_to env ?st (made_backup_id state) n) = Inr u" by auto
    moreover have "u_ok u" using us(3) that by (simp add: list_all_iff)
    ultimately show ?thesis by (rule upload_ok_verified)
  qed
  have gone: "e \<notin> set (snd (prune_local_backups (unlink_ok env) (stages st) (sc_keep_local sc) (made env @ archives st)))"
    using a(4) [OF ne] assms(4) by simp
  obtain bs where bs: "all_backups (made env @ archives st) = Inr bs"
    using gone assms(3) by (cases "all_backups (made env @ archives st)") (auto simp: prune_local_backups_def)
  have k: "max (sc_keep_local sc) 1 = sc_keep_local sc" using load_schedule_good(2) [OF sc] by simp
  have "\<not> (e_id e \<in> set (staged_backup_ids (stages st)) \<or> e_id e \<in> set (map b_id (take (nat (sc_keep_local sc)) bs)))"
    using prune_local_keeps [OF assms(2,3)] gone bs k by metis
  then show ?thesis using sc bs us len ver a(2) [OF ne] by (intro exI [of _ sc] exI [of _ bs]) (auto simp: list_all_iff)
qed

theorem local_archives_go_last_witness:
  "\<exists>sc bs. load_schedule ex_state = Inr sc \<and> sc_destinations sc \<noteq> [] \<and>
     all_backups [ex_entry CHR ''a'' ''2026-01-02'', ex_entry CHR ''b'' ''2026-01-01''] = Inr bs \<and>
     replicate 32 CHR ''b'' \<notin> set (map b_id (take (nat (sc_keep_local sc)) bs))"
proof -
  let ?env = "ex_env (Inr (200, [], []))"
  let ?run = "run_scheduled_backup ?env [] ex_state"
  have "snd (snd (snd ?run)) = Some ''correct horse battery''" by code_simp
  then have run: "?run = (fst ?run, fst (snd ?run), fst (snd (snd ?run)), Some ''correct horse battery'')" by (metis prod.collapse)
  have gone: "ex_entry CHR ''b'' ''2026-01-01'' \<notin> set (archives (fst (snd ?run)))" by code_simp
  have all: "made ?env @ archives ex_state = [ex_entry CHR ''a'' ''2026-01-02'', ex_entry CHR ''b'' ''2026-01-01'']"
    by (simp add: ex_env_def ex_state_def)
  from local_archives_go_last [OF run _ _ gone] show ?thesis unfolding all by (auto simp: ex_entry_def)
qed


section \<open>The schedule\<close>

lemma save_schedule_ok:
  assumes "save_schedule env req st = (Inr sc, st')"
  obtains cur chosen st1 wanted "rec" where "load_schedule st = Inr cur" "wanted_destinations req cur st = Inr chosen"
    "store_passphrase env (jget ''passphrase'' req) st = (Inr (), st1)" "armed_record req cur chosen st1 = Inr (wanted, rec)"
    "write_schedule env cur wanted rec st1 = (Inr sc, st')"
  using assms by (auto simp: save_schedule_def split: sum.splits prod.splits)

lemma chosen_names_load: "chosen_names files xs = Inr ns \<Longrightarrow> n \<in> set ns \<Longrightarrow> \<exists>r. load_destination files (JStr n) = Inr r"
  by (induction xs arbitrary: ns) auto

lemma wanted_destinations_load:
  "wanted_destinations req cur st = Inr ns \<Longrightarrow> n \<in> set ns \<Longrightarrow> \<exists>r. load_destination (dest_files st) (JStr n) = Inr r"
  by (auto simp: wanted_destinations_def split: json.splits dest: chosen_names_load)

text \<open>C30. A schedule that was saved is the one that runs: reading the file back gives the schedule the
  request returned; it is switched on only with a stored passphrase and at least one destination, every
  destination in it can be read, its hour is \<open>HH:MM\<close> and it keeps 1 to 50 local archives.\<close>

theorem saved_schedule_reads_back:
  assumes "save_schedule env req st = (Inr sc, st')"
  shows "load_schedule st' = Inr sc \<and> (sc_enabled sc \<longrightarrow> passphrase_file st' \<noteq> None \<and> sc_destinations sc \<noteq> []) \<and>
     list_all (\<lambda>n. \<exists>r. load_destination (dest_files st) (JStr n) = Inr r) (sc_destinations sc) \<and>
     rex_match TIME_RE (sc_time sc) \<and> 1 \<le> sc_keep_local sc \<and> sc_keep_local sc \<le> 50"
proof -
  obtain cur chosen st1 wanted "rec" where s: "load_schedule st = Inr cur" "wanted_destinations req cur st = Inr chosen"
    "store_passphrase env (jget ''passphrase'' req) st = (Inr (), st1)" "armed_record req cur chosen st1 = Inr (wanted, rec)"
    "write_schedule env cur wanted rec st1 = (Inr sc, st')"
    using save_schedule_ok [OF assms] by metis
  obtain enabled keep where p: "rec = schedule_record enabled chosen req cur wanted keep" "good_time wanted"
    "1 \<le> keep \<and> keep \<le> LIST_LIMIT" "enabled \<Longrightarrow> passphrase_file st1 \<noteq> None \<and> chosen \<noteq> []"
    using armed_record_parts [OF s(4) load_schedule_good(1,2) [OF s(1)]] by metis
  have w: "sched_file st' = Inr rec" "passphrase_file st' = passphrase_file st1" "load_schedule st' = Inr sc"
    using s(5) by (auto simp: write_schedule_def Let_def split: if_splits option.splits)
  have "sc_enabled sc = enabled" "sc_destinations sc = chosen" "sc_time sc = wanted" "sc_keep_local sc = keep"
    using load_schedule_written [OF w(1) [unfolded p(1)] p(2,3)] w(3) by auto
  then show ?thesis
    using w p(2-4) wanted_destinations_load [OF s(2)] by (auto simp: list_all_iff good_time_def LIST_LIMIT_def)
qed

theorem saved_schedule_reads_back_witness:
  "(case save_schedule ex_save [(''time'', JStr ''04:30'')] ex_state of
      (Inr sc, st') \<Rightarrow> load_schedule st' = Inr sc \<and> rex_match TIME_RE (sc_time sc)
    | (Inl _, _) \<Rightarrow> False)"
proof -
  let ?s = "save_schedule ex_save [(''time'', JStr ''04:30'')] ex_state"
  have "case fst ?s of Inr _ \<Rightarrow> True | Inl _ \<Rightarrow> False" by code_simp
  then obtain sc st' where s: "?s = (Inr sc, st')" by (cases ?s; cases "fst ?s") auto
  from saved_schedule_reads_back [OF s] show ?thesis unfolding s by simp
qed


text \<open>C31. A refused save is not harmless: asking to forget the passphrase while the schedule is on is
  refused, because a schedule that is on needs one; but the passphrase has been deleted by then, the
  schedule stays on, and every run the timer starts afterwards is refused and makes no backup.\<close>

theorem refused_save_forgets_the_passphrase:
  assumes "load_schedule st = Inr cur" "sc_enabled cur" "wanted_destinations [(''passphrase'', JStr [])] cur st = Inr chosen"
    "pass_unlink_ok env"
  shows "\<exists>st'. save_schedule env [(''passphrase'', JStr [])] st =
       (invalid ''a stored passphrase is required before the schedule can run'', st') \<and>
     passphrase_file st' = None \<and> (\<exists>sc. load_schedule st' = Inr sc \<and> sc_enabled sc) \<and>
     (\<forall>renv. fst (run_scheduled_backup renv [] st') = invalid ''no stored passphrase'')"
proof -
  let ?st = "st\<lparr>passphrase_file := None\<rparr>"
  have load: "load_schedule ?st = Inr (cur\<lparr>sc_passphrase_stored := False\<rparr>)"
    using assms(1) by (auto simp: load_schedule_def Let_def)
  have "save_schedule env [(''passphrase'', JStr [])] st =
      (invalid ''a stored passphrase is required before the schedule can run'', ?st)"
    using assms by (simp add: save_schedule_def store_passphrase_def armed_record_def)
  moreover have "fst (run_scheduled_backup renv [] ?st) = invalid ''no stored passphrase''" for renv
    using load assms(2) by (simp add: run_scheduled_backup_def)
  ultimately show ?thesis using load assms(2) by (intro exI [of _ ?st]) simp
qed

theorem refused_save_forgets_the_passphrase_witness:
  "\<exists>st'. save_schedule ex_save [(''passphrase'', JStr [])] ex_state =
       (invalid ''a stored passphrase is required before the schedule can run'', st') \<and> passphrase_file st' = None"
proof -
  have "case load_schedule ex_state of Inl _ \<Rightarrow> False | Inr cur \<Rightarrow> sc_enabled cur \<and>
      (case wanted_destinations [(''passphrase'', JStr [])] cur ex_state of Inl _ \<Rightarrow> False | Inr _ \<Rightarrow> True)" by code_simp
  then obtain cur chosen where "load_schedule ex_state = Inr cur" "sc_enabled cur"
      "wanted_destinations [(''passphrase'', JStr [])] cur ex_state = Inr chosen"
    by (auto split: sum.splits)
  moreover have "pass_unlink_ok ex_save" by (simp add: ex_save_def)
  ultimately show ?thesis using refused_save_forgets_the_passphrase by blast
qed


text \<open>C32. One destination that cannot be reached ends the whole run: when copying to it raises anything
  other than a \<open>BackupdError\<close> (the timeout of \<open>sftp\<close>, a refused connection to an S3 endpoint), the
  destinations after it are not contacted, the outcome is not recorded, and the run fails.\<close>

theorem unreachable_destination_ends_the_run:
  assumes "load_schedule st = Inr sc" "sc_enabled sc" "sc_destinations sc = pre @ n # post"
    "passphrase_file st = Some text" "start_backup env (py_strip text) = Inr job"
    "poll_job [] (polls env) = Inr state" "jget ''status'' state = JStr ''completed''"
    "bst = st\<lparr>archives := made env @ archives st\<rparr>" "bid = made_backup_id state"
    "list_all (\<lambda>m. case fst (copy_to env bst bid m) of Inl e \<Rightarrow> is_backupd e | Inr _ \<Rightarrow> True) pre"
    "fst (copy_to env bst bid n) = Inl e" "\<not> is_backupd e"
  shows "\<exists>st' c. run_scheduled_backup env [] st = (Inl e, st', c, Some (py_strip text)) \<and>
     map fst (c_sent c) = pre @ [n] \<and> sched_file st' = sched_file st"
proof -
  obtain c where c: "copy_all env bst bid (pre @ n # post) no_copies = (Inl e, c)" "map fst (c_sent c) = pre @ [n]"
    using copy_all_stops [where pre = pre and env = env and st = bst and bid = bid and n = n and e = e and post = post and c = no_copies] assms(10-12)
    by (fastforce simp: list_all_iff no_copies_def split: sum.splits)
  have "after_backup env sc job state bst = (Inl e, bst\<lparr>alerts := alerts bst @ c_alerts c\<rparr>, c)"
    using c(1) assms(3,7,9) by (simp add: after_backup_def)
  then have "run_scheduled_backup env [] st = (Inl e, bst\<lparr>alerts := alerts bst @ c_alerts c\<rparr>, c, Some (py_strip text))"
    using assms by (simp add: run_scheduled_backup_def)
  then show ?thesis using c(2) assms(8) by simp
qed

theorem unreachable_destination_ends_the_run_witness:
  "\<exists>st' c. run_scheduled_backup (ex_env (Inl TimeoutExpired)) [] ex_state = (Inl TimeoutExpired, st', c, Some (py_strip ''correct horse battery'')) \<and>
     map fst (c_sent c) = [] @ [''box''] \<and> sched_file st' = sched_file ex_state"
proof -
  let ?env = "ex_env (Inl TimeoutExpired)"
  let ?bst = "ex_state\<lparr>archives := made ?env @ archives ex_state\<rparr>"
  let ?state = "[(''status'', JStr ''completed''), (''output'', JObj [(''backup_id'', JStr (replicate 32 CHR ''a''))])]"
  have "case load_schedule ex_state of Inr sc \<Rightarrow> sc_enabled sc \<and> sc_destinations sc = [''box''] | Inl _ \<Rightarrow> False" by code_simp
  then obtain sc where sc: "load_schedule ex_state = Inr sc" "sc_enabled sc" "sc_destinations sc = [] @ ''box'' # []"
    by (cases "load_schedule ex_state") auto
  have t: "passphrase_file ex_state = Some ''correct horse battery''" by (simp add: ex_state_def)
  have j: "start_backup ?env (py_strip ''correct horse battery'') = Inr (replicate 32 CHR ''1'')" by code_simp
  have p: "poll_job [] (polls ?env) = Inr ?state" by (simp add: ex_env_def TERMINAL_STATUSES_def)
  have f: "fst (copy_to ?env ?bst (made_backup_id ?state) ''box'') = Inl TimeoutExpired" by code_simp
  show ?thesis
    by (rule unreachable_destination_ends_the_run [OF sc t j p _ refl refl _ f]) simp_all
qed


text \<open>
  A stored hour that is not \<open>HH:MM\<close> locks the schedule: reading it raises, so no request can replace
  it, and no run starts.
\<close>

theorem broken_time_locks_the_schedule:
  assumes "sched_file st = Inr rec" "py_iter (jget ''destinations'' rec) = Inr items"
    "schedule_time (jget ''time'' rec) DEFAULT_SCHEDULE_TIME = Inl e"
  shows "save_schedule env req st = (Inl e, st) \<and> run_scheduled_backup renv req st = (Inl e, st, no_copies, None)"
proof -
  have "load_schedule st = Inl e" using assms by (simp add: load_schedule_def)
  then show ?thesis by (simp add: save_schedule_def run_scheduled_backup_def)
qed

text \<open>With all three counts at zero, retention removes every dated copy, the one just made with them.\<close>

theorem zero_policy_removes_every_copy:
  assumes "int_or (jget ''keep_daily'' rec) 0 = Inr 0" "int_or (jget ''keep_weekly'' rec) 0 = Inr 0"
    "int_or (jget ''keep_monthly'' rec) 0 = Inr 0"
  shows "retention_victims names rec = Inr (filter (\<lambda>x. copy_day x \<noteq> None) names)"
proof -
  have "\<not> policy_keeps 0 0 0 names x \<longleftrightarrow> copy_day x \<noteq> None" for x
    by (auto simp: policy_keeps_def newest_groups_def split: option.splits)
  then show ?thesis using retention_victims_spec [OF assms, of names] by simp
qed

text \<open>A run encrypts with the stored passphrase stripped of white space at both ends.\<close>

theorem run_strips_the_passphrase:
  assumes "run_scheduled_backup env req st = (r, st', c, Some p)"
  shows "\<exists>text. passphrase_file st = Some text \<and> p = py_strip text"
  using run_started [OF assms] by (metis option.exhaust_sel)

end
