(* ===== verification/Health_Sites.thy ===== *)
theory Health_Sites
  imports Alert_Config
begin

text \<open>
  Availability alerts for sites, \<open>SiteAlertEngine\<close> of
  \<open>src/ansible/roles/haproxy-admin/files/haproxy-healthd.py\<close>: the durable incident records, the state of
  a site read from HAProxy's statistics, the decision to send a notice, and one cycle of the thread.

  Times are whole seconds and thresholds milliseconds, because \<open>alert_after\<close> may be given in \<open>ms\<close>.
  What HAProxy, the mail relay and the file system answer are arguments.
\<close>

section \<open>Incident records\<close>

record incident =
  bad_since :: "int option"
  alerted_at :: "int option"
  alerted_state :: string
  good_since :: "int option"

definition no_incident :: incident where
  "no_incident = \<lparr>bad_since = None, alerted_at = None, alerted_state = [], good_since = None\<rparr>"

definition incident_timestamp :: "json \<Rightarrow> string \<Rightarrow> int option result" where
  "incident_timestamp v field = (case v of
       JNull \<Rightarrow> Inr None
     | JInt t \<Rightarrow> if t < 0 then Inl (ValueError (''invalid incident '' @ field)) else Inr (Some t)
     | _ \<Rightarrow> Inl (ValueError (''invalid incident '' @ field)))"

definition checked_incident :: "incident \<Rightarrow> incident result" where
  "checked_incident i =
     (if alerted_state i \<notin> {[], ''down'', ''degraded''} then Inl (ValueError ''invalid incident alerted_state'')
      else if alerted_at i \<noteq> None \<and> bad_since i = None then Inl (ValueError ''alerted incident has no outage start'')
      else if good_since i \<noteq> None \<and> alerted_at i = None then Inl (ValueError ''unalerted incident has a recovery start'')
      else Inr i)"

definition validated_incident_record :: "json \<Rightarrow> incident result" where
  "validated_incident_record v = (case v of
       JObj m \<Rightarrow>
         ebind (incident_timestamp (jget ''bad_since'' m) ''bad_since'') (\<lambda>bad.
           ebind (incident_timestamp (jget ''alerted_at'' m) ''alerted_at'') (\<lambda>alerted.
             ebind (incident_timestamp (jget ''good_since'' m) ''good_since'') (\<lambda>good.
               checked_incident \<lparr>bad_since = bad, alerted_at = alerted,
                                 alerted_state = str_or (jget ''alerted_state'' m) [], good_since = good\<rparr>)))
     | _ \<Rightarrow> Inl (ValueError ''invalid incident record''))"

definition time_json :: "int option \<Rightarrow> json" where
  "time_json t = (case t of None \<Rightarrow> JNull | Some n \<Rightarrow> JInt n)"

text \<open>A record as it stands in memory, and sorted by key as it is written.\<close>

definition incident_json :: "incident \<Rightarrow> json" where
  "incident_json i = JObj [(''alerted_at'', time_json (alerted_at i)), (''alerted_state'', JStr (alerted_state i)),
     (''bad_since'', time_json (bad_since i)), (''good_since'', time_json (good_since i))]"

section \<open>The state file\<close>

definition STATE_MAX_BYTES :: int where "STATE_MAX_BYTES = 1024 * 1024"
definition STATE_MAX_INCIDENTS :: nat where "STATE_MAX_INCIDENTS = 1024"

text \<open>
  The file as the daemon finds it: whether its owner and mode are safe, its size, and its document
  (\<open>None\<close> when the text does not parse).
\<close>

record state_file =
  sf_safe :: bool
  sf_size :: int
  sf_doc :: "json option"

definition site_name_ok :: "string \<Rightarrow> bool" where
  "site_name_ok s = (s \<noteq> [] \<and> length s \<le> 253 \<and> list_all (\<lambda>c. 32 \<le> ord c) s)"

text \<open>\<open>payload.get("version") != 1\<close>; in Python \<open>True == 1\<close>.\<close>

definition version_ok :: "json \<Rightarrow> bool" where
  "version_ok v = (v = JInt 1 \<or> v = JBool True)"

definition load_entry :: "string \<times> json \<Rightarrow> (string \<times> incident) result" where
  "load_entry = (\<lambda>(name, v). if \<not> site_name_ok name then Inl (ValueError ''invalid incident site name'')
     else ebind (validated_incident_record v) (\<lambda>i. Inr (name, i)))"

definition incidents_of_doc :: "json \<Rightarrow> (string \<times> incident) list result" where
  "incidents_of_doc doc = (case doc of
       JObj m \<Rightarrow> (case jget ''incidents'' m of
           JObj items \<Rightarrow> if version_ok (jget ''version'' m) \<and> length items \<le> STATE_MAX_INCIDENTS
             then ebind (emap load_entry items) (\<lambda>xs. Inr (fold (\<lambda>(n, i). jput n i) xs [])) else Inl (ValueError ''invalid state document'')
         | _ \<Rightarrow> Inl (ValueError ''invalid state document''))
     | _ \<Rightarrow> Inl (ValueError ''invalid state document''))"

text \<open>Anything wrong with the file is logged and the daemon starts without incidents.\<close>

definition load_incidents :: "state_file option \<Rightarrow> (string \<times> incident) list" where
  "load_incidents sf = (case sf of None \<Rightarrow> []
     | Some f \<Rightarrow> if \<not> sf_safe f \<or> sf_size f \<le> 0 \<or> STATE_MAX_BYTES < sf_size f then []
         else case sf_doc f of None \<Rightarrow> []
           | Some doc \<Rightarrow> (case incidents_of_doc doc of Inl _ \<Rightarrow> [] | Inr xs \<Rightarrow> xs))"

definition is_active :: "incident \<Rightarrow> bool" where
  "is_active i = (bad_since i \<noteq> None \<or> alerted_at i \<noteq> None \<or> good_since i \<noteq> None)"

definition active_incidents :: "(string \<times> incident) list \<Rightarrow> (string \<times> incident) list" where
  "active_incidents incs = filter (\<lambda>(n, i). is_active i) (sort_key fst incs)"

definition state_doc :: "(string \<times> incident) list \<Rightarrow> json" where
  "state_doc active = JObj [(''incidents'', JObj (map (\<lambda>(n, i). (n, incident_json i)) active)), (''version'', JInt 1)]"

text \<open>
  \<open>dumps_len\<close> is the length of the encoded document; \<open>disk_ok\<close> that the directory and the old file are
  safe and every system call up to the replacement of the file succeeds; the file is replaced as a whole
  or not at all.  When only the last step, syncing the directory, fails, the new file is in place but the
  answer is \<open>False\<close>.
\<close>

record disk =
  dumps_len :: "json \<Rightarrow> int"
  disk_ok :: bool
  dir_sync_ok :: bool

definition persist_incidents :: "disk \<Rightarrow> (string \<times> incident) list \<Rightarrow> state_file option \<Rightarrow> bool \<times> state_file option" where
  "persist_incidents d incs sf =
     (let active = active_incidents incs; doc = state_doc active in
      if \<not> disk_ok d then (False, sf)
      else case emap (\<lambda>(n, i). validated_incident_record (incident_json i)) active of
          Inl _ \<Rightarrow> (False, sf)
        | Inr _ \<Rightarrow>
            if STATE_MAX_INCIDENTS < length active then (False, sf)
            else if STATE_MAX_BYTES < dumps_len d doc + 1 then (False, sf)
            else (dir_sync_ok d, Some \<lparr>sf_safe = True, sf_size = dumps_len d doc + 1, sf_doc = Some doc\<rparr>))"

section \<open>Sites and their state\<close>

definition load_sites :: "json option \<Rightarrow> jobj list option" where
  "load_sites doc = (case doc of None \<Rightarrow> None
     | Some d \<Rightarrow> (case jor d (JObj []) of
           JObj m \<Rightarrow> (case jor (jget ''sites'' m) (JList []) of
               JList xs \<Rightarrow> Some (filter (\<lambda>s. jget ''alert_enabled'' s = JBool True \<and> jget ''paused'' s \<noteq> JBool True)
                                (List.map_filter (\<lambda>v. case v of JObj s \<Rightarrow> Some s | _ \<Rightarrow> None) xs))
             | _ \<Rightarrow> None)
         | _ \<Rightarrow> None))"

definition site_name :: "jobj \<Rightarrow> string" where
  "site_name site = py_str (jor (jget ''name'' site) (jor (jget ''domain'' site) (JStr [])))"

definition site_id :: "string \<Rightarrow> string" where
  "site_id name = map (\<lambda>c. if is_alnum_ascii c \<or> c = CHR ''_'' then c else CHR ''_'') name"

text \<open>
  \<open>row.get(key) or ""\<close>.  Upper-casing the status matters for its first characters only, where no other
  letter turns into one of \<open>DOWN\<close>, \<open>UP\<close> or \<open>NO CHECK\<close>.
\<close>

definition cell :: "string \<Rightarrow> (string \<times> string) list \<Rightarrow> string" where
  "cell k row = (case map_of row k of None \<Rightarrow> [] | Some v \<Rightarrow> v)"

definition ascii_upper :: "string \<Rightarrow> string" where
  "ascii_upper s = map (\<lambda>c. if 97 \<le> ord c \<and> ord c \<le> 122 then chr (ord c - 32) else c) s"

record server_state =
  sv_name :: string
  sv_addr :: string
  sv_up :: bool

record condition =
  cd_state :: string
  cd_servers :: "server_state list"

fun scan_rows :: "string \<Rightarrow> (string \<times> string) list list \<Rightarrow> bool option \<Rightarrow> server_state list \<Rightarrow> bool option \<times> server_state list" where
  "scan_rows backend [] up servers = (up, servers)"
| "scan_rows backend (row # rows) up servers =
     (let status = ascii_upper (cell ''status'' row); sv = cell ''svname'' row in
      if map_of row ''pxname'' \<noteq> Some backend then scan_rows backend rows up servers
      else if sv = ''BACKEND'' then scan_rows backend rows (Some (\<not> py_startswith status ''DOWN'')) servers
      else if sv = ''FRONTEND'' then scan_rows backend rows up servers
      else scan_rows backend rows up
        (servers @ [\<lparr>sv_name = sv, sv_addr = cell ''addr'' row,
                     sv_up = (py_startswith status ''UP'' \<or> py_startswith status ''NO CHECK'')\<rparr>]))"

definition site_condition :: "string \<Rightarrow> (string \<times> string) list list \<Rightarrow> condition option" where
  "site_condition sid rows =
     (case scan_rows (''be_'' @ sid) rows None [] of
        (None, _) \<Rightarrow> None
      | (Some up, servers) \<Rightarrow>
          (let total = length servers; ups = length (filter sv_up servers) in
           Some \<lparr>cd_state = (if \<not> up \<or> (0 < total \<and> ups = 0) then ''down''
                             else if 0 < total \<and> ups < total then ''degraded'' else ''ok''),
                 cd_servers = servers\<rparr>))"

section \<open>Texts\<close>

definition format_duration :: "int \<Rightarrow> string" where
  "format_duration seconds =
     (let total = max 0 seconds; days = total div 86400; hours = total mod 86400 div 3600;
          minutes = total mod 3600 div 60; secs = total mod 60 in
      if days \<noteq> 0 then int_to_str days @ ''d '' @ int_to_str hours @ ''h '' @ int_to_str minutes @ ''m''
      else if hours \<noteq> 0 then int_to_str hours @ ''h '' @ int_to_str minutes @ ''m''
      else if minutes \<noteq> 0 then int_to_str minutes @ ''m '' @ int_to_str secs @ ''s''
      else int_to_str secs @ ''s'')"

definition server_line :: "server_state \<Rightarrow> string" where
  "server_line sv =
     (let addr = py_strip (sv_addr sv); state = (if sv_up sv then ''UP'' else ''DOWN'') in
      if addr \<noteq> [] then ''  - '' @ sv_name sv @ '' ('' @ addr @ ''): '' @ state
      else ''  - '' @ sv_name sv @ '': '' @ state)"

definition format_servers :: "server_state list \<Rightarrow> string" where
  "format_servers svs = py_join [CHR 0x0A] (map server_line svs)"

definition servers_summary :: "condition \<Rightarrow> string" where
  "servers_summary c = ''Backend servers up: '' @ nat_to_str (length (filter sv_up (cd_servers c))) @ ''/'' @
     nat_to_str (length (cd_servers c)) @ [CHR 0x0A] @
     (if format_servers (cd_servers c) \<noteq> [] then format_servers (cd_servers c) @ [CHR 0x0A] else [])"

section \<open>Thresholds\<close>

text \<open>\<open>_alert_after_seconds\<close>, in milliseconds; \<open>int\<close> refuses a number of more than 4300 digits.\<close>

definition interval_units :: "(string \<times> int) list" where
  "interval_units = [(''ms'', 1), (''s'', 1000), (''m'', 60000), (''h'', 3600000), (''d'', 86400000)]"

definition alert_after :: "json \<Rightarrow> int result" where
  "alert_after v =
     (let text = py_strip (str_or v []); ds = takeWhile is_digit text; unit' = dropWhile is_digit text in
      if (case v of JInt n \<Rightarrow> 0 < n | JBool b \<Rightarrow> b | _ \<Rightarrow> False) then Inr (case v of JInt n \<Rightarrow> n * 1000 | _ \<Rightarrow> 1000)
      else if ds = [] \<or> hd ds = CHR ''0'' then Inr 300000
      else case map_of interval_units unit' of None \<Rightarrow> Inr 300000
        | Some f \<Rightarrow> (case py_int_of_str ds of None \<Rightarrow> Inl (ValueError ''Exceeds the limit'') | Some n \<Rightarrow> Inr (n * f)))"

definition in_triggers :: "string \<Rightarrow> string \<Rightarrow> bool" where
  "in_triggers mode state = (state = ''down'' \<or> mode \<noteq> ''down'' \<and> state = ''degraded'')"

section \<open>The decision\<close>

definition REPEAT_SECONDS :: int where "REPEAT_SECONDS = 21600"

datatype notice =
    NoNotice
  | Outage string int
  | Recovered int

text \<open>What the record becomes before a notice is sent, and the notice that is due.\<close>

definition observe_state :: "string \<Rightarrow> int \<Rightarrow> string \<Rightarrow> int \<Rightarrow> incident \<Rightarrow> incident \<times> notice" where
  "observe_state mode threshold state now i =
     (if in_triggers mode state then
        (let began = (case bad_since i of None \<Rightarrow> now | Some b \<Rightarrow> b);
             elapsed = max 0 (now - began);
             repeat_due = (case alerted_at i of None \<Rightarrow> False | Some a \<Rightarrow> REPEAT_SECONDS \<le> now - a);
             escalated = (alerted_at i \<noteq> None \<and> alerted_state i = ''degraded'' \<and> state = ''down'')
         in (i\<lparr>good_since := None, bad_since := Some began\<rparr>,
             if threshold \<le> elapsed * 1000 \<and> (alerted_at i = None \<or> repeat_due \<or> escalated) then Outage state elapsed else NoNotice))
      else if alerted_at i \<noteq> None then
        (let began = (case good_since i of None \<Rightarrow> now | Some g \<Rightarrow> g); good_for = max 0 (now - began)
         in (i\<lparr>good_since := Some began\<rparr>, if threshold \<le> good_for * 1000 then Recovered good_for else NoNotice))
      else (no_incident, NoNotice))"

text \<open>A notice counts only when it was delivered; an undelivered one leaves the record to the next cycle.\<close>

fun settle :: "int \<Rightarrow> bool \<Rightarrow> incident \<times> notice \<Rightarrow> incident" where
  "settle now sent (i, NoNotice) = i"
| "settle now sent (i, Outage state _) = (if sent then i\<lparr>alerted_at := Some now, alerted_state := state\<rparr> else i)"
| "settle now sent (i, Recovered _) = (if sent then no_incident else i)"

section \<open>Mail\<close>

record mail =
  m_from :: string
  m_to :: string
  m_subject :: string
  m_body :: string

definition mail_state :: "json option \<Rightarrow> (string \<times> string) option" where
  "mail_state doc = (case doc of
       Some (JObj m) \<Rightarrow>
         if jget ''enabled'' m = JBool True \<and> email_ok (str_or (jget ''from'' m) [])
         then Some (str_or (jget ''from'' m) [], str_or (jget ''to'' m) []) else None
     | _ \<Rightarrow> None)"

definition addressed :: "json option \<Rightarrow> string \<Rightarrow> string \<Rightarrow> string \<Rightarrow> mail option" where
  "addressed doc recipient subject body = (case mail_state doc of None \<Rightarrow> None
     | Some (sender, dflt) \<Rightarrow>
         (let to = (if email_ok recipient then recipient else dflt) in
          if email_ok to then Some \<lparr>m_from = sender, m_to = to, m_subject = subject, m_body = body\<rparr> else None))"

definition notice_mail :: "string \<Rightarrow> condition \<Rightarrow> notice \<Rightarrow> (string \<times> string) option" where
  "notice_mail name c n = (case n of NoNotice \<Rightarrow> None
     | Outage state elapsed \<Rightarrow>
         (let label = (if state = ''down'' then ''DOWN'' else ''PARTIALLY DOWN'') in
          Some (''[easy-ha-proxy] '' @ name @ '': '' @ label,
                ''Site: '' @ name @ [CHR 0x0A] @ ''State: '' @ py_lower label @ '' for '' @ format_duration elapsed @ [CHR 0x0A] @
                servers_summary c))
     | Recovered good_for \<Rightarrow>
         Some (''[easy-ha-proxy] '' @ name @ '': RECOVERED'',
               ''Site: '' @ name @ [CHR 0x0A] @ ''State: available again for '' @ format_duration good_for @ [CHR 0x0A] @ servers_summary c))"

section \<open>One cycle\<close>

text \<open>What a cycle meets: the clock as each site reads it, the files, HAProxy's rows, the relay.\<close>

record cycle_env =
  clock :: "string \<Rightarrow> int"
  sites_doc :: "json option"
  stat_rows :: "(string \<times> string) list list"
  mail_doc :: "json option"
  relay :: "mail \<Rightarrow> bool"
  disk_of :: disk

record site_engine =
  incidents :: "(string \<times> incident) list"
  state_file :: "state_file option"
  mails :: "mail list"

definition send_notice :: "cycle_env \<Rightarrow> jobj \<Rightarrow> string \<Rightarrow> condition \<Rightarrow> notice \<Rightarrow> mail list" where
  "send_notice env site name c n = (case notice_mail name c n of None \<Rightarrow> []
     | Some (subject, body) \<Rightarrow>
         (case addressed (mail_doc env) (str_or (jget ''alert_email'' site) []) subject body of None \<Rightarrow> []
          | Some m \<Rightarrow> if relay env m then [m] else []))"

definition incident_of :: "string \<Rightarrow> (string \<times> incident) list \<Rightarrow> incident" where
  "incident_of name incs = (case map_of incs name of None \<Rightarrow> no_incident | Some i \<Rightarrow> i)"

text \<open>\<open>_evaluate\<close> without an alert daemon: whether the record changed, and the engine after it.\<close>

definition evaluate :: "cycle_env \<Rightarrow> jobj \<Rightarrow> string \<Rightarrow> condition \<Rightarrow> site_engine \<Rightarrow> (bool \<times> site_engine) result" where
  "evaluate env site name c e =
     ebind (alert_after (jget ''alert_after'' site)) (\<lambda>threshold.
       let mode = str_or (jget ''alert_mode'' site) ''down''; now = clock env name;
           before = incident_of name (incidents e);
           due = observe_state mode threshold (cd_state c) now before;
           sent = send_notice env site name c (snd due);
           after = settle now (sent \<noteq> []) due
       in Inr (before \<noteq> after, e\<lparr>incidents := jput name after (incidents e), mails := mails e @ sent\<rparr>))"

text \<open>The loop over the sites: an error ends the cycle with what was done so far, unpersisted.\<close>

fun evaluate_sites :: "cycle_env \<Rightarrow> jobj list \<Rightarrow> bool \<Rightarrow> site_engine \<Rightarrow> bool result \<times> site_engine" where
  "evaluate_sites env [] changed e = (Inr changed, e)"
| "evaluate_sites env (site # sites) changed e =
     (let name = site_name site in
      if name = [] then evaluate_sites env sites changed e
      else case site_condition (site_id name) (stat_rows env) of
          None \<Rightarrow> evaluate_sites env sites changed e
        | Some c \<Rightarrow> (case evaluate env site name c e of
            Inl err \<Rightarrow> (Inl err, e)
          | Inr (ch, e') \<Rightarrow> evaluate_sites env sites (ch \<or> changed) e'))"

definition persist :: "cycle_env \<Rightarrow> site_engine \<Rightarrow> site_engine" where
  "persist env e = e\<lparr>state_file := snd (persist_incidents (disk_of env) (incidents e) (state_file e))\<rparr>"

definition cycle :: "cycle_env \<Rightarrow> site_engine \<Rightarrow> site_engine" where
  "cycle env e = (case load_sites (sites_doc env) of None \<Rightarrow> e
     | Some sites \<Rightarrow>
         if sites = [] then (if incidents e \<noteq> [] then persist env (e\<lparr>incidents := []\<rparr>) else e)
         else if stat_rows env = [] then e
         else (let seen = filter (\<lambda>n. n \<noteq> []) (map site_name sites) in
               case evaluate_sites env sites False e of
                 (Inl _, e') \<Rightarrow> e'
               | (Inr changed, e') \<Rightarrow>
                   (let kept = filter (\<lambda>(n, _). n \<in> set seen) (incidents e');
                        dropped = (kept \<noteq> incidents e') in
                    if changed \<or> dropped then persist env (e'\<lparr>incidents := kept\<rparr>) else e')))"

definition started :: "state_file option \<Rightarrow> site_engine" where
  "started sf = \<lparr>incidents = load_incidents sf, state_file = sf, mails = []\<rparr>"

end
