(* ===== verification/Health_Facts.thy ===== *)
theory Health_Facts
  imports Health_Sites
begin

text \<open>
  Facts about the incident records of healthd: the invariant every step keeps, the record as a function of
  the history of a site, and the state file read back.
\<close>

section \<open>Records that can be stored\<close>

definition time_ok :: "int option \<Rightarrow> bool" where
  "time_ok t = (case t of None \<Rightarrow> True | Some n \<Rightarrow> 0 \<le> n)"

definition incident_ok :: "incident \<Rightarrow> bool" where
  "incident_ok i = (time_ok (bad_since i) \<and> time_ok (alerted_at i) \<and> time_ok (good_since i) \<and>
     alerted_state i \<in> {[], ''down'', ''degraded''} \<and> (alerted_at i \<noteq> None \<longrightarrow> bad_since i \<noteq> None) \<and>
     (good_since i \<noteq> None \<longrightarrow> alerted_at i \<noteq> None))"

lemma incident_ok_none [simp]: "incident_ok no_incident"
  by (simp add: incident_ok_def no_incident_def time_ok_def)

lemma timestamp_time_json: "incident_timestamp (time_json t) f = (if time_ok t then Inr t else Inl (ValueError (''invalid incident '' @ f)))"
  by (auto simp: incident_timestamp_def time_json_def time_ok_def split: option.splits)

lemma timestamp_ok: "incident_timestamp v f = Inr t \<Longrightarrow> time_ok t"
  by (auto simp: incident_timestamp_def time_ok_def split: json.splits if_splits)

lemma validated_own_record: "validated_incident_record (incident_json i) = Inr i" if "incident_ok i"
  using that by (auto simp: validated_incident_record_def incident_json_def timestamp_time_json incident_ok_def checked_incident_def)

lemma validated_ok: "validated_incident_record v = Inr i \<Longrightarrow> incident_ok i"
  by (auto simp: validated_incident_record_def checked_incident_def incident_ok_def dest!: timestamp_ok split: json.splits if_splits)

lemma settle_ok:
  assumes "incident_ok i" "0 \<le> now" "state \<in> {''ok'', ''down'', ''degraded''}"
  shows "incident_ok (settle now sent (observe_state mode threshold state now i))"
  using assms
  by (auto simp: observe_state_def Let_def incident_ok_def time_ok_def no_incident_def in_triggers_def split: option.splits)

lemma condition_state: "site_condition sid rows = Some c \<Longrightarrow> cd_state c \<in> {''ok'', ''down'', ''degraded''}"
  by (cases "scan_rows (''be_'' @ sid) rows None []") (auto simp: site_condition_def Let_def split: option.splits if_splits)

lemma incident_entries_ok: "emap load_entry xs = Inr ys \<Longrightarrow> (n, i) \<in> set ys \<Longrightarrow> incident_ok i \<and> site_name_ok n"
  by (induction xs arbitrary: ys) (auto simp: load_entry_def dest: validated_ok split: if_splits prod.splits)

lemma fold_put_new:
  "distinct (map fst (acc @ xs)) \<Longrightarrow> fold (\<lambda>(n, i). jput n i) xs acc = acc @ xs"
proof (induction xs arbitrary: acc)
  case (Cons x xs)
  obtain n i where x: "x = (n, i)" by (cases x)
  have "jput n i acc = acc @ [(n, i)]" by (rule jput_new) (use Cons.prems x in auto)
  then show ?case using Cons.IH [of "acc @ [(n, i)]"] Cons.prems x by simp
qed simp

lemma set_jput: "set (jput k v m) \<subseteq> insert (k, v) (set m)"
  by (induction m) auto

lemma fold_put_subset: "set (fold (\<lambda>(n, i). jput n i) xs acc) \<subseteq> set xs \<union> set acc"
proof (induction xs arbitrary: acc)
  case (Cons x xs)
  show ?case using Cons.IH set_jput by (cases x) fastforce
qed simp

lemma fold_put_distinct: "distinct (map fst acc) \<Longrightarrow> distinct (map fst (fold (\<lambda>(n, i). jput n i) xs acc))"
  by (induction xs arbitrary: acc) (auto simp: distinct_update)

lemma doc_incidents:
  assumes "incidents_of_doc doc = Inr ys"
  shows "\<exists>xs zs. emap load_entry xs = Inr zs \<and> set ys \<subseteq> set zs \<and> distinct (map fst ys)"
proof -
  obtain xs zs where "emap load_entry xs = Inr zs" "ys = fold (\<lambda>(n, i). jput n i) zs []"
    using assms by (auto simp: incidents_of_doc_def split: json.splits if_splits)
  then show ?thesis using fold_put_subset [of zs "[]"] fold_put_distinct [of "[]" zs] by auto
qed

lemma load_incidents_ok:
  assumes "(n, i) \<in> set (load_incidents sf)"
  shows "incident_ok i \<and> site_name_ok n"
proof -
  have "\<exists>doc ys. incidents_of_doc doc = Inr ys \<and> (n, i) \<in> set ys"
    using assms by (cases sf; cases "sf_doc (the sf)"; cases "incidents_of_doc (the (sf_doc (the sf)))")
      (auto simp: load_incidents_def split: if_splits)
  then show ?thesis using doc_incidents incident_entries_ok by (metis subsetD)
qed

section \<open>The file read back\<close>

definition incs_ok :: "(string \<times> incident) list \<Rightarrow> bool" where
  "incs_ok incs = list_all (\<lambda>(n, i). incident_ok i \<and> site_name_ok n) incs"

lemma incs_ok_simps [simp]: "incs_ok []" "incs_ok ((n, i) # incs) = (incident_ok i \<and> site_name_ok n \<and> incs_ok incs)"
  by (simp_all add: incs_ok_def)

lemma load_incidents_distinct: "distinct (map fst (load_incidents sf))"
  by (cases sf; cases "sf_doc (the sf)"; cases "incidents_of_doc (the (sf_doc (the sf)))")
     (auto simp: load_incidents_def dest: doc_incidents)

lemma load_incs_ok: "incs_ok (load_incidents sf)"
  by (auto simp: incs_ok_def list_all_iff dest: load_incidents_ok)

lemma emap_own: "incs_ok xs \<Longrightarrow>
   emap load_entry (map (\<lambda>(n, i). (n, incident_json i)) xs) = Inr xs"
  by (induction xs) (auto simp: load_entry_def validated_own_record)

lemma emap_valid: "incs_ok xs \<Longrightarrow>
   emap (\<lambda>(n, i). validated_incident_record (incident_json i)) xs = Inr (map snd xs)"
  by (induction xs) (auto simp: validated_own_record)

lemma active_subset: "set (active_incidents incs) \<subseteq> set incs"
  by (auto simp: active_incidents_def)

lemma map_of_active:
  assumes "distinct (map fst incs)"
  shows "map_of (active_incidents incs) n = (case map_of incs n of None \<Rightarrow> None | Some i \<Rightarrow> if is_active i then Some i else None)"
proof -
  have d: "distinct (map fst (sort_key fst incs))" using assms by (simp add: distinct_map)
  have "map_of (sort_key fst incs) = map_of incs" by (rule map_of_inject_set [THEN iffD2]) (use assms d in simp_all)
  moreover have "map_of (filter (\<lambda>(n, i). P i) xs) n = (case map_of xs n of None \<Rightarrow> None | Some i \<Rightarrow> if P i then Some i else None)"
    if "distinct (map fst xs)" for xs and P :: "incident \<Rightarrow> bool"
    using that by (induction xs) (auto split: option.splits if_splits simp: map_of_eq_None_iff image_iff)
  ultimately show ?thesis using d by (simp add: active_incidents_def)
qed

lemma persisted_reads_back:
  assumes "incs_ok incs" "distinct (map fst incs)" "disk_ok d"
    "length (active_incidents incs) \<le> STATE_MAX_INCIDENTS" "0 \<le> dumps_len d (state_doc (active_incidents incs))"
    "dumps_len d (state_doc (active_incidents incs)) < STATE_MAX_BYTES"
  shows "load_incidents (snd (persist_incidents d incs sf)) = active_incidents incs \<and>
     fst (persist_incidents d incs sf) = dir_sync_ok d"
proof -
  let ?a = "active_incidents incs"
  have ok: "incs_ok ?a" using assms(1) active_subset by (fastforce simp: incs_ok_def list_all_iff)
  have v: "emap (\<lambda>(n, i). validated_incident_record (incident_json i)) ?a = Inr (map snd ?a)"
    using ok by (rule emap_valid)
  have "persist_incidents d incs sf = (dir_sync_ok d, Some \<lparr>sf_safe = True, sf_size = dumps_len d (state_doc ?a) + 1, sf_doc = Some (state_doc ?a)\<rparr>)"
    using assms(3-6) v by (simp add: persist_incidents_def Let_def)
  moreover have "distinct (map fst ?a)"
    using assms(2) by (simp add: active_incidents_def distinct_map inj_on_def)
  ultimately show ?thesis
    using assms(4-6) emap_own [OF ok] fold_put_new [of "[]" ?a]
    by (simp add: load_incidents_def incidents_of_doc_def state_doc_def version_ok_def)
qed

section \<open>The record as a function of the history\<close>

text \<open>
  A site's history, newest first: when it was looked at, the state found, and whether the relay would take a
  notice then.
\<close>

type_synonym history = "(int \<times> string \<times> bool) list"

fun site_run :: "string \<Rightarrow> int \<Rightarrow> history \<Rightarrow> incident \<times> (int \<times> notice) list" where
  "site_run mode threshold [] = (no_incident, [])"
| "site_run mode threshold ((t, state, ok) # h) =
     (case site_run mode threshold h of (i, log) \<Rightarrow>
        let due = observe_state mode threshold state t i
        in (settle t ok due, if ok \<and> snd due \<noteq> NoNotice then (t, snd due) # log else log))"

text \<open>Since when the site has been bad, or good, without interruption.\<close>

fun bad_start :: "string \<Rightarrow> history \<Rightarrow> int option" where
  "bad_start mode [] = None"
| "bad_start mode ((t, state, ok) # h) =
     (if in_triggers mode state then Some (case bad_start mode h of None \<Rightarrow> t | Some b \<Rightarrow> b) else None)"

fun good_start :: "string \<Rightarrow> history \<Rightarrow> int option" where
  "good_start mode [] = None"
| "good_start mode ((t, state, ok) # h) =
     (if in_triggers mode state then None else Some (case good_start mode h of None \<Rightarrow> t | Some b \<Rightarrow> b))"

text \<open>The alert that stands: the last notice delivered, unless it was a recovery.\<close>

fun open_alert :: "(int \<times> notice) list \<Rightarrow> (int \<times> string) option" where
  "open_alert ((t, Outage state _) # _) = Some (t, state)"
| "open_alert _ = None"

definition going_forward :: "history \<Rightarrow> bool" where
  "going_forward h = (sorted_wrt (\<ge>) (map fst h) \<and> list_all (\<lambda>(t, _, _). 0 \<le> t) h)"

definition explained :: "string \<Rightarrow> int \<Rightarrow> history \<Rightarrow> bool" where
  "explained mode threshold h = (case site_run mode threshold h of (i, log) \<Rightarrow>
     (case open_alert log of
        None \<Rightarrow> i = \<lparr>bad_since = bad_start mode h, alerted_at = None, alerted_state = [], good_since = None\<rparr>
      | Some (a, st) \<Rightarrow> alerted_at i = Some a \<and> alerted_state i = st \<and> good_since i = good_start mode h \<and>
          (\<exists>b. bad_since i = Some b \<and> threshold \<le> (a - b) * 1000 \<and> b \<le> a) \<and> (\<exists>t \<in> set (map fst h). a = t)))"

lemma bad_start_le: "going_forward h \<Longrightarrow> bad_start mode h = Some b \<Longrightarrow> b \<le> fst (hd h) \<and> b \<in> set (map fst h)"
proof (induction h arbitrary: b)
  case (Cons x h)
  obtain t state ok where x: "x = (t, state, ok)" by (cases x)
  have g: "going_forward h" "\<And>t'. t' \<in> set (map fst h) \<Longrightarrow> t' \<le> t" using Cons.prems(1) x by (auto simp: going_forward_def)
  show ?case using Cons.prems(2) Cons.IH [OF g(1)] g(2) x by (auto split: if_splits option.splits)
qed simp

lemma explained_run:
  assumes "going_forward h"
  shows "explained mode threshold h"
  using assms
proof (induction h)
  case Nil
  then show ?case by (simp add: explained_def no_incident_def)
next
  case (Cons x h)
  obtain t state ok where x: "x = (t, state, ok)" by (cases x)
  have g: "going_forward h" "\<And>t'. t' \<in> set (map fst h) \<Longrightarrow> t' \<le> t" using Cons.prems x by (auto simp: going_forward_def)
  obtain i log where r: "site_run mode threshold h = (i, log)" by fastforce
  show ?case
  proof (cases "open_alert log")
    case None
    then have i: "i = \<lparr>bad_since = bad_start mode h, alerted_at = None, alerted_state = [], good_since = None\<rparr>"
      using Cons.IH [OF g(1)] r by (simp add: explained_def)
    have le: "bad_start mode h = Some b \<Longrightarrow> b \<le> t" for b using bad_start_le [OF g(1)] g(2) by blast
    then have m: "bad_start mode h = Some b \<Longrightarrow> max 0 (t - b) = t - b" for b using le by fastforce
    show ?thesis
      using x r i None le m
      by (auto simp: explained_def observe_state_def no_incident_def Let_def split: option.splits if_splits)
  next
    case (Some p)
    obtain a st where p: "p = (a, st)" by (cases p)
    have e: "alerted_at i = Some a" "alerted_state i = st" "good_since i = good_start mode h"
      "\<exists>b. bad_since i = Some b \<and> threshold \<le> (a - b) * 1000 \<and> b \<le> a" "a \<in> set (map fst h)"
      using Cons.IH [OF g(1)] r Some p by (auto simp: explained_def)
    then obtain b where b: "bad_since i = Some b" "threshold \<le> (a - b) * 1000" "b \<le> a" by blast
    have at: "a \<le> t" using e(5) g(2) by blast
    have th: "threshold \<le> (t - b) * 1000" "max 0 (t - b) = t - b" using b at by auto
    show ?thesis
      using x r Some p e(1-3,5) b at th
      by (auto simp: explained_def observe_state_def no_incident_def Let_def split: option.splits if_splits)
  qed
qed

end
