(* ===== verification/Alert_Client.thy ===== *)
theory Alert_Client
  imports Alert_Config Health_Sites
begin

text \<open>
  The reporting side of the alert engine, \<open>AlertClient\<close> of
  \<open>src/ansible/roles/haproxy-admin/files/easy_ha_proxy_alert_client.py\<close>, and the observation healthd hands to it
  for a site (\<open>_report\<close>).  What the socket answers is an argument.
\<close>

definition RESEND_UNCHANGED_SECONDS :: int where "RESEND_UNCHANGED_SECONDS = 120"

text \<open>Everything an observation says apart from rule and subject.\<close>

record told =
  t_active :: "bool option"
  t_severity :: string
  t_summary :: string
  t_detail :: string
  t_delay :: "int option"
  t_recipient :: string
  t_retired :: bool

type_synonym client_memory = "(string \<times> told \<times> int) list"

definition told_key :: "string \<Rightarrow> string \<Rightarrow> string" where
  "told_key rule subject = rule @ [CHR 0x00] @ subject"

definition payload :: "string \<Rightarrow> string \<Rightarrow> told \<Rightarrow> jobj" where
  "payload rule subject t =
     [(''rule'', JStr rule), (''subject'', JStr subject)] @
     (case t_active t of None \<Rightarrow> [] | Some b \<Rightarrow> [(''active'', JBool b)]) @
     (if t_severity t \<noteq> [] then [(''severity'', JStr (t_severity t))] else []) @
     (if t_summary t \<noteq> [] then [(''summary'', JStr (t_summary t))] else []) @
     (if t_retired t then [(''retired'', JBool True)] else []) @
     (if t_detail t \<noteq> [] then [(''detail'', JStr (t_detail t))] else []) @
     (case t_delay t of None \<Rightarrow> [] | Some n \<Rightarrow> [(''trigger_delay'', JInt n)]) @
     (if t_recipient t \<noteq> [] then [(''recipient'', JStr (t_recipient t))] else [])"

text \<open>Whether the same was said a short while ago.\<close>

definition just_said :: "string \<Rightarrow> told \<Rightarrow> int \<Rightarrow> client_memory \<Rightarrow> bool" where
  "just_said key t now mem = (case map_of mem key of None \<Rightarrow> False
     | Some (t', at) \<Rightarrow> t' = t \<and> now - at < RESEND_UNCHANGED_SECONDS)"

definition remember_told :: "string \<Rightarrow> told \<Rightarrow> int \<Rightarrow> client_memory \<Rightarrow> client_memory" where
  "remember_told key t now mem = (let mem' = jput key (t, now) mem in if 2000 < length mem' then [] else mem')"

text \<open>The answer, the memory, and what went over the socket.\<close>

definition client_observe :: "bool \<Rightarrow> (jobj \<Rightarrow> bool) \<Rightarrow> int \<Rightarrow> string \<Rightarrow> string \<Rightarrow> told \<Rightarrow> client_memory \<Rightarrow> bool \<times> client_memory \<times> jobj option" where
  "client_observe configured post now rule subject t mem =
     (if \<not> configured then (False, mem, None)
      else if just_said (told_key rule subject) t now mem then (True, mem, None)
      else (post (payload rule subject t), remember_told (told_key rule subject) t now mem, Some (payload rule subject t)))"

text \<open>Reporting that a level condition is no longer true.\<close>

definition client_clear :: "bool \<Rightarrow> (jobj \<Rightarrow> bool) \<Rightarrow> int \<Rightarrow> string \<Rightarrow> string \<Rightarrow> string \<Rightarrow> string \<Rightarrow> client_memory \<Rightarrow> bool \<times> client_memory \<times> jobj option" where
  "client_clear configured post now rule subject summary recipient mem =
     client_observe configured post now rule subject
       \<lparr>t_active = Some False, t_severity = [], t_summary = summary, t_detail = [], t_delay = None,
        t_recipient = recipient, t_retired = False\<rparr> mem"

text \<open>The observation of a site: its threshold and recipient travel with it.\<close>

definition site_report :: "jobj \<Rightarrow> string \<Rightarrow> condition \<Rightarrow> told result" where
  "site_report site name c =
     (let mode = str_or (jget ''alert_mode'' site) ''down''; state = cd_state c;
          recipient = str_or (jget ''alert_email'' site) [];
          ups = nat_to_str (length (filter sv_up (cd_servers c))); block = format_servers (cd_servers c) in
      ebind (alert_after (jget ''alert_after'' site)) (\<lambda>threshold.
        Inr \<lparr>t_active = Some (in_triggers mode state), t_severity = (if state = ''down'' then ''critical'' else ''warning''),
             t_summary = ''Site '' @ name @ '' is '' @ state,
             t_detail = ''Backend servers up: '' @ ups @ ''/'' @ nat_to_str (length (cd_servers c)) @
               (if block \<noteq> [] then [CHR 0x0A] @ block else []),
             t_delay = Some (threshold div 1000), t_recipient = (if email_ok recipient then recipient else []), t_retired = False\<rparr>))"

text \<open>A sequence of observations, oldest first, with the posts it makes.\<close>

fun client_run :: "(jobj \<Rightarrow> bool) \<Rightarrow> (int \<times> string \<times> string \<times> told) list \<Rightarrow> client_memory \<Rightarrow> (int \<times> string \<times> told) list \<Rightarrow> client_memory \<times> (int \<times> string \<times> told) list" where
  "client_run post [] mem log = (mem, log)"
| "client_run post ((now, rule, subject, t) # obs) mem log =
     (case client_observe True post now rule subject t mem of
        (_, mem', None) \<Rightarrow> client_run post obs mem' log
      | (_, mem', Some _) \<Rightarrow> client_run post obs mem' ((now, told_key rule subject, t) # log))"

end
