(* ===== verification/Health_Properties.thy ===== *)
theory Health_Properties
  imports Health_Facts Alert_Client
begin

text \<open>
  Properties of the availability alerts: which notices a site gets, what a restart keeps, how a cycle treats
  each site, and how the client passes observations on to the alert daemon.
\<close>

section \<open>Notices\<close>

lemma good_start_le:
  assumes "going_forward h" "good_start mode h = Some g"
  shows "g \<in> set (map fst h)"
  using assms by (induction h arbitrary: g) (auto simp: going_forward_def split: if_splits option.splits)

text \<open>C19. The notices of a site are those its history calls for, although the daemon keeps four fields only.
  While no alert stands, an outage is reported at the first look at which the site has been bad without
  interruption for the threshold; while one stands it is reported again only after six hours or when a partial
  outage became a full one; and a standing alert is closed at the first look at which the site has been good
  without interruption for the threshold.  A notice counts only when it was delivered.\<close>

theorem site_notices_follow_the_history:
  assumes "going_forward ((t, state, ok) # h)" "site_run mode threshold h = (i, log)"
  shows "snd (observe_state mode threshold state t i) =
     (if in_triggers mode state then
        (case open_alert log of
           None \<Rightarrow> (let b = the (bad_start mode ((t, state, ok) # h)) in if threshold \<le> (t - b) * 1000 then Outage state (t - b) else NoNotice)
         | Some (a, st) \<Rightarrow> if REPEAT_SECONDS \<le> t - a \<or> st = ''degraded'' \<and> state = ''down'' then Outage state (t - the (bad_since i)) else NoNotice)
      else (case open_alert log of None \<Rightarrow> NoNotice
         | Some _ \<Rightarrow> (let g = the (good_start mode ((t, state, ok) # h)) in if threshold \<le> (t - g) * 1000 then Recovered (t - g) else NoNotice)))"
proof -
  have g: "going_forward h" "\<And>t'. t' \<in> set (map fst h) \<Longrightarrow> t' \<le> t" using assms(1) by (auto simp: going_forward_def)
  note e = explained_run [OF g(1), of mode threshold, unfolded explained_def assms(2) prod.case]
  show ?thesis
  proof (cases "open_alert log")
    case None
    have "bad_start mode h = Some b \<Longrightarrow> max 0 (t - b) = t - b" for b using bad_start_le [OF g(1), of mode b] g(2) by fastforce
    then show ?thesis using None e by (auto simp: observe_state_def Let_def split: option.splits)
  next
    case (Some p)
    obtain a st where p: "p = (a, st)" by (cases p)
    obtain b where b: "alerted_at i = Some a" "alerted_state i = st" "good_since i = good_start mode h" "bad_since i = Some b"
      "threshold \<le> (a - b) * 1000" "b \<le> a" "a \<in> set (map fst h)" using e Some p by auto
    have at: "a \<le> t" using b(7) g(2) by blast
    have "threshold \<le> (t - b) * 1000" "max 0 (t - b) = t - b" using b(5,6) at by auto
    moreover have "good_start mode h = Some x \<Longrightarrow> max 0 (t - x) = t - x" for x using good_start_le [OF g(1), of mode x] g(2) by fastforce
    ultimately show ?thesis using Some p b by (auto simp: observe_state_def Let_def split: option.splits)
  qed
qed

theorem site_notices_follow_the_history_witness:
  "snd (observe_state ''down'' 300000 ''down'' 310 \<lparr>bad_since = Some 0, alerted_at = None, alerted_state = [], good_since = None\<rparr>) = Outage ''down'' 310"
  using site_notices_follow_the_history [of 310 "''down''" True "[(0, ''down'', True)]" "''down''" 300000
      "\<lparr>bad_since = Some 0, alerted_at = None, alerted_state = [], good_since = None\<rparr>" "[]"]
  by (simp add: going_forward_def observe_state_def no_incident_def in_triggers_def)

section \<open>A cycle\<close>












section \<open>Restarts\<close>










section \<open>Passing observations on\<close>








text \<open>
  An observation whose post failed is answered \<open>True\<close> for the next two minutes, although the engine never
  accepted it, and is not sent again before.
\<close>

theorem failed_post_is_not_retried:
  assumes "\<not> just_said (told_key rule subject) t now mem" "\<not> 2000 < length (jput (told_key rule subject) (t, now) mem)"
    "now' - now < RESEND_UNCHANGED_SECONDS" "client_observe True (\<lambda>_. False) now rule subject t mem = (r, mem', sent)"
  shows "\<not> r \<and> client_observe True post now' rule subject t mem' = (True, mem', None)"
  using assms by (auto simp: client_observe_def remember_told_def just_said_def Let_def)

end
