(* ===== verification/Health_Control.thy ===== *)
theory Health_Control
  imports Py_Json
begin

text \<open>
  The rest of healthd's own logic, from \<open>src/ansible/roles/haproxy-admin/files/haproxy-healthd.py\<close>: its settings,
  the control request (which services a token holder may start, stop, restart or reload), the events it
  keeps, and the cache in front of the logs.  \<open>fnmatch\<close> and what \<open>systemctl\<close> and \<open>docker\<close> answer are
  arguments.
\<close>

section \<open>Settings\<close>

record healthd_config =
  systemd_units :: "string list"
  systemd_unit_globs :: "string list"
  docker_containers :: "string list"
  poll_interval :: int
  events_max :: int
  cache_ttl :: int
  units_rescan :: int
  logs_default_tail :: int
  logs_max_tail :: int
  logs_default_since :: int
  logs_max_since :: int

definition within :: "int \<Rightarrow> int \<Rightarrow> int \<Rightarrow> int" where
  "within lo n hi = max lo (min n hi)"

text \<open>\<open>int(value or default)\<close>\<close>

definition int_of :: "jobj \<Rightarrow> string \<Rightarrow> int \<Rightarrow> int result" where
  "int_of m key dflt = (case py_int (jor (jget key m) (JInt dflt)) of None \<Rightarrow> Inl (ValueError key) | Some n \<Rightarrow> Inr n)"

text \<open>\<open>raw.get(key) or {}\<close> and \<open>tuple(str(x) for x in (m.get(key) or []))\<close>\<close>

definition section_of :: "jobj \<Rightarrow> string \<Rightarrow> jobj result" where
  "section_of raw key = (case jor (jget key raw) (JObj []) of JObj m \<Rightarrow> Inr m | _ \<Rightarrow> Inl (TypeError key))"

definition texts_of :: "jobj \<Rightarrow> string \<Rightarrow> string list result" where
  "texts_of m key = (case jor (jget key m) (JList []) of
       JList xs \<Rightarrow> Inr (map py_str xs)
     | JStr s \<Rightarrow> Inr (map (\<lambda>c. [c]) s)
     | JObj m' \<Rightarrow> Inr (map fst m')
     | _ \<Rightarrow> Inl (TypeError key))"

definition load_config_units :: "jobj \<Rightarrow> (string list \<times> string list \<times> string list) result" where
  "load_config_units raw =
     ebind (section_of raw ''systemd'') (\<lambda>systemd. ebind (section_of raw ''docker'') (\<lambda>docker.
       ebind (section_of raw ''logs'') (\<lambda>_.
         ebind (texts_of systemd ''units'') (\<lambda>units. ebind (texts_of systemd ''unit_globs'') (\<lambda>globs.
           ebind (texts_of docker ''containers'') (\<lambda>containers. Inr (units, globs, containers)))))))"

definition healthd_config_of :: "jobj \<Rightarrow> healthd_config result" where
  "healthd_config_of raw =
     ebind (load_config_units raw) (\<lambda>(units, globs, containers).
     ebind (section_of raw ''logs'') (\<lambda>logs.
     ebind (int_of raw ''poll_interval_seconds'' 5) (\<lambda>poll.
     ebind (int_of raw ''events_max'' 200) (\<lambda>events.
     ebind (int_of raw ''cache_ttl_seconds'' 15) (\<lambda>ttl.
     ebind (int_of raw ''units_rescan_seconds'' 60) (\<lambda>rescan.
     ebind (int_of logs ''default_tail'' 200) (\<lambda>dtail.
     ebind (int_of logs ''max_tail'' 2000) (\<lambda>mtail.
     ebind (int_of logs ''default_since_seconds'' 3600) (\<lambda>dsince.
     ebind (int_of logs ''max_since_seconds'' 86400) (\<lambda>msince.
       let mt = within 50 mtail 20000; ms = within 300 msince (7 * 24 * 3600) in
       Inr \<lparr>systemd_units = units, systemd_unit_globs = globs, docker_containers = containers,
            poll_interval = within 1 poll 300, events_max = within 10 events 2000, cache_ttl = within 0 ttl 3600,
            units_rescan = within 5 rescan 3600, logs_default_tail = within 10 dtail mt, logs_max_tail = mt,
            logs_default_since = within 60 dsince ms, logs_max_since = ms\<rparr>))))))))))"

section \<open>Control\<close>

definition unit_base :: "string \<Rightarrow> string" where
  "unit_base unit' = (let u = py_strip unit' in if py_endswith u ''.service'' then take (length u - length ''.service'') u else u)"

definition HEALTHD_UNIT :: string where "HEALTHD_UNIT = ''haproxy-healthd.service''"

definition control_allowed_actions :: "string \<Rightarrow> string \<Rightarrow> string list" where
  "control_allowed_actions kind name =
     (let k = py_lower (py_strip kind); nm = py_strip name; base = unit_base nm in
      if k = ''docker'' then
        (if nm \<in> {''haproxy-admin'', ''authelia'', ''authelia-redis''} then [''restart''] else [''start'', ''stop'', ''restart''])
      else if k = ''systemd'' then
        (if base = ''haproxy'' then [''reload'', ''restart'']
         else if py_startswith base ''authelia'' then [''start'', ''stop'', ''restart'']
         else if base = unit_base HEALTHD_UNIT then [''restart'']
         else if base = ''easy-ha-proxy-backup'' then []
         else [''start'', ''stop'', ''restart''])
      else [])"

definition allowed_unit :: "(string \<Rightarrow> string \<Rightarrow> bool) \<Rightarrow> healthd_config \<Rightarrow> string \<Rightarrow> bool" where
  "allowed_unit fnmatch cfg unit' = (unit' \<in> set (systemd_units cfg) \<or> list_ex (fnmatch unit') (systemd_unit_globs cfg))"

record control_request =
  r_path :: string
  r_token :: string
  r_length :: "int option"
  r_body :: "json option"

datatype control_answer =
    Refused int string
  | Scheduled "string list"
  | Done int "string list"

record service_event =
  e_kind :: string
  e_name :: string
  e_from :: string
  e_to :: string

text \<open>A deque with a maximal length drops its oldest element.\<close>

definition push_event :: "int \<Rightarrow> service_event \<Rightarrow> service_event list \<Rightarrow> service_event list" where
  "push_event maxlen ev evs = (let xs = evs @ [ev] in drop (length xs - nat maxlen) xs)"

text \<open>\<open>payload.get(key) or ""\<close>, then a method of \<open>str\<close>.\<close>

definition control_text :: "string \<Rightarrow> jobj \<Rightarrow> string result" where
  "control_text key m = (case jor (jget key m) (JStr []) of JStr s \<Rightarrow> Inr (py_strip s) | _ \<Rightarrow> Inl (TypeError key))"

definition control_event :: "string \<Rightarrow> string \<Rightarrow> string \<Rightarrow> service_event" where
  "control_event kind name what = \<lparr>e_kind = ''control'', e_name = kind @ '':'' @ name, e_from = ''-'', e_to = what\<rparr>"

text \<open>
  The checks of \<open>do_POST\<close> behind the token, up to the command.  \<open>run\<close> gives the exit code of a command.
\<close>

definition control_command :: "(string \<Rightarrow> string \<Rightarrow> bool) \<Rightarrow> (string list \<Rightarrow> int) \<Rightarrow> healthd_config \<Rightarrow> string \<Rightarrow> string \<Rightarrow> string \<Rightarrow> control_answer \<times> service_event list" where
  "control_command fnmatch run cfg kind name action =
     (if kind \<notin> {''systemd'', ''docker''} then (Refused 400 ''kind must be systemd|docker'', [])
      else if name = [] then (Refused 400 ''name is required'', [])
      else if action \<notin> {''start'', ''stop'', ''restart'', ''reload''} then (Refused 400 ''action must be start|stop|restart|reload'', [])
      else if kind = ''systemd'' \<and> \<not> allowed_unit fnmatch cfg name then (Refused 403 ''unit not allowed'', [])
      else if kind = ''docker'' \<and> name \<notin> set (docker_containers cfg) then (Refused 403 ''container not allowed'', [])
      else if action \<notin> set (control_allowed_actions kind name) then (Refused 403 ''action not allowed'', [])
      else let cmd = [if kind = ''systemd'' then ''systemctl'' else ''docker'', action, name] in
        if kind = ''systemd'' \<and> action = ''restart'' \<and> unit_base name = unit_base HEALTHD_UNIT
        then (Scheduled cmd, [control_event kind name (action @ '' scheduled'')])
        else (Done (run cmd) cmd, [control_event kind name (action @ '' rc='' @ int_to_str (run cmd))]))"

definition control_fields :: "json \<Rightarrow> (string \<times> string \<times> string) result" where
  "control_fields payload = (case payload of
       JObj m \<Rightarrow> ebind (control_text ''kind'' m) (\<lambda>kind. ebind (control_text ''name'' m) (\<lambda>name.
          ebind (control_text ''action'' m) (\<lambda>action. Inr (py_lower kind, name, py_lower action))))
     | _ \<Rightarrow> Inl (TypeError ''payload''))"

text \<open>\<open>hmac.compare_digest\<close> on texts: both must be ASCII.\<close>

definition compare_digest :: "string \<Rightarrow> string \<Rightarrow> bool result" where
  "compare_digest a b = (if list_all (\<lambda>c. (of_char c :: nat) < 128) (a @ b) then Inr (a = b) else Inl (TypeError ''compare_digest''))"

definition control_auth_ok :: "string \<Rightarrow> control_request \<Rightarrow> bool result" where
  "control_auth_ok token req = (if token = [] then Inr False else compare_digest (py_strip (r_token req)) token)"

definition do_control :: "(string \<Rightarrow> string \<Rightarrow> bool) \<Rightarrow> (string list \<Rightarrow> int) \<Rightarrow> string \<Rightarrow> healthd_config \<Rightarrow> control_request \<Rightarrow> service_event list \<Rightarrow> control_answer result \<times> service_event list" where
  "do_control fnmatch run token cfg req evs =
     (if r_path req \<noteq> ''/api/v1/control'' then (Inr (Refused 404 ''not found''), evs)
      else case control_auth_ok token req of Inl err \<Rightarrow> (Inl err, evs)
        | Inr ok \<Rightarrow>
            let length' = (case r_length req of None \<Rightarrow> 0 | Some n \<Rightarrow> n) in
            if \<not> ok then (Inr (Refused 403 ''forbidden''), evs)
            else if length' \<le> 0 \<or> 16384 < length' then (Inr (Refused 400 ''invalid Content-Length''), evs)
            else case r_body req of None \<Rightarrow> (Inr (Refused 400 ''bad json''), evs)
              | Some payload \<Rightarrow>
                  (case control_fields payload of Inl err \<Rightarrow> (Inl err, evs)
                   | Inr (kind, name, action) \<Rightarrow>
                       (case control_command fnmatch run cfg kind name action of (ans, new) \<Rightarrow>
                          (Inr ans, fold (push_event (events_max cfg)) new evs))))"

section \<open>Changes of state\<close>

text \<open>\<open>force_refresh\<close>: an event for each service whose state differs from the one seen before.\<close>

definition state_event :: "string \<Rightarrow> string \<Rightarrow> string \<Rightarrow> service_event" where
  "state_event key old new = \<lparr>e_kind = takeWhile (\<lambda>c. c \<noteq> CHR '':'') key, e_name = drop 1 (dropWhile (\<lambda>c. c \<noteq> CHR '':'') key),
     e_from = old, e_to = new\<rparr>"

definition refresh_events :: "int \<Rightarrow> (string \<times> string) list \<Rightarrow> (string \<times> string) list \<Rightarrow> service_event list \<Rightarrow> service_event list" where
  "refresh_events maxlen prev sig evs =
     fold (\<lambda>(key, new). case map_of prev key of None \<Rightarrow> id
             | Some old \<Rightarrow> if old \<noteq> new then push_event maxlen (state_event key old new) else id) sig evs"

section \<open>The cache of logs\<close>

record ('k, 'v) ttl_cache =
  c_ttl :: int
  c_max :: int
  c_bytes :: int
  c_data :: "('k \<times> int \<times> 'v) list"

definition cache_get :: "int \<Rightarrow> 'k \<Rightarrow> ('k, 'v) ttl_cache \<Rightarrow> 'v option \<times> ('k, 'v) ttl_cache" where
  "cache_get now key c =
     (if c_ttl c \<le> 0 \<or> c_max c \<le> 0 then (None, c)
      else case map_of (c_data c) key of None \<Rightarrow> (None, c)
        | Some (ts, v) \<Rightarrow>
            if c_ttl c < now - ts then (None, c\<lparr>c_data := AList.delete key (c_data c)\<rparr>)
            else (Some v, c\<lparr>c_data := AList.delete key (c_data c) @ [(key, ts, v)]\<rparr>))"

text \<open>\<open>enc\<close> is the length of the encoded value, \<open>None\<close> when it cannot be encoded.\<close>

definition cache_put :: "('v \<Rightarrow> int option) \<Rightarrow> int \<Rightarrow> 'k \<Rightarrow> 'v \<Rightarrow> ('k, 'v) ttl_cache \<Rightarrow> ('k, 'v) ttl_cache" where
  "cache_put enc now key v c =
     (if c_ttl c \<le> 0 \<or> c_max c \<le> 0 then c
      else case enc v of None \<Rightarrow> c
        | Some n \<Rightarrow>
            if 0 < c_bytes c \<and> c_bytes c < n then c
            else let d = AList.delete key (c_data c) @ [(key, now, v)]
              in c\<lparr>c_data := drop (length d - nat (c_max c)) d\<rparr>)"

end
