(* ===== verification/Health_Control_Properties.thy ===== *)
theory Health_Control_Properties
  imports Health_Control
begin

text \<open>
  Properties of healthd's control request and of its cache of logs.
\<close>

section \<open>Control\<close>




lemma lower_kinds [simp]:
  "py_lower (py_strip ''systemd'') = ''systemd''" "py_lower (py_strip ''docker'') = ''docker''"
  by code_simp+


lemma not_authelia [simp]:
  "py_startswith ''haproxy-healthd'' ''authelia'' = False" "py_startswith ''easy-ha-proxy-backup'' ''authelia'' = False"
  by code_simp+







section \<open>The cache\<close>

datatype ('k, 'v) cache_op = Get 'k | Put 'k 'v

fun cache_step :: "('v \<Rightarrow> int option) \<Rightarrow> int \<times> ('k, 'v) cache_op \<Rightarrow> ('k, 'v) ttl_cache \<Rightarrow> ('k, 'v) ttl_cache" where
  "cache_step enc (now, Get k) c = snd (cache_get now k c)"
| "cache_step enc (now, Put k v) c = cache_put enc now k v c"

text \<open>An ideal store that forgets nothing: the last value put under each key that was small enough.\<close>

definition storable :: "('v \<Rightarrow> int option) \<Rightarrow> int \<Rightarrow> 'v \<Rightarrow> bool" where
  "storable enc bytes v = (case enc v of None \<Rightarrow> False | Some n \<Rightarrow> \<not> (0 < bytes \<and> bytes < n))"

fun ideal_step :: "('v \<Rightarrow> int option) \<Rightarrow> int \<Rightarrow> int \<times> ('k, 'v) cache_op \<Rightarrow> ('k \<rightharpoonup> int \<times> 'v) \<Rightarrow> ('k \<rightharpoonup> int \<times> 'v)" where
  "ideal_step enc bytes (now, Get k) m = m"
| "ideal_step enc bytes (now, Put k v) m = (if storable enc bytes v then m(k \<mapsto> (now, v)) else m)"

definition part_of :: "('k, 'v) ttl_cache \<Rightarrow> ('k \<rightharpoonup> int \<times> 'v) \<Rightarrow> bool" where
  "part_of c m = (distinct (map fst (c_data c)) \<and> list_all (\<lambda>(k, x). m k = Some x) (c_data c) \<and>
     length (c_data c) \<le> nat (c_max c) \<and> 0 < c_ttl c \<and> 0 < c_max c)"

lemma delete_facts: "set (AList.delete k m) \<subseteq> set m" "k \<notin> fst ` set (AList.delete k m)"
  "distinct (map fst m) \<Longrightarrow> distinct (map fst (AList.delete k m))" "length (AList.delete k m) \<le> length m"
  by (induction m) auto

lemma drop_keeps:
  "distinct (map f xs) \<Longrightarrow> distinct (map f (drop n xs))" "list_all P xs \<Longrightarrow> list_all P (drop n xs)"
  by (simp add: drop_map [symmetric]) (auto simp: list_all_iff dest: in_set_dropD)

lemma shorter_without_key: "map_of m k = Some x \<Longrightarrow> length (AList.delete k m) < length m"
proof (induction m)
  case (Cons y m)
  then show ?case using delete_facts(4) [where k = k and m = m] by (cases y) (auto split: if_splits)
qed simp

lemma part_of_get: "part_of c m \<Longrightarrow> part_of (snd (cache_get now k c)) m"
proof -
  assume p: "part_of c m"
  show "part_of (snd (cache_get now k c)) m"
  proof (cases "map_of (c_data c) k")
    case None
    then show ?thesis using p by (simp add: cache_get_def)
  next
    case (Some x)
    obtain ts v where x: "x = (ts, v)" by (cases x)
    have "m k = Some (ts, v)" using p Some x by (auto simp: part_of_def list_all_iff dest!: map_of_SomeD)
    then show ?thesis
      using p Some x delete_facts [where k = k and m = "c_data c"] shorter_without_key [OF Some]
      by (auto simp: cache_get_def part_of_def list_all_iff)
  qed
qed

lemma part_of_put:
  assumes "part_of c m"
  shows "part_of (cache_put enc now k v c) (if storable enc (c_bytes c) v then m(k \<mapsto> (now, v)) else m)"
proof (cases "storable enc (c_bytes c) v")
  case False
  then show ?thesis using assms by (auto simp: cache_put_def part_of_def storable_def Let_def split: option.splits)
next
  case True
  let ?d = "AList.delete k (c_data c) @ [(k, now, v)]" and ?m = "m(k \<mapsto> (now, v))"
  let ?e = "drop (length ?d - nat (c_max c)) ?d"
  have "?m a = Some x" if "(a, x) \<in> set (AList.delete k (c_data c))" for a x
  proof -
    have "(a, x) \<in> set (c_data c)" "a \<noteq> k" using that delete_facts [where k = k and m = "c_data c"] by force+
    then show ?thesis using assms by (auto simp: part_of_def list_all_iff)
  qed
  then have "distinct (map fst ?d)" "list_all (\<lambda>(k, x). ?m k = Some x) ?d"
    using assms delete_facts [where k = k and m = "c_data c"] by (auto simp: part_of_def list_all_iff)
  then have "distinct (map fst ?e)" "list_all (\<lambda>(k, x). ?m k = Some x) ?e"
    by (blast intro: drop_keeps)+
  then show ?thesis using True assms by (auto simp: cache_put_def part_of_def storable_def Let_def split: option.splits)
qed

lemma step_keeps_limits: "c_ttl (cache_step enc x c) = c_ttl c \<and> c_max (cache_step enc x c) = c_max c \<and> c_bytes (cache_step enc x c) = c_bytes c"
  by (cases x; cases "snd x") (auto simp: cache_get_def cache_put_def Let_def split: option.splits)

text \<open>A store that follows an ideal one step by step follows it over any sequence of requests.\<close>

locale follows =
  fixes rel :: "'c \<Rightarrow> 'm \<Rightarrow> bool" and step :: "'o \<Rightarrow> 'c \<Rightarrow> 'c" and ideal :: "'o \<Rightarrow> 'm \<Rightarrow> 'm"
  assumes follow: "rel c m \<Longrightarrow> rel (step x c) (ideal x m)"
begin

lemma follow_run: "rel c m \<Longrightarrow> rel (fold step xs c) (fold ideal xs m)"
  by (induction xs arbitrary: c m) (auto intro: follow)

end

definition limits :: "('k, 'v) ttl_cache \<Rightarrow> int \<times> int \<times> int" where
  "limits c = (c_ttl c, c_max c, c_bytes c)"

interpretation log_cache: follows "\<lambda>c m. part_of c m \<and> limits c = (ttl, n, bytes)" "cache_step enc" "ideal_step enc bytes"
  for ttl n bytes enc
proof (unfold_locales, goal_cases)
  case (1 c m x)
  obtain now op where x: "x = (now, op)" by (cases x)
  show ?case
    using part_of_get [of c m] part_of_put [of c m enc now] step_keeps_limits [of enc x c] 1 x
    by (cases op) (auto simp: limits_def)
qed

text \<open>C24. The cache of logs refines a store that forgets nothing: after any sequence of reads and writes a read
  answers nothing, or the value last stored under that key, not older than the time to live; and the cache
  never holds more than its limit.\<close>

theorem cache_refines_a_store:
  assumes "c_data c = []" "0 < c_ttl c" "0 < c_max c" "c' = fold (cache_step enc) ops c"
    "fst (cache_get now k c') = Some v"
  shows "(\<exists>at. fold (ideal_step enc (c_bytes c)) ops Map.empty k = Some (at, v) \<and> now - at \<le> c_ttl c) \<and>
     int (length (c_data c')) \<le> c_max c"
proof -
  have "part_of c Map.empty \<and> limits c = (c_ttl c, c_max c, c_bytes c)" using assms(1-3) by (simp add: part_of_def limits_def)
  from log_cache.follow_run [OF this, of enc ops]
  have p: "part_of c' (fold (ideal_step enc (c_bytes c)) ops Map.empty)" "c_ttl c' = c_ttl c" "c_max c' = c_max c"
    unfolding assms(4) limits_def by simp_all
  obtain at where g: "map_of (c_data c') k = Some (at, v)" "now - at \<le> c_ttl c'"
    using assms(5) by (auto simp: cache_get_def split: option.splits if_splits)
  have "fold (ideal_step enc (c_bytes c)) ops Map.empty k = Some (at, v)"
    using p(1) map_of_SomeD [OF g(1)] by (auto simp: part_of_def list_all_iff)
  then show ?thesis using p g(2) by (auto simp: part_of_def)
qed

theorem cache_refines_a_store_witness:
  "\<exists>at. fold (ideal_step (\<lambda>_. Some 1) 0) [(0, Put (1 :: nat) ''a''), (1, Put 1 ''b'')] Map.empty 1 = Some (at, ''b'') \<and> 2 - at \<le> 3"
proof -
  let ?c = "\<lparr>c_ttl = 3, c_max = 2, c_bytes = 0, c_data = []\<rparr> :: (nat, string) ttl_cache"
  let ?ops = "[(0, Put (1 :: nat) ''a''), (1, Put 1 ''b'')]"
  have "fst (cache_get 2 1 (fold (cache_step (\<lambda>_. Some 1)) ?ops ?c)) = Some ''b''" by code_simp
  from cache_refines_a_store [OF _ _ _ refl this] show ?thesis by simp
qed

end
