(* ===== verification/Spec2Isabelle.thy ===== *)
theory Spec2Isabelle
  imports Alert_Properties Validation_Properties Udp_Properties Users_Properties Users_Store_Properties Guard_Properties
    Guard_Detection_Properties Update_Properties Backup_Properties Health_Properties Health_Control_Properties
begin

text \<open>
  A verification development for easy-ha-proxy: the decisions of a gateway built from HAProxy, Authelia
  and a set of Python daemons beside them, and of the web panel that configures it.

  \<^bold>\<open>The program.\<close>  The panel (\<open>src/docker/app/haproxy_admin\<close>) edits YAML files and asks privileged
  daemons to act on them over UNIX sockets.  The daemons live below \<open>src/ansible/roles\<close>:
  \<open>easy-ha-proxy-guardd.py\<close> scores addresses and bans them in HAProxy's stick table;
  \<open>easy-ha-proxy-alertd.py\<close> turns observations of all the others into messages;
  \<open>haproxy-udp-forward.py\<close> turns \<open>udp.yml\<close> into iptables rules; \<open>authelia-usersd.py\<close> owns Authelia's
  users file; further ones look after certificates, backups, metrics, updates and health.  guardd
  reports to alertd; the panel writes \<open>udp.yml\<close> and has the control daemon run the generator; every
  file the panel saves passes \<open>validation.py\<close> first.

  \<^bold>\<open>Foundations.\<close>
  \<^item> \<open>Py_Prelude\<close>: text (code points up to U+00FF), exceptions as sums with \<open>ebind\<close>, \<open>strip\<close>, \<open>lower\<close>,
    \<open>split\<close>, decimal numbers, calendar time, and the collection \<open>py_simps\<close>.
  \<^item> \<open>Py_Json\<close>: parsed documents with Python's truth value and conversions.
  \<^item> \<open>Py_Regex\<close>: the patterns of the sources as data, matched by derivatives, with the proof that matching
    decides the language of the pattern.
  \<^item> \<open>Py_Ipaddress\<close>: the standard module \<open>ipaddress\<close> as far as it is used; printing and parsing agree.

  \<^bold>\<open>Alert daemon\<close> (\<open>easy-ha-proxy-alertd.py\<close>).
  \<^item> \<open>Alert_Config\<close>: the catalogue \<open>RULES\<close> and the settings (\<open>load_config\<close>, \<open>as_dict\<close>, \<open>update_config\<close>).
  \<^item> \<open>Alert_Store\<close>: \<open>AlertDatabase\<close>, one definition per statement, and the interface \<open>alert_table\<close>
    (what a read gives after a write), interpreted on these definitions.
  \<^item> \<open>Alert_Engine\<close>: \<open>AlertEngine\<close> (\<open>observe\<close>, \<open>_apply\<close>, \<open>_notify\<close>, \<open>sweep\<close>, \<open>acknowledge\<close>, \<open>dismiss\<close>).
    Channels are functions that may answer or raise.
  \<^item> \<open>Alert_Facts\<close>, \<open>Alert_Runs\<close>, \<open>Alert_Properties\<close>: each operation on every branch; a step relation over
    all operations with a clock that never goes back and an invariant by rule induction; from it the storm
    bound, the alternation of transitions, the timing of firing, what silence does, and where mute, delay
    and first-seen time differ from what the comments promise.

  \<^bold>\<open>Adaptive protection\<close> (\<open>easy-ha-proxy-guardd.py\<close>).
  \<^item> \<open>Guard_Score\<close>: weights, ladder of durations, \<open>score_events\<close>, exclusions.  \<open>Guard_Store\<close>: the methods of
    \<open>SecurityDatabase\<close> that enforcement uses.  \<open>Guard_Queue\<close>: \<open>EnforcementQueue\<close> and the interface
    \<open>finding_queue\<close>, interpreted on it.
  \<^item> \<open>Guard_Engine\<close>: \<open>Enforcer\<close> and the decisions of \<open>GuardEngine\<close>.  \<open>Guard_Enforce\<close>: the cycle
    \<open>apply_enforcement\<close> and \<open>set_mode\<close>.  \<open>Guard_Manual\<close>: bans placed and cleared by hand, and their
    protection across a restart of HAProxy.
  \<^item> \<open>Guard_Facts\<close>: Hoare triples (\<open>valid\<close>) over the engine's state and exceptions, and the laws of HAProxy's
    table the daemon relies on.  \<open>Guard_Schedule\<close>, \<open>Guard_Pause\<close>, \<open>Guard_Offenders\<close>, \<open>Guard_Sweep\<close>,
    \<open>Guard_Score_Facts\<close>: what a cycle keeps, the kill switch, who is banned, the reach of the sweep, and the
    range of scores and durations.  \<open>Guard_Properties\<close>: the results, with a sample gateway.
  \<^item> Detection, from a parsed log line to a finding.  \<open>Guard_Signatures\<close>: the signature tables, their file, the
    operator's rules, \<open>classify_path\<close>.  \<open>Guard_Activity\<close>: \<open>ParsedRequest\<close>, \<open>IpActivity\<close>, \<open>IpMemory\<close> and the
    other bounded stores.  \<open>Guard_Context\<close>: \<open>DetectionContext\<close> and its settings.  \<open>Guard_Trusted\<close>: trap
    names and \<open>TrustedRates\<close>.  \<open>Guard_Observe\<close>: \<open>observe_request\<close> with every derived finding; its state holds
    the engine's, so that a finding queues its address for the cycle.
  \<^item> \<open>Guard_Bounds\<close>: the limit of each store.  \<open>Guard_Watch\<close>: the contract \<open>watch_contract\<close> of one request (which
    findings it may record, what it keeps of an address's activity), interpreted for any request and for one
    the gateway refused.  \<open>Guard_Rates\<close>: the rate counter against its definition by counting, and the
    accounting of episodes.  \<open>Guard_Rules\<close>: tables in force, classification, accepted settings.
    \<open>Guard_Detection\<close> takes requests and runs of requests together; \<open>Guard_Detection_Properties\<close>: the results.

  \<^bold>\<open>Updates\<close> (\<open>installer/update_scope.py\<close>, \<open>command_update\<close> of \<open>installer/easy_ha_proxy.py\<close>).
  \<^item> \<open>Update_Scope\<close>: the manifest of a source tree, the map from paths to stages, scope, record and plan.
    \<open>Update_Command\<close>: the command that refreshes the source, chooses the stages, runs the playbook and records.
  \<^item> \<open>Update_Facts\<close>: the scope in closed form, the outcomes of a run, and the relation \<open>update_history\<close> over any
    sequence of complete, narrower and failed updates.  \<open>Update_Properties\<close>: a changes-only update misses nothing
    unless the source went back to a recorded version, which is the case where it does.

  \<^bold>\<open>Backups\<close> (\<open>easy-ha-proxy-backupd.py\<close>).
  \<^item> \<open>Backup_Retention\<close>: the calendar, the keep policy of a destination (\<open>retention_victims\<close>) and its meaning.
    \<open>Backup_Store\<close>: the archives on the gateway and copying one elsewhere (\<open>upload_backup\<close>), with everything sent
    to the far end as a trace.  \<open>Backup_Schedule\<close>: the schedule and a whole run (\<open>run_scheduled_backup\<close>).
  \<^item> \<open>Backup_Facts\<close>, \<open>Backup_Properties\<close>: the policy against its definition by days, calendar weeks and months; the
    contract \<open>keep_rule\<close> of one line of it, interpreted for all three; that nothing is removed, elsewhere or here,
    before the new copy is proved; what a saved schedule promises, and the requests and failures that break it.

  \<^bold>\<open>Health and reporting\<close> (\<open>haproxy-healthd.py\<close>, \<open>easy_ha_proxy_alert_client.py\<close>).
  \<^item> \<open>Health_Sites\<close>: \<open>SiteAlertEngine\<close>, from HAProxy's rows over the decision and the durable incident records to one
    cycle of the thread.  \<open>Alert_Client\<close>: \<open>AlertClient\<close>, through which every producer reports to the alert daemon,
    and the observation healthd hands to it.  \<open>Health_Control\<close>: the settings, the control request, the events and
    the cache of logs.
  \<^item> \<open>Health_Facts\<close>, \<open>Health_Properties\<close>: a specification of the notices over a site's whole history, which the four
    fields of a record implement; that a cycle keeps sites apart, that a restart loses no open incident, and how
    recent an observation at the socket is.  \<open>Health_Control_Properties\<close>: what the control request may run, and the
    cache against a store that forgets nothing, by the interface \<open>follows\<close>, interpreted on the cache.

  \<^bold>\<open>UDP forwarding.\<close>
  \<^item> \<open>Udp_Forward\<close>: the generator \<open>haproxy-udp-forward.py\<close> (\<open>load_forwards\<close>, \<open>build_rule_commands\<close>, the restore
    transaction, the clean-up of the retired chain).  \<open>Udp_Panel\<close>: \<open>services_haproxy_udp.py\<close> and the
    write, apply and roll-back of \<open>services_haproxy_config.py\<close>.
  \<^item> \<open>Udp_Facts\<close> gives the rules their meaning as a function on packets; \<open>Udp_Panel_Facts\<close> relates the two
    programs.  \<open>Udp_Properties\<close>: packets go where the configuration says, the saved file stays
    consistent and in step with the kernel, and the generator accepts what the panel saves.

  \<^bold>\<open>Users daemon\<close> (\<open>authelia-usersd.py\<close>).
  \<^item> \<open>Users_Daemon\<close>: the five requests over the parsed file.  \<open>Users_Store\<close>: \<open>_save_users_data\<close> and the backups
    over a directory where any system call may fail.
  \<^item> \<open>Users_Properties\<close>, \<open>Users_Store_Properties\<close>: the last superadmin is kept, refusals change
    nothing, changes are read back, a save is atomic and the backups are bounded.

  \<^bold>\<open>Configuration validation\<close> (\<open>validation.py\<close>).
  \<^item> \<open>Validation\<close>, \<open>Validation_Config\<close>: patterns, scalar checks, the walk over a document, sites, TCP
    proxies, tuning, identity conflicts, \<open>validate_config_data\<close>.
  \<^item> \<open>Validation_Facts\<close>, \<open>Validation_Properties\<close>: exactly which documents the walk accepts, that accepted
    values are canonical and harmless on a configuration line, and that the identity checks keep names,
    hosts and listeners apart.

  \<^bold>\<open>State and effects.\<close>  A daemon's state is a record handed from call to call; its tables are lists of
  rows in insertion order, a dictionary or a table with a primary key is an association list.  An exception
  is a value; in guardd it comes with the state at the point where it was raised.  Methods that run under
  a lock are single steps.  Floating-point numbers of the scorer are exact rationals, and
  time stamps are integers, so rounding errors of the machine's floats are not covered.

  \<^bold>\<open>Parameters.\<close>  Code outside the repository is an argument: the HAProxy runtime (any answer, refusal or
  failure; \<open>haproxy_laws\<close> and \<open>responsive\<close> name what a result relies on), message channels, \<open>argon2\<close>,
  the YAML reader and writer, name resolution, the iptables commands, the control daemon and the
  system calls of a save; SHA-256, git and Ansible in the updates (\<open>playbook_laws\<close> names what a result relies
  on); Python's \<open>hash\<close>, CRC-32 and the monotonic clock in detection; what
  \<open>sftp\<close>, \<open>ssh\<close> and the storage service answer in the backups; HAProxy's statistics, the mail relay, the disk,
  \<open>fnmatch\<close> and the exit codes of \<open>systemctl\<close> and \<open>docker\<close> in healthd.

  \<^bold>\<open>Termination.\<close>  Loops are structural recursions over lists, so no definition needs fuel, with one exception:
  the clean-up of the retired iptables chain repeats while the kernel reports a jump, and is a
  \<open>partial_function\<close> into \<open>option\<close>; that it returns, under the documented behaviour of the two commands, is
  \<open>legacy_cleanup_terminates\<close>.

  \<^bold>\<open>Not modelled.\<close>  Sockets, HTTP handlers, SMTP, templates and translations: I/O around the decisions.
  Of guardd, the regular expressions over a log line and the patterns over the generated configuration (what
  they find is an argument), the polling of stick tables, login correlations, the live buffer, the request
  store and the reports; of the generator, the command line and the sysctl and state files; of the
  validation, the checks of control-plane domains; of the installer, everything but the update; of the backup
  daemon, the workers that make and restore an archive, host keys and request signing; of healthd, collecting
  the state of services and reading journals.  The daemons for certificates, control, metrics, updates and
  Authelia's own configuration, and the country database.

  \<^bold>\<open>Next.\<close>  The state machines of the certificate and update daemons and the plan of an update
  (\<open>update_plan.py\<close>); in guardd, the polling of HAProxy's own counters and bans.
\<close>

end
